(* ===== verification/LR_Prelude.thy ===== *)
theory LR_Prelude
  imports Complex_Main "HOL-Library.Word" "HOL-Library.Char_ord" "HOL-Library.List_Lexorder"
begin

text \<open>
  Shared vocabulary of the development.

  \<^item> The error values of the backend (\<open>err\<close>) and results of fallible code (\<open>'a result\<close>): a Go
    function that returns \<open>(T, error)\<close> is a function into \<open>err + 'a\<close>.
  \<^item> The integer types. A Go \<open>int64\<close> (and a PostgreSQL \<open>bigint\<close>) is an \<open>int\<close>, a Go \<open>uint64\<close> is a
    \<open>nat\<close>; the conversions \<open>int64(x)\<close> and \<open>uint64(x)\<close> of the source are written out with their
    two's-complement wrap. Wire values are kept at their width as \<open>64 word\<close>.
  \<^item> Instants are microseconds (the resolution of \<open>timestamptz\<close>), durations are nanoseconds (the
    resolution of \<open>time.Duration\<close>).
  \<^item> The operators of SQL on a table, which is a list of rows, and the transaction bracket.
\<close>

named_theorems sql_simps \<open>rewrite rules for the SQL operators on tables\<close>
named_theorems width_simps \<open>integer conversions on values that fit both types\<close>

type_synonym byte = "8 word"
type_synonym bytes = "byte list"
type_synonym u64 = nat
type_synonym i64 = int
type_synonym time = int
type_synonym duration = int
type_synonym uuid = string

section \<open>Errors\<close>

datatype err =
    ErrText string
  | ErrSQL string
  | ErrTripNotFound
  | ErrLeaseHeld
  | ErrLeaseLost
  | ErrEpochExhausted
  | ErrIdempotencyKeyReused
  | ErrTripRevisionStale
  | ErrDurableCommandBlocked
  | ErrMutationSequenceExhausted
  | ErrCommandNotFound
  | ErrCommandFinalizationConflict
  | ErrCommandFinalizationOutOfOrder
  | ErrProposalFinalizationRequired
  | ErrMutationTargetNotFound
  | ErrFinalizationConfirmationAhead
  | ErrFinalizationConfirmationBlocked
  | ErrClaimLost
  | ErrProposalStale
  | ErrProposalIdentityConflict
  | ErrProposalPayloadInvalid
  | ErrPendingProposalNotFound
  | ErrCanonicalMirrorIdentity
  | ErrCanonicalMirrorPaused
  | ErrCanonicalMirrorConflict
  | ErrCanonicalTripConflict
  | ErrCanonicalOwnerMissing
  | ErrCanonicalMirrorCapacity
  | ErrCanonicalStateCorrupt
  | ErrBootstrapConvergenceConflict
  | ErrBootstrapConvergenceBlocked
  | ErrSnapshotInvalid
  | ErrSnapshotStale
  | ErrSnapshotConflict
  | ErrSnapshotNotFound
  | ErrSnapshotNotReady
  | ErrSavedTripInput
  | ErrHTTPIdempotencyReused
  | ErrHTTPMutationPending
  | ErrSavedTripNotInactive
  | ErrSavedActivityNotFound
  | ErrExecutionTripConflict
  | ErrActivationUnscheduled
  | ErrActivationOutsideDay
  | ErrSavedTripNotExecuting
  | ErrPlaceInput
  | ErrAuthenticationInput
  | ErrAuthenticationFailed
  | ErrSessionNotFound
  | ErrNonceNotFound

type_synonym 'a result = "err + 'a"

definition bindr :: "'a result \<Rightarrow> ('a \<Rightarrow> 'b result) \<Rightarrow> 'b result" where
  "bindr m f = (case m of Inl e \<Rightarrow> Inl e | Inr x \<Rightarrow> f x)"

text \<open>A \<open>for range\<close> loop whose body updates some state and may return early with an error.\<close>

primrec for_each :: "('f \<Rightarrow> 's \<Rightarrow> 's result) \<Rightarrow> 'f list \<Rightarrow> 's \<Rightarrow> 's result" where
  "for_each step [] s = Inr s"
| "for_each step (x # xs) s = bindr (step x s) (for_each step xs)"

section \<open>Strings and bytes\<close>

text \<open>The conversions \<open>string(b)\<close> and \<open>[]byte(s)\<close>; a Go string is a sequence of bytes.\<close>

definition string_of_bytes :: "bytes \<Rightarrow> string" where
  "string_of_bytes bs = map (\<lambda>b. char_of (unat b)) bs"

definition bytes_of_string :: "string \<Rightarrow> bytes" where
  "bytes_of_string s = map (\<lambda>c. word_of_nat (of_char c)) s"

definition hex_digit :: "char \<Rightarrow> bool" where
  "hex_digit c \<longleftrightarrow> (CHR ''0'' \<le> c \<and> c \<le> CHR ''9'') \<or> (CHR ''a'' \<le> c \<and> c \<le> CHR ''f'')"

definition validCanonicalUUID :: "string \<Rightarrow> bool" where
  "validCanonicalUUID v \<longleftrightarrow> length v = 36 \<and>
     list_all (\<lambda>(i, c). if i \<in> {8, 13, 18, 23} then c = CHR ''-'' else hex_digit c)
       (enumerate 0 v)"

text \<open>Identifiers for the concrete inputs of the witnesses.\<close>

definition sample_uuid :: "char \<Rightarrow> uuid" where
  "sample_uuid c = replicate 8 c @ ''-'' @ replicate 4 c @ ''-'' @ replicate 4 c @ ''-'' @
     replicate 4 c @ ''-'' @ replicate 12 c"

section \<open>Integer conversions\<close>

definition MaxInt64 :: nat where "MaxInt64 = 9223372036854775807"
definition MaxInt32 :: nat where "MaxInt32 = 2147483647"

text \<open>\<open>int64(x)\<close> for a \<open>uint64\<close> and \<open>uint64(x)\<close> for an \<open>int64\<close>.\<close>

definition int64 :: "u64 \<Rightarrow> i64" where
  "int64 n = (let m = int n mod 18446744073709551616 in
     if m < 9223372036854775808 then m else m - 18446744073709551616)"

definition uint64 :: "i64 \<Rightarrow> u64" where
  "uint64 i = nat (i mod 18446744073709551616)"

text \<open>Addition on \<open>int64\<close> and \<open>uint64\<close>, which wraps.\<close>

definition add_i64 :: "i64 \<Rightarrow> i64 \<Rightarrow> i64" where
  "add_i64 a b = (let m = (a + b) mod 18446744073709551616 in
     if m < 9223372036854775808 then m else m - 18446744073709551616)"

definition add_u64 :: "u64 \<Rightarrow> u64 \<Rightarrow> u64" where
  "add_u64 a b = (a + b) mod 18446744073709551616"

text \<open>\<open>Duration.Milliseconds()\<close> and \<open>Duration.Microseconds()\<close> truncate towards zero.\<close>

definition quot_trunc :: "int \<Rightarrow> int \<Rightarrow> int" where
  "quot_trunc a k = (if a < 0 then - ((- a) div k) else a div k)"

definition Milliseconds :: "duration \<Rightarrow> int" where "Milliseconds d = quot_trunc d 1000000"
definition Microseconds :: "duration \<Rightarrow> int" where "Microseconds d = quot_trunc d 1000"

section \<open>SQL operators\<close>

definition sql_update :: "('r \<Rightarrow> bool) \<Rightarrow> ('r \<Rightarrow> 'r) \<Rightarrow> 'r list \<Rightarrow> 'r list" where
  "sql_update P f t = map (\<lambda>r. if P r then f r else r) t"

definition sql_delete :: "('r \<Rightarrow> bool) \<Rightarrow> 'r list \<Rightarrow> 'r list" where
  "sql_delete P t = filter (\<lambda>r. \<not> P r) t"

definition sql_select :: "('r \<Rightarrow> bool) \<Rightarrow> 'r list \<Rightarrow> 'r list" where
  "sql_select P t = filter P t"

definition sql_count :: "('r \<Rightarrow> bool) \<Rightarrow> 'r list \<Rightarrow> nat" where
  "sql_count P t = length (filter P t)"

definition sql_exists :: "('r \<Rightarrow> bool) \<Rightarrow> 'r list \<Rightarrow> bool" where
  "sql_exists P t = list_ex P t"

text \<open>\<open>QueryRow(...).Scan\<close>: the first row, or \<open>None\<close> for \<open>pgx.ErrNoRows\<close>.\<close>

definition query_row :: "('r \<Rightarrow> bool) \<Rightarrow> 'r list \<Rightarrow> 'r option" where
  "query_row P t = List.find P t"

text \<open>
  A transaction body either fails, and the deferred \<open>Rollback\<close> leaves the database as it was, or
  it commits the database it has built.
\<close>

definition run_tx :: "('d \<Rightarrow> err + ('a \<times> 'd)) \<Rightarrow> 'd \<Rightarrow> 'a result \<times> 'd" where
  "run_tx body d = (case body d of Inl e \<Rightarrow> (Inl e, d) | Inr (x, d') \<Rightarrow> (Inr x, d'))"

section \<open>Facts\<close>

lemma bindr_simps [simp]:
  "bindr (Inl e) f = Inl e"
  "bindr (Inr x) f = f x"
  by (simp_all add: bindr_def)

lemma bindr_eq_Inr: "bindr m f = Inr y \<longleftrightarrow> (\<exists>x. m = Inr x \<and> f x = Inr y)"
  by (cases m) auto

lemma for_each_append:
  "for_each step (xs @ ys) s = bindr (for_each step xs s) (for_each step ys)"
  by (induction xs arbitrary: s) (auto simp: bindr_def split: sum.splits)

text \<open>A property of the loop state that every iteration keeps holds at the end.\<close>

lemma for_each_invariant:
  assumes "for_each step xs s = Inr t" "P s"
    and "\<And>x s t. x \<in> set xs \<Longrightarrow> P s \<Longrightarrow> step x s = Inr t \<Longrightarrow> P t"
  shows "P t"
  using assms
proof (induction xs arbitrary: s)
  case (Cons x xs)
  then obtain u where "step x s = Inr u" "for_each step xs u = Inr t"
    by (auto simp: bindr_eq_Inr)
  then show ?case using Cons.IH [of u] Cons.prems by (meson list.set_intros)
qed simp

text \<open>A loop that appends the result of each iteration.\<close>

lemma for_each_collect:
  "for_each (\<lambda>x acc. bindr (f x) (\<lambda>y. Inr (acc @ [y]))) xs acc = Inr ys \<longleftrightarrow>
     (\<exists>zs. ys = acc @ zs \<and> list_all2 (\<lambda>x y. f x = Inr y) xs zs)"
proof (induction xs arbitrary: acc)
  case (Cons x xs)
  then show ?case by (cases "f x") (auto simp: list_all2_Cons1)
qed auto

lemma list_all2_in_set2: "list_all2 P xs ys \<Longrightarrow> y \<in> set ys \<Longrightarrow> \<exists>x\<in>set xs. P x y"
  by (induction rule: list_all2_induct) auto

lemma string_of_bytes_of_string [simp]: "string_of_bytes (bytes_of_string s) = s"
proof -
  have "char_of (unat (word_of_nat (of_char c) :: byte)) = c" for c
    by (simp add: unat_of_nat)
  then show ?thesis by (simp add: string_of_bytes_def bytes_of_string_def o_def)
qed

lemma length_string_of_bytes [simp]: "length (string_of_bytes bs) = length bs"
  by (simp add: string_of_bytes_def)

lemma length_bytes_of_string [simp]: "length (bytes_of_string s) = length s"
  by (simp add: bytes_of_string_def)

lemma validCanonicalUUID_length: "validCanonicalUUID v \<Longrightarrow> length v = 36"
  by (simp add: validCanonicalUUID_def)

lemma sample_uuid_eq [simp]: "sample_uuid c = sample_uuid d \<longleftrightarrow> c = d"
  by (auto simp: sample_uuid_def numeral_eq_Suc)

lemma sample_uuid_valid [simp]: "validCanonicalUUID (sample_uuid c) \<longleftrightarrow> hex_digit c"
  by (auto simp: sample_uuid_def validCanonicalUUID_def numeral_eq_Suc)

lemma sample_uuid_ne [simp]: "sample_uuid c \<noteq> []"
  by (simp add: sample_uuid_def)

lemma hex_digit_samples [simp]:
  "hex_digit CHR ''0''" "hex_digit CHR ''1''" "hex_digit CHR ''2''" "hex_digit CHR ''3''"
  "hex_digit CHR ''4''" "hex_digit CHR ''5''" "hex_digit CHR ''6''" "hex_digit CHR ''7''"
  "hex_digit CHR ''8''" "hex_digit CHR ''9''" "hex_digit CHR ''a''" "hex_digit CHR ''b''"
  by code_simp+

lemma int64_small [width_simps]: "n \<le> MaxInt64 \<Longrightarrow> int64 n = int n"
  by (simp add: int64_def MaxInt64_def Let_def)

lemma uint64_small [width_simps]:
  "0 \<le> i \<Longrightarrow> i \<le> int MaxInt64 \<Longrightarrow> uint64 i = nat i"
  by (simp add: uint64_def MaxInt64_def)

lemma uint64_int64: "n < 18446744073709551616 \<Longrightarrow> uint64 (int64 n) = n"
  by (simp add: int64_def uint64_def Let_def)

lemma int64_uint64:
  "- 9223372036854775808 \<le> i \<Longrightarrow> i < 9223372036854775808 \<Longrightarrow> int64 (uint64 i) = i"
proof -
  assume a: "- 9223372036854775808 \<le> i" "i < 9223372036854775808"
  show ?thesis
  proof (cases "i < 0")
    case True
    then have "i mod 18446744073709551616 = i + 18446744073709551616"
      using a by (intro int_mod_pos_eq [where q = "- 1"]) auto
    then show ?thesis using a True by (simp add: int64_def uint64_def Let_def)
  next
    case False
    then show ?thesis using a by (simp add: int64_def uint64_def Let_def)
  qed
qed

lemma add_i64_small [width_simps]:
  "0 \<le> a + b \<Longrightarrow> a + b \<le> int MaxInt64 \<Longrightarrow> add_i64 a b = a + b"
  by (simp add: add_i64_def MaxInt64_def Let_def)

lemma add_u64_small [width_simps]:
  "a + b \<le> MaxInt64 \<Longrightarrow> add_u64 a b = a + b"
  by (simp add: add_u64_def MaxInt64_def)

lemma run_tx_error_keeps: "fst (run_tx body d) = Inl e \<Longrightarrow> snd (run_tx body d) = d"
  by (auto simp: run_tx_def split: sum.splits)

lemma run_tx_Inr:
  "run_tx body d = (Inr x, d') \<longleftrightarrow> body d = Inr (x, d')"
  by (auto simp: run_tx_def split: sum.splits)

lemma run_tx_cases:
  "(body d = Inr (x, d') \<Longrightarrow> P d') \<Longrightarrow> run_tx body d = (Inr x, d') \<Longrightarrow> P d'"
  by (simp add: run_tx_Inr)

lemma length_sql_update [sql_simps]: "length (sql_update P f t) = length t"
  by (simp add: sql_update_def)

lemma set_sql_update [sql_simps]:
  "set (sql_update P f t) = (\<lambda>r. if P r then f r else r) ` set t"
  by (auto simp: sql_update_def)

lemma sql_updateE:
  assumes "r \<in> set (sql_update P f t)"
  obtains (updated) x where "x \<in> set t" "P x" "r = f x" | (kept) "r \<in> set t" "\<not> P r"
  using assms by (auto simp: sql_update_def split: if_splits)

lemma set_sql_delete [sql_simps]: "set (sql_delete P t) = {r \<in> set t. \<not> P r}"
  by (simp add: sql_delete_def)

lemma sql_exists_iff [sql_simps]: "sql_exists P t \<longleftrightarrow> (\<exists>r\<in>set t. P r)"
  by (simp add: sql_exists_def list_ex_iff)

lemma sql_update_none: "\<forall>r\<in>set t. \<not> P r \<Longrightarrow> sql_update P f t = t"
  by (induction t) (simp_all add: sql_update_def)

lemma filter_sql_update_other:
  assumes "\<And>r. P r \<Longrightarrow> \<not> Q r \<and> \<not> Q (f r)"
  shows "filter Q (sql_update P f t) = filter Q t"
proof (induction t)
  case (Cons r t)
  then show ?case using assms [of r] by (cases "P r") (simp_all add: sql_update_def)
qed (simp add: sql_update_def)

lemma sql_count_eq_0: "sql_count P t = 0 \<longleftrightarrow> (\<forall>r\<in>set t. \<not> P r)"
  by (simp add: sql_count_def filter_empty_conv)

lemma sql_update_key_map:
  "(\<And>r. key (f r) = key r) \<Longrightarrow> map key (sql_update P f t) = map key t"
  by (induction t) (auto simp: sql_update_def)

lemma distinct_sql_delete:
  "distinct (map key t) \<Longrightarrow> distinct (map key (sql_delete P t))"
  by (simp add: sql_delete_def distinct_map_filter)

lemma sql_count_update_le:
  assumes "\<And>r. P r \<Longrightarrow> Q (f r) \<Longrightarrow> Q r"
  shows "sql_count Q (sql_update P f t) \<le> sql_count Q t"
proof (induction t)
  case (Cons r t)
  then show ?case
    using assms [of r] by (cases "P r"; cases "Q r"; cases "Q (f r)")
      (simp_all add: sql_count_def sql_update_def)
qed (simp add: sql_count_def sql_update_def)

lemma query_row_SomeD: "query_row P t = Some r \<Longrightarrow> r \<in> set t \<and> P r"
  by (auto simp: query_row_def find_Some_iff)

lemma query_row_None [sql_simps]: "query_row P t = None \<longleftrightarrow> (\<forall>r\<in>set t. \<not> P r)"
  by (auto simp: query_row_def find_None_iff)

lemma distinct_key_unique:
  "distinct (map key t) \<Longrightarrow> r \<in> set t \<Longrightarrow> s \<in> set t \<Longrightarrow> key r = key s \<Longrightarrow> r = s"
  by (simp add: distinct_map inj_on_def)

lemma query_row_key:
  assumes "distinct (map key t)" "r \<in> set t" "P r" "\<And>s. P s \<Longrightarrow> key s = key r"
  shows "query_row P t = Some r"
proof -
  have "\<And>s. s \<in> set t \<Longrightarrow> P s \<Longrightarrow> s = r"
    using assms by (metis distinct_map inj_onD)
  moreover obtain s where "query_row P t = Some s"
    using assms(2,3) by (cases "query_row P t") (auto simp: sql_simps)
  ultimately show ?thesis
    by (auto dest: query_row_SomeD)
qed

lemma query_row_snoc [sql_simps]:
  "query_row P (t @ [r]) = (case query_row P t of None \<Rightarrow> if P r then Some r else None | Some s \<Rightarrow> Some s)"
  by (induction t) (auto simp: query_row_def)

text \<open>On a table with a key, a row is found again after an update that keeps the key.\<close>

lemma query_row_update:
  assumes "query_row P t = Some r" "\<And>s. Q s \<Longrightarrow> P (f s) = P s"
  shows "query_row P (sql_update Q f t) = Some (if Q r then f r else r)"
  using assms(1)
proof (induction t)
  case (Cons s t)
  then show ?case
    using assms(2) [of s] by (cases "Q s"; cases "P s")
      (simp_all add: query_row_def sql_update_def)
qed (simp add: query_row_def)

end
