(* ===== verification/LR_Wire.thy ===== *)
theory LR_Wire
  imports LR_Prelude
begin

text \<open>
  The protobuf wire reader and writer of \<open>persistence\<close>: \<open>accepted_plan_wire.go\<close>,
  \<open>snapshot_wire.go\<close> and the encoders of \<open>canonical_commands.go\<close>. A position \<open>(input, offset)\<close> of the
  source is the rest \<open>input[offset:]\<close> of the input here; a reader returns its value and the new rest.
  The round-trip facts say that the two independent readers of a stored plan
  (\<open>parseUserCurrentPlan\<close> and \<open>parseSnapshotCurrentPlan\<close>) recover exactly what
  \<open>userCurrentPlanPayload\<close> wrote.
\<close>

unbundle bit_operations_syntax

type_synonym u64w = "64 word"

section \<open>Wire fields\<close>

record wireField =
  number :: u64w
  wire :: u64w
  fvalue :: u64w
  fbytes :: bytes

fun consumeVarint_loop :: "nat \<Rightarrow> u64w \<Rightarrow> bytes \<Rightarrow> (u64w \<times> bytes) result" where
  "consumeVarint_loop shift v [] =
     (if shift < 64 then Inl (ErrText ''truncated protobuf varint'')
      else Inl (ErrText ''overflowing protobuf varint''))"
| "consumeVarint_loop shift v (current # rest) =
     (if shift < 64 then
        if shift = 63 \<and> current > 1 then Inl (ErrText ''overflowing protobuf varint'')
        else
          let v' = v OR push_bit shift (ucast (current AND 0x7f)) in
          if current < 0x80 then Inr (v', rest)
          else consumeVarint_loop (shift + 7) v' rest
      else Inl (ErrText ''overflowing protobuf varint''))"

definition consumeVarint :: "bytes \<Rightarrow> (u64w \<times> bytes) result" where
  "consumeVarint input = consumeVarint_loop 0 0 input"

text \<open>One iteration of the loop of \<open>consumeWireFields\<close>.\<close>

definition consumeWireField :: "bytes \<Rightarrow> (wireField \<times> bytes) result" where
  "consumeWireField input = bindr (consumeVarint input) (\<lambda>(key, rest).
     let num = drop_bit 3 key; w = key AND 7;
         field = \<lparr>number = num, wire = w, fvalue = 0, fbytes = []\<rparr> in
     if num = 0 then Inl (ErrText ''protobuf field zero is invalid'')
     else if w = 0 then
       bindr (consumeVarint rest) (\<lambda>(v, rest'). Inr (field\<lparr>fvalue := v\<rparr>, rest'))
     else if w = 1 then
       (if length rest < 8 then Inl (ErrText ''truncated fixed64 protobuf field'')
        else Inr (field, drop 8 rest))
     else if w = 2 then
       bindr (consumeVarint rest) (\<lambda>(len, rest').
         if unat len > length rest' then Inl (ErrText ''truncated protobuf bytes field'')
         else Inr (field\<lparr>fbytes := take (unat len) rest'\<rparr>, drop (unat len) rest'))
     else if w = 5 then
       (if length rest < 4 then Inl (ErrText ''truncated fixed32 protobuf field'')
        else Inr (field, drop 4 rest))
     else Inl (ErrText ''unsupported protobuf wire type''))"

lemma consumeVarint_loop_shrinks:
  "consumeVarint_loop shift v input = Inr (x, rest) \<Longrightarrow> length rest < length input"
proof (induction shift v input rule: consumeVarint_loop.induct)
  case (2 shift v current input)
  then show ?case by (fastforce simp: Let_def split: if_splits)
qed (auto split: if_splits)

lemma consumeVarint_shrinks:
  "consumeVarint input = Inr (x, rest) \<Longrightarrow> length rest < length input"
  unfolding consumeVarint_def by (rule consumeVarint_loop_shrinks)

lemma consumeWireField_shrinks:
  assumes "consumeWireField input = Inr (f, rest)"
  shows "length rest < length input"
proof -
  obtain key r where k: "consumeVarint input = Inr (key, r)" "length r < length input"
    using assms consumeVarint_shrinks by (auto simp: consumeWireField_def bindr_eq_Inr)
  have "length rest \<le> length r"
    using assms k consumeVarint_shrinks [of r]
    by (fastforce simp: consumeWireField_def Let_def bindr_eq_Inr split: if_splits)
  then show ?thesis using k by simp
qed

function consumeWireFields :: "bytes \<Rightarrow> wireField list result" where
  "consumeWireFields input =
     (if input = [] then Inr []
      else case consumeWireField input of
        Inl e \<Rightarrow> Inl e
      | Inr (f, rest) \<Rightarrow> bindr (consumeWireFields rest) (\<lambda>fs. Inr (f # fs)))"
  by pat_completeness auto
termination
  by (relation "measure length") (auto dest: consumeWireField_shrinks)

section \<open>Current plans\<close>

record currentPlanSegmentWire =
  seg_activityID :: string
  seg_state :: nat
  seg_start :: "i64 option"
  seg_end :: "i64 option"

record currentPlanWire =
  planID :: string
  planRevision :: u64
  origin :: u64
  segments :: "currentPlanSegmentWire list"
  createdAtUnixMS :: i64
  sourceProposalID :: string

definition emptySegment :: currentPlanSegmentWire where
  "emptySegment = \<lparr>seg_activityID = [], seg_state = 0, seg_start = None, seg_end = None\<rparr>"

definition emptyPlan :: currentPlanWire where
  "emptyPlan = \<lparr>planID = [], planRevision = 0, origin = 0, segments = [],
     createdAtUnixMS = 0, sourceProposalID = []\<rparr>"

definition currentPlanSegment_field ::
  "wireField \<Rightarrow> currentPlanSegmentWire \<Rightarrow> currentPlanSegmentWire result" where
  "currentPlanSegment_field f s =
     (if number f = 1 then
        (if wire f \<noteq> 2 then Inl (ErrText ''activity id has wrong wire type'')
         else Inr (s\<lparr>seg_activityID := string_of_bytes (fbytes f)\<rparr>))
      else if number f = 2 then
        (if wire f \<noteq> 0 then Inl (ErrText ''plan-entry state has wrong wire type'')
         else Inr (s\<lparr>seg_state := unat (fvalue f)\<rparr>))
      else if number f = 3 then
        (if wire f \<noteq> 0 then Inl (ErrText ''segment start has wrong wire type'')
         else Inr (s\<lparr>seg_start := Some (sint (fvalue f))\<rparr>))
      else if number f = 4 then
        (if wire f \<noteq> 0 then Inl (ErrText ''segment end has wrong wire type'')
         else Inr (s\<lparr>seg_end := Some (sint (fvalue f))\<rparr>))
      else Inr s)"

definition scheduled_times :: "currentPlanSegmentWire \<Rightarrow> bool" where
  "scheduled_times s = (case (seg_start s, seg_end s) of
     (Some a, Some b) \<Rightarrow> a < b | _ \<Rightarrow> False)"

definition currentPlanSegment_check ::
  "currentPlanSegmentWire \<Rightarrow> currentPlanSegmentWire result" where
  "currentPlanSegment_check s =
     (if \<not> validCanonicalUUID (seg_activityID s)
        then Inl (ErrText ''current-plan activity id is invalid'')
      else if seg_state s = 1 then
        (if \<not> scheduled_times s
         then Inl (ErrText ''scheduled current-plan segment is invalid'') else Inr s)
      else if seg_state s = 2 then
        (if seg_start s \<noteq> None \<or> seg_end s \<noteq> None
         then Inl (ErrText ''omitted current-plan segment has times'') else Inr s)
      else Inl (ErrText ''current-plan segment state is invalid''))"

definition parseCurrentPlanSegment :: "bytes \<Rightarrow> currentPlanSegmentWire result" where
  "parseCurrentPlanSegment input = bindr (consumeWireFields input) (\<lambda>fields.
     bindr (for_each currentPlanSegment_field fields emptySegment) currentPlanSegment_check)"

definition currentPlan_field :: "wireField \<Rightarrow> currentPlanWire \<Rightarrow> currentPlanWire result" where
  "currentPlan_field f p =
     (if number f = 1 then
        (if wire f \<noteq> 2 then Inl (ErrText ''plan id has wrong wire type'')
         else Inr (p\<lparr>planID := string_of_bytes (fbytes f)\<rparr>))
      else if number f = 2 then
        (if wire f \<noteq> 0 then Inl (ErrText ''plan revision has wrong wire type'')
         else Inr (p\<lparr>planRevision := unat (fvalue f)\<rparr>))
      else if number f = 3 then
        (if wire f \<noteq> 0 then Inl (ErrText ''plan origin has wrong wire type'')
         else Inr (p\<lparr>origin := unat (fvalue f)\<rparr>))
      else if number f = 4 then
        (if wire f \<noteq> 2 then Inl (ErrText ''plan segment has wrong wire type'')
         else bindr (parseCurrentPlanSegment (fbytes f))
                (\<lambda>s. Inr (p\<lparr>segments := segments p @ [s]\<rparr>)))
      else if number f = 5 then
        (if wire f \<noteq> 0 then Inl (ErrText ''plan creation time has wrong wire type'')
         else Inr (p\<lparr>createdAtUnixMS := sint (fvalue f)\<rparr>))
      else if number f = 6 then
        (if wire f \<noteq> 2 then Inl (ErrText ''source proposal id has wrong wire type'')
         else Inr (p\<lparr>sourceProposalID := string_of_bytes (fbytes f)\<rparr>))
      else Inr p)"

text \<open>
  The loop over the segments: the activities seen so far and the end of the last scheduled one.
\<close>

definition segment_order_step ::
  "currentPlanSegmentWire \<Rightarrow> string list \<times> i64 option \<Rightarrow> (string list \<times> i64 option) result" where
  "segment_order_step s st = (case st of (seen, prior) \<Rightarrow>
     if seg_activityID s \<in> set seen then Inl (ErrText ''current plan repeats an activity'')
     else if seg_state s \<noteq> 1 then Inr (seg_activityID s # seen, prior)
     else case (seg_start s, seg_end s) of
       (Some a, Some b) \<Rightarrow>
         (case prior of
            Some e \<Rightarrow> if a < e then Inl (ErrText ''current-plan segments overlap'')
                      else Inr (seg_activityID s # seen, Some b)
          | None \<Rightarrow> Inr (seg_activityID s # seen, Some b))
     | _ \<Rightarrow> Inl (ErrText ''nil pointer''))"

definition parseCurrentPlanWithOrigin ::
  "bytes \<Rightarrow> u64 \<Rightarrow> bool \<Rightarrow> currentPlanWire result" where
  "parseCurrentPlanWithOrigin input expectedOrigin requireSourceProposal =
     bindr (consumeWireFields input) (\<lambda>fields.
     bindr (for_each currentPlan_field fields emptyPlan) (\<lambda>p.
       if \<not> validCanonicalUUID (planID p) \<or> planRevision p = 0 \<or> origin p \<noteq> expectedOrigin \<or>
          (requireSourceProposal \<and> \<not> validCanonicalUUID (sourceProposalID p)) \<or>
          (\<not> requireSourceProposal \<and> sourceProposalID p \<noteq> [])
       then Inl (ErrText ''accepted current-plan metadata is invalid'')
       else bindr (for_each segment_order_step (segments p) ([], None)) (\<lambda>_. Inr p)))"

definition parseCurrentPlan :: "bytes \<Rightarrow> currentPlanWire result" where
  "parseCurrentPlan input = parseCurrentPlanWithOrigin input 2 True"

definition parseUserCurrentPlan :: "bytes \<Rightarrow> currentPlanWire result" where
  "parseUserCurrentPlan input = parseCurrentPlanWithOrigin input 1 False"

section \<open>Stored proposals\<close>

definition proposalSegment_field ::
  "wireField \<Rightarrow> currentPlanSegmentWire \<times> nat \<Rightarrow> (currentPlanSegmentWire \<times> nat) result" where
  "proposalSegment_field f st = (case st of (s, disposition) \<Rightarrow>
     if number f = 1 then
       (if wire f \<noteq> 2 then Inl (ErrText ''proposal activity id has wrong wire type'')
        else Inr (s\<lparr>seg_activityID := string_of_bytes (fbytes f)\<rparr>, disposition))
     else if number f = 4 then
       (if wire f \<noteq> 0 then Inl (ErrText ''proposal start has wrong wire type'')
        else Inr (s\<lparr>seg_start := Some (sint (fvalue f))\<rparr>, disposition))
     else if number f = 5 then
       (if wire f \<noteq> 0 then Inl (ErrText ''proposal end has wrong wire type'')
        else Inr (s\<lparr>seg_end := Some (sint (fvalue f))\<rparr>, disposition))
     else if number f = 7 then
       (if wire f \<noteq> 0 then Inl (ErrText ''proposal disposition has wrong wire type'')
        else Inr (s, unat (fvalue f)))
     else Inr (s, disposition))"

definition parseProposalSegment :: "bytes \<Rightarrow> currentPlanSegmentWire result" where
  "parseProposalSegment input = bindr (consumeWireFields input) (\<lambda>fields.
     bindr (for_each proposalSegment_field fields (emptySegment, 0)) (\<lambda>(s, disposition).
       if \<not> validCanonicalUUID (seg_activityID s)
         then Inl (ErrText ''proposal activity id is invalid'')
       else if disposition = 4 then
         (if seg_start s \<noteq> None \<or> seg_end s \<noteq> None
          then Inl (ErrText ''skipped proposal segment has times'')
          else Inr (s\<lparr>seg_state := 2\<rparr>))
       else if disposition = 1 \<or> disposition = 2 \<or> disposition = 5 then
         (if \<not> scheduled_times s then Inl (ErrText ''scheduled proposal segment is invalid'')
          else Inr (s\<lparr>seg_state := 1\<rparr>))
       else Inl (ErrText ''proposal segment disposition is invalid'')))"

text \<open>The last field 1 of wire type 2 is the proposal payload.\<close>

definition proposalPayload_of :: "wireField list \<Rightarrow> bytes option" where
  "proposalPayload_of fs =
     fold (\<lambda>f acc. if number f = 1 \<and> wire f = 2 then Some (fbytes f) else acc) fs None"

definition proposal_segments_step ::
  "wireField \<Rightarrow> currentPlanSegmentWire list \<Rightarrow> currentPlanSegmentWire list result" where
  "proposal_segments_step f acc =
     (if (number f = 7 \<or> number f = 8) \<and> wire f = 2
      then bindr (parseProposalSegment (fbytes f)) (\<lambda>s. Inr (acc @ [s]))
      else Inr acc)"

definition proposalCurrentPlanSegments :: "bytes \<Rightarrow> currentPlanSegmentWire list result" where
  "proposalCurrentPlanSegments input = bindr (consumeWireFields input) (\<lambda>storedFields.
     case proposalPayload_of storedFields of
       None \<Rightarrow> Inl (ErrText ''stored proposal has no proposal payload'')
     | Some payload \<Rightarrow> bindr (consumeWireFields payload) (\<lambda>fields.
         for_each proposal_segments_step fields []))"

definition optionalInt64Equal :: "i64 option \<Rightarrow> i64 option \<Rightarrow> bool" where
  "optionalInt64Equal left right = (case (left, right) of
     (Some a, Some b) \<Rightarrow> a = b
   | (None, None) \<Rightarrow> True
   | _ \<Rightarrow> False)"

definition segment_matches :: "currentPlanSegmentWire \<Rightarrow> currentPlanSegmentWire \<Rightarrow> bool" where
  "segment_matches left right \<longleftrightarrow>
     \<not> (seg_activityID left \<noteq> seg_activityID right \<or> seg_state left \<noteq> seg_state right \<or>
        \<not> optionalInt64Equal (seg_start left) (seg_start right) \<or>
        \<not> optionalInt64Equal (seg_end left) (seg_end right))"

definition validateProposalPlanMapping :: "currentPlanWire \<Rightarrow> bytes \<Rightarrow> unit result" where
  "validateProposalPlanMapping plan storedProposal =
     bindr (proposalCurrentPlanSegments storedProposal) (\<lambda>expected.
       if length expected \<noteq> length (segments plan)
         then Inl (ErrText ''proposal-to-plan segment count differs'')
       else if list_all2 segment_matches expected (segments plan) then Inr ()
       else Inl (ErrText ''proposal-to-plan segment differs''))"

section \<open>Snapshot payloads\<close>

record snapshotPayloadMetadata =
  sp_tripID :: string
  sp_currentPlanID :: string
  sp_tripRevision :: u64
  sp_acceptedMutationSequence :: u64
  sp_finalizedMutationSequence :: u64
  sp_schemaVersion :: u64

definition nestedMessage_field :: "u64w set \<Rightarrow> wireField \<Rightarrow> unit \<Rightarrow> unit result" where
  "nestedMessage_field messageFields f u =
     (if number f \<notin> messageFields then Inr ()
      else if wire f \<noteq> 2 then Inl (ErrText ''nested protobuf field has wrong wire type'')
      else bindr (consumeWireFields (fbytes f)) (\<lambda>_. Inr ()))"

definition validateNestedMessage :: "bytes \<Rightarrow> u64w set \<Rightarrow> unit result" where
  "validateNestedMessage input messageFields = bindr (consumeWireFields input) (\<lambda>fs.
     for_each (nestedMessage_field messageFields) fs ())"

definition timing_field :: "wireField \<Rightarrow> unit \<Rightarrow> unit result" where
  "timing_field f u =
     (if number f = 1 then
        (if wire f \<noteq> 2 then Inl (ErrText ''snapshot time window has wrong wire type'')
         else bindr (consumeWireFields (fbytes f)) (\<lambda>_. Inr ()))
      else Inr ())"

definition activityWire_field :: "wireField \<Rightarrow> string \<Rightarrow> string result" where
  "activityWire_field f activityID =
     (if number f = 1 then
        (if wire f \<noteq> 2 then Inl (ErrText ''snapshot activity id has wrong wire type'')
         else Inr (string_of_bytes (fbytes f)))
      else if number f = 4 then
        (if wire f \<noteq> 2 then Inl (ErrText ''snapshot location has wrong wire type'')
         else bindr (consumeWireFields (fbytes f)) (\<lambda>_. Inr activityID))
      else if number f = 11 then
        (if wire f \<noteq> 2 then Inl (ErrText ''snapshot timing has wrong wire type'')
         else bindr (consumeWireFields (fbytes f)) (\<lambda>timingFields.
           bindr (for_each timing_field timingFields ()) (\<lambda>_. Inr activityID)))
      else Inr activityID)"

definition validateActivityWire :: "bytes \<Rightarrow> unit result" where
  "validateActivityWire input = bindr (consumeWireFields input) (\<lambda>fs.
     bindr (for_each activityWire_field fs []) (\<lambda>activityID.
       if \<not> validCanonicalUUID activityID then Inl (ErrText ''snapshot activity id is invalid'')
       else Inr ()))"

record snapshotTrip =
  st_tripID :: string
  st_ownerUserID :: string
  st_timeZoneName :: string
  st_currentPlanID :: string

definition snapshotTrip_field :: "wireField \<Rightarrow> snapshotTrip \<Rightarrow> snapshotTrip result" where
  "snapshotTrip_field f t =
     (if number f = 1 then
        (if wire f \<noteq> 2 then Inl (ErrText ''snapshot trip id has wrong wire type'')
         else Inr (t\<lparr>st_tripID := string_of_bytes (fbytes f)\<rparr>))
      else if number f = 2 then
        (if wire f \<noteq> 2 then Inl (ErrText ''snapshot owner id has wrong wire type'')
         else Inr (t\<lparr>st_ownerUserID := string_of_bytes (fbytes f)\<rparr>))
      else if number f = 3 then
        (if wire f \<noteq> 2 then Inl (ErrText ''snapshot time zone has wrong wire type'')
         else Inr (t\<lparr>st_timeZoneName := string_of_bytes (fbytes f)\<rparr>))
      else if number f = 4 then
        (if wire f \<noteq> 2 then Inl (ErrText ''snapshot activity has wrong wire type'')
         else bindr (validateActivityWire (fbytes f)) (\<lambda>_. Inr t))
      else if number f = 7 then
        (if wire f \<noteq> 2 then Inl (ErrText ''snapshot current-plan id has wrong wire type'')
         else Inr (t\<lparr>st_currentPlanID := string_of_bytes (fbytes f)\<rparr>))
      else if number f = 8 then
        (if wire f \<noteq> 2 then Inl (ErrText ''snapshot travel delay has wrong wire type'')
         else bindr (validateNestedMessage (fbytes f) {}) (\<lambda>_. Inr t))
      else Inr t)"

definition parseSnapshotTrip :: "bytes \<Rightarrow> (string \<times> string) result" where
  "parseSnapshotTrip input = bindr (consumeWireFields input) (\<lambda>fs.
     bindr (for_each snapshotTrip_field fs
       \<lparr>st_tripID = [], st_ownerUserID = [], st_timeZoneName = [], st_currentPlanID = []\<rparr>) (\<lambda>t.
       if \<not> validCanonicalUUID (st_tripID t) \<or> \<not> validCanonicalUUID (st_ownerUserID t) \<or>
          st_timeZoneName t = [] \<or> \<not> validCanonicalUUID (st_currentPlanID t)
       then Inl (ErrText ''snapshot trip metadata is invalid'')
       else Inr (st_tripID t, st_currentPlanID t)))"

record storedCurrentPlanMetadata =
  sm_planID :: string
  sm_revision :: u64
  sm_origin :: u64
  sm_sourceProposalID :: string
  sm_createdAtUnixMS :: i64
  sm_segments :: "currentPlanSegmentWire list"

text \<open>The state of the loop: the result, the activities seen and the end of the last segment.\<close>

type_synonym snapshotPlanLoop = "storedCurrentPlanMetadata \<times> string list \<times> i64 option"

definition snapshotPlan_segment :: "bytes \<Rightarrow> snapshotPlanLoop \<Rightarrow> snapshotPlanLoop result" where
  "snapshotPlan_segment input st = (case st of (m, seen, priorEnd) \<Rightarrow>
     bindr (parseCurrentPlanSegment input) (\<lambda>s.
       let m' = m\<lparr>sm_segments := sm_segments m @ [s]\<rparr>; seen' = seg_activityID s # seen in
       if seg_activityID s \<in> set seen then Inl (ErrText ''snapshot plan repeats an activity'')
       else if seg_state s = 1 then
         (case (seg_start s, seg_end s) of
            (Some a, Some b) \<Rightarrow>
              (case priorEnd of
                 Some e \<Rightarrow> if a < e then Inl (ErrText ''snapshot plan segments overlap'')
                           else Inr (m', seen', Some b)
               | None \<Rightarrow> Inr (m', seen', Some b))
          | _ \<Rightarrow> Inl (ErrText ''nil pointer''))
       else Inr (m', seen', priorEnd)))"

definition snapshotPlan_field :: "wireField \<Rightarrow> snapshotPlanLoop \<Rightarrow> snapshotPlanLoop result" where
  "snapshotPlan_field f st = (case st of (m, seen, priorEnd) \<Rightarrow>
     if number f = 1 then
       (if wire f \<noteq> 2 then Inl (ErrText ''snapshot plan id has wrong wire type'')
        else Inr (m\<lparr>sm_planID := string_of_bytes (fbytes f)\<rparr>, seen, priorEnd))
     else if number f = 2 then
       (if wire f \<noteq> 0 then Inl (ErrText ''snapshot plan revision has wrong wire type'')
        else Inr (m\<lparr>sm_revision := unat (fvalue f)\<rparr>, seen, priorEnd))
     else if number f = 3 then
       (if wire f \<noteq> 0 then Inl (ErrText ''snapshot plan origin has wrong wire type'')
        else Inr (m\<lparr>sm_origin := unat (fvalue f)\<rparr>, seen, priorEnd))
     else if number f = 4 then
       (if wire f \<noteq> 2 then Inl (ErrText ''snapshot plan segment has wrong wire type'')
        else snapshotPlan_segment (fbytes f) (m, seen, priorEnd))
     else if number f = 5 then
       (if wire f \<noteq> 0 then Inl (ErrText ''snapshot plan creation time has wrong wire type'')
        else Inr (m\<lparr>sm_createdAtUnixMS := sint (fvalue f)\<rparr>, seen, priorEnd))
     else if number f = 6 then
       (if wire f \<noteq> 2 then Inl (ErrText ''snapshot source proposal has wrong wire type'')
        else Inr (m\<lparr>sm_sourceProposalID := string_of_bytes (fbytes f)\<rparr>, seen, priorEnd))
     else Inr (m, seen, priorEnd))"

definition emptyMetadata :: storedCurrentPlanMetadata where
  "emptyMetadata = \<lparr>sm_planID = [], sm_revision = 0, sm_origin = 0, sm_sourceProposalID = [],
     sm_createdAtUnixMS = 0, sm_segments = []\<rparr>"

definition parseSnapshotCurrentPlan :: "bytes \<Rightarrow> storedCurrentPlanMetadata result" where
  "parseSnapshotCurrentPlan input = bindr (consumeWireFields input) (\<lambda>fs.
     bindr (for_each snapshotPlan_field fs (emptyMetadata, [], None)) (\<lambda>(m, seen, priorEnd).
       if \<not> validCanonicalUUID (sm_planID m) \<or> sm_revision m = 0
         then Inl (ErrText ''snapshot plan metadata is invalid'')
       else if sm_origin m = 1 then
         (if sm_sourceProposalID m \<noteq> []
          then Inl (ErrText ''user snapshot plan has a source proposal'') else Inr m)
       else if sm_origin m = 2 then
         (if \<not> validCanonicalUUID (sm_sourceProposalID m)
          then Inl (ErrText ''engine snapshot plan lacks its source proposal'') else Inr m)
       else Inl (ErrText ''snapshot plan origin is invalid'')))"

definition snapshotPayload_field ::
  "wireField \<Rightarrow> snapshotPayloadMetadata \<times> bool \<times> bool \<Rightarrow>
     (snapshotPayloadMetadata \<times> bool \<times> bool) result" where
  "snapshotPayload_field f st = (case st of (m, tripPresent, planPresent) \<Rightarrow>
     if number f = 1 then
       (if wire f \<noteq> 2 then Inl (ErrText ''snapshot trip has wrong wire type'')
        else bindr (parseSnapshotTrip (fbytes f)) (\<lambda>(tid, pid).
          Inr (m\<lparr>sp_tripID := tid, sp_currentPlanID := pid\<rparr>, True, planPresent)))
     else if number f = 2 then
       (if wire f \<noteq> 0 then Inl (ErrText ''snapshot trip revision has wrong wire type'')
        else Inr (m\<lparr>sp_tripRevision := unat (fvalue f)\<rparr>, tripPresent, planPresent))
     else if number f = 3 then
       (if wire f \<noteq> 0 then Inl (ErrText ''snapshot accepted sequence has wrong wire type'')
        else Inr (m\<lparr>sp_acceptedMutationSequence := unat (fvalue f)\<rparr>, tripPresent, planPresent))
     else if number f = 4 then
       (if wire f \<noteq> 0 then Inl (ErrText ''snapshot finalized sequence has wrong wire type'')
        else Inr (m\<lparr>sp_finalizedMutationSequence := unat (fvalue f)\<rparr>, tripPresent, planPresent))
     else if number f = 5 then
       (if wire f \<noteq> 2 then Inl (ErrText ''snapshot current plan has wrong wire type'')
        else bindr (parseSnapshotCurrentPlan (fbytes f)) (\<lambda>plan.
          if sp_currentPlanID m \<noteq> [] \<and> sm_planID plan \<noteq> sp_currentPlanID m
          then Inl (ErrText ''snapshot current-plan identifiers differ'')
          else Inr (m, tripPresent, True)))
     else if number f = 6 then
       (if wire f \<noteq> 0 then Inl (ErrText ''snapshot schema has wrong wire type'')
        else Inr (m\<lparr>sp_schemaVersion := unat (fvalue f)\<rparr>, tripPresent, planPresent))
     else Inr (m, tripPresent, planPresent))"

definition emptySnapshotMetadata :: snapshotPayloadMetadata where
  "emptySnapshotMetadata = \<lparr>sp_tripID = [], sp_currentPlanID = [], sp_tripRevision = 0,
     sp_acceptedMutationSequence = 0, sp_finalizedMutationSequence = 0, sp_schemaVersion = 0\<rparr>"

definition parseSnapshotPayload :: "bytes \<Rightarrow> snapshotPayloadMetadata result" where
  "parseSnapshotPayload input = bindr (consumeWireFields input) (\<lambda>fs.
     bindr (for_each snapshotPayload_field fs (emptySnapshotMetadata, False, False))
       (\<lambda>(m, tripPresent, planPresent).
          if \<not> tripPresent \<or> \<not> planPresent \<or> sp_tripRevision m = 0 \<or> sp_schemaVersion m \<noteq> 1 \<or>
             sp_acceptedMutationSequence m \<noteq> sp_finalizedMutationSequence m
          then Inl (ErrText ''snapshot payload metadata is invalid'')
          else Inr m))"

section \<open>Encoders\<close>

record CanonicalPlanSegmentDraft =
  dr_ActivityID :: string
  dr_Scheduled :: bool
  dr_Start :: "i64 option"
  dr_End :: "i64 option"

function appendVarint :: "bytes \<Rightarrow> u64w \<Rightarrow> bytes" where
  "appendVarint out v =
     (if v \<ge> 0x80 then appendVarint (out @ [ucast v OR 0x80]) (drop_bit 7 v)
      else out @ [ucast v])"
  by pat_completeness auto
termination
proof (relation "measure (\<lambda>(out, v). unat v)")
  fix out :: bytes and v :: u64w
  assume "0x80 \<le> v"
  then have "128 \<le> unat v" by (simp add: word_le_nat_alt)
  then show "((out @ [ucast v OR 0x80], drop_bit 7 v), out, v) \<in> measure (\<lambda>(out, v). unat v)"
    by (simp add: drop_bit_eq_div unat_div)
qed simp

definition appendBytesField :: "bytes \<Rightarrow> u64w \<Rightarrow> bytes \<Rightarrow> bytes" where
  "appendBytesField out num v =
     appendVarint (appendVarint out (push_bit 3 num OR 2)) (word_of_nat (length v)) @ v"

definition appendVarintField :: "bytes \<Rightarrow> u64w \<Rightarrow> u64w \<Rightarrow> bytes" where
  "appendVarintField out num v = appendVarint (appendVarint out (push_bit 3 num)) v"

text \<open>\<open>None\<close> is the nil dereference of \<open>*segment.Start\<close> on a scheduled segment without times.\<close>

definition encodeSegmentDraft :: "CanonicalPlanSegmentDraft \<Rightarrow> bytes option" where
  "encodeSegmentDraft s =
     (let encoded = appendBytesField [] 1 (bytes_of_string (dr_ActivityID s)) in
      if dr_Scheduled s then
        (case (dr_Start s, dr_End s) of
           (Some a, Some b) \<Rightarrow>
             Some (appendVarintField (appendVarintField (appendVarintField encoded 2 1)
               3 (word_of_int a)) 4 (word_of_int b))
         | _ \<Rightarrow> None)
      else Some (appendVarintField encoded 2 2))"

fun appendSegmentDrafts :: "bytes \<Rightarrow> CanonicalPlanSegmentDraft list \<Rightarrow> bytes option" where
  "appendSegmentDrafts out [] = Some out"
| "appendSegmentDrafts out (s # ss) =
     (case encodeSegmentDraft s of
        None \<Rightarrow> None
      | Some encoded \<Rightarrow> appendSegmentDrafts (appendBytesField out 4 encoded) ss)"

definition userCurrentPlanPayload ::
  "string \<Rightarrow> u64 \<Rightarrow> i64 \<Rightarrow> CanonicalPlanSegmentDraft list \<Rightarrow> bytes option" where
  "userCurrentPlanPayload pid revision created drafts =
     map_option (\<lambda>out. appendVarintField out 5 (word_of_int created))
       (appendSegmentDrafts
          (appendVarintField (appendVarintField (appendBytesField [] 1 (bytes_of_string pid))
             2 (word_of_nat revision)) 3 1)
          drafts)"

section \<open>Specification of stored plans\<close>

definition fits_i64 :: "int \<Rightarrow> bool" where
  "fits_i64 a \<longleftrightarrow> - 9223372036854775808 \<le> a \<and> a < 9223372036854775808"

definition segment_of_draft :: "CanonicalPlanSegmentDraft \<Rightarrow> currentPlanSegmentWire" where
  "segment_of_draft d = \<lparr>seg_activityID = dr_ActivityID d,
     seg_state = (if dr_Scheduled d then 1 else 2),
     seg_start = (if dr_Scheduled d then dr_Start d else None),
     seg_end = (if dr_Scheduled d then dr_End d else None)\<rparr>"

definition draft_ok :: "CanonicalPlanSegmentDraft \<Rightarrow> bool" where
  "draft_ok d \<longleftrightarrow> validCanonicalUUID (dr_ActivityID d) \<and>
     (dr_Scheduled d \<longrightarrow> (case (dr_Start d, dr_End d) of
        (Some a, Some b) \<Rightarrow> fits_i64 a \<and> fits_i64 b \<and> a < b | _ \<Rightarrow> False))"

definition segments_ordered :: "currentPlanSegmentWire list \<Rightarrow> bool" where
  "segments_ordered ss \<longleftrightarrow> distinct (map seg_activityID ss) \<and>
     sorted_wrt (\<lambda>s t. the (seg_end s) \<le> the (seg_start t)) (filter (\<lambda>s. seg_state s = 1) ss)"

definition prior_ok :: "i64 option \<Rightarrow> currentPlanSegmentWire list \<Rightarrow> bool" where
  "prior_ok prior ss \<longleftrightarrow> (case prior of None \<Rightarrow> True
     | Some e \<Rightarrow> \<forall>s\<in>set ss. seg_state s = 1 \<longrightarrow> e \<le> the (seg_start s))"

definition draft_bytes :: "CanonicalPlanSegmentDraft \<Rightarrow> bytes" where
  "draft_bytes d = (case encodeSegmentDraft d of Some out \<Rightarrow> out | None \<Rightarrow> [])"

definition draft_field :: "CanonicalPlanSegmentDraft \<Rightarrow> wireField" where
  "draft_field d = \<lparr>number = 4, wire = 2, fvalue = 0, fbytes = draft_bytes d\<rparr>"

definition drafts_bytes :: "CanonicalPlanSegmentDraft list \<Rightarrow> bytes" where
  "drafts_bytes ds = concat (map (\<lambda>d. appendBytesField [] 4 (draft_bytes d)) ds)"

definition plan_metadata :: "currentPlanWire \<Rightarrow> storedCurrentPlanMetadata" where
  "plan_metadata p = \<lparr>sm_planID = planID p, sm_revision = planRevision p, sm_origin = origin p,
     sm_sourceProposalID = sourceProposalID p, sm_createdAtUnixMS = createdAtUnixMS p,
     sm_segments = segments p\<rparr>"

definition segment_ok :: "currentPlanSegmentWire \<Rightarrow> bool" where
  "segment_ok s \<longleftrightarrow> validCanonicalUUID (seg_activityID s) \<and>
     (seg_state s = 1 \<and> scheduled_times s \<or>
      seg_state s = 2 \<and> seg_start s = None \<and> seg_end s = None)"

text \<open>The encoding of a field, for the two wire types the encoders write.\<close>

definition encode_field :: "wireField \<Rightarrow> bytes" where
  "encode_field f = (if wire f = 0 then appendVarintField [] (number f) (fvalue f)
     else appendBytesField [] (number f) (fbytes f))"

definition field_ok :: "wireField \<Rightarrow> bool" where
  "field_ok f \<longleftrightarrow> number f \<noteq> 0 \<and> unat (number f) < 2 ^ 61 \<and>
     (wire f = 0 \<and> fbytes f = [] \<or> wire f = 2 \<and> fvalue f = 0 \<and> length (fbytes f) < 2 ^ 64)"

section \<open>The codec interface\<close>

text \<open>
  A self-delimiting code: the decoder undoes the encoder in front of any rest and consumes
  something. \<open>decs\<close> reads a whole input as a sequence of such values.
\<close>

locale wire_codec =
  fixes enc :: "'a \<Rightarrow> bytes" and dec :: "bytes \<Rightarrow> ('a \<times> bytes) result" and ok :: "'a \<Rightarrow> bool"
  assumes dec_enc: "ok x \<Longrightarrow> dec (enc x @ rest) = Inr (x, rest)"
    and dec_shrinks: "dec input = Inr (x, rest) \<Longrightarrow> length rest < length input"
begin

lemma enc_nonempty: "ok x \<Longrightarrow> enc x \<noteq> []"
  using dec_enc [of x "[]"] dec_shrinks [of "enc x" x "[]"] by auto

lemma enc_prefix_free:
  assumes "ok x" "ok y" "enc x @ r = enc y @ s"
  shows "x = y \<and> r = s"
proof -
  have "dec (enc x @ r) = Inr (y, s)" by (simp only: assms(3) dec_enc [OF assms(2)])
  then show ?thesis by (simp add: dec_enc [OF assms(1)])
qed

end

locale wire_stream = wire_codec +
  fixes decs :: "bytes \<Rightarrow> 'a list result"
  assumes decs_eq: "decs input = (if input = [] then Inr []
    else case dec input of Inl e \<Rightarrow> Inl e
         | Inr (f, rest) \<Rightarrow> bindr (decs rest) (\<lambda>fs. Inr (f # fs)))"
begin

lemma decs_Nil: "decs [] = Inr []"
  by (subst decs_eq) simp

lemma decs_Cons: "ok x \<Longrightarrow> decs (enc x @ rest) = bindr (decs rest) (\<lambda>fs. Inr (x # fs))"
  by (subst decs_eq) (simp add: enc_nonempty dec_enc)

lemma decs_append:
  "\<forall>x\<in>set xs. ok x \<Longrightarrow>
     decs (concat (map enc xs) @ rest) = bindr (decs rest) (\<lambda>fs. Inr (xs @ fs))"
proof (induction xs)
  case (Cons x xs)
  then show ?case by (cases "decs rest") (simp_all add: decs_Cons)
qed (cases "decs rest"; simp)

lemma decs_concat: "\<forall>x\<in>set xs. ok x \<Longrightarrow> decs (concat (map enc xs)) = Inr xs"
  using decs_append [of xs "[]"] by (simp add: decs_Nil)

end

section \<open>Round trips\<close>

declare appendVarint.simps [simp del] consumeWireFields.simps [simp del]

lemma appendVarint_append: "appendVarint out v = out @ appendVarint [] v"
proof (induction "unat v" arbitrary: v out rule: less_induct)
  case less
  show ?case
  proof (cases "0x80 \<le> v")
    case True
    then have "unat (drop_bit 7 v) < unat v"
      by (simp add: drop_bit_eq_div unat_div word_le_nat_alt)
    from less [OF this] have "\<And>o'. appendVarint o' (drop_bit 7 v) = o' @ appendVarint [] (drop_bit 7 v)" by blast
    then show ?thesis using True
      by (metis append.assoc append_Nil appendVarint.simps)
  qed (simp add: appendVarint.simps)
qed

lemma low7_high_bit:
  "7 \<le> k \<Longrightarrow> ucast ((ucast (v :: u64w) OR push_bit k 1 :: byte) AND mask 7) = v AND mask 7"
  by (rule bit_word_eqI) (auto simp: bit_simps)

lemma low7_byte: "ucast ((ucast (v :: u64w) OR 0x80 :: byte) AND 0x7f) = v AND 0x7f"
proof -
  have "mask 7 = (0x7f :: byte)" "mask 7 = (0x7f :: u64w)" "push_bit 7 1 = (0x80 :: byte)"
    by (simp_all add: mask_eq_exp_minus_1)
  then show ?thesis using low7_high_bit [of 7 v] by (simp only: order_refl simp_thms)
qed

lemma push_bit_split7:
  "push_bit s (v AND 0x7f) OR push_bit (s + 7) (drop_bit 7 v) = push_bit s (v :: u64w)"
proof -
  have "push_bit s (v AND mask 7) OR push_bit (s + 7) (drop_bit 7 v) = push_bit s v"
  proof (rule bit_word_eqI)
    fix n :: nat assume "n < LENGTH(64)"
    then show "bit (push_bit s (v AND mask 7) OR push_bit (s + 7) (drop_bit 7 v)) n = bit (push_bit s v) n"
      by (cases "s + 7 \<le> n") (auto simp: bit_simps)
  qed
  moreover have "mask 7 = (0x7f :: u64w)" by (simp add: mask_eq_exp_minus_1)
  ultimately show ?thesis by (simp only:)
qed

lemma consumeVarint_loop_append:
  assumes "s \<le> 63" "unat x < 2 ^ (64 - s)"
  shows "consumeVarint_loop s v (appendVarint [] x @ rest) = Inr (v OR push_bit s x, rest)"
  using assms
proof (induction "unat x" arbitrary: x s v rule: less_induct)
  case less
  show ?case
  proof (cases "0x80 \<le> x")
    case True
    then have u: "128 \<le> unat x" by (simp add: word_le_nat_alt)
    have s: "s + 7 \<le> 63"
    proof (rule ccontr)
      assume "\<not> s + 7 \<le> 63"
      then have "(2::nat) ^ (64 - s) \<le> 2 ^ 7" by (intro power_increasing) auto
      then show False using u less.prems(2) by simp
    qed
    have d: "unat (drop_bit 7 x) = unat x div 128"
      by (simp add: drop_bit_eq_div unat_div)
    have "(2::nat) ^ (64 - s) = 2 ^ (64 - (s + 7)) * 128"
      using power_add [of "2::nat" "64 - (s + 7)" 7] s by simp
    then have b: "unat (drop_bit 7 x) < 2 ^ (64 - (s + 7))"
      using less.prems(2) d by (simp add: less_mult_imp_div_less)
    have hi: "\<not> (ucast x OR 0x80 :: byte) < 0x80"
      by (metis le_word_or1 leD)
    have e: "appendVarint [] x = (ucast x OR 0x80) # appendVarint [] (drop_bit 7 x)"
      using True by (subst appendVarint.simps) (simp add: appendVarint_append [of "[_]"])
    have IH: "\<And>w. consumeVarint_loop (s + 7) w (appendVarint [] (drop_bit 7 x) @ rest)
                = Inr (w OR push_bit (s + 7) (drop_bit 7 x), rest)"
      using less.hyps [of "drop_bit 7 x" "s + 7"] d u s b by auto
    show ?thesis
      using s hi by (simp add: e IH low7_byte Let_def or.assoc push_bit_split7 del: push_bit_and)
  next
    case False
    then have x: "unat x < 128" by (simp add: word_le_nat_alt)
    then have t: "take_bit 7 x = x"
      by (simp add: word_unat_eq_iff unat_mod take_bit_eq_mod)
    have l: "ucast ((ucast x :: byte) AND 0x7f) = x"
    proof -
      have "ucast ((ucast x :: byte) AND mask 7) = take_bit 7 x"
        by (intro bit_word_eqI) (auto simp: bit_simps)
      moreover have "mask 7 = (0x7f :: byte)" by (simp add: mask_eq_exp_minus_1)
      ultimately show ?thesis using t by (simp only:)
    qed
    have ub: "unat (ucast x :: byte) = unat x"
      using x by (simp add: unsigned_ucast_eq take_bit_eq_mod)
    have "\<not> (s = 63 \<and> (1 :: byte) < ucast x)"
      using less.prems(2) ub by (auto simp: word_less_nat_alt)
    moreover have "(ucast x :: byte) < 0x80"
      using x ub by (simp add: word_less_nat_alt)
    ultimately show ?thesis
      using False less.prems(1) by (subst appendVarint.simps) (simp add: l Let_def)
  qed
qed

lemma consumeVarint_appendVarint [simp]:
  "consumeVarint (appendVarint [] x @ rest) = Inr (x, rest)"
  using consumeVarint_loop_append [of 0 x 0 rest] unsigned_less [of x]
  by (simp add: consumeVarint_def)

lemma field_key:
  assumes "unat n < 2 ^ 61" "k < 8"
  shows "drop_bit 3 (push_bit 3 n OR k) = (n :: u64w)" "(push_bit 3 n OR k) AND 7 = k"
proof -
  have m: "(7 :: u64w) = mask 3" by (simp add: mask_eq_exp_minus_1)
  have k: "take_bit 3 k = k" using assms(2)
    by (simp add: word_unat_eq_iff unat_mod take_bit_eq_mod word_less_nat_alt)
  then have bk: "bit k i \<Longrightarrow> i < 3" for i by (metis bit_take_bit_iff)
  have "take_bit 61 n = n" using assms(1)
    by (simp add: word_unat_eq_iff unat_mod take_bit_eq_mod)
  then have bn: "bit n i \<Longrightarrow> i < 61" for i by (metis bit_take_bit_iff)
  show "drop_bit 3 (push_bit 3 n OR k) = n"
    by (rule bit_word_eqI) (auto simp: bit_simps dest: bk bn)
  show "(push_bit 3 n OR k) AND 7 = k"
    unfolding m by (rule bit_word_eqI) (auto simp: bit_simps dest: bk)
qed

lemma appendVarintField_append: "appendVarintField out n v = out @ appendVarintField [] n v"
  by (simp add: appendVarintField_def)
    (metis append.assoc append_Nil appendVarint_append)

lemma appendBytesField_append: "appendBytesField out n v = out @ appendBytesField [] n v"
  by (simp add: appendBytesField_def)
    (metis append.assoc append_Nil appendVarint_append)

lemma append_field_simps [simp]:
  "appendVarintField (x @ y) n v = x @ appendVarintField y n v"
  "appendBytesField (x @ y) n b = x @ appendBytesField y n b"
  "appendVarintField (appendVarintField [] m w) n v = appendVarintField [] m w @ appendVarintField [] n v"
  "appendVarintField (appendBytesField [] m c) n v = appendBytesField [] m c @ appendVarintField [] n v"
  "appendBytesField (appendVarintField [] m w) n b = appendVarintField [] m w @ appendBytesField [] n b"
  "appendBytesField (appendBytesField [] m c) n b = appendBytesField [] m c @ appendBytesField [] n b"
  by (metis append.assoc appendVarintField_append)
    (metis append.assoc appendBytesField_append, metis appendVarintField_append,
     metis appendVarintField_append, metis appendBytesField_append, metis appendBytesField_append)

lemma consumeWireField_varint:
  assumes "unat n < 2 ^ 61" "n \<noteq> 0"
  shows "consumeWireField (appendVarintField [] n v @ rest)
    = Inr (\<lparr>number = n, wire = 0, fvalue = v, fbytes = []\<rparr>, rest)"
proof -
  have e: "appendVarintField [] n v @ rest = appendVarint [] (push_bit 3 n) @ appendVarint [] v @ rest"
    by (simp add: appendVarintField_def appendVarint_append [of "appendVarint [] (push_bit 3 n)"])
  show ?thesis
    using assms field_key [of n 0] unfolding e by (simp add: consumeWireField_def Let_def)
qed

lemma consumeWireField_bytes:
  assumes "unat n < 2 ^ 61" "n \<noteq> 0" "length b < 2 ^ 64"
  shows "consumeWireField (appendBytesField [] n b @ rest)
    = Inr (\<lparr>number = n, wire = 2, fvalue = 0, fbytes = b\<rparr>, rest)"
proof -
  have e: "appendBytesField [] n b @ rest
      = appendVarint [] (push_bit 3 n OR 2) @ appendVarint [] (word_of_nat (length b)) @ b @ rest"
    by (simp add: appendBytesField_def appendVarint_append [of "appendVarint [] (push_bit 3 n OR 2)"])
  have "unat (word_of_nat (length b) :: u64w) = length b"
    using assms(3) by (simp add: unat_of_nat)
  then show ?thesis
    using assms field_key [of n 2] unfolding e by (simp add: consumeWireField_def Let_def)
qed

interpretation varint: wire_codec "appendVarint []" consumeVarint "\<lambda>_. True"
  by unfold_locales (auto dest: consumeVarint_shrinks)

interpretation fields: wire_stream encode_field consumeWireField field_ok consumeWireFields
proof
  fix f rest assume "field_ok f"
  then show "consumeWireField (encode_field f @ rest) = Inr (f, rest)"
    by (cases f) (auto simp: field_ok_def encode_field_def consumeWireField_varint consumeWireField_bytes)
next
  fix input f rest assume "consumeWireField input = Inr (f, rest)"
  then show "length rest < length input" by (rule consumeWireField_shrinks)
next
  fix input
  show "consumeWireFields input = (if input = [] then Inr []
    else case consumeWireField input of Inl e \<Rightarrow> Inl e
         | Inr (f, rest) \<Rightarrow> bindr (consumeWireFields rest) (\<lambda>fs. Inr (f # fs)))"
    by (rule consumeWireFields.simps)
qed

lemma consumeWireFields_Nil [simp]: "consumeWireFields [] = Inr []"
  by (rule fields.decs_Nil)

lemma consumeWireFields_varint:
  assumes "unat n < 2 ^ 61" "n \<noteq> 0"
  shows "consumeWireFields (appendVarintField [] n v @ rest)
    = bindr (consumeWireFields rest) (\<lambda>fs. Inr (\<lparr>number = n, wire = 0, fvalue = v, fbytes = []\<rparr> # fs))"
  using fields.decs_Cons [of "\<lparr>number = n, wire = 0, fvalue = v, fbytes = []\<rparr>" rest] assms
  by (simp add: field_ok_def encode_field_def)

lemma consumeWireFields_bytes:
  assumes "unat n < 2 ^ 61" "n \<noteq> 0" "length b < 2 ^ 64"
  shows "consumeWireFields (appendBytesField [] n b @ rest)
    = bindr (consumeWireFields rest) (\<lambda>fs. Inr (\<lparr>number = n, wire = 2, fvalue = 0, fbytes = b\<rparr> # fs))"
  using fields.decs_Cons [of "\<lparr>number = n, wire = 2, fvalue = 0, fbytes = b\<rparr>" rest] assms
  by (simp add: field_ok_def encode_field_def)

lemma sint_word_of_int [simp]: "fits_i64 a \<Longrightarrow> sint (word_of_int a :: u64w) = a"
  by (simp add: fits_i64_def sint_sbintrunc' signed_take_bit_int_eq_self)

lemma length_appendVarint: "k \<ge> 1 \<Longrightarrow> unat v < 2 ^ (7 * k) \<Longrightarrow> length (appendVarint [] v) \<le> k"
proof (induction k arbitrary: v)
  case (Suc k)
  show ?case
  proof (cases "0x80 \<le> v")
    case True
    then have u: "128 \<le> unat v" by (simp add: word_le_nat_alt)
    have k: "k \<ge> 1"
    proof (rule ccontr)
      assume "\<not> 1 \<le> k"
      then have "k = 0" by simp
      then show False using Suc.prems(2) u by simp
    qed
    have "unat (drop_bit 7 v) < 2 ^ (7 * k)"
      using Suc.prems(2) by (simp add: drop_bit_eq_div unat_div power_add less_mult_imp_div_less mult.commute)
    from Suc.IH [OF k this] show ?thesis
      using True by (subst appendVarint.simps) (simp add: appendVarint_append [of "[_]"])
  qed (simp add: appendVarint.simps)
qed simp

lemma length_appendVarint_le: "length (appendVarint [] v) \<le> 10"
proof (rule length_appendVarint)
  have "unat v < 2 ^ 64" using unsigned_less [of v] by simp
  then show "unat v < 2 ^ (7 * 10)" by simp
qed simp

lemma length_appendVarintField: "length (appendVarintField [] n v) \<le> 20"
  using length_appendVarint_le [of "push_bit 3 n"] length_appendVarint_le [of v]
  by (simp add: appendVarintField_def appendVarint_append [of "appendVarint [] (push_bit 3 n)"])

lemma length_appendBytesField: "length (appendBytesField [] n b) \<le> 20 + length b"
  using length_appendVarint_le [of "push_bit 3 n OR 2"] length_appendVarint_le [of "word_of_nat (length b)"]
  by (simp add: appendBytesField_def appendVarint_append [of "appendVarint [] (push_bit 3 n OR 2)"])

lemma encodeSegmentDraft_round_trip:
  assumes "draft_ok d"
  obtains out where "encodeSegmentDraft d = Some out" "length out < 2 ^ 64"
    "parseCurrentPlanSegment out = Inr (segment_of_draft d)"
proof -
  let ?id = "appendBytesField [] 1 (bytes_of_string (dr_ActivityID d))"
  have idlen: "length (bytes_of_string (dr_ActivityID d)) = 36"
    using assms by (simp add: draft_ok_def validCanonicalUUID_length)
  have idl: "length ?id \<le> 56" using length_appendBytesField [of 1 "bytes_of_string (dr_ActivityID d)"] idlen by simp
  show thesis
  proof (cases "dr_Scheduled d")
    case True
    then obtain a b where ab: "dr_Start d = Some a" "dr_End d = Some b" "fits_i64 a" "fits_i64 b" "a < b"
      using assms by (auto simp: draft_ok_def split: option.splits)
    let ?out = "?id @ appendVarintField [] 2 1 @ appendVarintField [] 3 (word_of_int a)
        @ appendVarintField [] 4 (word_of_int b) @ []"
    have e: "encodeSegmentDraft d = Some ?out"
      using True ab by (simp add: encodeSegmentDraft_def Let_def)
    have l: "length ?out < 2 ^ 64"
      using idl length_appendVarintField [of 2 1] length_appendVarintField [of 3 "word_of_int a"]
        length_appendVarintField [of 4 "word_of_int b"] by simp
    have "parseCurrentPlanSegment ?out = Inr (segment_of_draft d)"
      using assms True ab idlen
      by (simp add: parseCurrentPlanSegment_def consumeWireFields_varint consumeWireFields_bytes
          currentPlanSegment_field_def currentPlanSegment_check_def scheduled_times_def
          segment_of_draft_def draft_ok_def emptySegment_def del: append_Nil2)
    then show thesis using e l that by blast
  next
    case False
    let ?out = "?id @ appendVarintField [] 2 2 @ []"
    have e: "encodeSegmentDraft d = Some ?out"
      using False by (simp add: encodeSegmentDraft_def Let_def)
    have l: "length ?out < 2 ^ 64"
      using idl length_appendVarintField [of 2 2] by simp
    have "parseCurrentPlanSegment ?out = Inr (segment_of_draft d)"
      using assms False idlen
      by (simp add: parseCurrentPlanSegment_def consumeWireFields_varint consumeWireFields_bytes
          currentPlanSegment_field_def currentPlanSegment_check_def scheduled_times_def
          segment_of_draft_def draft_ok_def emptySegment_def del: append_Nil2)
    then show thesis using e l that by blast
  qed
qed

lemma segment_order_step_cases:
  assumes "seg_state s = 1 \<Longrightarrow> scheduled_times s"
  shows "segment_order_step s (seen, prior) =
    (if seg_activityID s \<in> set seen then Inl (ErrText ''current plan repeats an activity'')
     else if seg_state s \<noteq> 1 then Inr (seg_activityID s # seen, prior)
     else if prior_ok prior [s] then Inr (seg_activityID s # seen, seg_end s)
     else Inl (ErrText ''current-plan segments overlap''))"
  using assms by (auto simp: segment_order_step_def scheduled_times_def prior_ok_def split: option.splits)

lemma segment_order_accepts_gen:
  assumes "\<And>s. s \<in> set ss \<Longrightarrow> seg_state s = 1 \<Longrightarrow> scheduled_times s"
  shows "(\<exists>st. for_each segment_order_step ss (seen, prior) = Inr st) \<longleftrightarrow>
     segments_ordered ss \<and> set (map seg_activityID ss) \<inter> set seen = {} \<and> prior_ok prior ss"
  using assms
proof (induction ss arbitrary: seen prior)
  case Nil
  show ?case by (cases prior) (auto simp: segments_ordered_def prior_ok_def)
next
  case (Cons s ss)
  have IH: "\<And>seen prior. (\<exists>st. for_each segment_order_step ss (seen, prior) = Inr st) \<longleftrightarrow>
     segments_ordered ss \<and> set (map seg_activityID ss) \<inter> set seen = {} \<and> prior_ok prior ss"
    using Cons by auto
  have step: "segment_order_step s (seen, prior) =
    (if seg_activityID s \<in> set seen then Inl (ErrText ''current plan repeats an activity'')
     else if seg_state s \<noteq> 1 then Inr (seg_activityID s # seen, prior)
     else if prior_ok prior [s] then Inr (seg_activityID s # seen, seg_end s)
     else Inl (ErrText ''current-plan segments overlap''))"
    using Cons.prems by (intro segment_order_step_cases) auto
  show ?case
  proof (cases "seg_state s = 1")
    case True
    then obtain a b where ab: "seg_start s = Some a" "seg_end s = Some b" "a < b"
      using Cons.prems [of s] by (auto simp: scheduled_times_def split: option.splits)
    have "segments_ordered (s # ss) \<longleftrightarrow>
        segments_ordered ss \<and> seg_activityID s \<notin> set (map seg_activityID ss) \<and> prior_ok (Some b) ss"
      using True ab by (auto simp: segments_ordered_def prior_ok_def)
    moreover have "prior_ok (Some b) ss \<Longrightarrow> prior_ok prior (s # ss) \<longleftrightarrow> prior_ok prior [s]"
      using True ab by (cases prior) (force simp: prior_ok_def)+
    ultimately show ?thesis
      using True ab IH [of "seg_activityID s # seen" "Some b"] unfolding for_each.simps step
      by (auto simp del: for_each.simps)
  next
    case False
    then show ?thesis
      using IH [of "seg_activityID s # seen" prior]
      by (auto simp: step segments_ordered_def prior_ok_def split: option.splits)
  qed
qed


lemma segment_order_accepts:
  assumes "\<And>s. s \<in> set ss \<Longrightarrow> seg_state s = 1 \<Longrightarrow> scheduled_times s"
  shows "(\<exists>st. for_each segment_order_step ss ([], None) = Inr st) \<longleftrightarrow> segments_ordered ss"
  using segment_order_accepts_gen [OF assms, of ss "[]" None] by (simp add: prior_ok_def)

lemma draft_bytes_ok:
  assumes "draft_ok d"
  shows "encodeSegmentDraft d = Some (draft_bytes d)" "length (draft_bytes d) < 2 ^ 64"
    "parseCurrentPlanSegment (draft_bytes d) = Inr (segment_of_draft d)"
proof -
  obtain out where "encodeSegmentDraft d = Some out" "length out < 2 ^ 64"
    "parseCurrentPlanSegment out = Inr (segment_of_draft d)"
    using encodeSegmentDraft_round_trip [OF assms] .
  then show "encodeSegmentDraft d = Some (draft_bytes d)" "length (draft_bytes d) < 2 ^ 64"
    "parseCurrentPlanSegment (draft_bytes d) = Inr (segment_of_draft d)"
    by (simp_all add: draft_bytes_def)
qed

lemma appendSegmentDrafts_eq:
  "\<forall>d\<in>set ds. draft_ok d \<Longrightarrow> appendSegmentDrafts out ds = Some (out @ drafts_bytes ds)"
proof (induction ds arbitrary: out)
  case (Cons d ds)
  then show ?case
    by (simp add: draft_bytes_ok(1) drafts_bytes_def appendBytesField_append [of out])
qed (simp add: drafts_bytes_def)

lemma consumeWireFields_drafts:
  "\<forall>d\<in>set ds. draft_ok d \<Longrightarrow> consumeWireFields (drafts_bytes ds @ rest)
     = bindr (consumeWireFields rest) (\<lambda>fs. Inr (map draft_field ds @ fs))"
proof (induction ds)
  case (Cons d ds)
  have "consumeWireFields (drafts_bytes (d # ds) @ rest)
      = consumeWireFields (appendBytesField [] 4 (draft_bytes d) @ drafts_bytes ds @ rest)"
    by (simp add: drafts_bytes_def)
  also have "\<dots> = bindr (consumeWireFields (drafts_bytes ds @ rest)) (\<lambda>fs. Inr (draft_field d # fs))"
    using Cons.prems draft_bytes_ok(2) [of d] by (simp add: consumeWireFields_bytes draft_field_def)
  finally show ?case
    using Cons by (cases "consumeWireFields rest") simp_all
qed (cases "consumeWireFields rest"; simp add: drafts_bytes_def)

lemma userCurrentPlanPayload_fields:
  assumes "validCanonicalUUID pid" "\<forall>d\<in>set ds. draft_ok d"
  obtains out where "userCurrentPlanPayload pid rv created ds = Some out"
    "consumeWireFields out = Inr (\<lparr>number = 1, wire = 2, fvalue = 0, fbytes = bytes_of_string pid\<rparr>
       # \<lparr>number = 2, wire = 0, fvalue = word_of_nat rv, fbytes = []\<rparr>
       # \<lparr>number = 3, wire = 0, fvalue = 1, fbytes = []\<rparr>
       # map draft_field ds
       @ [\<lparr>number = 5, wire = 0, fvalue = word_of_int created, fbytes = []\<rparr>])"
proof -
  let ?out = "appendBytesField [] 1 (bytes_of_string pid) @ appendVarintField [] 2 (word_of_nat rv)
    @ appendVarintField [] 3 1 @ drafts_bytes ds @ appendVarintField [] 5 (word_of_int created) @ []"
  have "userCurrentPlanPayload pid rv created ds = Some ?out"
    using assms(2) by (simp add: userCurrentPlanPayload_def appendSegmentDrafts_eq
        appendVarintField_append [of "drafts_bytes ds"])
  moreover have "length (bytes_of_string pid) < 2 ^ 64"
    using validCanonicalUUID_length [OF assms(1)] by simp
  ultimately show thesis
    using assms(2) by (intro that [of ?out])
      (simp_all add: consumeWireFields_bytes consumeWireFields_varint consumeWireFields_drafts
        del: append_Nil2)
qed

lemma currentPlan_drafts:
  "\<forall>d\<in>set ds. draft_ok d \<Longrightarrow> for_each currentPlan_field (map draft_field ds) p
     = Inr (p\<lparr>segments := segments p @ map segment_of_draft ds\<rparr>)"
  by (induction ds arbitrary: p)
    (simp_all add: draft_field_def currentPlan_field_def draft_bytes_ok)

lemma segment_of_draft_scheduled:
  "draft_ok d \<Longrightarrow> seg_state (segment_of_draft d) = 1 \<Longrightarrow> scheduled_times (segment_of_draft d)"
  by (auto simp: draft_ok_def segment_of_draft_def scheduled_times_def split: if_splits option.splits)


lemma snapshotPlan_drafts:
  assumes "\<forall>d\<in>set ds. draft_ok d"
    "for_each segment_order_step (map segment_of_draft ds) (seen, prior) = Inr (seen', prior')"
  shows "for_each snapshotPlan_field (map draft_field ds) (m, seen, prior)
     = Inr (m\<lparr>sm_segments := sm_segments m @ map segment_of_draft ds\<rparr>, seen', prior')"
  using assms
proof (induction ds arbitrary: m seen prior)
  case (Cons d ds)
  let ?s = "segment_of_draft d"
  obtain seen1 prior1 where st: "segment_order_step ?s (seen, prior) = Inr (seen1, prior1)"
    "for_each segment_order_step (map segment_of_draft ds) (seen1, prior1) = Inr (seen', prior')"
    using Cons.prems by (auto simp: bindr_eq_Inr)
  have "snapshotPlan_field (draft_field d) (m, seen, prior)
      = Inr (m\<lparr>sm_segments := sm_segments m @ [?s]\<rparr>, seen1, prior1)"
    using Cons.prems st(1)
    by (auto simp: draft_field_def snapshotPlan_field_def snapshotPlan_segment_def Let_def
        draft_bytes_ok segment_order_step_def split: if_splits option.splits)
  then show ?case using Cons.IH [of seen1 prior1] Cons.prems st(2) by simp
qed simp

lemma userCurrentPlanPayload_parse:
  assumes "validCanonicalUUID pid" "0 < rv" "rv < 2 ^ 64" "fits_i64 created"
    "\<forall>d\<in>set ds. draft_ok d" "segments_ordered (map segment_of_draft ds)"
  obtains out where "userCurrentPlanPayload pid rv created ds = Some out"
    "parseUserCurrentPlan out = Inr \<lparr>planID = pid, planRevision = rv, origin = 1,
       segments = map segment_of_draft ds, createdAtUnixMS = created, sourceProposalID = []\<rparr>"
    "parseSnapshotCurrentPlan out = Inr \<lparr>sm_planID = pid, sm_revision = rv, sm_origin = 1,
       sm_sourceProposalID = [], sm_createdAtUnixMS = created, sm_segments = map segment_of_draft ds\<rparr>"
proof -
  obtain out where out: "userCurrentPlanPayload pid rv created ds = Some out"
    "consumeWireFields out = Inr (\<lparr>number = 1, wire = 2, fvalue = 0, fbytes = bytes_of_string pid\<rparr>
       # \<lparr>number = 2, wire = 0, fvalue = word_of_nat rv, fbytes = []\<rparr>
       # \<lparr>number = 3, wire = 0, fvalue = 1, fbytes = []\<rparr>
       # map draft_field ds
       @ [\<lparr>number = 5, wire = 0, fvalue = word_of_int created, fbytes = []\<rparr>])"
    using userCurrentPlanPayload_fields [OF assms(1,5)] .
  have rv: "unat (word_of_nat rv :: u64w) = rv" using assms(3) by (simp add: unat_of_nat)
  obtain seen prior where st:
    "for_each segment_order_step (map segment_of_draft ds) ([], None) = Inr (seen, prior)"
    using assms(5,6) segment_of_draft_scheduled segment_order_accepts [of "map segment_of_draft ds"]
    by fastforce
  show thesis
  proof (rule that [OF out(1)])
    show "parseUserCurrentPlan out = Inr \<lparr>planID = pid, planRevision = rv, origin = 1,
       segments = map segment_of_draft ds, createdAtUnixMS = created, sourceProposalID = []\<rparr>"
      using assms(1-5) rv st by (simp add: parseUserCurrentPlan_def parseCurrentPlanWithOrigin_def
          out(2) for_each_append currentPlan_drafts currentPlan_field_def emptyPlan_def)
    show "parseSnapshotCurrentPlan out = Inr \<lparr>sm_planID = pid, sm_revision = rv, sm_origin = 1,
       sm_sourceProposalID = [], sm_createdAtUnixMS = created, sm_segments = map segment_of_draft ds\<rparr>"
      using assms(1-5) rv st by (simp add: parseSnapshotCurrentPlan_def out(2) for_each_append
          snapshotPlan_drafts [where seen' = seen and prior' = prior] snapshotPlan_field_def emptyMetadata_def)
  qed
qed

text \<open>Whatever bytes a reader accepts, the accepted plan is well formed.\<close>

lemma parseCurrentPlanSegment_ok: "parseCurrentPlanSegment b = Inr s \<Longrightarrow> segment_ok s"
  by (auto simp: parseCurrentPlanSegment_def currentPlanSegment_check_def bindr_eq_Inr segment_ok_def
      split: if_splits)

lemma currentPlan_field_ok:
  "currentPlan_field f p = Inr q \<Longrightarrow> \<forall>s\<in>set (segments p). segment_ok s \<Longrightarrow>
     \<forall>s\<in>set (segments q). segment_ok s"
  by (auto simp: currentPlan_field_def bindr_eq_Inr dest: parseCurrentPlanSegment_ok
      split: if_splits)

lemma parseCurrentPlanWithOrigin_ok:
  assumes "parseCurrentPlanWithOrigin input expected source = Inr p"
  shows "\<forall>s\<in>set (segments p). segment_ok s" "segments_ordered (segments p)"
    "validCanonicalUUID (planID p)" "0 < planRevision p" "origin p = expected"
    "if source then validCanonicalUUID (sourceProposalID p) else sourceProposalID p = []"
proof -
  obtain fs st where fs: "for_each currentPlan_field fs emptyPlan = Inr p"
    and st: "for_each segment_order_step (segments p) ([], None) = Inr st"
    and rest: "validCanonicalUUID (planID p)" "planRevision p \<noteq> 0" "origin p = expected"
      "if source then validCanonicalUUID (sourceProposalID p) else sourceProposalID p = []"
    using assms by (auto simp: parseCurrentPlanWithOrigin_def bindr_eq_Inr split: if_splits)
  have ok: "\<forall>s\<in>set (segments p). segment_ok s"
    using fs by (rule for_each_invariant) (auto simp: emptyPlan_def dest: currentPlan_field_ok)
  then have "segments_ordered (segments p)"
    using st segment_order_accepts [of "segments p"] unfolding segment_ok_def
    by (metis numeral_One semiring_norm(83) numeral_eq_iff)
  then show "\<forall>s\<in>set (segments p). segment_ok s" "segments_ordered (segments p)"
    "validCanonicalUUID (planID p)" "0 < planRevision p" "origin p = expected"
    "if source then validCanonicalUUID (sourceProposalID p) else sourceProposalID p = []"
    using ok rest by auto
qed

lemma plan_metadata_inject: "plan_metadata p = plan_metadata q \<longleftrightarrow> p = q"
  by (cases p; cases q) (auto simp: plan_metadata_def)

lemma snapshotPlan_segment_step:
  "snapshotPlan_segment b (m, st) = Inr (m', st') \<longleftrightarrow>
     (\<exists>s. parseCurrentPlanSegment b = Inr s \<and> segment_order_step s st = Inr st' \<and>
        m' = m\<lparr>sm_segments := sm_segments m @ [s]\<rparr>)"
proof (cases "parseCurrentPlanSegment b")
  case (Inr s)
  show ?thesis
  proof (cases st)
    case (Pair seen prior)
    then show ?thesis
      using Inr by (cases "seg_start s"; cases "seg_end s"; cases prior)
        (auto simp: snapshotPlan_segment_def segment_order_step_def Let_def)
  qed
qed (cases st; simp add: snapshotPlan_segment_def)

lemma snapshotPlan_field_agrees:
  assumes "for_each segment_order_step (segments p) ([], None) = Inr st"
  shows "snapshotPlan_field f (plan_metadata p, st) = Inr (m', st') \<longleftrightarrow>
    (\<exists>q. currentPlan_field f p = Inr q \<and> m' = plan_metadata q \<and>
       for_each segment_order_step (segments q) ([], None) = Inr st')"
proof (cases "number f = 4")
  case True
  then show ?thesis
    using assms by (cases st) (auto simp: snapshotPlan_field_def currentPlan_field_def bindr_eq_Inr
        snapshotPlan_segment_step for_each_append plan_metadata_def)
next
  case False
  then show ?thesis
    using assms by (cases st) (auto simp: snapshotPlan_field_def currentPlan_field_def plan_metadata_def
        split: if_splits)
qed

lemma currentPlan_field_extends:
  "currentPlan_field f p = Inr q \<Longrightarrow> \<exists>ss. segments q = segments p @ ss"
  by (auto simp: currentPlan_field_def bindr_eq_Inr split: if_splits)

lemma currentPlan_fields_extend:
  "for_each currentPlan_field fs p = Inr q \<Longrightarrow> \<exists>ss. segments q = segments p @ ss"
proof (induction fs arbitrary: p)
  case (Cons f fs)
  then obtain r where r: "currentPlan_field f p = Inr r" "for_each currentPlan_field fs r = Inr q"
    by (auto simp: bindr_eq_Inr)
  then obtain ss ts where "segments r = segments p @ ss" "segments q = segments r @ ts"
    using Cons.IH currentPlan_field_extends by blast
  then show ?case by simp
qed simp

lemma snapshotPlan_fields_agree:
  assumes "for_each segment_order_step (segments p) ([], None) = Inr st"
  shows "for_each snapshotPlan_field fs (plan_metadata p, st) = Inr (m', st') \<longleftrightarrow>
    (\<exists>q. for_each currentPlan_field fs p = Inr q \<and> m' = plan_metadata q \<and>
       for_each segment_order_step (segments q) ([], None) = Inr st')"
  using assms
proof (induction fs arbitrary: p st)
  case Nil
  then show ?case by auto
next
  case (Cons f fs)
  show ?case (is "?L \<longleftrightarrow> ?R")
  proof
    assume ?L
    then obtain m1 st1 where m1: "snapshotPlan_field f (plan_metadata p, st) = Inr (m1, st1)"
      "for_each snapshotPlan_field fs (m1, st1) = Inr (m', st')"
      by (auto simp: bindr_eq_Inr)
    then obtain r where r: "currentPlan_field f p = Inr r" "m1 = plan_metadata r"
      "for_each segment_order_step (segments r) ([], None) = Inr st1"
      using snapshotPlan_field_agrees [OF Cons.prems] by auto
    then show ?R
      using Cons.IH [OF r(3)] m1(2) by simp
  next
    assume ?R
    then obtain r q where r: "currentPlan_field f p = Inr r" "for_each currentPlan_field fs r = Inr q"
      "m' = plan_metadata q" "for_each segment_order_step (segments q) ([], None) = Inr st'"
      by (auto simp: bindr_eq_Inr)
    then obtain st1 where st1: "for_each segment_order_step (segments r) ([], None) = Inr st1"
      using currentPlan_fields_extend [OF r(2)] by (auto simp: for_each_append bindr_eq_Inr)
    then have "snapshotPlan_field f (plan_metadata p, st) = Inr (plan_metadata r, st1)"
      using snapshotPlan_field_agrees [OF Cons.prems] r(1) by auto
    moreover have "for_each snapshotPlan_field fs (plan_metadata r, st1) = Inr (m', st')"
      using Cons.IH [OF st1] r by auto
    ultimately show ?L by simp
  qed
qed

section \<open>Properties\<close>

text \<open>
  C1. The two readers of a stored plan agree on every input: \<open>parseSnapshotCurrentPlan\<close>, which
  checks the segments while it reads them, accepts exactly the bytes that \<open>parseUserCurrentPlan\<close>
  or \<open>parseCurrentPlan\<close> accept, which check them afterwards, and returns the same plan.
\<close>

theorem plan_readers_agree:
  "parseSnapshotCurrentPlan b = Inr m \<longleftrightarrow>
     (\<exists>p. m = plan_metadata p \<and> (parseUserCurrentPlan b = Inr p \<or> parseCurrentPlan b = Inr p))"
proof (cases "consumeWireFields b")
  case (Inl e)
  then show ?thesis
    by (simp add: parseSnapshotCurrentPlan_def parseUserCurrentPlan_def parseCurrentPlan_def
        parseCurrentPlanWithOrigin_def)
next
  case (Inr fs)
  have e: "emptyMetadata = plan_metadata emptyPlan"
    by (simp add: emptyMetadata_def plan_metadata_def emptyPlan_def)
  have agree: "for_each snapshotPlan_field fs (emptyMetadata, [], None) = Inr (m', st') \<longleftrightarrow>
    (\<exists>q. for_each currentPlan_field fs emptyPlan = Inr q \<and> m' = plan_metadata q \<and>
       for_each segment_order_step (segments q) ([], None) = Inr st')" for m' st'
    unfolding e by (rule snapshotPlan_fields_agree) (simp add: emptyPlan_def)
  show ?thesis (is "?L \<longleftrightarrow> ?R")
  proof
    assume ?L
    then obtain st' where "for_each snapshotPlan_field fs (emptyMetadata, [], None) = Inr (m, st')"
      and c: "validCanonicalUUID (sm_planID m)" "sm_revision m \<noteq> 0"
        "sm_origin m = 1 \<and> sm_sourceProposalID m = [] \<or>
         sm_origin m = 2 \<and> validCanonicalUUID (sm_sourceProposalID m)"
      using Inr by (auto simp: parseSnapshotCurrentPlan_def bindr_eq_Inr split: if_splits)
    then obtain q where q: "for_each currentPlan_field fs emptyPlan = Inr q" "m = plan_metadata q"
      "for_each segment_order_step (segments q) ([], None) = Inr st'"
      using agree by auto
    then show ?R
      using Inr c by (intro exI [of _ q])
        (auto simp: parseUserCurrentPlan_def parseCurrentPlan_def parseCurrentPlanWithOrigin_def plan_metadata_def)
  next
    assume ?R
    then obtain p where p: "m = plan_metadata p" "parseUserCurrentPlan b = Inr p \<or> parseCurrentPlan b = Inr p"
      by auto
    then obtain st where "for_each currentPlan_field fs emptyPlan = Inr p"
      "for_each segment_order_step (segments p) ([], None) = Inr st"
      using Inr by (auto simp: parseUserCurrentPlan_def parseCurrentPlan_def parseCurrentPlanWithOrigin_def
          bindr_eq_Inr split: if_splits)
    then have "for_each snapshotPlan_field fs (emptyMetadata, [], None) = Inr (m, st)"
      using agree p(1) by auto
    then show ?L
      using Inr p by (auto simp: parseSnapshotCurrentPlan_def parseUserCurrentPlan_def parseCurrentPlan_def
          parseCurrentPlanWithOrigin_def bindr_eq_Inr plan_metadata_def split: if_splits)
  qed
qed

text \<open>
  C2. Every plan payload that \<open>userCurrentPlanPayload\<close> builds from valid, ordered segment drafts
  is read back by both readers as the plan it was built from.
\<close>

theorem user_plan_round_trip:
  assumes "validCanonicalUUID pid" "0 < rv" "rv < 2 ^ 64" "fits_i64 created"
    "\<forall>d\<in>set ds. draft_ok d" "segments_ordered (map segment_of_draft ds)"
  shows "\<exists>out. userCurrentPlanPayload pid rv created ds = Some out \<and>
    parseUserCurrentPlan out = Inr \<lparr>planID = pid, planRevision = rv, origin = 1,
      segments = map segment_of_draft ds, createdAtUnixMS = created, sourceProposalID = []\<rparr> \<and>
    parseSnapshotCurrentPlan out = Inr \<lparr>sm_planID = pid, sm_revision = rv, sm_origin = 1,
      sm_sourceProposalID = [], sm_createdAtUnixMS = created,
      sm_segments = map segment_of_draft ds\<rparr>"
  using userCurrentPlanPayload_parse [OF assms] by metis

definition sample_drafts :: "CanonicalPlanSegmentDraft list" where
  "sample_drafts =
     [\<lparr>dr_ActivityID = sample_uuid (CHR ''1''), dr_Scheduled = True,
        dr_Start = Some 1000, dr_End = Some 2000\<rparr>,
      \<lparr>dr_ActivityID = sample_uuid (CHR ''2''), dr_Scheduled = False,
        dr_Start = None, dr_End = None\<rparr>,
      \<lparr>dr_ActivityID = sample_uuid (CHR ''3''), dr_Scheduled = True,
        dr_Start = Some 2000, dr_End = Some 3000\<rparr>]"

lemma sample_drafts_ok:
  "\<forall>d\<in>set sample_drafts. draft_ok d" "segments_ordered (map segment_of_draft sample_drafts)"
  by (simp_all add: sample_drafts_def draft_ok_def fits_i64_def segments_ordered_def segment_of_draft_def)

theorem user_plan_round_trip_witness:
  "\<exists>out. userCurrentPlanPayload (sample_uuid (CHR ''9'')) 7 5000 sample_drafts = Some out \<and>
    parseUserCurrentPlan out = Inr \<lparr>planID = sample_uuid (CHR ''9''), planRevision = 7, origin = 1,
      segments = map segment_of_draft sample_drafts, createdAtUnixMS = 5000,
      sourceProposalID = []\<rparr> \<and>
    parseSnapshotCurrentPlan out = Inr \<lparr>sm_planID = sample_uuid (CHR ''9''), sm_revision = 7,
      sm_origin = 1, sm_sourceProposalID = [], sm_createdAtUnixMS = 5000,
      sm_segments = map segment_of_draft sample_drafts\<rparr>"
  using user_plan_round_trip [OF _ _ _ _ sample_drafts_ok, of "sample_uuid (CHR ''9'')" 7 5000]
  by (simp add: fits_i64_def)

text \<open>
  C3. Whatever bytes \<open>parseCurrentPlanWithOrigin\<close> accepts, the plan it returns is well formed:
  canonical identifiers, a positive revision, the expected origin and source, every segment either
  scheduled with \<open>start < end\<close> or omitted without times, no activity twice and no two scheduled
  segments overlapping.
\<close>

theorem accepted_plan_well_formed:
  assumes "parseCurrentPlanWithOrigin input expected source = Inr p"
  shows "validCanonicalUUID (planID p) \<and> 0 < planRevision p \<and> origin p = expected \<and>
    (if source then validCanonicalUUID (sourceProposalID p) else sourceProposalID p = []) \<and>
    list_all segment_ok (segments p) \<and> segments_ordered (segments p)"
  using parseCurrentPlanWithOrigin_ok [OF assms] by (auto simp: list_all_iff)

theorem accepted_plan_well_formed_witness:
  "\<exists>out p. userCurrentPlanPayload (sample_uuid (CHR ''9'')) 7 5000 sample_drafts = Some out \<and>
     parseCurrentPlanWithOrigin out 1 False = Inr p \<and> length (segments p) = 3 \<and>
     list_all segment_ok (segments p) \<and> segments_ordered (segments p)"
proof -
  obtain out where out: "userCurrentPlanPayload (sample_uuid (CHR ''9'')) 7 5000 sample_drafts = Some out"
    "parseUserCurrentPlan out = Inr \<lparr>planID = sample_uuid (CHR ''9''), planRevision = 7, origin = 1,
      segments = map segment_of_draft sample_drafts, createdAtUnixMS = 5000, sourceProposalID = []\<rparr>"
    using userCurrentPlanPayload_parse [OF _ _ _ _ sample_drafts_ok, of "sample_uuid (CHR ''9'')" 7 5000]
    by (auto simp: fits_i64_def)
  then show ?thesis
    using accepted_plan_well_formed [of out 1 False]
    by (auto simp: parseUserCurrentPlan_def sample_drafts_def)
qed

text \<open>
  C4. The field reader undoes the field writers: any sequence of varint and bytes fields that the
  encoders can write is read back field by field, and \<open>consumeWireFields\<close> consumes all of it.
\<close>

theorem wire_fields_round_trip:
  "\<forall>f\<in>set fs. field_ok f \<Longrightarrow> consumeWireFields (concat (map encode_field fs)) = Inr fs"
  by (rule fields.decs_concat)

theorem wire_fields_round_trip_witness:
  "consumeWireFields (concat (map encode_field
     [\<lparr>number = 5, wire = 0, fvalue = 300, fbytes = []\<rparr>,
      \<lparr>number = 6, wire = 2, fvalue = 0, fbytes = [1, 2, 255]\<rparr>]))
   = Inr [\<lparr>number = 5, wire = 0, fvalue = 300, fbytes = []\<rparr>,
      \<lparr>number = 6, wire = 2, fvalue = 0, fbytes = [1, 2, 255]\<rparr>]"
  by (rule wire_fields_round_trip) (simp add: field_ok_def)

end
