(* ===== verification/LR_Database.thy ===== *)
theory LR_Database
  imports LR_Prelude
begin

text \<open>
  The PostgreSQL schema the stores work on (\<open>migrations/00001\<close> to \<open>00004\<close>): one record per table row,
  the database as a record of tables, and the constraints of the schema. An \<open>INSERT\<close> is a function
  into \<open>db option\<close>: \<open>None\<close> is a violated constraint (primary key, \<open>UNIQUE\<close>, \<open>CHECK\<close>, foreign key, or a
  parameter outside the column's type). An \<open>UPDATE\<close> of \<open>trips\<close> re-checks the table's \<open>CHECK\<close>s in the
  same way; the other updates of the code write only values their constraints allow. Text columns
  with an enumerating \<open>CHECK\<close> are datatypes. A column that the modelled code never reads
  (\<open>users.display_name\<close>) is left out.

  Code outside the repository is the record \<open>ext\<close>: SHA-256, \<open>json.Valid\<close>, and the cast of a JSON
  text to \<open>jsonb\<close> (\<open>None\<close> when PostgreSQL refuses it) followed by its canonical text.
\<close>

record ext =
  sha256 :: "bytes \<Rightarrow> bytes"
  json_valid :: "bytes \<Rightarrow> bool"
  to_jsonb :: "bytes \<Rightarrow> bytes option"

type_synonym clock = "nat \<Rightarrow> time"

section \<open>Column types\<close>

datatype CommandKind =
    CommandCreateTrip
  | CommandActivityStatusChanged
  | CommandActivityDelayed
  | CommandReplaceCurrentPlan
  | CommandTripEdited
  | CommandReservationChanged
  | CommandMandatoryDeadlineChanged
  | CommandOperatingHoursChanged
  | CommandPlaceFoundClosed
  | CommandTravelDelay
  | CommandAcceptProposal
  | CommandRejectProposal
  | CommandOther string

datatype ActivityState =
    ActivityStatePlanned
  | ActivityStateStarted
  | ActivityStateCompleted
  | ActivityStateSkipped
  | ActivityStateOther string

datatype application_order = CanonicalFirst | RuntimeFirst

datatype intent_state = IntentPending | IntentApplied | IntentRejected | IntentExpired

datatype runtime_sync_state = NotRequired | SyncPending | Synced | SyncPausedInternal

datatype delivery_state =
  DeliveryPending | DeliveryPausedInternal | DeliveryAccepted | DeliveryTerminalRejected

datatype proposal_state =
  ProposalPending | ProposalAccepted | ProposalRejected | ProposalIsStale | ProposalSuperseded

datatype plan_origin = UserAuthored | AcceptedEngineProposal

datatype execution_state = ExecInactive | ExecActivating | ExecActive | ExecDeactivating

datatype float64 = NaN | PosInf | NegInf | Finite rat

section \<open>Rows\<close>

record trip_row =
  t_id :: uuid
  t_owner_user_id :: uuid
  t_default_time_zone_name :: string
  t_trip_revision :: i64
  t_next_mutation_sequence :: i64
  t_finalized_mutation_sequence :: i64
  t_current_plan_id :: "uuid option"
  t_updated_at :: time
  t_saved_plan_id :: "uuid option"
  t_execution_state :: execution_state
  t_active_execution_plan_id :: "uuid option"
  t_activated_at :: "time option"
  t_transition_operation_id :: "uuid option"
  t_trip_name :: string
  t_created_at :: time

record activity_row =
  a_id :: uuid
  a_trip_id :: uuid
  a_ordinal :: int
  a_place_id :: string
  a_display_name :: string
  a_latitude :: float64
  a_longitude :: float64
  a_time_zone_name :: string
  a_inbound_travel_mode :: string
  a_activity_class :: string
  a_activity_state :: ActivityState
  a_activity_delay_seconds :: int
  a_found_closed_at :: "time option"
  a_priority_rank :: int
  a_utility_score :: int
  a_reservation_start :: "time option"
  a_reservation_grace_seconds :: int
  a_mandatory_deadline :: "time option"
  a_min_duration_seconds :: int
  a_preferred_duration_seconds :: int
  a_max_duration_seconds :: int
  a_mandatory :: bool
  a_can_shorten :: bool
  a_can_move :: bool
  a_can_skip :: bool

record window_row =
  w_trip_id :: uuid
  w_activity_id :: uuid
  w_window_index :: int
  w_opens_at :: time
  w_closes_at :: time

record delay_row =
  y_trip_id :: uuid
  y_from_activity_id :: uuid
  y_to_activity_id :: uuid
  y_additional_seconds :: int
  y_observed_at :: time

record plan_row =
  p_id :: uuid
  p_trip_id :: uuid
  p_plan_revision :: i64
  p_origin :: plan_origin
  p_authored_by_user_id :: uuid
  p_source_proposal_id :: "uuid option"
  p_schema_version :: int
  p_payload :: bytes
  p_payload_size_bytes :: int
  p_checksum_sha256 :: bytes
  p_created_at :: time

record proposal_row =
  r_id :: uuid
  r_trip_id :: uuid
  r_base_current_plan_id :: uuid
  r_source_runtime_epoch :: i64
  r_source_planner_state_version :: i64
  r_source_trip_revision :: i64
  r_source_accepted_mutation_sequence :: i64
  r_schema_version :: int
  r_payload :: bytes
  r_payload_size_bytes :: int
  r_checksum_sha256 :: bytes
  r_state :: proposal_state
  r_decision_message_id :: "uuid option"
  r_resulting_current_plan_id :: "uuid option"
  r_created_at :: time
  r_decided_at :: "time option"

record intent_row =
  i_id :: uuid
  i_trip_id :: uuid
  i_message_id :: uuid
  i_event_id :: uuid
  i_mutation_sequence :: i64
  i_expected_trip_revision :: i64
  i_command_kind :: CommandKind
  i_application_order :: application_order
  i_command_expires_at :: "time option"
  i_digest_algorithm :: string
  i_payload_digest :: bytes
  i_command_payload :: bytes
  i_state :: intent_state
  i_outcome_status :: "string option"
  i_outcome_payload :: "bytes option"
  i_resulting_trip_revision :: "i64 option"
  i_resulting_current_plan_id :: "uuid option"
  i_resulting_planner_state_version :: "i64 option"
  i_planned_current_plan_id :: "uuid option"
  i_planned_current_plan_payload :: "bytes option"
  i_planned_current_plan_checksum :: "bytes option"
  i_runtime_sync_state :: runtime_sync_state
  i_recorded_at :: time
  i_finalized_at :: "time option"

record outbox_row =
  o_id :: uuid
  o_command_intent_id :: uuid
  o_trip_id :: uuid
  o_mutation_sequence :: i64
  o_event_schema_version :: int
  o_event_payload :: bytes
  o_delivery_state :: delivery_state
  o_attempt_count :: i64
  o_next_attempt_at :: time
  o_last_attempt_at :: "time option"
  o_last_status :: "string option"
  o_claim_owner :: "uuid option"
  o_claim_expires_at :: "time option"
  o_finalization_confirmed_at :: "time option"
  o_updated_at :: time

record snapshot_row =
  s_id :: uuid
  s_trip_id :: uuid
  s_snapshot_schema_version :: int
  s_source_runtime_epoch :: i64
  s_source_planner_state_version :: i64
  s_trip_revision :: i64
  s_covered_finalized_mutation_sequence :: i64
  s_payload_size_bytes :: int
  s_checksum_sha256 :: bytes
  s_payload :: bytes
  s_created_at :: time
  s_invalidated_at :: "time option"
  s_invalidation_reason :: "string option"

record lease_row =
  l_trip_id :: uuid
  l_holder_id :: uuid
  l_runtime_epoch :: i64
  l_lease_expires_at :: time
  l_renewed_at :: time

record db =
  users :: "uuid list"
  trips :: "trip_row list"
  trip_activities :: "activity_row list"
  activity_open_windows :: "window_row list"
  trip_travel_delays :: "delay_row list"
  itinerary_plans :: "plan_row list"
  plan_proposals :: "proposal_row list"
  command_intents :: "intent_row list"
  planner_outbox :: "outbox_row list"
  planner_snapshots :: "snapshot_row list"
  trip_runtime_leases :: "lease_row list"

section \<open>Row constraints\<close>

definition i32_ok :: "int \<Rightarrow> bool" where
  "i32_ok n \<longleftrightarrow> - 2147483648 \<le> n \<and> n \<le> int MaxInt32"

definition i64_ok :: "int \<Rightarrow> bool" where
  "i64_ok n \<longleftrightarrow> - 9223372036854775808 \<le> n \<and> n \<le> int MaxInt64"

text \<open>
  The check of an executing trip compares \<open>active_execution_plan_id = current_plan_id\<close>; PostgreSQL lets a row pass for
  which that is unknown, so it admits an executing trip without \<open>active_execution_plan_id\<close>. No statement of the
  stores writes such a row, and the model refuses it.
\<close>

definition trips_execution_lifecycle_check :: "trip_row \<Rightarrow> bool" where
  "trips_execution_lifecycle_check t = (case t_execution_state t of
     ExecInactive \<Rightarrow> t_active_execution_plan_id t = None \<and> t_activated_at t = None \<and>
       t_transition_operation_id t = None
   | ExecActive \<Rightarrow> t_current_plan_id t \<noteq> None \<and> t_active_execution_plan_id t = t_current_plan_id t \<and>
       t_activated_at t \<noteq> None \<and> t_transition_operation_id t = None
   | _ \<Rightarrow> t_current_plan_id t \<noteq> None \<and> t_active_execution_plan_id t = t_current_plan_id t \<and>
       t_activated_at t \<noteq> None \<and> t_transition_operation_id t \<noteq> None)"

text \<open>\<open>octet_length(btrim(trip_name)) BETWEEN 1 AND 120\<close>; \<open>btrim\<close> removes spaces only.\<close>

definition btrim :: "string \<Rightarrow> string" where
  "btrim s = rev (dropWhile (\<lambda>c. c = CHR '' '') (rev (dropWhile (\<lambda>c. c = CHR '' '') s)))"

definition trips_name_check :: "trip_row \<Rightarrow> bool" where
  "trips_name_check t \<longleftrightarrow> btrim (t_trip_name t) \<noteq> [] \<and> length (btrim (t_trip_name t)) \<le> 120"

definition trip_check :: "trip_row \<Rightarrow> bool" where
  "trip_check t \<longleftrightarrow> 0 \<le> t_trip_revision t \<and> 1 \<le> t_next_mutation_sequence t \<and>
     0 \<le> t_finalized_mutation_sequence t \<and>
     i64_ok (t_trip_revision t) \<and> i64_ok (t_next_mutation_sequence t) \<and>
     i64_ok (t_finalized_mutation_sequence t) \<and>
     (t_saved_plan_id t \<noteq> None \<or> t_current_plan_id t \<noteq> None) \<and>
     trips_name_check t \<and> trips_execution_lifecycle_check t"

definition activity_check :: "activity_row \<Rightarrow> bool" where
  "activity_check a \<longleftrightarrow> 0 \<le> a_ordinal a \<and> i32_ok (a_ordinal a) \<and>
     a_inbound_travel_mode a \<in> {''walking'', ''driving''} \<and>
     a_activity_class a \<in> {''fixed'', ''flexible''} \<and>
     a_activity_state a \<in> {ActivityStatePlanned, ActivityStateStarted, ActivityStateCompleted,
       ActivityStateSkipped} \<and>
     0 \<le> a_activity_delay_seconds a \<and> i32_ok (a_activity_delay_seconds a) \<and>
     i32_ok (a_priority_rank a) \<and> i32_ok (a_utility_score a) \<and>
     0 \<le> a_reservation_grace_seconds a \<and> i32_ok (a_reservation_grace_seconds a) \<and>
     0 \<le> a_min_duration_seconds a \<and> a_min_duration_seconds a \<le> a_preferred_duration_seconds a \<and>
     a_preferred_duration_seconds a \<le> a_max_duration_seconds a \<and>
     i32_ok (a_max_duration_seconds a)"

definition window_check :: "window_row \<Rightarrow> bool" where
  "window_check w \<longleftrightarrow> 0 \<le> w_window_index w \<and> i32_ok (w_window_index w) \<and>
     w_opens_at w < w_closes_at w"

definition delay_check :: "delay_row \<Rightarrow> bool" where
  "delay_check y \<longleftrightarrow> 0 \<le> y_additional_seconds y \<and> i32_ok (y_additional_seconds y)"

definition plan_check :: "plan_row \<Rightarrow> bool" where
  "plan_check p \<longleftrightarrow> 0 < p_plan_revision p \<and> i64_ok (p_plan_revision p) \<and> p_schema_version p = 1 \<and>
     0 \<le> p_payload_size_bytes p \<and> i32_ok (p_payload_size_bytes p) \<and>
     length (p_checksum_sha256 p) = 32 \<and>
     (p_origin p = UserAuthored \<and> p_source_proposal_id p = None \<or>
      p_origin p = AcceptedEngineProposal \<and> p_source_proposal_id p \<noteq> None)"

definition proposal_check :: "proposal_row \<Rightarrow> bool" where
  "proposal_check r \<longleftrightarrow> 0 < r_source_runtime_epoch r \<and> 0 \<le> r_source_planner_state_version r \<and>
     1 \<le> r_source_trip_revision r \<and> 1 \<le> r_source_accepted_mutation_sequence r \<and>
     r_schema_version r = 1 \<and> 0 \<le> r_payload_size_bytes r \<and> i32_ok (r_payload_size_bytes r) \<and>
     length (r_checksum_sha256 r) = 32 \<and>
     (r_state r = ProposalPending \<longleftrightarrow> r_decided_at r = None) \<and>
     (r_state r = ProposalAccepted \<longleftrightarrow> r_resulting_current_plan_id r \<noteq> None)"

definition canonical_kind :: "CommandKind \<Rightarrow> bool" where
  "canonical_kind k \<longleftrightarrow> k \<in> {CommandCreateTrip, CommandTripEdited, CommandReplaceCurrentPlan}"

definition known_kind :: "CommandKind \<Rightarrow> bool" where
  "known_kind k = (case k of CommandOther s \<Rightarrow> False | _ \<Rightarrow> True)"

definition intent_check :: "intent_row \<Rightarrow> bool" where
  "intent_check i \<longleftrightarrow> 0 < i_mutation_sequence i \<and> i64_ok (i_mutation_sequence i) \<and>
     0 \<le> i_expected_trip_revision i \<and> i64_ok (i_expected_trip_revision i) \<and>
     known_kind (i_command_kind i) \<and>
     i_digest_algorithm i = ''rfc8785-sha256-v1'' \<and> length (i_payload_digest i) = 32 \<and>
     (case i_planned_current_plan_checksum i of None \<Rightarrow> True | Some c \<Rightarrow> length c = 32) \<and>
     (if i_command_kind i = CommandAcceptProposal
      then i_planned_current_plan_id i \<noteq> None \<and> i_planned_current_plan_payload i \<noteq> None \<and>
           i_planned_current_plan_checksum i \<noteq> None
      else i_planned_current_plan_id i = None \<and> i_planned_current_plan_payload i = None \<and>
           i_planned_current_plan_checksum i = None) \<and>
     (i_application_order i = CanonicalFirst \<longleftrightarrow> canonical_kind (i_command_kind i)) \<and>
     (i_application_order i = CanonicalFirst \<longleftrightarrow> i_resulting_current_plan_id i \<noteq> None)"

definition outbox_check :: "outbox_row \<Rightarrow> bool" where
  "outbox_check b \<longleftrightarrow> o_event_schema_version b = 1 \<and> 0 \<le> o_attempt_count b \<and>
     i64_ok (o_attempt_count b) \<and> i64_ok (o_mutation_sequence b)"

definition snapshot_check :: "snapshot_row \<Rightarrow> bool" where
  "snapshot_check s \<longleftrightarrow> s_snapshot_schema_version s = 1 \<and> 0 < s_source_runtime_epoch s \<and>
     0 \<le> s_source_planner_state_version s \<and> 0 \<le> s_trip_revision s \<and>
     0 \<le> s_covered_finalized_mutation_sequence s \<and> 0 \<le> s_payload_size_bytes s \<and>
     i32_ok (s_payload_size_bytes s) \<and> length (s_checksum_sha256 s) = 32"

definition lease_check :: "lease_row \<Rightarrow> bool" where
  "lease_check l \<longleftrightarrow> 0 < l_runtime_epoch l \<and> i64_ok (l_runtime_epoch l)"

section \<open>Table keys\<close>

abbreviation intent_message :: "intent_row \<Rightarrow> uuid \<times> uuid" where
  "intent_message i \<equiv> (i_trip_id i, i_message_id i)"

abbreviation intent_event :: "intent_row \<Rightarrow> uuid \<times> uuid" where
  "intent_event i \<equiv> (i_trip_id i, i_event_id i)"

abbreviation intent_sequence :: "intent_row \<Rightarrow> uuid \<times> i64" where
  "intent_sequence i \<equiv> (i_trip_id i, i_mutation_sequence i)"

abbreviation outbox_sequence :: "outbox_row \<Rightarrow> uuid \<times> i64" where
  "outbox_sequence b \<equiv> (o_trip_id b, o_mutation_sequence b)"

abbreviation plan_revision_key :: "plan_row \<Rightarrow> uuid \<times> i64" where
  "plan_revision_key p \<equiv> (p_trip_id p, p_plan_revision p)"

abbreviation activity_ordinal_key :: "activity_row \<Rightarrow> uuid \<times> int" where
  "activity_ordinal_key a \<equiv> (a_trip_id a, a_ordinal a)"

abbreviation window_key :: "window_row \<Rightarrow> uuid \<times> int" where
  "window_key w \<equiv> (w_activity_id w, w_window_index w)"

abbreviation delay_key :: "delay_row \<Rightarrow> uuid \<times> uuid \<times> uuid" where
  "delay_key y \<equiv> (y_trip_id y, y_from_activity_id y, y_to_activity_id y)"

abbreviation snapshot_key :: "snapshot_row \<Rightarrow> uuid \<times> i64 \<times> i64 \<times> i64" where
  "snapshot_key s \<equiv> (s_trip_id s, s_source_runtime_epoch s, s_source_planner_state_version s,
     s_covered_finalized_mutation_sequence s)"

definition pending_of :: "uuid \<Rightarrow> proposal_row \<Rightarrow> bool" where
  "pending_of tid r \<longleftrightarrow> r_trip_id r = tid \<and> r_state r = ProposalPending"

definition fresh_in :: "('r \<Rightarrow> 'k) \<Rightarrow> 'r \<Rightarrow> 'r list \<Rightarrow> bool" where
  "fresh_in key r t \<longleftrightarrow> key r \<notin> set (map key t)"

section \<open>Statements\<close>

definition trip_exists :: "uuid \<Rightarrow> db \<Rightarrow> bool" where
  "trip_exists tid d = sql_exists (\<lambda>t. t_id t = tid) (trips d)"

definition activity_exists :: "uuid \<Rightarrow> uuid \<Rightarrow> db \<Rightarrow> bool" where
  "activity_exists tid aid d =
     sql_exists (\<lambda>a. a_trip_id a = tid \<and> a_id a = aid) (trip_activities d)"

definition plan_exists :: "uuid \<Rightarrow> uuid \<Rightarrow> db \<Rightarrow> bool" where
  "plan_exists tid pid d = sql_exists (\<lambda>p. p_trip_id p = tid \<and> p_id p = pid) (itinerary_plans d)"

definition insert_trip :: "trip_row \<Rightarrow> db \<Rightarrow> db option" where
  "insert_trip t d = (if trip_check t \<and> fresh_in t_id t (trips d) \<and> t_owner_user_id t \<in> set (users d)
     then Some (d\<lparr>trips := trips d @ [t]\<rparr>) else None)"

definition insert_activity :: "activity_row \<Rightarrow> db \<Rightarrow> db option" where
  "insert_activity a d = (if activity_check a \<and> trip_exists (a_trip_id a) d \<and>
       fresh_in a_id a (trip_activities d) \<and> fresh_in activity_ordinal_key a (trip_activities d)
     then Some (d\<lparr>trip_activities := trip_activities d @ [a]\<rparr>) else None)"

definition insert_window :: "window_row \<Rightarrow> db \<Rightarrow> db option" where
  "insert_window w d = (if window_check w \<and> activity_exists (w_trip_id w) (w_activity_id w) d \<and>
       fresh_in window_key w (activity_open_windows d)
     then Some (d\<lparr>activity_open_windows := activity_open_windows d @ [w]\<rparr>) else None)"

definition insert_delay :: "delay_row \<Rightarrow> db \<Rightarrow> db option" where
  "insert_delay y d = (if delay_check y \<and> trip_exists (y_trip_id y) d \<and>
       activity_exists (y_trip_id y) (y_from_activity_id y) d \<and>
       activity_exists (y_trip_id y) (y_to_activity_id y) d \<and>
       fresh_in delay_key y (trip_travel_delays d)
     then Some (d\<lparr>trip_travel_delays := trip_travel_delays d @ [y]\<rparr>) else None)"

definition insert_plan :: "plan_row \<Rightarrow> db \<Rightarrow> db option" where
  "insert_plan p d = (if plan_check p \<and> trip_exists (p_trip_id p) d \<and>
       p_authored_by_user_id p \<in> set (users d) \<and>
       fresh_in p_id p (itinerary_plans d) \<and> fresh_in plan_revision_key p (itinerary_plans d)
     then Some (d\<lparr>itinerary_plans := itinerary_plans d @ [p]\<rparr>) else None)"

definition insert_proposal :: "proposal_row \<Rightarrow> db \<Rightarrow> db option" where
  "insert_proposal r d = (if proposal_check r \<and> trip_exists (r_trip_id r) d \<and>
       plan_exists (r_trip_id r) (r_base_current_plan_id r) d \<and>
       fresh_in r_id r (plan_proposals d) \<and>
       (r_state r = ProposalPending \<longrightarrow> \<not> sql_exists (pending_of (r_trip_id r)) (plan_proposals d))
     then Some (d\<lparr>plan_proposals := plan_proposals d @ [r]\<rparr>) else None)"

definition insert_intent :: "intent_row \<Rightarrow> db \<Rightarrow> db option" where
  "insert_intent i d = (if intent_check i \<and> trip_exists (i_trip_id i) d \<and>
       (case i_resulting_current_plan_id i of None \<Rightarrow> True | Some pid \<Rightarrow> plan_exists (i_trip_id i) pid d) \<and>
       fresh_in i_id i (command_intents d) \<and> fresh_in intent_message i (command_intents d) \<and>
       fresh_in intent_event i (command_intents d) \<and> fresh_in intent_sequence i (command_intents d)
     then Some (d\<lparr>command_intents := command_intents d @ [i]\<rparr>) else None)"

definition insert_outbox :: "outbox_row \<Rightarrow> db \<Rightarrow> db option" where
  "insert_outbox b d = (if outbox_check b \<and> trip_exists (o_trip_id b) d \<and>
       sql_exists (\<lambda>i. i_id i = o_command_intent_id b) (command_intents d) \<and>
       fresh_in o_id b (planner_outbox d) \<and> fresh_in o_command_intent_id b (planner_outbox d) \<and>
       fresh_in outbox_sequence b (planner_outbox d)
     then Some (d\<lparr>planner_outbox := planner_outbox d @ [b]\<rparr>) else None)"

definition insert_snapshot :: "snapshot_row \<Rightarrow> db \<Rightarrow> db option" where
  "insert_snapshot s d = (if snapshot_check s \<and> trip_exists (s_trip_id s) d \<and>
       fresh_in s_id s (planner_snapshots d) \<and> fresh_in snapshot_key s (planner_snapshots d)
     then Some (d\<lparr>planner_snapshots := planner_snapshots d @ [s]\<rparr>) else None)"

definition insert_lease :: "lease_row \<Rightarrow> db \<Rightarrow> db option" where
  "insert_lease l d = (if lease_check l \<and> trip_exists (l_trip_id l) d \<and>
       fresh_in l_trip_id l (trip_runtime_leases d)
     then Some (d\<lparr>trip_runtime_leases := trip_runtime_leases d @ [l]\<rparr>) else None)"

text \<open>\<open>UPDATE trips SET ... WHERE id = $1\<close>: fails when an updated row violates a \<open>CHECK\<close>.\<close>

definition update_trip :: "uuid \<Rightarrow> (trip_row \<Rightarrow> trip_row) \<Rightarrow> db \<Rightarrow> db option" where
  "update_trip tid f d =
     (if list_all (\<lambda>t. t_id t = tid \<longrightarrow> trip_check (f t)) (trips d)
      then Some (d\<lparr>trips := sql_update (\<lambda>t. t_id t = tid) f (trips d)\<rparr>) else None)"

definition update_intent :: "uuid \<Rightarrow> (intent_row \<Rightarrow> intent_row) \<Rightarrow> db \<Rightarrow> db" where
  "update_intent iid f d =
     d\<lparr>command_intents := sql_update (\<lambda>i. i_id i = iid) f (command_intents d)\<rparr>"

definition update_outbox :: "(outbox_row \<Rightarrow> bool) \<Rightarrow> (outbox_row \<Rightarrow> outbox_row) \<Rightarrow> db \<Rightarrow> db" where
  "update_outbox P f d = d\<lparr>planner_outbox := sql_update P f (planner_outbox d)\<rparr>"

definition update_proposals ::
  "(proposal_row \<Rightarrow> bool) \<Rightarrow> (proposal_row \<Rightarrow> proposal_row) \<Rightarrow> db \<Rightarrow> db" where
  "update_proposals P f d = d\<lparr>plan_proposals := sql_update P f (plan_proposals d)\<rparr>"

definition find_trip :: "uuid \<Rightarrow> db \<Rightarrow> trip_row option" where
  "find_trip tid d = query_row (\<lambda>t. t_id t = tid) (trips d)"

definition find_lease :: "uuid \<Rightarrow> db \<Rightarrow> lease_row option" where
  "find_lease tid d = query_row (\<lambda>l. l_trip_id l = tid) (trip_runtime_leases d)"

text \<open>An error of a statement is wrapped with the text the code gives it.\<close>

definition exec_sql :: "string \<Rightarrow> 'a option \<Rightarrow> 'a result" where
  "exec_sql label m = (case m of None \<Rightarrow> Inl (ErrSQL label) | Some x \<Rightarrow> Inr x)"

definition millis :: "int \<Rightarrow> int" where "millis n = n * 1000"

text \<open>\<open>date_trunc('milliseconds', t)\<close> and \<open>t.UnixMilli()\<close>.\<close>

definition trunc_millis :: "time \<Rightarrow> time" where "trunc_millis t = (t div 1000) * 1000"
definition UnixMilli :: "time \<Rightarrow> i64" where "UnixMilli t = t div 1000"

section \<open>The schema invariant\<close>

definition trips_ok :: "trip_row list \<Rightarrow> bool" where
  "trips_ok ts \<longleftrightarrow> distinct (map t_id ts) \<and> list_all trip_check ts"

definition activities_ok :: "activity_row list \<Rightarrow> bool" where
  "activities_ok ts \<longleftrightarrow> distinct (map a_id ts) \<and> distinct (map activity_ordinal_key ts) \<and>
     list_all activity_check ts"

definition windows_ok :: "window_row list \<Rightarrow> bool" where
  "windows_ok ts \<longleftrightarrow> distinct (map window_key ts) \<and> list_all window_check ts"

definition delays_ok :: "delay_row list \<Rightarrow> bool" where
  "delays_ok ts \<longleftrightarrow> distinct (map delay_key ts) \<and> list_all delay_check ts"

definition plans_ok :: "plan_row list \<Rightarrow> bool" where
  "plans_ok ts \<longleftrightarrow> distinct (map p_id ts) \<and> distinct (map plan_revision_key ts) \<and>
     list_all plan_check ts"

definition proposals_ok :: "proposal_row list \<Rightarrow> bool" where
  "proposals_ok ts \<longleftrightarrow> distinct (map r_id ts) \<and> list_all proposal_check ts \<and>
     distinct (map r_trip_id (filter (\<lambda>r. r_state r = ProposalPending) ts))"

definition intents_ok :: "intent_row list \<Rightarrow> bool" where
  "intents_ok ts \<longleftrightarrow> distinct (map i_id ts) \<and> distinct (map intent_message ts) \<and>
     distinct (map intent_event ts) \<and> distinct (map intent_sequence ts) \<and> list_all intent_check ts"

definition outbox_ok :: "outbox_row list \<Rightarrow> bool" where
  "outbox_ok ts \<longleftrightarrow> distinct (map o_id ts) \<and> distinct (map o_command_intent_id ts) \<and>
     distinct (map outbox_sequence ts) \<and> list_all outbox_check ts"

definition snapshots_ok :: "snapshot_row list \<Rightarrow> bool" where
  "snapshots_ok ts \<longleftrightarrow> distinct (map s_id ts) \<and> distinct (map snapshot_key ts) \<and>
     list_all snapshot_check ts"

definition leases_ok :: "lease_row list \<Rightarrow> bool" where
  "leases_ok ts \<longleftrightarrow> distinct (map l_trip_id ts) \<and> list_all lease_check ts"

definition schema_ok :: "db \<Rightarrow> bool" where
  "schema_ok d \<longleftrightarrow> trips_ok (trips d) \<and> activities_ok (trip_activities d) \<and>
     windows_ok (activity_open_windows d) \<and> delays_ok (trip_travel_delays d) \<and>
     plans_ok (itinerary_plans d) \<and> proposals_ok (plan_proposals d) \<and>
     intents_ok (command_intents d) \<and> outbox_ok (planner_outbox d) \<and>
     snapshots_ok (planner_snapshots d) \<and> leases_ok (trip_runtime_leases d)"

definition empty_db :: "uuid list \<Rightarrow> db" where
  "empty_db us = \<lparr>users = us, trips = [], trip_activities = [], activity_open_windows = [],
     trip_travel_delays = [], itinerary_plans = [], plan_proposals = [], command_intents = [],
     planner_outbox = [], planner_snapshots = [], trip_runtime_leases = []\<rparr>"

lemma exec_sql_simps [simp]:
  "exec_sql label None = Inl (ErrSQL label)"
  "exec_sql label (Some x) = Inr x"
  by (simp_all add: exec_sql_def)

lemma exec_sql_eq_Inr [simp]: "exec_sql label m = Inr x \<longleftrightarrow> m = Some x"
  by (cases m) auto

lemma distinct_snoc_fresh: "distinct (map key t) \<Longrightarrow> fresh_in key r t \<Longrightarrow> distinct (map key (t @ [r]))"
  by (simp add: fresh_in_def)

lemma distinct_update:
  "distinct (map key t) \<Longrightarrow> (\<And>r. key (f r) = key r) \<Longrightarrow> distinct (map key (sql_update P f t))"
  by (simp add: sql_update_key_map)

lemma list_all_update:
  "list_all Q t \<Longrightarrow> (\<And>r. r \<in> set t \<Longrightarrow> P r \<Longrightarrow> Q r \<Longrightarrow> Q (f r)) \<Longrightarrow> list_all Q (sql_update P f t)"
  by (auto simp: list_all_iff sql_update_def)

lemma list_all_delete: "list_all Q t \<Longrightarrow> list_all Q (sql_delete P t)"
  by (auto simp: list_all_iff sql_delete_def)

text \<open>An update that keeps the key, or empties it, keeps a partial unique index.\<close>

lemma distinct_filter_update:
  assumes "distinct (map key (filter Q t))"
    "\<And>r. P r \<Longrightarrow> key (f r) = key r" "\<And>r. P r \<Longrightarrow> Q (f r) \<Longrightarrow> Q r"
  shows "distinct (map key (filter Q (sql_update P f t)))"
proof -
  have sub: "set (map key (filter Q (sql_update P f t))) \<subseteq> set (map key (filter Q t))" for t
    using assms(2,3) by (fastforce simp: sql_update_def image_iff)
  show ?thesis
    using assms(1)
  proof (induction t)
    case (Cons r t)
    then show ?case
      using assms(2,3) [of r] sub [of t]
      by (cases "P r"; cases "Q r"; cases "Q (f r)") (auto simp: sql_update_def)
  qed (simp add: sql_update_def)
qed

lemma tables_snoc:
  "trips_ok ts \<Longrightarrow> trip_check t \<Longrightarrow> fresh_in t_id t ts \<Longrightarrow> trips_ok (ts @ [t])"
  "activities_ok as \<Longrightarrow> activity_check a \<Longrightarrow> fresh_in a_id a as \<Longrightarrow>
     fresh_in activity_ordinal_key a as \<Longrightarrow> activities_ok (as @ [a])"
  "windows_ok ws \<Longrightarrow> window_check w \<Longrightarrow> fresh_in window_key w ws \<Longrightarrow> windows_ok (ws @ [w])"
  "delays_ok ys \<Longrightarrow> delay_check y \<Longrightarrow> fresh_in delay_key y ys \<Longrightarrow> delays_ok (ys @ [y])"
  "plans_ok ps \<Longrightarrow> plan_check p \<Longrightarrow> fresh_in p_id p ps \<Longrightarrow> fresh_in plan_revision_key p ps \<Longrightarrow>
     plans_ok (ps @ [p])"
  "snapshots_ok ss \<Longrightarrow> snapshot_check s \<Longrightarrow> fresh_in s_id s ss \<Longrightarrow> fresh_in snapshot_key s ss \<Longrightarrow>
     snapshots_ok (ss @ [s])"
  "leases_ok ls \<Longrightarrow> lease_check l \<Longrightarrow> fresh_in l_trip_id l ls \<Longrightarrow> leases_ok (ls @ [l])"
  by (simp_all add: trips_ok_def activities_ok_def windows_ok_def delays_ok_def plans_ok_def
      snapshots_ok_def leases_ok_def fresh_in_def)

lemma intents_ok_snoc:
  "intents_ok is \<Longrightarrow> intent_check i \<Longrightarrow> fresh_in i_id i is \<Longrightarrow> fresh_in intent_message i is \<Longrightarrow>
     fresh_in intent_event i is \<Longrightarrow> fresh_in intent_sequence i is \<Longrightarrow> intents_ok (is @ [i])"
  by (simp add: intents_ok_def fresh_in_def)

lemma outbox_ok_snoc:
  "outbox_ok bs \<Longrightarrow> outbox_check b \<Longrightarrow> fresh_in o_id b bs \<Longrightarrow> fresh_in o_command_intent_id b bs \<Longrightarrow>
     fresh_in outbox_sequence b bs \<Longrightarrow> outbox_ok (bs @ [b])"
  by (simp add: outbox_ok_def fresh_in_def)

lemma proposals_ok_snoc:
  "proposals_ok rs \<Longrightarrow> proposal_check r \<Longrightarrow> fresh_in r_id r rs \<Longrightarrow>
     (r_state r = ProposalPending \<Longrightarrow> \<not> sql_exists (pending_of (r_trip_id r)) rs) \<Longrightarrow>
     proposals_ok (rs @ [r])"
  by (auto simp: proposals_ok_def fresh_in_def pending_of_def sql_exists_iff)

lemma schema_insert_trip: "insert_trip t d = Some d' \<Longrightarrow> schema_ok d \<Longrightarrow> schema_ok d'"
  unfolding insert_trip_def by (auto simp: schema_ok_def tables_snoc split: if_splits)

lemma schema_insert_activity: "insert_activity a d = Some d' \<Longrightarrow> schema_ok d \<Longrightarrow> schema_ok d'"
  unfolding insert_activity_def by (auto simp: schema_ok_def tables_snoc split: if_splits)

lemma schema_insert_window: "insert_window w d = Some d' \<Longrightarrow> schema_ok d \<Longrightarrow> schema_ok d'"
  unfolding insert_window_def by (auto simp: schema_ok_def tables_snoc split: if_splits)

lemma schema_insert_delay: "insert_delay y d = Some d' \<Longrightarrow> schema_ok d \<Longrightarrow> schema_ok d'"
  unfolding insert_delay_def by (auto simp: schema_ok_def tables_snoc split: if_splits)

lemma schema_insert_plan: "insert_plan p d = Some d' \<Longrightarrow> schema_ok d \<Longrightarrow> schema_ok d'"
  unfolding insert_plan_def by (auto simp: schema_ok_def tables_snoc split: if_splits)

lemma schema_insert_intent: "insert_intent i d = Some d' \<Longrightarrow> schema_ok d \<Longrightarrow> schema_ok d'"
  unfolding insert_intent_def by (auto simp: schema_ok_def intents_ok_snoc split: if_splits)

lemma schema_insert_outbox: "insert_outbox b d = Some d' \<Longrightarrow> schema_ok d \<Longrightarrow> schema_ok d'"
  unfolding insert_outbox_def by (auto simp: schema_ok_def outbox_ok_snoc split: if_splits)

lemma schema_insert_snapshot: "insert_snapshot s d = Some d' \<Longrightarrow> schema_ok d \<Longrightarrow> schema_ok d'"
  unfolding insert_snapshot_def by (auto simp: schema_ok_def tables_snoc split: if_splits)

lemma schema_insert_lease: "insert_lease l d = Some d' \<Longrightarrow> schema_ok d \<Longrightarrow> schema_ok d'"
  unfolding insert_lease_def by (auto simp: schema_ok_def tables_snoc split: if_splits)

lemma schema_insert_proposal: "insert_proposal r d = Some d' \<Longrightarrow> schema_ok d \<Longrightarrow> schema_ok d'"
  unfolding insert_proposal_def
  by (auto simp: schema_ok_def intro: proposals_ok_snoc split: if_splits)

lemmas schema_inserts = schema_insert_trip schema_insert_activity schema_insert_window
  schema_insert_delay schema_insert_plan schema_insert_intent schema_insert_outbox
  schema_insert_snapshot schema_insert_lease schema_insert_proposal

lemma schema_update_trip:
  assumes "schema_ok d" "update_trip tid f d = Some d'" "\<And>t. t_id (f t) = t_id t"
  shows "schema_ok d'"
  using assms by (auto simp: schema_ok_def trips_ok_def update_trip_def sql_update_key_map list_all_iff
      sql_simps split: if_splits)

lemma intents_ok_update:
  assumes "intents_ok t"
    "\<And>i. intent_message (f i) = intent_message i" "\<And>i. intent_event (f i) = intent_event i"
    "\<And>i. intent_sequence (f i) = intent_sequence i" "\<And>i. i_id (f i) = i_id i"
    "\<And>i. intent_check i \<Longrightarrow> intent_check (f i)"
  shows "intents_ok (sql_update P f t)"
  unfolding intents_ok_def
  by (intro conjI distinct_update list_all_update) (use assms in \<open>auto simp: intents_ok_def\<close>)

lemma outbox_ok_update:
  assumes "outbox_ok t"
    "\<And>b. o_id (f b) = o_id b" "\<And>b. o_command_intent_id (f b) = o_command_intent_id b"
    "\<And>b. outbox_sequence (f b) = outbox_sequence b"
    "\<And>b. b \<in> set t \<Longrightarrow> P b \<Longrightarrow> outbox_check b \<Longrightarrow> outbox_check (f b)"
  shows "outbox_ok (sql_update P f t)"
  unfolding outbox_ok_def
  by (intro conjI distinct_update list_all_update) (use assms in \<open>auto simp: outbox_ok_def\<close>)

lemma schema_update_intent:
  assumes "schema_ok d"
    "\<And>i. intent_message (f i) = intent_message i" "\<And>i. intent_event (f i) = intent_event i"
    "\<And>i. intent_sequence (f i) = intent_sequence i" "\<And>i. i_id (f i) = i_id i"
    "\<And>i. intent_check i \<Longrightarrow> intent_check (f i)"
  shows "schema_ok (update_intent iid f d)"
  using intents_ok_update [OF _ assms(2-6), of "command_intents d" "\<lambda>i. i_id i = iid"] assms(1)
  by (simp add: schema_ok_def update_intent_def)

lemma schema_update_outbox:
  assumes "schema_ok d"
    "\<And>b. o_id (f b) = o_id b" "\<And>b. o_command_intent_id (f b) = o_command_intent_id b"
    "\<And>b. outbox_sequence (f b) = outbox_sequence b"
    "\<And>b. b \<in> set (planner_outbox d) \<Longrightarrow> P b \<Longrightarrow> outbox_check b \<Longrightarrow> outbox_check (f b)"
  shows "schema_ok (update_outbox P f d)"
proof -
  have "outbox_ok (planner_outbox d)" using assms(1) by (simp add: schema_ok_def)
  from outbox_ok_update [OF this assms(2-5)] show ?thesis using assms(1) by (simp add: schema_ok_def update_outbox_def)
qed

lemma schema_update_proposals:
  assumes "schema_ok d" "\<And>r. r_id (f r) = r_id r" "\<And>r. r_trip_id (f r) = r_trip_id r"
    "\<And>r. r \<in> set (plan_proposals d) \<Longrightarrow> P r \<Longrightarrow> proposal_check r \<Longrightarrow> proposal_check (f r)"
    "\<And>r. r_state (f r) \<noteq> ProposalPending"
  shows "schema_ok (update_proposals P f d)"
proof -
  have "proposals_ok (sql_update P f (plan_proposals d))"
    unfolding proposals_ok_def
    by (intro conjI distinct_update list_all_update distinct_filter_update)
      (use assms in \<open>auto simp: schema_ok_def proposals_ok_def\<close>)
  then show ?thesis using assms(1) by (simp add: schema_ok_def update_proposals_def)
qed

lemma find_trip_SomeD: "find_trip tid d = Some t \<Longrightarrow> t \<in> set (trips d) \<and> t_id t = tid"
  unfolding find_trip_def by (drule query_row_SomeD) simp

lemma find_trip_unique:
  "schema_ok d \<Longrightarrow> t \<in> set (trips d) \<Longrightarrow> find_trip (t_id t) d = Some t"
  unfolding find_trip_def by (rule query_row_key [where key = t_id]) (auto simp: schema_ok_def trips_ok_def)

lemma find_lease_SomeD: "find_lease tid d = Some l \<Longrightarrow> l \<in> set (trip_runtime_leases d) \<and> l_trip_id l = tid"
  unfolding find_lease_def by (drule query_row_SomeD) simp

lemma trip_exists_iff: "trip_exists tid d \<longleftrightarrow> find_trip tid d \<noteq> None"
  by (auto simp: trip_exists_def find_trip_def sql_simps)

lemma schema_empty: "schema_ok (empty_db us)"
  by (simp add: schema_ok_def empty_db_def trips_ok_def activities_ok_def windows_ok_def delays_ok_def
      plans_ok_def proposals_ok_def intents_ok_def outbox_ok_def snapshots_ok_def leases_ok_def)

lemma fresh_in_iff: "fresh_in key r t \<longleftrightarrow> (\<forall>s\<in>set t. key s \<noteq> key r)"
  by (simp add: fresh_in_def image_iff eq_commute [of "key r"])

lemma insert_intent_SomeD:
  "insert_intent i d = Some d' \<Longrightarrow> d' = d\<lparr>command_intents := command_intents d @ [i]\<rparr> \<and> intent_check i \<and>
     trip_exists (i_trip_id i) d \<and> fresh_in i_id i (command_intents d) \<and> fresh_in intent_message i (command_intents d) \<and>
     fresh_in intent_event i (command_intents d) \<and> fresh_in intent_sequence i (command_intents d)"
  by (simp add: insert_intent_def split: if_splits)

lemma insert_outbox_SomeD:
  "insert_outbox b d = Some d' \<Longrightarrow> d' = d\<lparr>planner_outbox := planner_outbox d @ [b]\<rparr> \<and> outbox_check b \<and>
     fresh_in o_id b (planner_outbox d) \<and> fresh_in o_command_intent_id b (planner_outbox d) \<and>
     fresh_in outbox_sequence b (planner_outbox d)"
  by (simp add: insert_outbox_def split: if_splits)

lemma update_trip_SomeD:
  "update_trip tid f d = Some d' \<Longrightarrow> d' = d\<lparr>trips := sql_update (\<lambda>t. t_id t = tid) f (trips d)\<rparr> \<and>
     (\<forall>t\<in>set (trips d). t_id t = tid \<longrightarrow> trip_check (f t))"
  by (simp add: update_trip_def list_all_iff split: if_splits)

section \<open>A sample database\<close>

text \<open>One user with one trip of one activity at revision 1, whose creation is finalized.\<close>

definition sample_trip :: trip_row where
  "sample_trip = \<lparr>t_id = sample_uuid CHR ''1'', t_owner_user_id = sample_uuid CHR ''a'',
     t_default_time_zone_name = ''UTC'', t_trip_revision = 1, t_next_mutation_sequence = 2,
     t_finalized_mutation_sequence = 1, t_current_plan_id = Some (sample_uuid CHR ''2''),
     t_updated_at = 0, t_saved_plan_id = None, t_execution_state = ExecInactive,
     t_active_execution_plan_id = None, t_activated_at = None, t_transition_operation_id = None,
     t_trip_name = ''Trip 11111111'', t_created_at = 0\<rparr>"

definition sample_activity :: activity_row where
  "sample_activity = \<lparr>a_id = sample_uuid CHR ''8'', a_trip_id = sample_uuid CHR ''1'', a_ordinal = 0,
     a_place_id = ''place'', a_display_name = ''museum'', a_latitude = Finite 0, a_longitude = Finite 0,
     a_time_zone_name = ''UTC'', a_inbound_travel_mode = ''walking'', a_activity_class = ''flexible'',
     a_activity_state = ActivityStatePlanned, a_activity_delay_seconds = 0, a_found_closed_at = None,
     a_priority_rank = 1, a_utility_score = 1, a_reservation_start = None, a_reservation_grace_seconds = 0,
     a_mandatory_deadline = None, a_min_duration_seconds = 60, a_preferred_duration_seconds = 120,
     a_max_duration_seconds = 180, a_mandatory = False, a_can_shorten = True, a_can_move = True,
     a_can_skip = True\<rparr>"

definition sample_db :: db where
  "sample_db = (empty_db [sample_uuid CHR ''a''])\<lparr>trips := [sample_trip], trip_activities := [sample_activity]\<rparr>"

lemma btrim_sample [simp]: "btrim ''Trip 11111111'' = ''Trip 11111111''"
  by (simp add: btrim_def)

lemma schema_sample: "schema_ok sample_db"
  using schema_empty [of "[sample_uuid CHR ''a'']"]
  by (simp add: sample_db_def schema_ok_def trips_ok_def sample_trip_def trip_check_def i64_ok_def
      MaxInt64_def trips_execution_lifecycle_check_def trips_name_check_def activities_ok_def sample_activity_def activity_check_def
      i32_ok_def MaxInt32_def)

text \<open>A concrete instance of the code outside the repository.\<close>

definition sample_ext :: ext where
  "sample_ext = \<lparr>sha256 = (\<lambda>_. replicate 32 0), json_valid = (\<lambda>_. True), to_jsonb = Some\<rparr>"

lemma sample_ext_simps [simp]:
  "sha256 sample_ext b = replicate 32 0" "json_valid sample_ext b" "to_jsonb sample_ext b = Some b"
  by (simp_all add: sample_ext_def)

section \<open>The store interface\<close>

text \<open>
  Every store operation takes the readings of \<open>clock_timestamp()\<close> in its transaction and a request.
  It keeps the schema invariant; an atomic one leaves the database alone when it fails; an
  idempotent one, once it has succeeded, answers a redelivery without touching the database.
\<close>

locale store_op =
  fixes run :: "clock \<Rightarrow> 'rq \<Rightarrow> db \<Rightarrow> 'a result \<times> db"
  assumes schema_kept: "schema_ok d \<Longrightarrow> schema_ok (snd (run clk rq d))"
begin

lemma schema_calls:
  "schema_ok d \<Longrightarrow> schema_ok (fold (\<lambda>(clk, rq) d. snd (run clk rq d)) calls d)"
  by (induction calls arbitrary: d) (auto simp: schema_kept)

end

locale atomic_store_op = store_op +
  assumes error_keeps: "run clk rq d = (Inl e, d') \<Longrightarrow> d' = d"
begin

lemma changed_imp_success: "snd (run clk rq d) \<noteq> d \<Longrightarrow> \<exists>x. fst (run clk rq d) = Inr x"
  using error_keeps by (cases "run clk rq d"; cases "fst (run clk rq d)") auto

lemma fails_without_effect:
  assumes "\<And>x d'. run clk rq d \<noteq> (Inr x, d')"
  shows "isl (fst (run clk rq d)) \<and> snd (run clk rq d) = d"
proof (cases "run clk rq d")
  case (Pair x d')
  with assms [of "projr x" d'] obtain y where "x = Inl y" by (cases x) auto
  then show ?thesis using Pair error_keeps [of clk rq d y d'] by simp
qed

end

locale idempotent_store_op = store_op +
  fixes pre :: "'rq \<Rightarrow> db \<Rightarrow> bool"
  assumes repeat: "schema_ok d \<Longrightarrow> pre rq d \<Longrightarrow> run clk rq d = (Inr x, d') \<Longrightarrow>
    \<exists>y. run clk' rq d' = (Inr y, d')"
begin

lemma repeat_db:
  assumes "schema_ok d" "pre rq d" "run clk rq d = (Inr x, d')"
  shows "snd (run clk' rq d') = d'"
  using repeat [OF assms, of clk'] by auto

text \<open>However often the request is delivered after it succeeded, its effect happens once.\<close>

lemma redelivery:
  assumes "schema_ok d" "pre rq d" "run clk rq d = (Inr x, d')"
  shows "fold (\<lambda>clk d. snd (run clk rq d)) clks d' = d'"
  by (induction clks) (simp_all add: repeat_db [OF assms])

end

end
