(* ===== verification/LR_Commands.thy ===== *)
theory LR_Commands
  imports LR_Wire LR_Database
begin

text \<open>
  Recording runtime-first commands (\<open>persistence/commands.go\<close>): \<open>validateRecordRuntimeCommand\<close>,
  \<open>scanRecordedCommand\<close> with the query \<open>recordedCommandSelect\<close>, \<open>CommandStore.RecordRuntimeFirst\<close> and
  \<open>CommandStore.LoadOutcomes\<close>. Shown: a recorded message is a durable idempotency key, and while a
  command is unresolved no other command is recorded for the trip.
\<close>

definition DigestAlgorithmRFC8785SHA256V1 :: string where
  "DigestAlgorithmRFC8785SHA256V1 = ''rfc8785-sha256-v1''"

definition isRuntimeFirst :: "CommandKind \<Rightarrow> bool" where
  "isRuntimeFirst kind \<longleftrightarrow> kind \<in> {CommandActivityStatusChanged, CommandActivityDelayed,
     CommandReservationChanged, CommandMandatoryDeadlineChanged, CommandOperatingHoursChanged,
     CommandPlaceFoundClosed, CommandTravelDelay, CommandAcceptProposal, CommandRejectProposal}"

record PlannedCurrentPlan =
  pc_ID :: uuid
  pc_Payload :: bytes
  pc_Checksum :: bytes

record RecordRuntimeCommandRequest =
  rr_IntentID :: uuid
  rr_OutboxID :: uuid
  rr_TripID :: uuid
  rr_OwnerUserID :: uuid
  rr_MessageID :: uuid
  rr_EventID :: uuid
  rr_ExpectedTripRevision :: u64
  rr_Kind :: CommandKind
  rr_CommandExpiresAt :: "time option"
  rr_PayloadDigest :: bytes
  rr_CommandPayload :: bytes
  rr_EventPayload :: bytes
  rr_PlannedCurrentPlan :: "PlannedCurrentPlan option"

record RecordedCommand =
  rc_IntentID :: uuid
  rc_OutboxID :: string
  rc_TripID :: uuid
  rc_MessageID :: uuid
  rc_EventID :: uuid
  rc_MutationSequence :: u64
  rc_ExpectedTripRevision :: u64
  rc_Kind :: CommandKind
  rc_State :: intent_state
  rc_RuntimeSyncState :: runtime_sync_state
  rc_OutcomeStatus :: "string option"
  rc_OutcomePayload :: "bytes option"
  rc_ResultingTripRevision :: "u64 option"
  rc_ResultingCurrentPlanID :: "uuid option"
  rc_ResultingPlannerStateVersion :: "u64 option"
  rc_RecordedAt :: time
  rc_FinalizedAt :: "time option"
  rc_Duplicate :: bool

record CommandOutcome =
  co_MessageID :: uuid
  co_MutationSequence :: u64
  co_State :: intent_state
  co_Kind :: CommandKind
  co_RuntimeSyncState :: runtime_sync_state
  co_OutcomeStatus :: "string option"
  co_OutcomePayload :: bytes

section \<open>Reading outcomes\<close>

definition scanCommandOutcome :: "intent_row \<Rightarrow> CommandOutcome result" where
  "scanCommandOutcome i =
     (if i_mutation_sequence i \<le> 0 then Inl (ErrText ''stored command outcome sequence is invalid'')
      else Inr \<lparr>co_MessageID = i_message_id i, co_MutationSequence = uint64 (i_mutation_sequence i),
        co_State = i_state i, co_Kind = i_command_kind i, co_RuntimeSyncState = i_runtime_sync_state i,
        co_OutcomeStatus = i_outcome_status i,
        co_OutcomePayload = (case i_outcome_payload i of None \<Rightarrow> [] | Some p \<Rightarrow> p)\<rparr>)"

definition LoadOutcomes :: "uuid \<Rightarrow> uuid list \<Rightarrow> db \<Rightarrow> CommandOutcome list result" where
  "LoadOutcomes tripID messageIDs d =
     (if \<not> validCanonicalUUID tripID then Inl (ErrText ''trip id is invalid'')
      else if \<not> list_all validCanonicalUUID messageIDs then Inl (ErrText ''message id is invalid'')
      else if messageIDs = [] then Inr []
      else for_each (\<lambda>i result. bindr (scanCommandOutcome i) (\<lambda>outcome. Inr (result @ [outcome])))
        (sort_key i_mutation_sequence
          (sql_select (\<lambda>i. i_trip_id i = tripID \<and> i_message_id i \<in> set messageIDs) (command_intents d))) [])"

section \<open>Recording\<close>

definition validatePlannedCurrentPlan ::
  "ext \<Rightarrow> CommandKind \<Rightarrow> PlannedCurrentPlan option \<Rightarrow> unit result" where
  "validatePlannedCurrentPlan e kind planned =
     (if kind = CommandAcceptProposal
      then case planned of
          None \<Rightarrow> Inl (ErrText ''proposal acceptance requires a planned current plan'')
        | Some p \<Rightarrow>
            if \<not> validCanonicalUUID (pc_ID p) \<or> pc_Payload p = []
              then Inl (ErrText ''proposal acceptance requires a planned current plan'')
            else if sha256 e (pc_Payload p) \<noteq> pc_Checksum p
              then Inl (ErrText ''planned current-plan checksum is invalid'')
            else case parseCurrentPlan (pc_Payload p) of
                Inl _ \<Rightarrow> Inl (ErrText ''planned current-plan payload is invalid'')
              | Inr plan \<Rightarrow>
                  if planID plan \<noteq> pc_ID p then Inl (ErrText ''planned current-plan payload is invalid'')
                  else Inr ()
      else if planned \<noteq> None
        then Inl (ErrText ''planned current plan is valid only for proposal acceptance'')
      else Inr ())"

definition validateRecordRuntimeCommand :: "ext \<Rightarrow> RecordRuntimeCommandRequest \<Rightarrow> unit result" where
  "validateRecordRuntimeCommand e rq =
     (if \<not> list_all validCanonicalUUID [rr_IntentID rq, rr_OutboxID rq, rr_TripID rq, rr_OwnerUserID rq,
          rr_MessageID rq, rr_EventID rq]
        then Inl (ErrText ''command identifiers must be canonical lowercase UUIDs'')
      else if rr_EventID rq \<noteq> rr_MessageID rq
        then Inl (ErrText ''durable event id must equal message id'')
      else if rr_ExpectedTripRevision rq > MaxInt64
        then Inl (ErrText ''expected trip revision is out of range'')
      else if \<not> isRuntimeFirst (rr_Kind rq) then Inl (ErrText ''command kind is not runtime-first'')
      else if \<not> json_valid e (rr_CommandPayload rq) \<or> \<not> json_valid e (rr_EventPayload rq)
        then Inl (ErrText ''command and event payloads must be valid JSON'')
      else validatePlannedCurrentPlan e (rr_Kind rq) (rr_PlannedCurrentPlan rq))"

definition scanRecordedCommand ::
  "ext \<Rightarrow> intent_row \<times> outbox_row option \<Rightarrow> bool \<Rightarrow> (RecordedCommand \<times> bytes \<times> string) result" where
  "scanRecordedCommand e row duplicate = (case row of (i, outbox) \<Rightarrow>
     if i_mutation_sequence i \<le> 0 \<or> i_expected_trip_revision i < 0 \<or> length (i_payload_digest i) \<noteq> 32
       then Inl (ErrText ''stored command violates persistence contract'')
     else if \<not> pred_option (json_valid e) (i_outcome_payload i)
       then Inl (ErrText ''stored command outcome is invalid JSON'')
     else if \<not> pred_option ((\<le>) 0) (i_resulting_trip_revision i)
       then Inl (ErrText ''stored trip revision is negative'')
     else if \<not> pred_option validCanonicalUUID (i_resulting_current_plan_id i)
       then Inl (ErrText ''stored resulting current-plan id is invalid'')
     else if \<not> pred_option ((\<le>) 0) (i_resulting_planner_state_version i)
       then Inl (ErrText ''stored planner version is negative'')
     else Inr (\<lparr>rc_IntentID = i_id i, rc_OutboxID = (case outbox of None \<Rightarrow> [] | Some b \<Rightarrow> o_id b),
       rc_TripID = i_trip_id i, rc_MessageID = i_message_id i, rc_EventID = i_event_id i,
       rc_MutationSequence = uint64 (i_mutation_sequence i),
       rc_ExpectedTripRevision = uint64 (i_expected_trip_revision i), rc_Kind = i_command_kind i,
       rc_State = i_state i, rc_RuntimeSyncState = i_runtime_sync_state i,
       rc_OutcomeStatus = i_outcome_status i, rc_OutcomePayload = i_outcome_payload i,
       rc_ResultingTripRevision = map_option uint64 (i_resulting_trip_revision i),
       rc_ResultingCurrentPlanID = i_resulting_current_plan_id i,
       rc_ResultingPlannerStateVersion = map_option uint64 (i_resulting_planner_state_version i),
       rc_RecordedAt = i_recorded_at i, rc_FinalizedAt = i_finalized_at i, rc_Duplicate = duplicate\<rparr>,
       i_payload_digest i, i_digest_algorithm i))"

text \<open>\<open>intent LEFT JOIN outbox\<close>: \<open>command_intent_id\<close> is unique, so there is at most one row.\<close>

definition recordedCommandSelect :: "uuid \<Rightarrow> uuid \<Rightarrow> db \<Rightarrow> (intent_row \<times> outbox_row option) option" where
  "recordedCommandSelect tripID messageID d =
     map_option (\<lambda>i. (i, query_row (\<lambda>b. o_command_intent_id b = i_id i) (planner_outbox d)))
       (query_row (\<lambda>i. i_trip_id i = tripID \<and> i_message_id i = messageID) (command_intents d))"

definition unresolved_intent :: "intent_row \<Rightarrow> bool" where
  "unresolved_intent i \<longleftrightarrow> i_application_order i = RuntimeFirst \<and> i_state i = IntentPending \<or>
     i_application_order i = CanonicalFirst \<and> i_runtime_sync_state i \<in> {SyncPending, SyncPausedInternal}"

definition runtime_intent_row ::
  "RecordRuntimeCommandRequest \<Rightarrow> i64 \<Rightarrow> bytes \<Rightarrow> time \<Rightarrow> intent_row" where
  "runtime_intent_row rq mseq payload now =
     \<lparr>i_id = rr_IntentID rq, i_trip_id = rr_TripID rq, i_message_id = rr_MessageID rq,
      i_event_id = rr_EventID rq, i_mutation_sequence = mseq,
      i_expected_trip_revision = int64 (rr_ExpectedTripRevision rq), i_command_kind = rr_Kind rq,
      i_application_order = RuntimeFirst, i_command_expires_at = rr_CommandExpiresAt rq,
      i_digest_algorithm = ''rfc8785-sha256-v1'', i_payload_digest = rr_PayloadDigest rq,
      i_command_payload = payload, i_state = IntentPending, i_outcome_status = None,
      i_outcome_payload = None, i_resulting_trip_revision = None, i_resulting_current_plan_id = None,
      i_resulting_planner_state_version = None,
      i_planned_current_plan_id = map_option pc_ID (rr_PlannedCurrentPlan rq),
      i_planned_current_plan_payload = map_option pc_Payload (rr_PlannedCurrentPlan rq),
      i_planned_current_plan_checksum = map_option pc_Checksum (rr_PlannedCurrentPlan rq),
      i_runtime_sync_state = NotRequired, i_recorded_at = now, i_finalized_at = None\<rparr>"

text \<open>A new outbox row: the columns an \<open>INSERT\<close> leaves out have the defaults of the table.\<close>

definition new_outbox_row ::
  "uuid \<Rightarrow> uuid \<Rightarrow> uuid \<Rightarrow> i64 \<Rightarrow> bytes \<Rightarrow> time \<Rightarrow> time \<Rightarrow> outbox_row" where
  "new_outbox_row oid iid tid mseq payload next_at now =
     \<lparr>o_id = oid, o_command_intent_id = iid, o_trip_id = tid, o_mutation_sequence = mseq,
      o_event_schema_version = 1, o_event_payload = payload, o_delivery_state = DeliveryPending,
      o_attempt_count = 0, o_next_attempt_at = next_at, o_last_attempt_at = None, o_last_status = None,
      o_claim_owner = None, o_claim_expires_at = None, o_finalization_confirmed_at = None,
      o_updated_at = now\<rparr>"

definition allocate_sequence :: "time \<Rightarrow> trip_row \<Rightarrow> trip_row" where
  "allocate_sequence now t =
     t\<lparr>t_next_mutation_sequence := t_next_mutation_sequence t + 1, t_updated_at := now\<rparr>"

text \<open>The three statements that record a new command, and the row read back.\<close>

definition RecordRuntimeFirst_insert ::
  "ext \<Rightarrow> clock \<Rightarrow> RecordRuntimeCommandRequest \<Rightarrow> i64 \<Rightarrow> db \<Rightarrow> err + (RecordedCommand \<times> db)" where
  "RecordRuntimeFirst_insert e clk rq mseq d =
     bindr (exec_sql ''allocate mutation sequence'' (update_trip (rr_TripID rq) (allocate_sequence (clk 0)) d)) (\<lambda>d1.
     bindr (exec_sql ''insert command intent'' (to_jsonb e (rr_CommandPayload rq))) (\<lambda>payload.
     bindr (exec_sql ''insert command intent'' (insert_intent (runtime_intent_row rq mseq payload (clk 1)) d1)) (\<lambda>d2.
     bindr (exec_sql ''insert planner outbox'' (to_jsonb e (rr_EventPayload rq))) (\<lambda>event.
     bindr (exec_sql ''insert planner outbox'' (insert_outbox (new_outbox_row (rr_OutboxID rq) (rr_IntentID rq)
         (rr_TripID rq) mseq event (clk 2) (clk 3)) d2)) (\<lambda>d3.
     bindr (exec_sql ''read recorded command'' (recordedCommandSelect (rr_TripID rq) (rr_MessageID rq) d3)) (\<lambda>row.
     case scanRecordedCommand e row False of
       Inl _ \<Rightarrow> Inl (ErrSQL ''read recorded command'')
     | Inr (recorded, _) \<Rightarrow> Inr (recorded, d3)))))))"

definition RecordRuntimeFirst_tx ::
  "ext \<Rightarrow> clock \<Rightarrow> RecordRuntimeCommandRequest \<Rightarrow> db \<Rightarrow> err + (RecordedCommand \<times> db)" where
  "RecordRuntimeFirst_tx e clk rq d =
     (case query_row (\<lambda>t. t_id t = rr_TripID rq \<and> t_owner_user_id t = rr_OwnerUserID rq) (trips d) of
        None \<Rightarrow> Inl ErrTripNotFound
      | Some t \<Rightarrow>
        (case recordedCommandSelect (rr_TripID rq) (rr_MessageID rq) d of
           Some row \<Rightarrow>
             (case scanRecordedCommand e row True of
                Inl _ \<Rightarrow> Inl (ErrSQL ''read existing command'')
              | Inr (existing, storedDigest, digestAlgorithm) \<Rightarrow>
                  if digestAlgorithm \<noteq> DigestAlgorithmRFC8785SHA256V1 \<or> storedDigest \<noteq> rr_PayloadDigest rq
                    then Inl ErrIdempotencyKeyReused
                  else Inr (existing, d))
         | None \<Rightarrow>
             if t_trip_revision t < 0 \<or> uint64 (t_trip_revision t) \<noteq> rr_ExpectedTripRevision rq
               then Inl ErrTripRevisionStale
             else if t_next_mutation_sequence t \<le> 0 \<or> t_next_mutation_sequence t = int MaxInt64
               then Inl ErrMutationSequenceExhausted
             else if sql_exists (\<lambda>i. i_trip_id i = rr_TripID rq \<and> unresolved_intent i) (command_intents d)
               then Inl ErrDurableCommandBlocked
             else RecordRuntimeFirst_insert e clk rq (t_next_mutation_sequence t) d))"

definition RecordRuntimeFirst ::
  "ext \<Rightarrow> clock \<Rightarrow> RecordRuntimeCommandRequest \<Rightarrow> db \<Rightarrow> RecordedCommand result \<times> db" where
  "RecordRuntimeFirst e clk rq d =
     (case validateRecordRuntimeCommand e rq of
        Inl x \<Rightarrow> (Inl x, d)
      | Inr _ \<Rightarrow> run_tx (RecordRuntimeFirst_tx e clk rq) d)"

section \<open>Facts on successful calls\<close>

lemma scanRecordedCommand_duplicate:
  "scanRecordedCommand e row b = Inr (r, x) \<Longrightarrow> scanRecordedCommand e row b' = Inr (r\<lparr>rc_Duplicate := b'\<rparr>, x)"
  by (auto simp: scanRecordedCommand_def split: prod.splits if_splits)

lemma scanRecordedCommand_digest:
  "scanRecordedCommand e (i, b) dup = Inr (r, dig, alg) \<Longrightarrow> dig = i_payload_digest i \<and> alg = i_digest_algorithm i"
  by (simp add: scanRecordedCommand_def split: if_splits)

lemma runtime_intent_row_simps [simp]:
  "i_id (runtime_intent_row rq mseq p now) = rr_IntentID rq"
  "i_trip_id (runtime_intent_row rq mseq p now) = rr_TripID rq"
  "i_message_id (runtime_intent_row rq mseq p now) = rr_MessageID rq"
  "i_mutation_sequence (runtime_intent_row rq mseq p now) = mseq"
  "i_expected_trip_revision (runtime_intent_row rq mseq p now) = int64 (rr_ExpectedTripRevision rq)"
  "i_application_order (runtime_intent_row rq mseq p now) = RuntimeFirst"
  "i_payload_digest (runtime_intent_row rq mseq p now) = rr_PayloadDigest rq"
  "i_digest_algorithm (runtime_intent_row rq mseq p now) = DigestAlgorithmRFC8785SHA256V1"
  "i_state (runtime_intent_row rq mseq p now) = IntentPending"
  by (simp_all add: runtime_intent_row_def DigestAlgorithmRFC8785SHA256V1_def)

lemma new_outbox_row_simps [simp]:
  "o_id (new_outbox_row oid iid tid mseq p nx now) = oid"
  "o_command_intent_id (new_outbox_row oid iid tid mseq p nx now) = iid"
  "o_trip_id (new_outbox_row oid iid tid mseq p nx now) = tid"
  "o_mutation_sequence (new_outbox_row oid iid tid mseq p nx now) = mseq"
  "o_delivery_state (new_outbox_row oid iid tid mseq p nx now) = DeliveryPending"
  by (simp_all add: new_outbox_row_def)

lemma RecordRuntimeFirst_insert_statements:
  assumes "RecordRuntimeFirst_insert e clk rq mseq d = Inr (r, d')"
  obtains d1 payload d2 event row x where
    "update_trip (rr_TripID rq) (allocate_sequence (clk 0)) d = Some d1"
    "to_jsonb e (rr_CommandPayload rq) = Some payload"
    "insert_intent (runtime_intent_row rq mseq payload (clk 1)) d1 = Some d2"
    "to_jsonb e (rr_EventPayload rq) = Some event"
    "insert_outbox (new_outbox_row (rr_OutboxID rq) (rr_IntentID rq) (rr_TripID rq) mseq event (clk 2) (clk 3)) d2 = Some d'"
    "recordedCommandSelect (rr_TripID rq) (rr_MessageID rq) d' = Some row"
    "scanRecordedCommand e row False = Inr (r, x)"
  using assms unfolding RecordRuntimeFirst_insert_def bindr_eq_Inr exec_sql_eq_Inr
  by (fastforce split: sum.splits prod.splits)

lemma RecordRuntimeFirst_insert_success:
  assumes "RecordRuntimeFirst_insert e clk rq mseq d = Inr (r, d')"
  obtains payload event i b where
    "d' = d\<lparr>trips := sql_update (\<lambda>t. t_id t = rr_TripID rq) (allocate_sequence (clk 0)) (trips d),
        command_intents := command_intents d @ [i], planner_outbox := planner_outbox d @ [b]\<rparr>"
    "i = runtime_intent_row rq mseq payload (clk 1)"
    "b = new_outbox_row (rr_OutboxID rq) (rr_IntentID rq) (rr_TripID rq) mseq event (clk 2) (clk 3)"
    "\<forall>t\<in>set (trips d). t_id t = rr_TripID rq \<longrightarrow> trip_check (allocate_sequence (clk 0) t)"
    "recordedCommandSelect (rr_TripID rq) (rr_MessageID rq) d' = Some (i, Some b)"
    "scanRecordedCommand e (i, Some b) False = Inr (r, rr_PayloadDigest rq, DigestAlgorithmRFC8785SHA256V1)"
proof -
  obtain d1 payload d2 event row x where
    u: "update_trip (rr_TripID rq) (allocate_sequence (clk 0)) d = Some d1"
    and i: "insert_intent (runtime_intent_row rq mseq payload (clk 1)) d1 = Some d2"
    and b: "insert_outbox (new_outbox_row (rr_OutboxID rq) (rr_IntentID rq) (rr_TripID rq) mseq event (clk 2) (clk 3)) d2 = Some d'"
    and row: "recordedCommandSelect (rr_TripID rq) (rr_MessageID rq) d' = Some row"
    and scan: "scanRecordedCommand e row False = Inr (r, x)"
    using RecordRuntimeFirst_insert_statements [OF assms] by metis
  note U = update_trip_SomeD [OF u] and I = insert_intent_SomeD [OF i] and B = insert_outbox_SomeD [OF b]
  let ?i = "runtime_intent_row rq mseq payload (clk 1)"
  let ?b = "new_outbox_row (rr_OutboxID rq) (rr_IntentID rq) (rr_TripID rq) mseq event (clk 2) (clk 3)"
  have "query_row (\<lambda>i. i_trip_id i = rr_TripID rq \<and> i_message_id i = rr_MessageID rq) (command_intents d) = None"
    unfolding query_row_None using I U by (simp add: fresh_in_iff)
  moreover have "query_row (\<lambda>b. o_command_intent_id b = rr_IntentID rq) (planner_outbox d) = None"
    unfolding query_row_None using B I U by (simp add: fresh_in_iff)
  ultimately have sel: "recordedCommandSelect (rr_TripID rq) (rr_MessageID rq) d' = Some (?i, Some ?b)"
    using U I B by (simp add: recordedCommandSelect_def query_row_snoc)
  obtain dig alg where x: "x = (dig, alg)" by (cases x)
  have s: "scanRecordedCommand e (?i, Some ?b) False = Inr (r, dig, alg)" using scan row sel x by simp
  have "dig = rr_PayloadDigest rq" "alg = DigestAlgorithmRFC8785SHA256V1"
    using scanRecordedCommand_digest [OF s] by simp_all
  then show thesis using that [where i = ?i and b = ?b and payload = payload and event = event] U I B sel s by simp
qed

lemma RecordRuntimeFirst_success:
  assumes "RecordRuntimeFirst e clk rq d = (Inr r, d')"
  shows "validateRecordRuntimeCommand e rq = Inr ()" "RecordRuntimeFirst_tx e clk rq d = Inr (r, d')"
  using assms by (simp_all add: RecordRuntimeFirst_def run_tx_Inr split: sum.splits)

abbreviation owned_trip :: "RecordRuntimeCommandRequest \<Rightarrow> db \<Rightarrow> trip_row option" where
  "owned_trip rq d \<equiv> query_row (\<lambda>t. t_id t = rr_TripID rq \<and> t_owner_user_id t = rr_OwnerUserID rq) (trips d)"

lemma RecordRuntimeFirst_tx_cases:
  assumes "RecordRuntimeFirst_tx e clk rq d = Inr (r, d')"
  obtains (duplicate) t row where "owned_trip rq d = Some t"
      "recordedCommandSelect (rr_TripID rq) (rr_MessageID rq) d = Some row" "d' = d"
      "scanRecordedCommand e row True = Inr (r, rr_PayloadDigest rq, DigestAlgorithmRFC8785SHA256V1)"
  | (fresh) t where "owned_trip rq d = Some t"
      "recordedCommandSelect (rr_TripID rq) (rr_MessageID rq) d = None"
      "0 \<le> t_trip_revision t" "uint64 (t_trip_revision t) = rr_ExpectedTripRevision rq"
      "0 < t_next_mutation_sequence t" "t_next_mutation_sequence t \<noteq> int MaxInt64"
      "\<not> sql_exists (\<lambda>i. i_trip_id i = rr_TripID rq \<and> unresolved_intent i) (command_intents d)"
      "RecordRuntimeFirst_insert e clk rq (t_next_mutation_sequence t) d = Inr (r, d')"
proof -
  from assms obtain t where t: "owned_trip rq d = Some t"
    unfolding RecordRuntimeFirst_tx_def by (cases "owned_trip rq d") simp_all
  show thesis
  proof (cases "recordedCommandSelect (rr_TripID rq) (rr_MessageID rq) d")
    case None
    then show thesis using assms t fresh [of t] unfolding RecordRuntimeFirst_tx_def
      by (simp split: if_splits)
  next
    case (Some row)
    then show thesis using assms t duplicate [of t row] unfolding RecordRuntimeFirst_tx_def
      by (simp split: sum.splits prod.splits if_splits)
  qed
qed

lemma schema_RecordRuntimeFirst: "schema_ok d \<Longrightarrow> schema_ok (snd (RecordRuntimeFirst e clk rq d))"
proof (cases "fst (RecordRuntimeFirst e clk rq d)")
  case (Inr r)
  then obtain d' where s: "RecordRuntimeFirst e clk rq d = (Inr r, d')" by (cases "RecordRuntimeFirst e clk rq d") auto
  assume ok: "schema_ok d"
  from RecordRuntimeFirst_success(2) [OF s] show ?thesis
  proof (cases rule: RecordRuntimeFirst_tx_cases)
    case (fresh t)
    from fresh(8) obtain d1 d2 i b where u: "update_trip (rr_TripID rq) (allocate_sequence (clk 0)) d = Some d1"
      and "insert_intent i d1 = Some d2" "insert_outbox b d2 = Some d'"
      by (rule RecordRuntimeFirst_insert_statements)
    then show ?thesis
      using s schema_insert_outbox schema_insert_intent schema_update_trip [OF ok u]
      by (simp add: allocate_sequence_def)
  qed (simp add: s ok)
qed (auto simp: RecordRuntimeFirst_def run_tx_def split: sum.splits)

interpretation record_runtime: atomic_store_op "RecordRuntimeFirst e" for e
  by unfold_locales (erule schema_RecordRuntimeFirst, auto simp: RecordRuntimeFirst_def run_tx_def split: sum.splits)

text \<open>After a success the message is on record with its digest, and the owner still has the trip.\<close>

lemma RecordRuntimeFirst_recorded:
  assumes "RecordRuntimeFirst e clk rq d = (Inr r, d')"
  obtains t row where "owned_trip rq d' = Some t"
    "recordedCommandSelect (rr_TripID rq) (rr_MessageID rq) d' = Some row"
    "scanRecordedCommand e row True = Inr (r\<lparr>rc_Duplicate := True\<rparr>, rr_PayloadDigest rq, DigestAlgorithmRFC8785SHA256V1)"
  using RecordRuntimeFirst_success(2) [OF assms]
proof (cases rule: RecordRuntimeFirst_tx_cases)
  case (duplicate t row)
  then show ?thesis using that [of t row] scanRecordedCommand_duplicate [OF duplicate(4), of True] by simp
next
  case (fresh t)
  obtain i b where trips: "trips d' = sql_update (\<lambda>t. t_id t = rr_TripID rq) (allocate_sequence (clk 0)) (trips d)"
    and sel: "recordedCommandSelect (rr_TripID rq) (rr_MessageID rq) d' = Some (i, Some b)"
    and scan: "scanRecordedCommand e (i, Some b) False = Inr (r, rr_PayloadDigest rq, DigestAlgorithmRFC8785SHA256V1)"
    by (rule RecordRuntimeFirst_insert_success [OF fresh(8)]) simp
  have "owned_trip rq d' = Some (allocate_sequence (clk 0) t)"
    using query_row_update [OF fresh(1), of "\<lambda>t. t_id t = rr_TripID rq" "allocate_sequence (clk 0)"]
      query_row_SomeD [OF fresh(1)] by (simp add: trips allocate_sequence_def)
  then show ?thesis using that sel scanRecordedCommand_duplicate [OF scan, of True] by metis
qed

lemma scanRecordedCommand_fields:
  assumes "scanRecordedCommand e (i, b) dup = Inr (r, x)"
  shows "rc_MutationSequence r = uint64 (i_mutation_sequence i)" "rc_Duplicate r = dup"
  using assms by (auto simp: scanRecordedCommand_def split: if_splits)

section \<open>Properties\<close>

definition sample_record :: RecordRuntimeCommandRequest where
  "sample_record = \<lparr>rr_IntentID = sample_uuid CHR ''3'', rr_OutboxID = sample_uuid CHR ''4'',
     rr_TripID = sample_uuid CHR ''1'', rr_OwnerUserID = sample_uuid CHR ''a'',
     rr_MessageID = sample_uuid CHR ''5'', rr_EventID = sample_uuid CHR ''5'',
     rr_ExpectedTripRevision = 1, rr_Kind = CommandActivityDelayed, rr_CommandExpiresAt = None,
     rr_PayloadDigest = replicate 32 7, rr_CommandPayload = [123, 125], rr_EventPayload = [123, 125],
     rr_PlannedCurrentPlan = None\<rparr>"

lemma sample_record_valid:
  "validateRecordRuntimeCommand sample_ext sample_record = Inr ()"
  "validateRecordRuntimeCommand sample_ext (sample_record\<lparr>rr_PayloadDigest := dg\<rparr>) = Inr ()"
  by (simp_all add: validateRecordRuntimeCommand_def sample_record_def MaxInt64_def isRuntimeFirst_def
      validatePlannedCurrentPlan_def)

text \<open>The sample database once the sample command is recorded.\<close>

definition queued_db :: db where
  "queued_db = sample_db\<lparr>trips := [allocate_sequence 0 sample_trip],
     command_intents := [runtime_intent_row sample_record 2 [123, 125] 0],
     planner_outbox := [new_outbox_row (sample_uuid CHR ''4'') (sample_uuid CHR ''3'') (sample_uuid CHR ''1'')
       2 [123, 125] 0 0]\<rparr>"

lemma sample_record_recorded:
  obtains r where "RecordRuntimeFirst sample_ext (\<lambda>_. 0) sample_record sample_db = (Inr r, queued_db)"
    "\<not> rc_Duplicate r"
proof -
  have "query_row (\<lambda>t. t_id t = rr_TripID sample_record \<and> t_owner_user_id t = rr_OwnerUserID sample_record)
      (trips sample_db) = Some sample_trip"
    by (simp add: sample_db_def sample_record_def sample_trip_def query_row_def)
  moreover have "recordedCommandSelect (rr_TripID sample_record) (rr_MessageID sample_record) sample_db = None"
    by (simp add: sample_db_def empty_db_def recordedCommandSelect_def query_row_def)
  moreover obtain r where "RecordRuntimeFirst_insert sample_ext (\<lambda>_. 0) sample_record 2 sample_db = Inr (r, queued_db)"
    "\<not> rc_Duplicate r"
    by (simp add: RecordRuntimeFirst_insert_def update_trip_def sample_db_def empty_db_def sample_trip_def
        sample_record_def allocate_sequence_def trip_check_def trips_execution_lifecycle_check_def trips_name_check_def i64_ok_def
        MaxInt64_def sql_update_def insert_intent_def intent_check_def runtime_intent_row_def known_kind_def
        int64_def trip_exists_def sql_exists_def fresh_in_def insert_outbox_def outbox_check_def canonical_kind_def
        new_outbox_row_def recordedCommandSelect_def query_row_def scanRecordedCommand_def
        queued_db_def)
  moreover have "t_trip_revision sample_trip = 1" "t_next_mutation_sequence sample_trip = 2"
    "rr_ExpectedTripRevision sample_record = 1" "command_intents sample_db = []"
    by (simp_all add: sample_trip_def sample_record_def sample_db_def empty_db_def)
  ultimately have "RecordRuntimeFirst_tx sample_ext (\<lambda>_. 0) sample_record sample_db = Inr (r, queued_db)"
    by (simp add: RecordRuntimeFirst_tx_def uint64_def MaxInt64_def sql_exists_def)
  then show thesis
    using that [of r] sample_record_valid(1) \<open>\<not> rc_Duplicate r\<close> by (simp add: RecordRuntimeFirst_def run_tx_def)
qed

lemma schema_queued: "schema_ok queued_db"
proof -
  obtain r where "RecordRuntimeFirst sample_ext (\<lambda>_. 0) sample_record sample_db = (Inr r, queued_db)"
    by (rule sample_record_recorded)
  then show ?thesis
    using record_runtime.schema_kept [OF schema_sample, of sample_ext "\<lambda>_. 0" sample_record] by simp
qed

text \<open>
  C9. A recorded message is a durable idempotency key: repeating it with the same digest, whatever
  the other fields of the request, changes nothing and returns the recorded command marked as a
  duplicate; repeating it with another digest is refused and changes nothing either.
\<close>

theorem record_runtime_first_idempotent:
  assumes "RecordRuntimeFirst e clk rq d = (Inr r, d')" "validateRecordRuntimeCommand e rq' = Inr ()"
    "rr_TripID rq' = rr_TripID rq" "rr_OwnerUserID rq' = rr_OwnerUserID rq"
    "rr_MessageID rq' = rr_MessageID rq"
  shows "RecordRuntimeFirst e clk' rq' d' =
    (if rr_PayloadDigest rq' = rr_PayloadDigest rq then Inr (r\<lparr>rc_Duplicate := True\<rparr>)
     else Inl ErrIdempotencyKeyReused, d')"
proof -
  obtain t row where "owned_trip rq d' = Some t"
    "recordedCommandSelect (rr_TripID rq) (rr_MessageID rq) d' = Some row"
    "scanRecordedCommand e row True = Inr (r\<lparr>rc_Duplicate := True\<rparr>, rr_PayloadDigest rq, DigestAlgorithmRFC8785SHA256V1)"
    by (rule RecordRuntimeFirst_recorded [OF assms(1)])
  then have "RecordRuntimeFirst_tx e clk' rq' d' =
    (if rr_PayloadDigest rq = rr_PayloadDigest rq' then Inr (r\<lparr>rc_Duplicate := True\<rparr>, d')
     else Inl ErrIdempotencyKeyReused)"
    using assms(3-5) by (simp add: RecordRuntimeFirst_tx_def)
  then show ?thesis using assms(2) by (auto simp: RecordRuntimeFirst_def run_tx_def)
qed

theorem record_runtime_first_idempotent_witness:
  "fst (RecordRuntimeFirst sample_ext (\<lambda>_. 9) (sample_record\<lparr>rr_PayloadDigest := replicate 32 8\<rparr>)
     (snd (RecordRuntimeFirst sample_ext (\<lambda>_. 0) sample_record sample_db))) = Inl ErrIdempotencyKeyReused"
proof -
  obtain r where s: "RecordRuntimeFirst sample_ext (\<lambda>_. 0) sample_record sample_db = (Inr r, queued_db)"
    by (rule sample_record_recorded)
  have "replicate 32 8 \<noteq> rr_PayloadDigest sample_record"
    by (simp add: sample_record_def numeral_eq_Suc)
  then show ?thesis
    using record_runtime_first_idempotent [OF s sample_record_valid(2), of "replicate 32 8" "\<lambda>_. 9"] s by simp
qed

text \<open>
  C10. A newly recorded command takes the next mutation sequence number of the trip, writes one
  pending intent and one pending outbox row with that number, and until it is resolved no other
  message is recorded for the trip.
\<close>

theorem record_runtime_first_serializes:
  assumes "RecordRuntimeFirst e clk rq d = (Inr r, d')" "\<not> rc_Duplicate r" "find_trip (rr_TripID rq) d = Some t"
    "schema_ok d" "rr_TripID rq' = rr_TripID rq" "rr_MessageID rq' \<noteq> rr_MessageID rq"
    "recordedCommandSelect (rr_TripID rq) (rr_MessageID rq') d = None"
  shows "int (rc_MutationSequence r) = t_next_mutation_sequence t \<and>
    find_trip (rr_TripID rq) d' = Some (allocate_sequence (clk 0) t) \<and>
    (\<exists>i b. command_intents d' = command_intents d @ [i] \<and> i_state i = IntentPending \<and>
      i_mutation_sequence i = t_next_mutation_sequence t \<and>
      planner_outbox d' = planner_outbox d @ [b] \<and> o_delivery_state b = DeliveryPending \<and>
      o_mutation_sequence b = t_next_mutation_sequence t \<and> o_command_intent_id b = i_id i) \<and>
    isl (fst (RecordRuntimeFirst e clk' rq' d')) \<and> snd (RecordRuntimeFirst e clk' rq' d') = d'"
  using RecordRuntimeFirst_success(2) [OF assms(1)]
proof (cases rule: RecordRuntimeFirst_tx_cases)
  case (duplicate t' row)
  then show ?thesis
    using assms(2) scanRecordedCommand_fields(2) [of e "fst row" "snd row" True] by simp
next
  case (fresh u)
  have ut: "u = t"
    using query_row_SomeD [OF fresh(1)] assms(3,4) find_trip_unique [OF assms(4), of u] by simp
  note fresh = fresh [unfolded ut]
  let ?s = "t_next_mutation_sequence t"
  obtain payload event i b where ins: "d' = d\<lparr>trips := sql_update (\<lambda>t. t_id t = rr_TripID rq) (allocate_sequence (clk 0)) (trips d),
        command_intents := command_intents d @ [i], planner_outbox := planner_outbox d @ [b]\<rparr>"
    and i: "i = runtime_intent_row rq ?s payload (clk 1)"
    and b: "b = new_outbox_row (rr_OutboxID rq) (rr_IntentID rq) (rr_TripID rq) ?s event (clk 2) (clk 3)"
    and chk: "\<forall>t\<in>set (trips d). t_id t = rr_TripID rq \<longrightarrow> trip_check (allocate_sequence (clk 0) t)"
    and scan: "scanRecordedCommand e (i, Some b) False = Inr (r, rr_PayloadDigest rq, DigestAlgorithmRFC8785SHA256V1)"
    by (rule RecordRuntimeFirst_insert_success [OF fresh(8)]) (rule that)
  have le: "?s \<le> int MaxInt64"
    using chk [rule_format, of t] find_trip_SomeD [OF assms(3)]
    by (simp add: trip_check_def trips_name_check_def allocate_sequence_def i64_ok_def)
  have "rc_MutationSequence r = uint64 ?s"
    using scanRecordedCommand_fields [OF scan] by (simp add: i)
  then have seqr: "int (rc_MutationSequence r) = ?s"
    using le fresh(5) by (simp add: uint64_small)
  have trip: "find_trip (rr_TripID rq) d' = Some (allocate_sequence (clk 0) t)"
    using query_row_update [OF assms(3) [unfolded find_trip_def], of "\<lambda>t. t_id t = rr_TripID rq" "allocate_sequence (clk 0)"]
      find_trip_SomeD [OF assms(3)] by (simp add: ins find_trip_def allocate_sequence_def)
  have none: "recordedCommandSelect (rr_TripID rq) (rr_MessageID rq') d' = None"
    using assms(6,7) by (simp add: ins i recordedCommandSelect_def query_row_snoc)
  have busy: "sql_exists (\<lambda>i. i_trip_id i = rr_TripID rq \<and> unresolved_intent i) (command_intents d')"
    by (simp add: ins i sql_exists_def unresolved_intent_def)
  have "isl (RecordRuntimeFirst_tx e clk' rq' d')"
    using none busy assms(5) by (simp add: RecordRuntimeFirst_tx_def split: option.splits)
  then have "isl (fst (RecordRuntimeFirst e clk' rq' d')) \<and> snd (RecordRuntimeFirst e clk' rq' d') = d'"
    by (auto simp: RecordRuntimeFirst_def run_tx_def split: sum.splits)
  moreover have "command_intents d' = command_intents d @ [i] \<and> i_state i = IntentPending \<and> i_mutation_sequence i = ?s \<and>
      planner_outbox d' = planner_outbox d @ [b] \<and> o_delivery_state b = DeliveryPending \<and>
      o_mutation_sequence b = ?s \<and> o_command_intent_id b = i_id i"
    by (simp add: ins) (simp add: i b)
  ultimately show ?thesis using seqr trip by blast
qed

theorem record_runtime_first_serializes_witness:
  "isl (fst (RecordRuntimeFirst sample_ext (\<lambda>_. 9) (sample_record\<lparr>rr_MessageID := sample_uuid CHR ''6''\<rparr>)
     (snd (RecordRuntimeFirst sample_ext (\<lambda>_. 0) sample_record sample_db))))"
proof -
  obtain r where s: "RecordRuntimeFirst sample_ext (\<lambda>_. 0) sample_record sample_db = (Inr r, queued_db)" "\<not> rc_Duplicate r"
    by (rule sample_record_recorded)
  have "find_trip (rr_TripID sample_record) sample_db = Some sample_trip"
    by (simp add: find_trip_def query_row_def sample_db_def sample_record_def sample_trip_def)
  moreover have "recordedCommandSelect (rr_TripID sample_record) (sample_uuid CHR ''6'') sample_db = None"
    by (simp add: sample_db_def empty_db_def recordedCommandSelect_def query_row_def)
  moreover have "sample_uuid CHR ''6'' \<noteq> rr_MessageID sample_record" by (simp add: sample_record_def)
  ultimately show ?thesis
    using record_runtime_first_serializes [OF s _ schema_sample,
        of _ "sample_record\<lparr>rr_MessageID := sample_uuid CHR ''6''\<rparr>" "\<lambda>_. 9"] s(1) by simp
qed

end
