(* ===== verification/LR_Outbox.thy ===== *)
theory LR_Outbox
  imports LR_Commands
begin

text \<open>
  The planner outbox (\<open>persistence/outbox.go\<close>): \<open>OutboxStore.PendingFinalizationConfirmations\<close>,
  \<open>ClaimDue\<close>, \<open>ReleaseForRetry\<close>, \<open>PauseInternal\<close> and the function \<open>RetryDelay\<close>. The rows that a concurrent
  transaction holds a lock on, which \<open>SKIP LOCKED\<close> leaves out, are an argument of \<open>ClaimDue\<close>; the source of
  randomness is an argument of \<open>RetryDelay\<close>. Shown: per trip at most the oldest unresolved event is
  claimed, a claim is exclusive until it expires and is fenced by its attempt count afterwards, and
  every delay drawn is one that \<open>ReleaseForRetry\<close> accepts.
\<close>

record ClaimedOutboxRow =
  cl_ID :: uuid
  cl_CommandIntentID :: uuid
  cl_TripID :: uuid
  cl_MutationSequence :: u64
  cl_EventSchemaVersion :: int
  cl_EventPayload :: bytes
  cl_AttemptCount :: u64
  cl_ClaimExpiresAt :: time
  cl_EventID :: uuid
  cl_ExpectedTripRevision :: u64
  cl_ApplicationOrder :: application_order
  cl_CommandKind :: CommandKind
  cl_CommandExpiresAt :: "time option"
  cl_ResultingTripRevision :: u64
  cl_ResultingCurrentPlanID :: string

record PendingFinalizationConfirmation =
  pf_TripID :: uuid
  pf_FinalizedMutationSequence :: u64

section \<open>Operations\<close>

definition unconfirmed :: "outbox_row \<Rightarrow> bool" where
  "unconfirmed b \<longleftrightarrow> o_delivery_state b \<in> {DeliveryAccepted, DeliveryTerminalRejected} \<and>
     o_finalization_confirmed_at b = None"

definition unconfirmed_groups :: "db \<Rightarrow> (uuid \<times> i64) list" where
  "unconfirmed_groups d =
     (let rows = sql_select unconfirmed (planner_outbox d) in
      map (\<lambda>tid. (tid, Max (set (map o_mutation_sequence (filter (\<lambda>b. o_trip_id b = tid) rows)))))
        (sort (remdups (map o_trip_id rows))))"

definition PendingFinalizationConfirmations :: "int \<Rightarrow> db \<Rightarrow> PendingFinalizationConfirmation list result" where
  "PendingFinalizationConfirmations limit d =
     (if limit \<le> 0 then Inl (ErrText ''confirmation limit must be positive'')
      else for_each (\<lambda>(tid, sequence) result.
          if sequence \<le> 0 then Inl (ErrText ''pending finalization sequence is invalid'')
          else Inr (result @ [\<lparr>pf_TripID = tid, pf_FinalizedMutationSequence = uint64 sequence\<rparr>]))
        (take (nat limit) (unconfirmed_groups d)) [])"

definition has_unresolved_predecessor :: "db \<Rightarrow> outbox_row \<Rightarrow> bool" where
  "has_unresolved_predecessor d b = sql_exists (\<lambda>p. o_trip_id p = o_trip_id b \<and>
     o_mutation_sequence p < o_mutation_sequence b \<and>
     o_delivery_state p \<in> {DeliveryPending, DeliveryPausedInternal}) (planner_outbox d)"

definition claim_due :: "time \<Rightarrow> db \<Rightarrow> outbox_row \<Rightarrow> bool" where
  "claim_due now d b \<longleftrightarrow> o_delivery_state b = DeliveryPending \<and> o_next_attempt_at b \<le> now \<and>
     (o_claim_owner b = None \<or> (case o_claim_expires_at b of None \<Rightarrow> False | Some t \<Rightarrow> t \<le> now)) \<and>
     \<not> has_unresolved_predecessor d b"

definition claim_candidates :: "time \<Rightarrow> uuid list \<Rightarrow> nat \<Rightarrow> db \<Rightarrow> outbox_row list" where
  "claim_candidates now locked batchSize d =
     take batchSize (sort_key o_next_attempt_at (sort_key o_trip_id (sort_key o_mutation_sequence
       (sql_select (\<lambda>b. claim_due now d b \<and> o_id b \<notin> set locked) (planner_outbox d)))))"

definition claim_row :: "time \<Rightarrow> uuid \<Rightarrow> duration \<Rightarrow> outbox_row \<Rightarrow> outbox_row" where
  "claim_row now claimOwner claimDuration b =
     b\<lparr>o_claim_owner := Some claimOwner,
       o_claim_expires_at := Some (now + millis (Milliseconds claimDuration)),
       o_attempt_count := o_attempt_count b + 1, o_last_attempt_at := Some now, o_updated_at := now\<rparr>"

definition scanClaimedRow :: "ext \<Rightarrow> db \<Rightarrow> outbox_row \<Rightarrow> ClaimedOutboxRow result" where
  "scanClaimedRow e d b =
     (case (query_row (\<lambda>i. i_id i = o_command_intent_id b) (command_intents d), o_claim_expires_at b) of
        (Some i, Some expires) \<Rightarrow>
          if o_mutation_sequence b \<le> 0 \<or> o_event_schema_version b \<noteq> 1 \<or> o_attempt_count b \<le> 0 \<or>
             \<not> json_valid e (o_event_payload b)
            then Inl (ErrText ''claimed outbox row violates storage contract'')
          else Inr \<lparr>cl_ID = o_id b, cl_CommandIntentID = o_command_intent_id b, cl_TripID = o_trip_id b,
            cl_MutationSequence = uint64 (o_mutation_sequence b),
            cl_EventSchemaVersion = o_event_schema_version b, cl_EventPayload = o_event_payload b,
            cl_AttemptCount = uint64 (o_attempt_count b), cl_ClaimExpiresAt = expires,
            cl_EventID = i_event_id i,
            cl_ExpectedTripRevision = uint64 (i_expected_trip_revision i),
            cl_ApplicationOrder = i_application_order i, cl_CommandKind = i_command_kind i,
            cl_CommandExpiresAt = i_command_expires_at i,
            cl_ResultingTripRevision = (case i_resulting_trip_revision i of None \<Rightarrow> 0 | Some n \<Rightarrow> uint64 n),
            cl_ResultingCurrentPlanID = (case i_resulting_current_plan_id i of None \<Rightarrow> [] | Some s \<Rightarrow> s)\<rparr>
      | _ \<Rightarrow> Inl (ErrSQL ''scan claimed outbox row''))"

text \<open>
  The statement claims the candidates and commits whatever the scan of the returned rows says: an
  error of \<open>ClaimDue\<close> leaves its rows claimed until the claim expires.
\<close>

definition ClaimDue ::
  "ext \<Rightarrow> clock \<Rightarrow> uuid \<times> int \<times> duration \<times> uuid list \<Rightarrow> db \<Rightarrow> ClaimedOutboxRow list result \<times> db" where
  "ClaimDue e clk rq d = (case rq of (claimOwner, batchSize, claimDuration, locked) \<Rightarrow>
     if claimOwner = [] then (Inl (ErrText ''claim owner is required''), d)
     else if batchSize \<le> 0 then (Inl (ErrText ''claim batch size must be positive''), d)
     else if Milliseconds claimDuration \<le> 0
       then (Inl (ErrText ''claim duration must be at least one millisecond''), d)
     else
       let now = clk 0;
           candidates = claim_candidates now locked (nat batchSize) d;
           claimed = map (claim_row now claimOwner claimDuration) candidates;
           d' = update_outbox (\<lambda>b. o_id b \<in> set (map o_id candidates)) (claim_row now claimOwner claimDuration) d in
       if list_ex (\<lambda>b. \<not> i64_ok (o_attempt_count b)) claimed then (Inl (ErrSQL ''claim due outbox rows''), d)
       else (for_each (\<lambda>b result. bindr (scanClaimedRow e d b) (\<lambda>row. Inr (result @ [row])))
          (sort_key o_trip_id (sort_key o_mutation_sequence claimed)) [], d'))"

text \<open>\<open>rand.Int(random, n)\<close> draws from \<open>[0, n)\<close> or fails.\<close>

definition RetryDelay :: "u64 \<Rightarrow> (int \<Rightarrow> int option) \<Rightarrow> duration result" where
  "RetryDelay attemptCount random =
     (if attemptCount = 0 then Inl (ErrText ''attempt count must be positive'')
      else
        let exponent = (if attemptCount > 7 then 7 else attemptCount);
            capDuration = 250 * 1000000 * 2 ^ exponent;
            capDuration = (if capDuration > 30 * 1000000000 then 30 * 1000000000 else capDuration) in
        case random (capDuration + 1) of
          None \<Rightarrow> Inl (ErrText ''read retry jitter'')
        | Some value \<Rightarrow> Inr value)"

text \<open>
  The \<open>WHERE\<close> clause of the two statements that end a claim. \<open>id\<close> is the primary key, so the number of
  affected rows is 0 or 1.
\<close>

definition holds_claim :: "time \<Rightarrow> ClaimedOutboxRow \<Rightarrow> uuid \<Rightarrow> outbox_row \<Rightarrow> bool" where
  "holds_claim now row claimOwner b \<longleftrightarrow> o_id b = cl_ID row \<and> o_delivery_state b = DeliveryPending \<and>
     o_claim_owner b = Some claimOwner \<and> o_attempt_count b = int64 (cl_AttemptCount row) \<and>
     (case o_claim_expires_at b of None \<Rightarrow> False | Some t \<Rightarrow> t > now)"

definition ReleaseForRetry ::
  "clock \<Rightarrow> ClaimedOutboxRow \<times> uuid \<times> string \<times> duration \<Rightarrow> db \<Rightarrow> unit result \<times> db" where
  "ReleaseForRetry clk rq d = (case rq of (row, claimOwner, lastStatus, delay) \<Rightarrow>
     if cl_ID row = [] \<or> claimOwner = [] \<or> cl_AttemptCount row = 0
       then (Inl (ErrText ''claimed row identity is required''), d)
     else if lastStatus = [] \<or> delay < 0 \<or> delay > 30 * 1000000000
       then (Inl (ErrText ''retry status or delay is invalid''), d)
     else
       let now = clk 0 in
       if sql_count (holds_claim now row claimOwner) (planner_outbox d) \<noteq> 1 then (Inl ErrClaimLost, d)
       else (Inr (), update_outbox (holds_claim now row claimOwner)
         (\<lambda>b. b\<lparr>o_next_attempt_at := now + Microseconds delay, o_last_status := Some lastStatus,
            o_claim_owner := None, o_claim_expires_at := None, o_updated_at := now\<rparr>) d))"

definition PauseInternal ::
  "clock \<Rightarrow> ClaimedOutboxRow \<times> uuid \<times> string \<Rightarrow> db \<Rightarrow> unit result \<times> db" where
  "PauseInternal clk rq d = (case rq of (row, claimOwner, reason) \<Rightarrow>
     if cl_ID row = [] \<or> claimOwner = [] \<or> cl_AttemptCount row = 0 \<or> reason = []
       then (Inl (ErrText ''claimed row identity and pause reason are required''), d)
     else
       let now = clk 0 in
       if sql_count (holds_claim now row claimOwner) (planner_outbox d) \<noteq> 1 then (Inl ErrClaimLost, d)
       else (Inr (), update_outbox (holds_claim now row claimOwner)
         (\<lambda>b. b\<lparr>o_delivery_state := DeliveryPausedInternal, o_last_status := Some reason,
            o_claim_owner := None, o_claim_expires_at := None, o_updated_at := now\<rparr>) d))"

section \<open>Claims\<close>

lemma claim_candidatesD:
  "b \<in> set (claim_candidates now locked n d) \<Longrightarrow> b \<in> set (planner_outbox d) \<and> claim_due now d b"
  unfolding claim_candidates_def by (drule in_set_takeD) (simp add: sql_select_def)

lemma outbox_unique:
  assumes "schema_ok d" "b \<in> set (planner_outbox d)" "c \<in> set (planner_outbox d)"
  shows "o_id b = o_id c \<Longrightarrow> b = c" "outbox_sequence b = outbox_sequence c \<Longrightarrow> b = c"
    "o_command_intent_id b = o_command_intent_id c \<Longrightarrow> b = c"
proof -
  have k: "distinct (map o_id (planner_outbox d))" "distinct (map outbox_sequence (planner_outbox d))"
    "distinct (map o_command_intent_id (planner_outbox d))"
    using assms(1) by (simp_all add: schema_ok_def outbox_ok_def)
  show "o_id b = o_id c \<Longrightarrow> b = c" by (rule distinct_key_unique [OF k(1) assms(2,3)])
  show "outbox_sequence b = outbox_sequence c \<Longrightarrow> b = c" by (rule distinct_key_unique [OF k(2) assms(2,3)])
  show "o_command_intent_id b = o_command_intent_id c \<Longrightarrow> b = c" by (rule distinct_key_unique [OF k(3) assms(2,3)])
qed

lemma outbox_checkD: "schema_ok d \<Longrightarrow> b \<in> set (planner_outbox d) \<Longrightarrow> outbox_check b"
  by (simp add: schema_ok_def outbox_ok_def list_all_iff)

text \<open>Of one trip at most one event is a candidate: the oldest unresolved one.\<close>

lemma claim_due_unique:
  assumes "schema_ok d" "b \<in> set (planner_outbox d)" "c \<in> set (planner_outbox d)"
    "claim_due now d b" "claim_due now d c" "o_trip_id b = o_trip_id c"
  shows "b = c"
proof -
  have "\<not> o_mutation_sequence b < o_mutation_sequence c" "\<not> o_mutation_sequence c < o_mutation_sequence b"
    using assms(2-6) by (auto simp: claim_due_def has_unresolved_predecessor_def sql_exists_iff)
  then show ?thesis using outbox_unique(2) [OF assms(1-3)] assms(6) by simp
qed

lemma distinct_claim_candidates:
  assumes "schema_ok d"
  shows "distinct (map o_trip_id (claim_candidates now locked n d))"
proof -
  have "distinct (planner_outbox d)"
    using assms by (simp add: schema_ok_def outbox_ok_def distinct_map)
  then have "distinct (claim_candidates now locked n d)"
    unfolding claim_candidates_def by (simp add: sql_select_def)
  moreover have "inj_on o_trip_id (set (claim_candidates now locked n d))"
  proof (rule inj_onI)
    fix b c
    assume b: "b \<in> set (claim_candidates now locked n d)" and c: "c \<in> set (claim_candidates now locked n d)"
      and eq: "o_trip_id b = o_trip_id c"
    show "b = c"
      using claim_due_unique [OF assms _ _ _ _ eq] claim_candidatesD [OF b] claim_candidatesD [OF c] by blast
  qed
  ultimately show ?thesis by (simp add: distinct_map)
qed

lemma claim_row_simps [simp]:
  "o_id (claim_row now own dur b) = o_id b" "o_trip_id (claim_row now own dur b) = o_trip_id b"
  "o_command_intent_id (claim_row now own dur b) = o_command_intent_id b"
  "o_mutation_sequence (claim_row now own dur b) = o_mutation_sequence b"
  "o_event_schema_version (claim_row now own dur b) = o_event_schema_version b"
  "o_attempt_count (claim_row now own dur b) = o_attempt_count b + 1"
  "o_claim_owner (claim_row now own dur b) = Some own"
  "o_claim_expires_at (claim_row now own dur b) = Some (now + millis (Milliseconds dur))"
  "o_delivery_state (claim_row now own dur b) = o_delivery_state b"
  by (simp_all add: claim_row_def)

lemma scanClaimedRow_fields:
  assumes "scanClaimedRow e d b = Inr row"
  shows "cl_ID row = o_id b" "cl_TripID row = o_trip_id b"
    "cl_MutationSequence row = uint64 (o_mutation_sequence b)" "cl_AttemptCount row = uint64 (o_attempt_count b)"
    "o_claim_expires_at b = Some (cl_ClaimExpiresAt row)" "0 < o_mutation_sequence b"
  using assms by (auto simp: scanClaimedRow_def split: option.splits if_splits)

text \<open>A successful claim, row by row.\<close>

lemma ClaimDue_success:
  assumes "ClaimDue e clk (own, n, dur, lk) d = (Inr rows, d')"
  defines "cs \<equiv> claim_candidates (clk 0) lk (nat n) d"
  shows "d' = update_outbox (\<lambda>b. o_id b \<in> set (map o_id cs)) (claim_row (clk 0) own dur) d"
    "list_all2 (\<lambda>b row. scanClaimedRow e d b = Inr row)
       (sort_key o_trip_id (sort_key o_mutation_sequence (map (claim_row (clk 0) own dur) cs))) rows"
    "\<forall>b\<in>set cs. i64_ok (o_attempt_count b + 1)"
  using assms(1) unfolding ClaimDue_def cs_def
  by (simp_all add: Let_def for_each_collect list_ex_iff split: if_splits)

lemma ClaimDue_row:
  assumes "ClaimDue e clk (own, n, dur, lk) d = (Inr rows, d')" "row \<in> set rows"
  obtains b where "b \<in> set (claim_candidates (clk 0) lk (nat n) d)"
    "scanClaimedRow e d (claim_row (clk 0) own dur b) = Inr row"
proof -
  have "\<exists>x\<in>set (sort_key o_trip_id (sort_key o_mutation_sequence
      (map (claim_row (clk 0) own dur) (claim_candidates (clk 0) lk (nat n) d)))). scanClaimedRow e d x = Inr row"
    using list_all2_in_set2 [OF ClaimDue_success(2) [OF assms(1)]] assms(2) by blast
  then show thesis using that by auto
qed

lemma schema_ClaimDue: "schema_ok d \<Longrightarrow> schema_ok (snd (ClaimDue e clk rq d))"
proof -
  assume ok: "schema_ok d"
  obtain own n dur lk where rq: "rq = (own, n, dur, lk)" by (cases rq)
  let ?cs = "claim_candidates (clk 0) lk (nat n) d"
  have "schema_ok (update_outbox (\<lambda>b. o_id b \<in> set (map o_id ?cs)) (claim_row (clk 0) own dur) d)"
    if "\<forall>b\<in>set ?cs. i64_ok (o_attempt_count b + 1)"
  proof (rule schema_update_outbox [OF ok])
    fix b assume b: "b \<in> set (planner_outbox d)" "o_id b \<in> set (map o_id ?cs)" "outbox_check b"
    then obtain c where c: "c \<in> set ?cs" "o_id b = o_id c" by auto
    then have "b = c" using outbox_unique(1) [OF ok b(1)] claim_candidatesD [OF c(1)] by blast
    then show "outbox_check (claim_row (clk 0) own dur b)" using b(3) that c by (simp add: outbox_check_def)
  qed simp_all
  then show ?thesis using ok unfolding rq ClaimDue_def by (simp add: Let_def list_ex_iff)
qed

interpretation claim: store_op "ClaimDue e" for e
  by unfold_locales (rule schema_ClaimDue)

interpretation retry: atomic_store_op ReleaseForRetry
proof unfold_locales
  fix d clk rq
  assume "schema_ok d"
  then show "schema_ok (snd (ReleaseForRetry clk rq d))"
    by (cases rq) (auto simp: ReleaseForRetry_def Let_def outbox_check_def intro!: schema_update_outbox)
qed (auto simp: ReleaseForRetry_def Let_def split: prod.splits if_splits)

interpretation pause: atomic_store_op PauseInternal
proof unfold_locales
  fix d clk rq
  assume "schema_ok d"
  then show "schema_ok (snd (PauseInternal clk rq d))"
    by (cases rq) (auto simp: PauseInternal_def Let_def outbox_check_def intro!: schema_update_outbox)
qed (auto simp: PauseInternal_def Let_def split: prod.splits if_splits)

text \<open>What a claim leaves in the table: its row, and no other row with that identifier.\<close>

lemma claimed_row_in_table:
  assumes "schema_ok d" "ClaimDue e clk (own, n, dur, lk) d = (Inr rows, d')"
    "b \<in> set (claim_candidates (clk 0) lk (nat n) d)" "c \<in> set (planner_outbox d')" "o_id c = o_id b"
  shows "c = claim_row (clk 0) own dur b"
proof -
  have b: "b \<in> set (planner_outbox d)" using claim_candidatesD [OF assms(3)] by simp
  have "c \<in> set (sql_update (\<lambda>b. o_id b \<in> set (map o_id (claim_candidates (clk 0) lk (nat n) d)))
      (claim_row (clk 0) own dur) (planner_outbox d))"
    using assms(4) ClaimDue_success(1) [OF assms(2)] by (simp add: update_outbox_def)
  then show ?thesis
  proof (cases rule: sql_updateE)
    case (updated x)
    then show ?thesis using outbox_unique(1) [OF assms(1) updated(1) b] assms(5) by simp
  next
    case kept
    then show ?thesis using assms(3,5) by simp
  qed
qed

lemma claim_due_resolved:
  assumes "claim_due now d b" "p \<in> set (planner_outbox d)" "o_trip_id p = o_trip_id b"
    "o_mutation_sequence p < o_mutation_sequence b"
  shows "o_delivery_state p = DeliveryAccepted \<or> o_delivery_state p = DeliveryTerminalRejected"
  using assms by (cases "o_delivery_state p") (auto simp: claim_due_def has_unresolved_predecessor_def sql_exists_def list_ex_iff)

section \<open>Properties\<close>

text \<open>Two claims of the queued sample event, the second after the first has expired.\<close>

definition claimed_db :: "time \<Rightarrow> db \<Rightarrow> db" where
  "claimed_db now d = update_outbox (\<lambda>_. True) (claim_row now (sample_uuid CHR ''7'') 2000000) d"

lemmas claim_eval = ClaimDue_def claim_candidates_def claim_due_def has_unresolved_predecessor_def sql_select_def
  sql_exists_def queued_db_def new_outbox_row_def Milliseconds_def quot_trunc_def update_outbox_def claimed_db_def
  i64_ok_def MaxInt64_def claim_row_def sql_update_def scanClaimedRow_def query_row_def millis_def Let_def

lemma sample_claims:
  shows "\<exists>row. ClaimDue sample_ext (\<lambda>_. 1) (sample_uuid CHR ''7'', 5, 2000000, []) queued_db
      = (Inr [row], claimed_db 1 queued_db) \<and> cl_ID row = sample_uuid CHR ''4''"
    and "\<exists>row. ClaimDue sample_ext (\<lambda>_. 3000) (sample_uuid CHR ''7'', 5, 2000000, []) (claimed_db 1 queued_db)
      = (Inr [row], claimed_db 3000 (claimed_db 1 queued_db)) \<and> cl_ID row = sample_uuid CHR ''4''"
proof -
  have i: "i_id (runtime_intent_row sample_record 2 [123, 125] 0) = sample_uuid CHR ''3''"
    by (simp add: sample_record_def)
  show "\<exists>row. ClaimDue sample_ext (\<lambda>_. 1) (sample_uuid CHR ''7'', 5, 2000000, []) queued_db
      = (Inr [row], claimed_db 1 queued_db) \<and> cl_ID row = sample_uuid CHR ''4''"
    by (simp add: claim_eval i del: runtime_intent_row_simps)
  show "\<exists>row. ClaimDue sample_ext (\<lambda>_. 3000) (sample_uuid CHR ''7'', 5, 2000000, []) (claimed_db 1 queued_db)
      = (Inr [row], claimed_db 3000 (claimed_db 1 queued_db)) \<and> cl_ID row = sample_uuid CHR ''4''"
    by (simp add: claim_eval i del: runtime_intent_row_simps)
qed

text \<open>
  C11. Head-of-line delivery: a batch of claims holds at most one event per trip and never more than
  the batch size. Each claimed event was pending, due, and free or with an expired claim, and every
  event of its trip with a smaller mutation sequence had been accepted or terminally rejected.
\<close>

theorem claim_due_head_of_line:
  assumes "schema_ok d" "ClaimDue e clk (own, n, dur, lk) d = (Inr rows, d')"
  shows "distinct (map cl_TripID rows) \<and> length rows \<le> nat n \<and>
    (\<forall>row\<in>set rows. \<exists>b\<in>set (planner_outbox d). cl_ID row = o_id b \<and> cl_TripID row = o_trip_id b \<and>
       int (cl_MutationSequence row) = o_mutation_sequence b \<and> o_delivery_state b = DeliveryPending \<and>
       o_next_attempt_at b \<le> clk 0 \<and>
       (o_claim_owner b = None \<or> (\<exists>t. o_claim_expires_at b = Some t \<and> t \<le> clk 0)) \<and>
       (\<forall>p\<in>set (planner_outbox d). o_trip_id p = o_trip_id b \<and> o_mutation_sequence p < o_mutation_sequence b \<longrightarrow>
          o_delivery_state p = DeliveryAccepted \<or> o_delivery_state p = DeliveryTerminalRejected))"
proof (intro conjI ballI)
  let ?cs = "claim_candidates (clk 0) lk (nat n) d"
  let ?xs = "sort_key o_trip_id (sort_key o_mutation_sequence (map (claim_row (clk 0) own dur) ?cs))"
  have all: "list_all2 (\<lambda>b row. scanClaimedRow e d b = Inr row) ?xs rows" by (rule ClaimDue_success(2) [OF assms(2)])
  then have "list_all2 (\<lambda>b row. o_trip_id b = cl_TripID row) ?xs rows"
    by (rule list_all2_mono) (simp add: scanClaimedRow_fields)
  then have "map cl_TripID rows = map o_trip_id ?xs"
    by (simp add: list_all2_conv_all_nth list_eq_iff_nth_eq)
  moreover have "distinct (map o_trip_id (map (claim_row (clk 0) own dur) ?cs))"
    using distinct_claim_candidates [OF assms(1)] by (simp add: comp_def)
  then have "distinct (map o_trip_id ?xs)" by (simp only: distinct_map set_sort distinct_sort)
  ultimately show "distinct (map cl_TripID rows)" by simp
  show "length rows \<le> nat n"
    using list_all2_lengthD [OF all] by (simp add: claim_candidates_def)
next
  fix row assume "row \<in> set rows"
  from ClaimDue_row [OF assms(2) this] obtain b where b: "b \<in> set (claim_candidates (clk 0) lk (nat n) d)"
    and scan: "scanClaimedRow e d (claim_row (clk 0) own dur b) = Inr row" .
  have "i64_ok (o_mutation_sequence b)"
    using outbox_checkD [OF assms(1)] claim_candidatesD [OF b] by (simp add: outbox_check_def)
  then have "int (cl_MutationSequence row) = o_mutation_sequence b"
    using scanClaimedRow_fields [OF scan] by (simp add: uint64_small i64_ok_def)
  then show "\<exists>b\<in>set (planner_outbox d). cl_ID row = o_id b \<and> cl_TripID row = o_trip_id b \<and>
       int (cl_MutationSequence row) = o_mutation_sequence b \<and> o_delivery_state b = DeliveryPending \<and>
       o_next_attempt_at b \<le> clk 0 \<and>
       (o_claim_owner b = None \<or> (\<exists>t. o_claim_expires_at b = Some t \<and> t \<le> clk 0)) \<and>
       (\<forall>p\<in>set (planner_outbox d). o_trip_id p = o_trip_id b \<and> o_mutation_sequence p < o_mutation_sequence b \<longrightarrow>
          o_delivery_state p = DeliveryAccepted \<or> o_delivery_state p = DeliveryTerminalRejected)"
    using claim_candidatesD [OF b] scanClaimedRow_fields [OF scan] claim_due_resolved [of "clk 0" d b]
    by (intro bexI [of _ b]) (auto simp: claim_due_def split: option.splits)
qed

theorem claim_due_head_of_line_witness:
  "\<exists>rows d'. ClaimDue sample_ext (\<lambda>_. 1) (sample_uuid CHR ''7'', 5, 2000000, []) queued_db = (Inr rows, d') \<and>
     rows \<noteq> [] \<and> distinct (map cl_TripID rows) \<and> length rows \<le> 5"
proof -
  obtain row where r: "ClaimDue sample_ext (\<lambda>_. 1) (sample_uuid CHR ''7'', 5, 2000000, []) queued_db
      = (Inr [row], claimed_db 1 queued_db)"
    using sample_claims(1) by blast
  then show ?thesis using claim_due_head_of_line [OF schema_queued r] by simp
qed

text \<open>
  C12. Claims are exclusive and fenced: an event is claimed again only once the earlier claim has
  expired, and from then on the earlier claimant can neither release nor pause it, even when both
  claims have the same owner.
\<close>

theorem claim_fencing:
  assumes "schema_ok d" "ClaimDue e clk (own, n, dur, lk) d = (Inr rows, d')" "row \<in> set rows"
    "ClaimDue e clk' (own', n', dur', lk') d' = (Inr rows', d'')" "row' \<in> set rows'" "cl_ID row' = cl_ID row"
  shows "cl_ClaimExpiresAt row \<le> clk' 0 \<and>
    isl (fst (ReleaseForRetry clk'' (row, own, status, delay) d'')) \<and>
    isl (fst (PauseInternal clk'' (row, own, reason) d''))"
proof -
  from ClaimDue_row [OF assms(2,3)] obtain b where b: "b \<in> set (claim_candidates (clk 0) lk (nat n) d)"
    and scan: "scanClaimedRow e d (claim_row (clk 0) own dur b) = Inr row" .
  from ClaimDue_row [OF assms(4,5)] obtain c where c: "c \<in> set (claim_candidates (clk' 0) lk' (nat n') d')"
    and scan': "scanClaimedRow e d' (claim_row (clk' 0) own' dur' c) = Inr row'" .
  have ok': "schema_ok d'" using claim.schema_kept [OF assms(1), of e clk "(own, n, dur, lk)"] assms(2) by simp
  have "o_id c = o_id b" using assms(6) scanClaimedRow_fields(1) [OF scan] scanClaimedRow_fields(1) [OF scan'] by simp
  then have cb: "c = claim_row (clk 0) own dur b"
    using claimed_row_in_table [OF assms(1,2) b] claim_candidatesD [OF c] by simp
  have exp: "cl_ClaimExpiresAt row \<le> clk' 0"
    using claim_candidatesD [OF c] scanClaimedRow_fields(5) [OF scan] by (simp add: claim_due_def cb)
  have att: "i64_ok (o_attempt_count b + 1)" using ClaimDue_success(3) [OF assms(2)] b by simp
  have "\<not> holds_claim now row own x" if x: "x \<in> set (planner_outbox d'')" for x now
  proof
    assume h: "holds_claim now row own x"
    then have "o_id x = o_id c" using scanClaimedRow_fields(1) [OF scan] by (simp add: holds_claim_def cb)
    then have "x = claim_row (clk' 0) own' dur' c" by (rule claimed_row_in_table [OF ok' assms(4) c x])
    then have "o_attempt_count x = o_attempt_count b + 2" by (simp add: cb)
    moreover have "int64 (cl_AttemptCount row) = o_attempt_count b + 1"
      using att scanClaimedRow_fields(4) [OF scan]
      by (simp add: i64_ok_def MaxInt64_def int64_uint64)
    ultimately show False using h by (simp add: holds_claim_def)
  qed
  then have "sql_count (holds_claim (clk'' 0) row own) (planner_outbox d'') = 0" by (simp add: sql_count_eq_0)
  then show ?thesis using exp by (simp add: ReleaseForRetry_def PauseInternal_def Let_def)
qed

theorem claim_fencing_witness:
  "\<exists>row row' d'. ClaimDue sample_ext (\<lambda>_. 1) (sample_uuid CHR ''7'', 5, 2000000, []) queued_db = (Inr [row], d') \<and>
     fst (ClaimDue sample_ext (\<lambda>_. 3000) (sample_uuid CHR ''7'', 5, 2000000, []) d') = Inr [row'] \<and>
     cl_ClaimExpiresAt row \<le> 3000"
proof -
  obtain row where r: "ClaimDue sample_ext (\<lambda>_. 1) (sample_uuid CHR ''7'', 5, 2000000, []) queued_db
      = (Inr [row], claimed_db 1 queued_db)" "cl_ID row = sample_uuid CHR ''4''"
    using sample_claims(1) by blast
  obtain row' where r': "ClaimDue sample_ext (\<lambda>_. 3000) (sample_uuid CHR ''7'', 5, 2000000, []) (claimed_db 1 queued_db)
      = (Inr [row'], claimed_db 3000 (claimed_db 1 queued_db))" "cl_ID row' = sample_uuid CHR ''4''"
    using sample_claims(2) by blast
  have "cl_ClaimExpiresAt row \<le> 3000"
    using claim_fencing [OF schema_queued r(1) _ r'(1), of row row'] r(2) r'(2) by simp
  then show ?thesis using r(1) r'(1) by simp
qed

text \<open>
  C13. The back-off is bounded and usable: for any positive attempt count the drawn delay is between
  0 and 30 seconds, at most 250 ms doubled per attempt, so \<open>ReleaseForRetry\<close> never refuses it.
\<close>

theorem retry_delay_bounded:
  assumes "\<And>n v. random n = Some v \<Longrightarrow> 0 \<le> v \<and> v < n" "RetryDelay attempts random = Inr delay"
  shows "0 \<le> delay \<and> delay \<le> 30 * 1000000000 \<and> delay \<le> 250 * 1000000 * 2 ^ attempts \<and>
    fst (ReleaseForRetry clk (row, own, CHR ''U'' # status, delay) d) \<noteq> Inl (ErrText ''retry status or delay is invalid'')"
proof -
  let ?x = "if attempts > 7 then 7 else attempts"
  let ?cap = "250 * 1000000 * 2 ^ ?x :: int"
  let ?c = "if ?cap > 30 * 1000000000 then 30 * 1000000000 else ?cap"
  have r: "random (?c + 1) = Some delay"
    using assms(2) unfolding RetryDelay_def Let_def by (simp only: split: if_splits option.splits) simp_all
  have b: "0 \<le> delay" "delay \<le> ?c" using assms(1) [OF r] by (simp_all only: zle_add1_eq_le simp_thms)
  have "?c \<le> 30 * 1000000000" "?c \<le> ?cap" by simp_all
  moreover have "?cap \<le> 250 * 1000000 * 2 ^ attempts"
    by (simp add: power_increasing)
  ultimately have d: "delay \<le> 30 * 1000000000" "delay \<le> 250 * 1000000 * 2 ^ attempts"
    using b(2) by linarith+
  moreover have "fst (ReleaseForRetry clk (row, own, CHR ''U'' # status, delay) d) \<noteq>
      Inl (ErrText ''retry status or delay is invalid'')"
    using b(1) d(1) by (simp add: ReleaseForRetry_def Let_def)
  ultimately show ?thesis using b(1) by blast
qed

theorem retry_delay_bounded_witness:
  "RetryDelay 3 (\<lambda>n. if 0 < n then Some (n - 1) else None) = Inr 2000000000 \<and>
   (2000000000::int) \<le> 30 * 1000000000 \<and> (2000000000::int) \<le> 250 * 1000000 * 2 ^ 3"
proof -
  have r: "RetryDelay 3 (\<lambda>n. if 0 < n then Some (n - 1) else None) = Inr 2000000000" by (simp add: RetryDelay_def)
  have h: "0 \<le> v \<and> v < n" if "(if 0 < n then Some (n - 1) else None) = Some v" for n v :: int
    using that by (simp split: if_splits)
  note b = retry_delay_bounded [of "\<lambda>n. if 0 < n then Some (n - 1) else None", OF h r]
  show ?thesis by (rule conjI [OF r], rule conjI [OF b [THEN conjunct2, THEN conjunct1] b [THEN conjunct2, THEN conjunct2, THEN conjunct1]])
qed

end
