(* ===== verification/LR_Finalization.thy ===== *)
theory LR_Finalization
  imports LR_Outbox
begin

text \<open>
  Finalizing runtime-first commands: \<open>persistence/command_finalization.go\<close> (\<open>FinalizeTerminal\<close>),
  \<open>persistence/accepted_mutations.go\<close> (\<open>FinalizeAcceptedMutation\<close>, \<open>applyAcceptedMutation\<close>) and
  \<open>persistence/finalization_confirmation.go\<close> (\<open>ConfirmFinalizedMutations\<close>). Shown: a finalization takes
  effect once however often it is delivered, resolves exactly the next command of the trip, and a
  confirmation covers resolved work only.
\<close>

section \<open>Rows a finalization locks\<close>

definition finalization_rows ::
  "uuid \<Rightarrow> uuid \<Rightarrow> uuid \<Rightarrow> db \<Rightarrow> (trip_row \<times> intent_row \<times> outbox_row) result" where
  "finalization_rows tripID intentID outboxID d =
     (case find_trip tripID d of
        None \<Rightarrow> Inl ErrTripNotFound
      | Some t \<Rightarrow>
        (case query_row (\<lambda>i. i_id i = intentID \<and> i_trip_id i = tripID \<and> i_application_order i = RuntimeFirst)
            (command_intents d) of
           None \<Rightarrow> Inl ErrCommandNotFound
         | Some i \<Rightarrow>
           (case query_row (\<lambda>b. o_id b = outboxID \<and> o_command_intent_id b = intentID \<and> o_trip_id b = tripID)
               (planner_outbox d) of
              None \<Rightarrow> Inl ErrCommandNotFound
            | Some b \<Rightarrow> Inr (t, i, b))))"

text \<open>\<open>SELECT outcome_payload = $2::jsonb\<close> scanned into a \<open>bool\<close>: a \<open>NULL\<close> is an error.\<close>

definition payload_matches :: "ext \<Rightarrow> string \<Rightarrow> intent_row \<Rightarrow> bytes \<Rightarrow> bool result" where
  "payload_matches e label i payload =
     (case (i_outcome_payload i, to_jsonb e payload) of
        (Some stored, Some given) \<Rightarrow> Inr (stored = given)
      | _ \<Rightarrow> Inl (ErrSQL label))"

definition check_next_finalization :: "trip_row \<Rightarrow> i64 \<Rightarrow> unit result" where
  "check_next_finalization t mutationSequence =
     (if t_finalized_mutation_sequence t < 0 \<or> t_finalized_mutation_sequence t = int MaxInt64 \<or>
         t_finalized_mutation_sequence t + 1 \<noteq> mutationSequence
      then Inl ErrCommandFinalizationOutOfOrder else Inr ())"

definition resolve_intent ::
  "intent_state \<Rightarrow> string \<Rightarrow> bytes \<Rightarrow> i64 \<Rightarrow> u64 \<Rightarrow> time \<Rightarrow> intent_row \<Rightarrow> intent_row" where
  "resolve_intent st status payload rv version now i =
     i\<lparr>i_state := st, i_outcome_status := Some status, i_outcome_payload := Some payload,
       i_resulting_trip_revision := Some rv, i_resulting_planner_state_version := Some (int64 version),
       i_finalized_at := Some now\<rparr>"

definition resolve_outbox :: "delivery_state \<Rightarrow> string \<Rightarrow> time \<Rightarrow> outbox_row \<Rightarrow> outbox_row" where
  "resolve_outbox st status now b =
     b\<lparr>o_delivery_state := st, o_last_status := Some status, o_claim_owner := None,
       o_claim_expires_at := None, o_updated_at := now\<rparr>"

record FinalizedCommand =
  fc_IntentID :: uuid
  fc_OutboxID :: uuid
  fc_TripID :: uuid
  fc_EventID :: uuid
  fc_MutationSequence :: u64
  fc_State :: intent_state
  fc_Status :: string
  fc_ResultingTripRevision :: u64
  fc_ResultingPlannerStateVersion :: u64
  fc_FinalizedAt :: time
  fc_Duplicate :: bool

section \<open>Terminal rejections\<close>

definition TerminalStatusStale :: string where "TerminalStatusStale = ''STALE''"
definition TerminalStatusInvalidArgument :: string where "TerminalStatusInvalidArgument = ''INVALID_ARGUMENT''"
definition TerminalStatusNotFound :: string where "TerminalStatusNotFound = ''NOT_FOUND''"
definition TerminalStatusCommandExpired :: string where "TerminalStatusCommandExpired = ''COMMAND_EXPIRED''"
definition TerminalStatusInfeasible :: string where "TerminalStatusInfeasible = ''INFEASIBLE''"

definition TerminalStatus_valid :: "string \<Rightarrow> bool" where
  "TerminalStatus_valid status \<longleftrightarrow> status \<in> {TerminalStatusStale, TerminalStatusInvalidArgument,
     TerminalStatusNotFound, TerminalStatusCommandExpired, TerminalStatusInfeasible}"

record FinalizeTerminalCommandRequest =
  ft_TripID :: uuid
  ft_IntentID :: uuid
  ft_OutboxID :: uuid
  ft_EventID :: uuid
  ft_MutationSequence :: u64
  ft_ExpectedTripRevision :: u64
  ft_ResultingPlannerStateVersion :: u64
  ft_Status :: string
  ft_OutcomePayload :: bytes

definition validateTerminalFinalization :: "ext \<Rightarrow> FinalizeTerminalCommandRequest \<Rightarrow> unit result" where
  "validateTerminalFinalization e rq =
     (if \<not> list_all validCanonicalUUID [ft_TripID rq, ft_IntentID rq, ft_OutboxID rq, ft_EventID rq]
        then Inl (ErrText ''finalization identifiers must be canonical lowercase UUIDs'')
      else if ft_MutationSequence rq = 0 \<or> ft_MutationSequence rq > MaxInt64 \<or>
          ft_ExpectedTripRevision rq > MaxInt64 \<or> ft_ResultingPlannerStateVersion rq > MaxInt64
        then Inl (ErrText ''finalization versions are out of range'')
      else if \<not> TerminalStatus_valid (ft_Status rq)
        then Inl (ErrText ''status is not a terminal durable-command rejection'')
      else if \<not> json_valid e (ft_OutcomePayload rq)
        then Inl (ErrText ''terminal outcome payload must be valid JSON'')
      else Inr ())"

definition terminalIntentState :: "string \<Rightarrow> intent_state" where
  "terminalIntentState status =
     (if status = TerminalStatusCommandExpired then IntentExpired else IntentRejected)"

definition terminal_result ::
  "FinalizeTerminalCommandRequest \<Rightarrow> i64 \<Rightarrow> time \<Rightarrow> bool \<Rightarrow> FinalizedCommand" where
  "terminal_result rq rv finalizedAt duplicate =
     \<lparr>fc_IntentID = ft_IntentID rq, fc_OutboxID = ft_OutboxID rq, fc_TripID = ft_TripID rq,
      fc_EventID = ft_EventID rq, fc_MutationSequence = ft_MutationSequence rq,
      fc_State = terminalIntentState (ft_Status rq), fc_Status = ft_Status rq,
      fc_ResultingTripRevision = uint64 rv,
      fc_ResultingPlannerStateVersion = ft_ResultingPlannerStateVersion rq,
      fc_FinalizedAt = finalizedAt, fc_Duplicate = duplicate\<rparr>"

text \<open>The branch for a command that is already resolved.\<close>

definition FinalizeTerminal_resolved ::
  "ext \<Rightarrow> FinalizeTerminalCommandRequest \<Rightarrow> intent_row \<Rightarrow> outbox_row \<Rightarrow> FinalizedCommand result" where
  "FinalizeTerminal_resolved e rq i b =
     bindr (payload_matches e ''compare terminal outcome payload'' i (ft_OutcomePayload rq)) (\<lambda>payloadMatches.
       case i_finalized_at i of
         None \<Rightarrow> Inl ErrCommandFinalizationConflict
       | Some finalizedAt \<Rightarrow>
           if i_state i \<noteq> terminalIntentState (ft_Status rq) \<or>
              i_outcome_status i \<noteq> Some (ft_Status rq) \<or>
              i_resulting_trip_revision i \<noteq> Some (i_expected_trip_revision i) \<or>
              i_resulting_planner_state_version i \<noteq> Some (int64 (ft_ResultingPlannerStateVersion rq)) \<or>
              o_delivery_state b \<noteq> DeliveryTerminalRejected \<or> \<not> payloadMatches
             then Inl ErrCommandFinalizationConflict
           else Inr (terminal_result rq (i_expected_trip_revision i) finalizedAt True))"

text \<open>The three updates that resolve a pending command.\<close>

definition FinalizeTerminal_apply ::
  "ext \<Rightarrow> clock \<Rightarrow> FinalizeTerminalCommandRequest \<Rightarrow> trip_row \<Rightarrow> intent_row \<Rightarrow> db \<Rightarrow>
     err + (FinalizedCommand \<times> db)" where
  "FinalizeTerminal_apply e clk rq t i d =
     (let databaseTime = clk 0 in
      bindr (exec_sql ''advance finalized mutation sequence'' (update_trip (ft_TripID rq)
          (\<lambda>t. t\<lparr>t_finalized_mutation_sequence := i_mutation_sequence i, t_updated_at := databaseTime\<rparr>) d)) (\<lambda>d1.
      bindr (exec_sql ''resolve terminal intent'' (to_jsonb e (ft_OutcomePayload rq))) (\<lambda>payload.
      let d2 = update_intent (ft_IntentID rq) (resolve_intent (terminalIntentState (ft_Status rq)) (ft_Status rq)
            payload (t_trip_revision t) (ft_ResultingPlannerStateVersion rq) databaseTime) d1;
          d3 = update_outbox (\<lambda>b. o_id b = ft_OutboxID rq)
            (resolve_outbox DeliveryTerminalRejected (ft_Status rq) databaseTime) d2 in
      Inr (terminal_result rq (t_trip_revision t) databaseTime False, d3))))"

definition FinalizeTerminal_tx ::
  "ext \<Rightarrow> clock \<Rightarrow> FinalizeTerminalCommandRequest \<Rightarrow> db \<Rightarrow> err + (FinalizedCommand \<times> db)" where
  "FinalizeTerminal_tx e clk rq d =
     bindr (finalization_rows (ft_TripID rq) (ft_IntentID rq) (ft_OutboxID rq) d) (\<lambda>(t, i, b).
       if i_event_id i \<noteq> ft_EventID rq \<or> i_mutation_sequence i \<noteq> int64 (ft_MutationSequence rq) \<or>
          i_expected_trip_revision i \<noteq> int64 (ft_ExpectedTripRevision rq)
         then Inl ErrCommandFinalizationConflict
       else if ft_Status rq = TerminalStatusStale \<and>
           i_command_kind i \<in> {CommandAcceptProposal, CommandRejectProposal}
         then Inl ErrProposalFinalizationRequired
       else if i_state i \<noteq> IntentPending
         then bindr (FinalizeTerminal_resolved e rq i b) (\<lambda>result. Inr (result, d))
       else if t_trip_revision t \<noteq> i_expected_trip_revision i then Inl ErrTripRevisionStale
       else bindr (check_next_finalization t (i_mutation_sequence i)) (\<lambda>_.
         FinalizeTerminal_apply e clk rq t i d))"

definition FinalizeTerminal ::
  "ext \<Rightarrow> clock \<Rightarrow> FinalizeTerminalCommandRequest \<Rightarrow> db \<Rightarrow> FinalizedCommand result \<times> db" where
  "FinalizeTerminal e clk rq d =
     (case validateTerminalFinalization e rq of
        Inl x \<Rightarrow> (Inl x, d)
      | Inr _ \<Rightarrow> run_tx (FinalizeTerminal_tx e clk rq) d)"

section \<open>Accepted mutations\<close>

definition ActivityState_valid :: "ActivityState \<Rightarrow> bool" where
  "ActivityState_valid st \<longleftrightarrow> st \<in> {ActivityStatePlanned, ActivityStateStarted, ActivityStateCompleted,
     ActivityStateSkipped}"

record OpenWindow =
  OpensAtUnixMilliseconds :: i64
  ClosesAtUnixMilliseconds :: i64

record ActivityStatusMutation =
  asm_ActivityID :: uuid
  asm_State :: ActivityState

record ActivityDelayMutation =
  adm_ActivityID :: uuid
  adm_DelaySeconds :: nat

record ReservationMutation =
  rm_ActivityID :: uuid
  rm_ReservationStartUnixMilliseconds :: "i64 option"
  rm_ReservationGraceSeconds :: nat

record MandatoryDeadlineMutation =
  mdm_ActivityID :: uuid
  mdm_LatestFinishUnixMilliseconds :: i64

record OperatingHoursMutation =
  ohm_ActivityID :: uuid
  ohm_OpenWindows :: "OpenWindow list"

record PlaceFoundClosedMutation =
  pfm_ActivityID :: uuid
  pfm_ObservedAtUnixMilliseconds :: i64

record TravelDelayMutation =
  tdm_FromActivityID :: uuid
  tdm_ToActivityID :: uuid
  tdm_AdditionalSeconds :: nat
  tdm_ObservedAtUnixMilliseconds :: i64

record AcceptedMutation =
  m_ActivityStatus :: "ActivityStatusMutation option"
  m_ActivityDelay :: "ActivityDelayMutation option"
  m_Reservation :: "ReservationMutation option"
  m_MandatoryDeadline :: "MandatoryDeadlineMutation option"
  m_OperatingHours :: "OperatingHoursMutation option"
  m_PlaceFoundClosed :: "PlaceFoundClosedMutation option"
  m_TravelDelay :: "TravelDelayMutation option"

record FinalizeAcceptedMutationRequest =
  fa_TripID :: uuid
  fa_IntentID :: uuid
  fa_OutboxID :: uuid
  fa_EventID :: uuid
  fa_MutationSequence :: u64
  fa_ExpectedTripRevision :: u64
  fa_ResultingPlannerStateVersion :: u64
  fa_Mutation :: AcceptedMutation
  fa_OutcomePayload :: bytes

definition mutation_kind :: "AcceptedMutation \<Rightarrow> CommandKind result" where
  "mutation_kind mu =
     (let present = filter snd
        [(CommandActivityStatusChanged, m_ActivityStatus mu \<noteq> None),
         (CommandActivityDelayed, m_ActivityDelay mu \<noteq> None),
         (CommandReservationChanged, m_Reservation mu \<noteq> None),
         (CommandMandatoryDeadlineChanged, m_MandatoryDeadline mu \<noteq> None),
         (CommandOperatingHoursChanged, m_OperatingHours mu \<noteq> None),
         (CommandPlaceFoundClosed, m_PlaceFoundClosed mu \<noteq> None),
         (CommandTravelDelay, m_TravelDelay mu \<noteq> None)] in
      case present of
        [(kind, _)] \<Rightarrow> Inr kind
      | _ \<Rightarrow> Inl (ErrText ''exactly one accepted mutation is required''))"

text \<open>
  A use of one of the pointers. \<open>mutation_kind\<close> has established that the one its kind names is not
  \<open>nil\<close>; the other case would be a panic.
\<close>

definition deref :: "'a option \<Rightarrow> ('a \<Rightarrow> 'b result) \<Rightarrow> 'b result" where
  "deref p f = (case p of None \<Rightarrow> Inl (ErrText ''nil pointer dereference'') | Some v \<Rightarrow> f v)"

text \<open>The loop over the windows; the state is the end of the previous window, if there is one.\<close>

definition normalized_window_step :: "OpenWindow \<Rightarrow> i64 option \<Rightarrow> i64 option result" where
  "normalized_window_step w previousClose =
     (if OpensAtUnixMilliseconds w \<ge> ClosesAtUnixMilliseconds w \<or>
         (case previousClose of None \<Rightarrow> False | Some c \<Rightarrow> OpensAtUnixMilliseconds w < c)
      then Inl (ErrText ''operating-hours windows must be normalized'')
      else Inr (Some (ClosesAtUnixMilliseconds w)))"

text \<open>The \<open>switch\<close> of the validation: the activities the mutation names.\<close>

definition mutation_activities :: "AcceptedMutation \<Rightarrow> CommandKind \<Rightarrow> uuid list result" where
  "mutation_activities mu kind =
     (case kind of
        CommandActivityStatusChanged \<Rightarrow> deref (m_ActivityStatus mu) (\<lambda>v.
          if \<not> ActivityState_valid (asm_State v) then Inl (ErrText ''activity state is invalid'')
          else Inr [asm_ActivityID v])
      | CommandActivityDelayed \<Rightarrow> deref (m_ActivityDelay mu) (\<lambda>v.
          if adm_DelaySeconds v > MaxInt32 then Inl (ErrText ''activity delay is out of range'')
          else Inr [adm_ActivityID v])
      | CommandReservationChanged \<Rightarrow> deref (m_Reservation mu) (\<lambda>v.
          if rm_ReservationGraceSeconds v > MaxInt32 then Inl (ErrText ''reservation grace is out of range'')
          else Inr [rm_ActivityID v])
      | CommandMandatoryDeadlineChanged \<Rightarrow> deref (m_MandatoryDeadline mu) (\<lambda>v. Inr [mdm_ActivityID v])
      | CommandOperatingHoursChanged \<Rightarrow> deref (m_OperatingHours mu) (\<lambda>v.
          bindr (for_each normalized_window_step (ohm_OpenWindows v) None) (\<lambda>_. Inr [ohm_ActivityID v]))
      | CommandPlaceFoundClosed \<Rightarrow> deref (m_PlaceFoundClosed mu) (\<lambda>v. Inr [pfm_ActivityID v])
      | CommandTravelDelay \<Rightarrow> deref (m_TravelDelay mu) (\<lambda>v.
          if tdm_AdditionalSeconds v > MaxInt32 then Inl (ErrText ''travel delay is out of range'')
          else Inr [tdm_FromActivityID v, tdm_ToActivityID v])
      | _ \<Rightarrow> Inl (ErrText ''accepted mutation kind is invalid''))"

definition validateAcceptedMutationRequest ::
  "ext \<Rightarrow> FinalizeAcceptedMutationRequest \<Rightarrow> CommandKind result" where
  "validateAcceptedMutationRequest e rq =
     (if \<not> list_all validCanonicalUUID [fa_TripID rq, fa_IntentID rq, fa_OutboxID rq, fa_EventID rq]
        then Inl (ErrText ''accepted-mutation identifiers must be canonical lowercase UUIDs'')
      else if fa_MutationSequence rq = 0 \<or> fa_MutationSequence rq > MaxInt64 \<or>
          fa_ExpectedTripRevision rq \<ge> MaxInt64 \<or> fa_ResultingPlannerStateVersion rq > MaxInt64
        then Inl (ErrText ''accepted-mutation versions are out of range'')
      else if \<not> json_valid e (fa_OutcomePayload rq)
        then Inl (ErrText ''accepted-mutation outcome must be valid JSON'')
      else bindr (mutation_kind (fa_Mutation rq)) (\<lambda>kind.
        bindr (mutation_activities (fa_Mutation rq) kind) (\<lambda>activityIDs.
          if \<not> list_all validCanonicalUUID activityIDs
            then Inl (ErrText ''activity identifiers must be canonical lowercase UUIDs'')
          else Inr kind)))"

definition unixMilliseconds :: "i64 \<Rightarrow> time" where
  "unixMilliseconds value = millis value"

text \<open>\<open>UPDATE trip_activities SET ... WHERE trip_id = $1 AND id = $2\<close> and its row count.\<close>

definition update_activity :: "uuid \<Rightarrow> uuid \<Rightarrow> (activity_row \<Rightarrow> activity_row) \<Rightarrow> db \<Rightarrow> db result" where
  "update_activity tripID aid f d =
     (let P = (\<lambda>a. a_trip_id a = tripID \<and> a_id a = aid) in
      if sql_count P (trip_activities d) \<noteq> 1 then Inl ErrMutationTargetNotFound
      else Inr (d\<lparr>trip_activities := sql_update P f (trip_activities d)\<rparr>))"

definition insert_window_step :: "uuid \<Rightarrow> uuid \<Rightarrow> nat \<times> OpenWindow \<Rightarrow> db \<Rightarrow> db result" where
  "insert_window_step tripID aid = (\<lambda>(index, w) d.
     exec_sql ''insert operating-hours window'' (insert_window
       \<lparr>w_trip_id = tripID, w_activity_id = aid, w_window_index = int index,
        w_opens_at = unixMilliseconds (OpensAtUnixMilliseconds w),
        w_closes_at = unixMilliseconds (ClosesAtUnixMilliseconds w)\<rparr> d))"

definition replace_open_windows :: "uuid \<Rightarrow> OperatingHoursMutation \<Rightarrow> db \<Rightarrow> db result" where
  "replace_open_windows tripID v d =
     (if \<not> activity_exists tripID (ohm_ActivityID v) d then Inl ErrMutationTargetNotFound
      else for_each (insert_window_step tripID (ohm_ActivityID v)) (enumerate 0 (ohm_OpenWindows v))
        (d\<lparr>activity_open_windows := sql_delete (\<lambda>w. w_trip_id w = tripID \<and> w_activity_id w = ohm_ActivityID v)
           (activity_open_windows d)\<rparr>))"

definition upsert_travel_delay :: "uuid \<Rightarrow> TravelDelayMutation \<Rightarrow> db \<Rightarrow> db result" where
  "upsert_travel_delay tripID v d =
     (let P = (\<lambda>y. delay_key y = (tripID, tdm_FromActivityID v, tdm_ToActivityID v));
          secs = int (tdm_AdditionalSeconds v); at_time = unixMilliseconds (tdm_ObservedAtUnixMilliseconds v) in
      if sql_exists P (trip_travel_delays d)
        then Inr (d\<lparr>trip_travel_delays := sql_update P (\<lambda>y. y\<lparr>y_additional_seconds := secs, y_observed_at := at_time\<rparr>)
               (trip_travel_delays d)\<rparr>)
      else exec_sql ''apply travel_delay mutation'' (insert_delay
        \<lparr>y_trip_id = tripID, y_from_activity_id = tdm_FromActivityID v, y_to_activity_id = tdm_ToActivityID v,
         y_additional_seconds = secs, y_observed_at = at_time\<rparr> d))"

definition applyAcceptedMutation :: "uuid \<Rightarrow> AcceptedMutation \<Rightarrow> CommandKind \<Rightarrow> db \<Rightarrow> db result" where
  "applyAcceptedMutation tripID mu kind d =
     (case kind of
        CommandActivityStatusChanged \<Rightarrow> deref (m_ActivityStatus mu) (\<lambda>v.
          update_activity tripID (asm_ActivityID v) (\<lambda>a. a\<lparr>a_activity_state := asm_State v\<rparr>) d)
      | CommandActivityDelayed \<Rightarrow> deref (m_ActivityDelay mu) (\<lambda>v.
          update_activity tripID (adm_ActivityID v)
            (\<lambda>a. a\<lparr>a_activity_delay_seconds := int (adm_DelaySeconds v)\<rparr>) d)
      | CommandReservationChanged \<Rightarrow> deref (m_Reservation mu) (\<lambda>v.
          update_activity tripID (rm_ActivityID v)
            (\<lambda>a. a\<lparr>a_reservation_start := map_option unixMilliseconds (rm_ReservationStartUnixMilliseconds v),
               a_reservation_grace_seconds := int (rm_ReservationGraceSeconds v)\<rparr>) d)
      | CommandMandatoryDeadlineChanged \<Rightarrow> deref (m_MandatoryDeadline mu) (\<lambda>v.
          update_activity tripID (mdm_ActivityID v)
            (\<lambda>a. a\<lparr>a_mandatory_deadline := Some (unixMilliseconds (mdm_LatestFinishUnixMilliseconds v))\<rparr>) d)
      | CommandOperatingHoursChanged \<Rightarrow> deref (m_OperatingHours mu) (\<lambda>v. replace_open_windows tripID v d)
      | CommandPlaceFoundClosed \<Rightarrow> deref (m_PlaceFoundClosed mu) (\<lambda>v.
          update_activity tripID (pfm_ActivityID v)
            (\<lambda>a. a\<lparr>a_found_closed_at := Some (unixMilliseconds (pfm_ObservedAtUnixMilliseconds v))\<rparr>) d)
      | CommandTravelDelay \<Rightarrow> deref (m_TravelDelay mu) (\<lambda>v. upsert_travel_delay tripID v d)
      | _ \<Rightarrow> Inl (ErrText ''unsupported accepted mutation''))"

definition accepted_result ::
  "FinalizeAcceptedMutationRequest \<Rightarrow> time \<Rightarrow> bool \<Rightarrow> FinalizedCommand" where
  "accepted_result rq finalizedAt duplicate =
     \<lparr>fc_IntentID = fa_IntentID rq, fc_OutboxID = fa_OutboxID rq, fc_TripID = fa_TripID rq,
      fc_EventID = fa_EventID rq, fc_MutationSequence = fa_MutationSequence rq,
      fc_State = IntentApplied, fc_Status = ''OK'',
      fc_ResultingTripRevision = add_u64 (fa_ExpectedTripRevision rq) 1,
      fc_ResultingPlannerStateVersion = fa_ResultingPlannerStateVersion rq,
      fc_FinalizedAt = finalizedAt, fc_Duplicate = duplicate\<rparr>"

definition FinalizeAcceptedMutation_resolved ::
  "ext \<Rightarrow> FinalizeAcceptedMutationRequest \<Rightarrow> intent_row \<Rightarrow> outbox_row \<Rightarrow> FinalizedCommand result" where
  "FinalizeAcceptedMutation_resolved e rq i b =
     bindr (payload_matches e ''compare accepted-mutation outcome'' i (fa_OutcomePayload rq)) (\<lambda>payloadMatches.
       case i_finalized_at i of
         None \<Rightarrow> Inl ErrCommandFinalizationConflict
       | Some finalizedAt \<Rightarrow>
           if i_state i \<noteq> IntentApplied \<or> i_outcome_status i \<noteq> Some ''OK'' \<or>
              i_resulting_trip_revision i \<noteq> Some (int64 (add_u64 (fa_ExpectedTripRevision rq) 1)) \<or>
              i_resulting_planner_state_version i \<noteq> Some (int64 (fa_ResultingPlannerStateVersion rq)) \<or>
              o_delivery_state b \<noteq> DeliveryAccepted \<or> \<not> payloadMatches
             then Inl ErrCommandFinalizationConflict
           else Inr (accepted_result rq finalizedAt True))"

text \<open>\<open>UPDATE plan_proposals SET state = 'stale' ... WHERE trip_id = $1 AND state = 'pending'\<close>.\<close>

definition stale_pending_proposals :: "uuid \<Rightarrow> time \<Rightarrow> db \<Rightarrow> db" where
  "stale_pending_proposals tripID now d =
     update_proposals (pending_of tripID) (\<lambda>r. r\<lparr>r_state := ProposalIsStale, r_decided_at := Some now\<rparr>) d"

definition FinalizeAcceptedMutation_apply ::
  "ext \<Rightarrow> clock \<Rightarrow> FinalizeAcceptedMutationRequest \<Rightarrow> CommandKind \<Rightarrow> intent_row \<Rightarrow> db \<Rightarrow>
     err + (FinalizedCommand \<times> db)" where
  "FinalizeAcceptedMutation_apply e clk rq kind i d =
     bindr (applyAcceptedMutation (fa_TripID rq) (fa_Mutation rq) kind d) (\<lambda>d1.
     let databaseTime = clk 0;
         resultRevision = int64 (add_u64 (fa_ExpectedTripRevision rq) 1);
         d2 = stale_pending_proposals (fa_TripID rq) databaseTime d1 in
     bindr (exec_sql ''advance mutation trip'' (update_trip (fa_TripID rq)
         (\<lambda>t. t\<lparr>t_trip_revision := resultRevision, t_finalized_mutation_sequence := i_mutation_sequence i,
            t_updated_at := databaseTime\<rparr>) d2)) (\<lambda>d3.
     bindr (exec_sql ''resolve accepted mutation'' (to_jsonb e (fa_OutcomePayload rq))) (\<lambda>payload.
     let d4 = update_intent (fa_IntentID rq) (resolve_intent IntentApplied ''OK'' payload resultRevision
           (fa_ResultingPlannerStateVersion rq) databaseTime) d3;
         d5 = update_outbox (\<lambda>b. o_id b = fa_OutboxID rq) (resolve_outbox DeliveryAccepted ''OK'' databaseTime) d4 in
     Inr (accepted_result rq databaseTime False, d5))))"

definition FinalizeAcceptedMutation_tx ::
  "ext \<Rightarrow> clock \<Rightarrow> FinalizeAcceptedMutationRequest \<Rightarrow> CommandKind \<Rightarrow> db \<Rightarrow> err + (FinalizedCommand \<times> db)" where
  "FinalizeAcceptedMutation_tx e clk rq kind d =
     bindr (finalization_rows (fa_TripID rq) (fa_IntentID rq) (fa_OutboxID rq) d) (\<lambda>(t, i, b).
       if i_event_id i \<noteq> fa_EventID rq \<or> i_mutation_sequence i \<noteq> int64 (fa_MutationSequence rq) \<or>
          i_expected_trip_revision i \<noteq> int64 (fa_ExpectedTripRevision rq) \<or> i_command_kind i \<noteq> kind
         then Inl ErrCommandFinalizationConflict
       else if i_state i \<noteq> IntentPending
         then bindr (FinalizeAcceptedMutation_resolved e rq i b) (\<lambda>result. Inr (result, d))
       else if t_trip_revision t \<noteq> i_expected_trip_revision i then Inl ErrTripRevisionStale
       else bindr (check_next_finalization t (i_mutation_sequence i)) (\<lambda>_.
         FinalizeAcceptedMutation_apply e clk rq kind i d))"

definition FinalizeAcceptedMutation ::
  "ext \<Rightarrow> clock \<Rightarrow> FinalizeAcceptedMutationRequest \<Rightarrow> db \<Rightarrow> FinalizedCommand result \<times> db" where
  "FinalizeAcceptedMutation e clk rq d =
     (case validateAcceptedMutationRequest e rq of
        Inl x \<Rightarrow> (Inl x, d)
      | Inr kind \<Rightarrow> run_tx (FinalizeAcceptedMutation_tx e clk rq kind) d)"

section \<open>Confirmations\<close>

record ConfirmFinalizedMutationsRequest =
  cq_TripID :: uuid
  cq_FinalizedMutationSequence :: u64

record ConfirmedFinalizedMutations =
  cf_TripID :: uuid
  cf_FinalizedMutationSequence :: u64
  cf_ConfirmedAt :: time
  cf_RowsConfirmed :: u64
  cf_Duplicate :: bool

text \<open>The zero \<open>time.Time\<close>, 1 January of year 1.\<close>

definition zero_time :: time where "zero_time = - 62135596800000000"

definition validateFinalizationConfirmation :: "ConfirmFinalizedMutationsRequest \<Rightarrow> unit result" where
  "validateFinalizationConfirmation rq =
     (if \<not> validCanonicalUUID (cq_TripID rq)
        then Inl (ErrText ''finalization confirmation trip id must be a canonical lowercase UUID'')
      else if cq_FinalizedMutationSequence rq = 0 \<or> cq_FinalizedMutationSequence rq > MaxInt64
        then Inl (ErrText ''finalization confirmation sequence is invalid'')
      else Inr ())"

text \<open>The \<open>WHERE\<close> clauses of its three statements: the locked rows, the updated ones, those confirmed before.\<close>

definition lock_covered :: "ConfirmFinalizedMutationsRequest \<Rightarrow> outbox_row \<Rightarrow> bool" where
  "lock_covered rq b \<longleftrightarrow> o_trip_id b = cq_TripID rq \<and>
     o_mutation_sequence b \<le> int64 (cq_FinalizedMutationSequence rq)"

definition confirm_covered :: "ConfirmFinalizedMutationsRequest \<Rightarrow> outbox_row \<Rightarrow> bool" where
  "confirm_covered rq b \<longleftrightarrow> o_trip_id b = cq_TripID rq \<and>
     o_mutation_sequence b \<le> int64 (cq_FinalizedMutationSequence rq) \<and>
     o_delivery_state b \<in> {DeliveryAccepted, DeliveryTerminalRejected} \<and> o_finalization_confirmed_at b = None"

definition existing_confirmation :: "ConfirmFinalizedMutationsRequest \<Rightarrow> outbox_row \<Rightarrow> bool" where
  "existing_confirmation rq b \<longleftrightarrow> o_trip_id b = cq_TripID rq \<and>
     o_mutation_sequence b \<le> int64 (cq_FinalizedMutationSequence rq) \<and> o_finalization_confirmed_at b \<noteq> None"

text \<open>The loop over the covered rows: whether one is confirmed already, and how many are to be.\<close>

definition confirmation_step :: "outbox_row \<Rightarrow> bool \<times> u64 \<Rightarrow> (bool \<times> u64) result" where
  "confirmation_step b = (\<lambda>(alreadyConfirmed, rowsToConfirm).
     if o_delivery_state b \<in> {DeliveryAccepted, DeliveryTerminalRejected}
       then if o_finalization_confirmed_at b = None then Inr (alreadyConfirmed, rowsToConfirm + 1)
            else Inr (True, rowsToConfirm)
     else Inl ErrFinalizationConfirmationBlocked)"

definition ConfirmFinalizedMutations_tx ::
  "clock \<Rightarrow> ConfirmFinalizedMutationsRequest \<Rightarrow> db \<Rightarrow> err + (ConfirmedFinalizedMutations \<times> db)" where
  "ConfirmFinalizedMutations_tx clk rq d =
     (case find_trip (cq_TripID rq) d of
        None \<Rightarrow> Inl ErrTripNotFound
      | Some t \<Rightarrow>
        if t_finalized_mutation_sequence t < 0 \<or>
           cq_FinalizedMutationSequence rq > uint64 (t_finalized_mutation_sequence t)
          then Inl ErrFinalizationConfirmationAhead
        else bindr (for_each confirmation_step (sort_key o_mutation_sequence
            (sql_select (lock_covered rq) (planner_outbox d))) (False, 0)) (\<lambda>(alreadyConfirmed, rowsToConfirm).
          let (databaseTime, d') =
            (if rowsToConfirm > 0
               then (clk 0, update_outbox (confirm_covered rq)
                 (\<lambda>b. b\<lparr>o_finalization_confirmed_at := Some (clk 0), o_updated_at := clk 0\<rparr>) d)
             else if alreadyConfirmed
               then (Max (set (List.map_filter o_finalization_confirmed_at
                 (sql_select (existing_confirmation rq) (planner_outbox d)))), d)
             else (zero_time, d)) in
          Inr (\<lparr>cf_TripID = cq_TripID rq, cf_FinalizedMutationSequence = cq_FinalizedMutationSequence rq,
            cf_ConfirmedAt = databaseTime, cf_RowsConfirmed = rowsToConfirm,
            cf_Duplicate = (rowsToConfirm = 0)\<rparr>, d')))"

definition ConfirmFinalizedMutations ::
  "clock \<Rightarrow> ConfirmFinalizedMutationsRequest \<Rightarrow> db \<Rightarrow> ConfirmedFinalizedMutations result \<times> db" where
  "ConfirmFinalizedMutations clk rq d =
     (case validateFinalizationConfirmation rq of
        Inl x \<Rightarrow> (Inl x, d)
      | Inr _ \<Rightarrow> run_tx (ConfirmFinalizedMutations_tx clk rq) d)"

section \<open>Facts on the shared steps\<close>

lemma resolve_intent_simps [simp]:
  "i_id (resolve_intent st s p rv v now i) = i_id i"
  "i_trip_id (resolve_intent st s p rv v now i) = i_trip_id i"
  "i_message_id (resolve_intent st s p rv v now i) = i_message_id i"
  "i_event_id (resolve_intent st s p rv v now i) = i_event_id i"
  "i_mutation_sequence (resolve_intent st s p rv v now i) = i_mutation_sequence i"
  "i_expected_trip_revision (resolve_intent st s p rv v now i) = i_expected_trip_revision i"
  "i_command_kind (resolve_intent st s p rv v now i) = i_command_kind i"
  "i_application_order (resolve_intent st s p rv v now i) = i_application_order i"
  "i_runtime_sync_state (resolve_intent st s p rv v now i) = i_runtime_sync_state i"
  "i_payload_digest (resolve_intent st s p rv v now i) = i_payload_digest i"
  "i_digest_algorithm (resolve_intent st s p rv v now i) = i_digest_algorithm i"
  "i_state (resolve_intent st s p rv v now i) = st"
  "i_outcome_status (resolve_intent st s p rv v now i) = Some s"
  "i_outcome_payload (resolve_intent st s p rv v now i) = Some p"
  "i_resulting_trip_revision (resolve_intent st s p rv v now i) = Some rv"
  "i_resulting_planner_state_version (resolve_intent st s p rv v now i) = Some (int64 v)"
  "i_finalized_at (resolve_intent st s p rv v now i) = Some now"
  "i_planned_current_plan_id (resolve_intent st s p rv v now i) = i_planned_current_plan_id i"
  "i_planned_current_plan_payload (resolve_intent st s p rv v now i) = i_planned_current_plan_payload i"
  "i_planned_current_plan_checksum (resolve_intent st s p rv v now i) = i_planned_current_plan_checksum i"
  "i_resulting_current_plan_id (resolve_intent st s p rv v now i) = i_resulting_current_plan_id i"
  by (simp_all add: resolve_intent_def)

lemma resolve_outbox_simps [simp]:
  "o_id (resolve_outbox st s now b) = o_id b" "o_trip_id (resolve_outbox st s now b) = o_trip_id b"
  "o_command_intent_id (resolve_outbox st s now b) = o_command_intent_id b"
  "o_mutation_sequence (resolve_outbox st s now b) = o_mutation_sequence b"
  "o_event_schema_version (resolve_outbox st s now b) = o_event_schema_version b"
  "o_attempt_count (resolve_outbox st s now b) = o_attempt_count b"
  "o_delivery_state (resolve_outbox st s now b) = st"
  "o_finalization_confirmed_at (resolve_outbox st s now b) = o_finalization_confirmed_at b"
  by (simp_all add: resolve_outbox_def)

lemma intent_check_resolve [simp]: "intent_check (resolve_intent st s p rv v now i) = intent_check i"
  by (simp add: intent_check_def)

lemma outbox_check_resolve [simp]: "outbox_check (resolve_outbox st s now b) = outbox_check b"
  by (simp add: outbox_check_def)

lemma schema_resolve_intent:
  "schema_ok d \<Longrightarrow> schema_ok (update_intent iid (resolve_intent st s p rv v now) d)"
  by (rule schema_update_intent) simp_all

lemma schema_resolve_outbox:
  "schema_ok d \<Longrightarrow> schema_ok (update_outbox P (resolve_outbox st s now) d)"
  by (rule schema_update_outbox) simp_all

lemma finalization_rows_queries:
  assumes "finalization_rows tid iid oid d = Inr (t, i, b)"
  shows "find_trip tid d = Some t"
    "query_row (\<lambda>i. i_id i = iid \<and> i_trip_id i = tid \<and> i_application_order i = RuntimeFirst) (command_intents d) = Some i"
    "query_row (\<lambda>b. o_id b = oid \<and> o_command_intent_id b = iid \<and> o_trip_id b = tid) (planner_outbox d) = Some b"
  using assms unfolding finalization_rows_def by (simp_all split: option.splits)

lemma finalization_rows_SomeD:
  assumes "finalization_rows tid iid oid d = Inr (t, i, b)"
  shows "find_trip tid d = Some t" "t \<in> set (trips d)" "t_id t = tid"
    "i \<in> set (command_intents d)" "i_id i = iid" "i_trip_id i = tid" "i_application_order i = RuntimeFirst"
    "b \<in> set (planner_outbox d)" "o_id b = oid" "o_command_intent_id b = iid" "o_trip_id b = tid"
  using assms unfolding finalization_rows_def
  by (simp_all split: option.splits)
    (auto dest: query_row_SomeD find_trip_SomeD)

text \<open>After the updates of a finalization the same three rows are found, updated.\<close>

lemma finalization_rows_resolved:
  assumes "finalization_rows tid iid oid d = Inr (t, i, b)"
    and "trips d' = sql_update (\<lambda>t. t_id t = tid) ft (trips d)" "\<And>t. t_id (ft t) = t_id t"
    and "command_intents d' = sql_update (\<lambda>i. i_id i = iid) (resolve_intent st s p rv v now) (command_intents d)"
    and "planner_outbox d' = sql_update (\<lambda>b. o_id b = oid) (resolve_outbox st' s now) (planner_outbox d)"
  shows "finalization_rows tid iid oid d' = Inr (ft t, resolve_intent st s p rv v now i, resolve_outbox st' s now b)"
proof -
  note rows = finalization_rows_SomeD [OF assms(1)]
  let ?P = "\<lambda>i. i_id i = iid \<and> i_trip_id i = tid \<and> i_application_order i = RuntimeFirst"
  let ?Q = "\<lambda>b. o_id b = oid \<and> o_command_intent_id b = iid \<and> o_trip_id b = tid"
  have q: "query_row (\<lambda>t. t_id t = tid) (trips d) = Some t"
    "query_row ?P (command_intents d) = Some i" "query_row ?Q (planner_outbox d) = Some b"
    using finalization_rows_queries [OF assms(1)] by (simp_all add: find_trip_def)
  have "find_trip tid d' = Some (ft t)"
    using query_row_update [OF q(1), of "\<lambda>t. t_id t = tid" ft] rows(3) by (simp add: find_trip_def assms(2,3))
  moreover have "query_row ?P (command_intents d') = Some (resolve_intent st s p rv v now i)"
    using query_row_update [OF q(2), of "\<lambda>i. i_id i = iid" "resolve_intent st s p rv v now"] rows(5)
    by (simp add: assms(4))
  moreover have "query_row ?Q (planner_outbox d') = Some (resolve_outbox st' s now b)"
    using query_row_update [OF q(3), of "\<lambda>b. o_id b = oid" "resolve_outbox st' s now"] rows(9)
    by (simp add: assms(5))
  ultimately show ?thesis by (simp add: finalization_rows_def)
qed

lemma check_next_finalizationD:
  "check_next_finalization t n = Inr () \<Longrightarrow> n = t_finalized_mutation_sequence t + 1"
  by (simp add: check_next_finalization_def split: if_splits)

lemma payload_matches_stored:
  "i_outcome_payload i = Some p \<Longrightarrow> to_jsonb e given = Some p \<Longrightarrow> payload_matches e l i given = Inr True"
  by (simp add: payload_matches_def)

section \<open>Terminal finalization\<close>

lemma FinalizeTerminal_success:
  assumes "FinalizeTerminal e clk rq d = (Inr r, d')"
  shows "validateTerminalFinalization e rq = Inr ()" "FinalizeTerminal_tx e clk rq d = Inr (r, d')"
  using assms by (simp_all add: FinalizeTerminal_def run_tx_Inr split: sum.splits)

text \<open>The identity a request must share with the recorded command, in both branches.\<close>

definition terminal_identity :: "FinalizeTerminalCommandRequest \<Rightarrow> intent_row \<Rightarrow> bool" where
  "terminal_identity rq i \<longleftrightarrow> i_event_id i = ft_EventID rq \<and> i_mutation_sequence i = int64 (ft_MutationSequence rq) \<and>
     i_expected_trip_revision i = int64 (ft_ExpectedTripRevision rq) \<and>
     \<not> (ft_Status rq = TerminalStatusStale \<and> i_command_kind i \<in> {CommandAcceptProposal, CommandRejectProposal})"

lemma FinalizeTerminal_tx_cases:
  assumes "FinalizeTerminal_tx e clk rq d = Inr (r, d')"
  obtains (resolved) t i b where "finalization_rows (ft_TripID rq) (ft_IntentID rq) (ft_OutboxID rq) d = Inr (t, i, b)"
      "terminal_identity rq i" "i_state i \<noteq> IntentPending" "FinalizeTerminal_resolved e rq i b = Inr r" "d' = d"
  | (pending) t i b payload where "finalization_rows (ft_TripID rq) (ft_IntentID rq) (ft_OutboxID rq) d = Inr (t, i, b)"
      "terminal_identity rq i" "i_state i = IntentPending" "t_trip_revision t = i_expected_trip_revision i"
      "i_mutation_sequence i = t_finalized_mutation_sequence t + 1"
      "to_jsonb e (ft_OutcomePayload rq) = Some payload"
      "r = terminal_result rq (t_trip_revision t) (clk 0) False"
      "update_trip (ft_TripID rq) (\<lambda>t. t\<lparr>t_finalized_mutation_sequence := i_mutation_sequence i, t_updated_at := clk 0\<rparr>) d \<noteq> None"
      "d' = d\<lparr>trips := sql_update (\<lambda>t. t_id t = ft_TripID rq)
          (\<lambda>t. t\<lparr>t_finalized_mutation_sequence := i_mutation_sequence i, t_updated_at := clk 0\<rparr>) (trips d),
        command_intents := sql_update (\<lambda>i. i_id i = ft_IntentID rq) (resolve_intent (terminalIntentState (ft_Status rq))
          (ft_Status rq) payload (t_trip_revision t) (ft_ResultingPlannerStateVersion rq) (clk 0)) (command_intents d),
        planner_outbox := sql_update (\<lambda>b. o_id b = ft_OutboxID rq)
          (resolve_outbox DeliveryTerminalRejected (ft_Status rq) (clk 0)) (planner_outbox d)\<rparr>"
proof -
  from assms obtain t i b where rows: "finalization_rows (ft_TripID rq) (ft_IntentID rq) (ft_OutboxID rq) d = Inr (t, i, b)"
    unfolding FinalizeTerminal_tx_def bindr_eq_Inr by auto
  have idt: "terminal_identity rq i"
    using assms rows unfolding FinalizeTerminal_tx_def terminal_identity_def by (simp split: if_splits)
  show thesis
  proof (cases "i_state i = IntentPending")
    case False
    then show thesis
      using assms rows idt resolved [OF rows idt False] unfolding FinalizeTerminal_tx_def terminal_identity_def
      by (auto simp: bindr_eq_Inr)
  next
    case True
    then have rev: "t_trip_revision t = i_expected_trip_revision i"
      and nxt: "check_next_finalization t (i_mutation_sequence i) = Inr ()"
      and ap: "FinalizeTerminal_apply e clk rq t i d = Inr (r, d')"
      using assms rows idt unfolding FinalizeTerminal_tx_def terminal_identity_def
      by (auto simp: bindr_eq_Inr split: if_splits)
    from ap obtain d1 payload where u: "update_trip (ft_TripID rq)
        (\<lambda>t. t\<lparr>t_finalized_mutation_sequence := i_mutation_sequence i, t_updated_at := clk 0\<rparr>) d = Some d1"
      and p: "to_jsonb e (ft_OutcomePayload rq) = Some payload"
      and r: "r = terminal_result rq (t_trip_revision t) (clk 0) False"
      and d': "d' = update_outbox (\<lambda>b. o_id b = ft_OutboxID rq) (resolve_outbox DeliveryTerminalRejected (ft_Status rq) (clk 0))
         (update_intent (ft_IntentID rq) (resolve_intent (terminalIntentState (ft_Status rq)) (ft_Status rq)
            payload (t_trip_revision t) (ft_ResultingPlannerStateVersion rq) (clk 0)) d1)"
      unfolding FinalizeTerminal_apply_def by (auto simp: bindr_eq_Inr Let_def)
    show thesis
      by (rule pending [OF rows idt True rev check_next_finalizationD [OF nxt] p r])
        (simp_all add: u d' update_trip_SomeD [OF u] update_outbox_def update_intent_def)
  qed
qed

lemma schema_FinalizeTerminal: "schema_ok d \<Longrightarrow> schema_ok (snd (FinalizeTerminal e clk rq d))"
proof (cases "fst (FinalizeTerminal e clk rq d)")
  case (Inr r)
  then obtain d' where s: "FinalizeTerminal e clk rq d = (Inr r, d')" by (cases "FinalizeTerminal e clk rq d") auto
  assume ok: "schema_ok d"
  from FinalizeTerminal_success(2) [OF s] show ?thesis
  proof (cases rule: FinalizeTerminal_tx_cases)
    case (pending t i b payload)
    then obtain d1 where u: "update_trip (ft_TripID rq)
        (\<lambda>t. t\<lparr>t_finalized_mutation_sequence := i_mutation_sequence i, t_updated_at := clk 0\<rparr>) d = Some d1" by auto
    have "schema_ok d1" by (rule schema_update_trip [OF ok u]) simp
    from schema_resolve_outbox [OF schema_resolve_intent [OF this]] show ?thesis
      using pending(9) update_trip_SomeD [OF u] s by (simp add: update_outbox_def update_intent_def)
  qed (simp add: s ok)
qed (auto simp: FinalizeTerminal_def run_tx_def split: sum.splits)

text \<open>A success is answered again in the same way, from the stored outcome.\<close>

lemma FinalizeTerminal_repeat:
  assumes "FinalizeTerminal e clk rq d = (Inr r, d')"
  shows "FinalizeTerminal e clk' rq d' = (Inr (r\<lparr>fc_Duplicate := True\<rparr>), d')"
  using FinalizeTerminal_success(2) [OF assms]
proof (cases rule: FinalizeTerminal_tx_cases)
  case (resolved t i b)
  have "FinalizeTerminal_tx e clk' rq d' = Inr (r, d')"
    using resolved unfolding FinalizeTerminal_tx_def terminal_identity_def by auto
  moreover have "r\<lparr>fc_Duplicate := True\<rparr> = r"
    using resolved(4) by (auto simp: FinalizeTerminal_resolved_def bindr_eq_Inr terminal_result_def split: option.splits if_splits)
  ultimately show ?thesis using FinalizeTerminal_success(1) [OF assms] by (simp add: FinalizeTerminal_def run_tx_def)
next
  case (pending t i b payload)
  let ?i = "resolve_intent (terminalIntentState (ft_Status rq)) (ft_Status rq) payload (t_trip_revision t)
    (ft_ResultingPlannerStateVersion rq) (clk 0) i"
  have rows: "finalization_rows (ft_TripID rq) (ft_IntentID rq) (ft_OutboxID rq) d' =
      Inr (t\<lparr>t_finalized_mutation_sequence := i_mutation_sequence i, t_updated_at := clk 0\<rparr>, ?i,
        resolve_outbox DeliveryTerminalRejected (ft_Status rq) (clk 0) b)"
    by (rule finalization_rows_resolved [OF pending(1)]) (simp_all add: pending(9))
  have "terminalIntentState (ft_Status rq) \<noteq> IntentPending" by (simp add: terminalIntentState_def)
  then have "FinalizeTerminal_tx e clk' rq d' = Inr (r\<lparr>fc_Duplicate := True\<rparr>, d')"
    using rows pending(2,4,6,7) payload_matches_stored [of ?i payload e "ft_OutcomePayload rq"]
    by (auto simp: FinalizeTerminal_tx_def terminal_identity_def FinalizeTerminal_resolved_def terminal_result_def)
  then show ?thesis using FinalizeTerminal_success(1) [OF assms] by (simp add: FinalizeTerminal_def run_tx_def)
qed

interpretation terminal: atomic_store_op "FinalizeTerminal e" for e
  by unfold_locales (erule schema_FinalizeTerminal, auto simp: FinalizeTerminal_def run_tx_def split: sum.splits)

interpretation terminal_once: idempotent_store_op "FinalizeTerminal e" "\<lambda>_ _. True" for e
  by unfold_locales (blast dest: FinalizeTerminal_repeat)

section \<open>Accepted mutations\<close>

lemma deref_eq_Inr: "deref p f = Inr y \<longleftrightarrow> (\<exists>v. p = Some v \<and> f v = Inr y)"
  by (simp add: deref_def split: option.splits)

text \<open>The tables a mutation may change; everything else is framed.\<close>

abbreviation activity_frame :: "db \<Rightarrow> db \<Rightarrow> bool" where
  "activity_frame d d' \<equiv> d' = d\<lparr>trip_activities := trip_activities d',
     activity_open_windows := activity_open_windows d', trip_travel_delays := trip_travel_delays d'\<rparr>"

lemma update_activity_InrD:
  "update_activity tid aid f d = Inr d' \<Longrightarrow>
     d' = d\<lparr>trip_activities := sql_update (\<lambda>a. a_trip_id a = tid \<and> a_id a = aid) f (trip_activities d)\<rparr>"
  by (simp add: update_activity_def Let_def split: if_splits)

lemma schema_update_activity:
  assumes "schema_ok d" "update_activity tid aid f d = Inr d'"
    "\<And>a. a_id (f a) = a_id a" "\<And>a. activity_ordinal_key (f a) = activity_ordinal_key a"
    "\<And>a. activity_check a \<Longrightarrow> activity_check (f a)"
  shows "schema_ok d'"
proof -
  have "activities_ok (sql_update (\<lambda>a. a_trip_id a = tid \<and> a_id a = aid) f (trip_activities d))"
    unfolding activities_ok_def
    by (intro conjI distinct_update list_all_update)
      (use assms in \<open>auto simp: schema_ok_def activities_ok_def\<close>)
  then show ?thesis using assms(1) update_activity_InrD [OF assms(2)] by (simp add: schema_ok_def)
qed

lemma insert_window_stepD:
  assumes "insert_window_step tid aid (k, w) d = Inr d'"
  shows "d' = d\<lparr>activity_open_windows := activity_open_windows d @
      [\<lparr>w_trip_id = tid, w_activity_id = aid, w_window_index = int k,
        w_opens_at = unixMilliseconds (OpensAtUnixMilliseconds w),
        w_closes_at = unixMilliseconds (ClosesAtUnixMilliseconds w)\<rparr>]\<rparr>"
  using assms by (simp add: insert_window_step_def insert_window_def split: if_splits)

lemma insert_windowsD:
  assumes "for_each (insert_window_step tid aid) (enumerate k ws) d = Inr d'"
  shows "d' = d\<lparr>activity_open_windows := activity_open_windows d @
      map (\<lambda>(j, w). \<lparr>w_trip_id = tid, w_activity_id = aid, w_window_index = int j,
        w_opens_at = unixMilliseconds (OpensAtUnixMilliseconds w),
        w_closes_at = unixMilliseconds (ClosesAtUnixMilliseconds w)\<rparr>) (enumerate k ws)\<rparr>"
  using assms
proof (induction ws arbitrary: k d)
  case (Cons w ws)
  then obtain d1 where d1: "insert_window_step tid aid (k, w) d = Inr d1"
    and rest: "for_each (insert_window_step tid aid) (enumerate (Suc k) ws) d1 = Inr d'"
    by (auto simp: bindr_eq_Inr)
  show ?case using Cons.IH [OF rest] insert_window_stepD [OF d1] by simp
qed simp

lemma schema_insert_windows:
  assumes "for_each (insert_window_step tid aid) ws d = Inr d'" "schema_ok d"
  shows "schema_ok d'"
  by (rule for_each_invariant [where P = schema_ok, OF assms])
    (auto simp: insert_window_step_def intro: schema_insert_window split: prod.splits)

lemma schema_delete_windows:
  "schema_ok d \<Longrightarrow> schema_ok (d\<lparr>activity_open_windows := sql_delete P (activity_open_windows d)\<rparr>)"
  by (simp add: schema_ok_def windows_ok_def distinct_sql_delete list_all_delete)

lemma replace_open_windowsD:
  assumes "replace_open_windows tid v d = Inr d'"
  shows "d' = d\<lparr>activity_open_windows :=
      sql_delete (\<lambda>w. w_trip_id w = tid \<and> w_activity_id w = ohm_ActivityID v) (activity_open_windows d) @
      map (\<lambda>(j, w). \<lparr>w_trip_id = tid, w_activity_id = ohm_ActivityID v, w_window_index = int j,
        w_opens_at = unixMilliseconds (OpensAtUnixMilliseconds w),
        w_closes_at = unixMilliseconds (ClosesAtUnixMilliseconds w)\<rparr>) (enumerate 0 (ohm_OpenWindows v))\<rparr>"
    "schema_ok d \<Longrightarrow> schema_ok d'"
proof -
  have r: "for_each (insert_window_step tid (ohm_ActivityID v)) (enumerate 0 (ohm_OpenWindows v))
      (d\<lparr>activity_open_windows := sql_delete (\<lambda>w. w_trip_id w = tid \<and> w_activity_id w = ohm_ActivityID v)
         (activity_open_windows d)\<rparr>) = Inr d'"
    using assms by (simp add: replace_open_windows_def split: if_splits)
  show "schema_ok d \<Longrightarrow> schema_ok d'"
    by (rule schema_insert_windows [OF r schema_delete_windows])
  show "d' = d\<lparr>activity_open_windows :=
      sql_delete (\<lambda>w. w_trip_id w = tid \<and> w_activity_id w = ohm_ActivityID v) (activity_open_windows d) @
      map (\<lambda>(j, w). \<lparr>w_trip_id = tid, w_activity_id = ohm_ActivityID v, w_window_index = int j,
        w_opens_at = unixMilliseconds (OpensAtUnixMilliseconds w),
        w_closes_at = unixMilliseconds (ClosesAtUnixMilliseconds w)\<rparr>) (enumerate 0 (ohm_OpenWindows v))\<rparr>"
    using insert_windowsD [OF r] by simp
qed

lemma upsert_travel_delayD:
  assumes "upsert_travel_delay tid v d = Inr d'"
  shows "activity_frame d d'"
    "schema_ok d \<Longrightarrow> tdm_AdditionalSeconds v \<le> MaxInt32 \<Longrightarrow> schema_ok d'"
proof -
  show "activity_frame d d'"
    using assms by (auto simp: upsert_travel_delay_def Let_def insert_delay_def split: if_splits)
  assume ok: "schema_ok d" and le: "tdm_AdditionalSeconds v \<le> MaxInt32"
  let ?P = "\<lambda>y. delay_key y = (tid, tdm_FromActivityID v, tdm_ToActivityID v)"
  let ?f = "\<lambda>y. y\<lparr>y_additional_seconds := int (tdm_AdditionalSeconds v),
      y_observed_at := unixMilliseconds (tdm_ObservedAtUnixMilliseconds v)\<rparr>"
  show "schema_ok d'"
  proof (cases "sql_exists ?P (trip_travel_delays d)")
    case True
    have "delays_ok (sql_update ?P ?f (trip_travel_delays d))"
      unfolding delays_ok_def
      by (intro conjI distinct_update list_all_update)
        (use ok le in \<open>auto simp: schema_ok_def delays_ok_def delay_check_def i32_ok_def\<close>)
    then show ?thesis using assms ok True by (auto simp: upsert_travel_delay_def Let_def schema_ok_def)
  next
    case False
    then show ?thesis using assms ok schema_insert_delay by (auto simp: upsert_travel_delay_def Let_def)
  qed
qed

lemma applyAcceptedMutation_frame:
  assumes "applyAcceptedMutation tid mu kind d = Inr d'"
  shows "activity_frame d d'"
  using assms unfolding applyAcceptedMutation_def
  by (cases kind) (auto simp: deref_eq_Inr dest!: update_activity_InrD replace_open_windowsD(1) upsert_travel_delayD(1))

lemma schema_applyAcceptedMutation:
  assumes "schema_ok d" "applyAcceptedMutation tid mu kind d = Inr d'" "mutation_activities mu kind = Inr ids"
  shows "schema_ok d'"
  using assms(2,3) unfolding applyAcceptedMutation_def mutation_activities_def
  by (cases kind)
    (auto simp: deref_eq_Inr activity_check_def i32_ok_def ActivityState_valid_def
      intro: schema_update_activity [OF assms(1)] replace_open_windowsD(2) [OF _ assms(1)] upsert_travel_delayD(2) [OF _ assms(1)]
      split: if_splits)

lemma validateAcceptedMutationRequest_kind:
  assumes "validateAcceptedMutationRequest e rq = Inr kind"
  obtains ids where "mutation_activities (fa_Mutation rq) kind = Inr ids"
  using assms by (auto simp: validateAcceptedMutationRequest_def bindr_eq_Inr split: if_splits)

lemma validateAcceptedMutationRequest_range:
  "validateAcceptedMutationRequest e rq = Inr kind \<Longrightarrow> fa_ExpectedTripRevision rq < MaxInt64"
  by (simp add: validateAcceptedMutationRequest_def split: if_splits)

lemma FinalizeAcceptedMutation_success:
  assumes "FinalizeAcceptedMutation e clk rq d = (Inr r, d')"
  obtains kind where "validateAcceptedMutationRequest e rq = Inr kind"
    "FinalizeAcceptedMutation_tx e clk rq kind d = Inr (r, d')"
  using assms by (auto simp: FinalizeAcceptedMutation_def run_tx_Inr split: sum.splits)

definition accepted_identity :: "FinalizeAcceptedMutationRequest \<Rightarrow> CommandKind \<Rightarrow> intent_row \<Rightarrow> bool" where
  "accepted_identity rq kind i \<longleftrightarrow> i_event_id i = fa_EventID rq \<and> i_mutation_sequence i = int64 (fa_MutationSequence rq) \<and>
     i_expected_trip_revision i = int64 (fa_ExpectedTripRevision rq) \<and> i_command_kind i = kind"

definition advance_trip :: "i64 \<Rightarrow> i64 \<Rightarrow> time \<Rightarrow> trip_row \<Rightarrow> trip_row" where
  "advance_trip rv mseq now t =
     t\<lparr>t_trip_revision := rv, t_finalized_mutation_sequence := mseq, t_updated_at := now\<rparr>"

lemma advance_trip_simps [simp]:
  "t_id (advance_trip rv n now t) = t_id t" "t_trip_revision (advance_trip rv n now t) = rv"
  "t_finalized_mutation_sequence (advance_trip rv n now t) = n"
  "t_next_mutation_sequence (advance_trip rv n now t) = t_next_mutation_sequence t"
  "t_owner_user_id (advance_trip rv n now t) = t_owner_user_id t"
  by (simp_all add: advance_trip_def)

text \<open>The database after the updates of \<open>FinalizeAcceptedMutation\<close>, from the one the mutation left.\<close>

definition accepted_db ::
  "FinalizeAcceptedMutationRequest \<Rightarrow> i64 \<Rightarrow> bytes \<Rightarrow> time \<Rightarrow> db \<Rightarrow> db" where
  "accepted_db rq mseq payload now d = d\<lparr>
     plan_proposals := sql_update (pending_of (fa_TripID rq))
       (\<lambda>r. r\<lparr>r_state := ProposalIsStale, r_decided_at := Some now\<rparr>) (plan_proposals d),
     trips := sql_update (\<lambda>t. t_id t = fa_TripID rq)
       (advance_trip (int64 (add_u64 (fa_ExpectedTripRevision rq) 1)) mseq now) (trips d),
     command_intents := sql_update (\<lambda>i. i_id i = fa_IntentID rq) (resolve_intent IntentApplied ''OK'' payload
       (int64 (add_u64 (fa_ExpectedTripRevision rq) 1)) (fa_ResultingPlannerStateVersion rq) now) (command_intents d),
     planner_outbox := sql_update (\<lambda>b. o_id b = fa_OutboxID rq) (resolve_outbox DeliveryAccepted ''OK'' now)
       (planner_outbox d)\<rparr>"

lemma FinalizeAcceptedMutation_apply_statements:
  assumes "FinalizeAcceptedMutation_apply e clk rq kind i d = Inr (r, d')"
  obtains d1 d3 payload where "applyAcceptedMutation (fa_TripID rq) (fa_Mutation rq) kind d = Inr d1"
    "update_trip (fa_TripID rq) (advance_trip (int64 (add_u64 (fa_ExpectedTripRevision rq) 1)) (i_mutation_sequence i) (clk 0))
       (stale_pending_proposals (fa_TripID rq) (clk 0) d1) = Some d3"
    "to_jsonb e (fa_OutcomePayload rq) = Some payload" "r = accepted_result rq (clk 0) False"
    "d' = update_outbox (\<lambda>b. o_id b = fa_OutboxID rq) (resolve_outbox DeliveryAccepted ''OK'' (clk 0))
       (update_intent (fa_IntentID rq) (resolve_intent IntentApplied ''OK'' payload
         (int64 (add_u64 (fa_ExpectedTripRevision rq) 1)) (fa_ResultingPlannerStateVersion rq) (clk 0)) d3)"
  using assms unfolding FinalizeAcceptedMutation_apply_def Let_def bindr_eq_Inr exec_sql_eq_Inr
    advance_trip_def [abs_def] by auto

lemma FinalizeAcceptedMutation_tx_cases:
  assumes "FinalizeAcceptedMutation_tx e clk rq kind d = Inr (r, d')"
  obtains (resolved) t i b where "finalization_rows (fa_TripID rq) (fa_IntentID rq) (fa_OutboxID rq) d = Inr (t, i, b)"
      "accepted_identity rq kind i" "i_state i \<noteq> IntentPending"
      "FinalizeAcceptedMutation_resolved e rq i b = Inr r" "d' = d"
  | (pending) t i b payload d1 where "finalization_rows (fa_TripID rq) (fa_IntentID rq) (fa_OutboxID rq) d = Inr (t, i, b)"
      "accepted_identity rq kind i" "i_state i = IntentPending" "t_trip_revision t = i_expected_trip_revision i"
      "i_mutation_sequence i = t_finalized_mutation_sequence t + 1"
      "applyAcceptedMutation (fa_TripID rq) (fa_Mutation rq) kind d = Inr d1"
      "to_jsonb e (fa_OutcomePayload rq) = Some payload" "r = accepted_result rq (clk 0) False"
      "FinalizeAcceptedMutation_apply e clk rq kind i d = Inr (r, d')"
      "d' = accepted_db rq (i_mutation_sequence i) payload (clk 0) d1"
proof -
  from assms obtain t i b where rows: "finalization_rows (fa_TripID rq) (fa_IntentID rq) (fa_OutboxID rq) d = Inr (t, i, b)"
    unfolding FinalizeAcceptedMutation_tx_def bindr_eq_Inr by auto
  have idt: "accepted_identity rq kind i"
    using assms rows unfolding FinalizeAcceptedMutation_tx_def accepted_identity_def by (simp split: if_splits)
  show thesis
  proof (cases "i_state i = IntentPending")
    case False
    then show thesis
      using assms rows idt resolved [OF rows idt False] unfolding FinalizeAcceptedMutation_tx_def accepted_identity_def
      by (auto simp: bindr_eq_Inr)
  next
    case True
    then have rev: "t_trip_revision t = i_expected_trip_revision i"
      and nxt: "check_next_finalization t (i_mutation_sequence i) = Inr ()"
      and ap: "FinalizeAcceptedMutation_apply e clk rq kind i d = Inr (r, d')"
      using assms rows idt unfolding FinalizeAcceptedMutation_tx_def accepted_identity_def
      by (auto simp: bindr_eq_Inr split: if_splits)
    from ap obtain d1 d3 payload where a: "applyAcceptedMutation (fa_TripID rq) (fa_Mutation rq) kind d = Inr d1"
      and u: "update_trip (fa_TripID rq) (advance_trip (int64 (add_u64 (fa_ExpectedTripRevision rq) 1)) (i_mutation_sequence i) (clk 0))
       (stale_pending_proposals (fa_TripID rq) (clk 0) d1) = Some d3"
      and p: "to_jsonb e (fa_OutcomePayload rq) = Some payload" and r: "r = accepted_result rq (clk 0) False"
      and d': "d' = update_outbox (\<lambda>b. o_id b = fa_OutboxID rq) (resolve_outbox DeliveryAccepted ''OK'' (clk 0))
       (update_intent (fa_IntentID rq) (resolve_intent IntentApplied ''OK'' payload
         (int64 (add_u64 (fa_ExpectedTripRevision rq) 1)) (fa_ResultingPlannerStateVersion rq) (clk 0)) d3)"
      by (rule FinalizeAcceptedMutation_apply_statements)
    have "d' = accepted_db rq (i_mutation_sequence i) payload (clk 0) d1"
      unfolding d' accepted_db_def using update_trip_SomeD [OF u]
      by (simp add: update_outbox_def update_intent_def stale_pending_proposals_def update_proposals_def)
    then show thesis by (rule pending [OF rows idt True rev check_next_finalizationD [OF nxt] a p r ap])
  qed
qed

lemma schema_stale_pending: "schema_ok d \<Longrightarrow> schema_ok (stale_pending_proposals tid now d)"
  unfolding stale_pending_proposals_def
  by (rule schema_update_proposals) (auto simp: proposal_check_def pending_of_def)

lemma schema_FinalizeAcceptedMutation: "schema_ok d \<Longrightarrow> schema_ok (snd (FinalizeAcceptedMutation e clk rq d))"
proof (cases "fst (FinalizeAcceptedMutation e clk rq d)")
  case (Inr r)
  then obtain d' where s: "FinalizeAcceptedMutation e clk rq d = (Inr r, d')"
    by (cases "FinalizeAcceptedMutation e clk rq d") auto
  assume ok: "schema_ok d"
  obtain kind where k: "validateAcceptedMutationRequest e rq = Inr kind"
    and tx: "FinalizeAcceptedMutation_tx e clk rq kind d = Inr (r, d')"
    by (rule FinalizeAcceptedMutation_success [OF s])
  obtain ids where ids: "mutation_activities (fa_Mutation rq) kind = Inr ids"
    by (rule validateAcceptedMutationRequest_kind [OF k])
  from tx show ?thesis
  proof (cases rule: FinalizeAcceptedMutation_tx_cases)
    case (pending t i b payload d1)
    from pending(9) obtain d1 d3 payload where a: "applyAcceptedMutation (fa_TripID rq) (fa_Mutation rq) kind d = Inr d1"
      and u: "update_trip (fa_TripID rq) (advance_trip (int64 (add_u64 (fa_ExpectedTripRevision rq) 1)) (i_mutation_sequence i) (clk 0))
       (stale_pending_proposals (fa_TripID rq) (clk 0) d1) = Some d3"
      and d': "d' = update_outbox (\<lambda>b. o_id b = fa_OutboxID rq) (resolve_outbox DeliveryAccepted ''OK'' (clk 0))
       (update_intent (fa_IntentID rq) (resolve_intent IntentApplied ''OK'' payload
         (int64 (add_u64 (fa_ExpectedTripRevision rq) 1)) (fa_ResultingPlannerStateVersion rq) (clk 0)) d3)"
      by (rule FinalizeAcceptedMutation_apply_statements)
    have "schema_ok d3"
      by (rule schema_update_trip [OF schema_stale_pending [OF schema_applyAcceptedMutation [OF ok a ids]] u]) simp
    then show ?thesis
      using schema_resolve_outbox [OF schema_resolve_intent] by (simp add: s d')
  qed (simp add: s ok)
qed (auto simp: FinalizeAcceptedMutation_def run_tx_def split: sum.splits)

lemma FinalizeAcceptedMutation_resolved_result:
  assumes "FinalizeAcceptedMutation_resolved e rq i b = Inr r"
  obtains now where "r = accepted_result rq now True"
proof -
  from assms obtain m where "payload_matches e ''compare accepted-mutation outcome'' i (fa_OutcomePayload rq) = Inr m"
    unfolding FinalizeAcceptedMutation_resolved_def bindr_eq_Inr by blast
  with assms have "\<exists>now. r = accepted_result rq now True"
    by (cases "i_finalized_at i") (auto simp: FinalizeAcceptedMutation_resolved_def split: if_splits)
  with that show thesis by blast
qed

lemma FinalizeAcceptedMutation_repeat:
  assumes "FinalizeAcceptedMutation e clk rq d = (Inr r, d')"
  shows "FinalizeAcceptedMutation e clk' rq d' = (Inr (r\<lparr>fc_Duplicate := True\<rparr>), d')"
proof -
  obtain kind where k: "validateAcceptedMutationRequest e rq = Inr kind"
    and tx: "FinalizeAcceptedMutation_tx e clk rq kind d = Inr (r, d')"
    by (rule FinalizeAcceptedMutation_success [OF assms])
  from tx have "FinalizeAcceptedMutation_tx e clk' rq kind d' = Inr (r\<lparr>fc_Duplicate := True\<rparr>, d')"
  proof (cases rule: FinalizeAcceptedMutation_tx_cases)
    case (resolved t i b)
    have "r\<lparr>fc_Duplicate := True\<rparr> = r"
      by (rule FinalizeAcceptedMutation_resolved_result [OF resolved(4)]) (simp add: accepted_result_def)
    then show ?thesis
      using resolved unfolding FinalizeAcceptedMutation_tx_def accepted_identity_def by auto
  next
    case (pending t i b payload d1)
    let ?i = "resolve_intent IntentApplied ''OK'' payload (int64 (add_u64 (fa_ExpectedTripRevision rq) 1))
      (fa_ResultingPlannerStateVersion rq) (clk 0) i"
    note fr = applyAcceptedMutation_frame [OF pending(6)]
    have "trips d1 = trips d" "command_intents d1 = command_intents d" "planner_outbox d1 = planner_outbox d"
      by (subst fr, simp)+
    then have "finalization_rows (fa_TripID rq) (fa_IntentID rq) (fa_OutboxID rq) d' =
        Inr (advance_trip (int64 (add_u64 (fa_ExpectedTripRevision rq) 1)) (i_mutation_sequence i) (clk 0) t, ?i,
          resolve_outbox DeliveryAccepted ''OK'' (clk 0) b)"
      by (intro finalization_rows_resolved [OF pending(1),
            where ft = "advance_trip (int64 (add_u64 (fa_ExpectedTripRevision rq) 1)) (i_mutation_sequence i) (clk 0)"])
        (simp_all add: pending(10) accepted_db_def)
    then show ?thesis
      using pending(2,7,8) payload_matches_stored [of ?i payload e "fa_OutcomePayload rq"]
      by (simp add: FinalizeAcceptedMutation_tx_def accepted_identity_def FinalizeAcceptedMutation_resolved_def accepted_result_def)
  qed
  then show ?thesis using k by (simp add: FinalizeAcceptedMutation_def run_tx_def)
qed

interpretation accepted: atomic_store_op "FinalizeAcceptedMutation e" for e
  by unfold_locales (erule schema_FinalizeAcceptedMutation, auto simp: FinalizeAcceptedMutation_def run_tx_def split: sum.splits)

interpretation accepted_once: idempotent_store_op "FinalizeAcceptedMutation e" "\<lambda>_ _. True" for e
  by unfold_locales (blast dest: FinalizeAcceptedMutation_repeat)

section \<open>Confirmations\<close>

lemma confirmation_loop:
  "for_each confirmation_step bs (a, n) =
    (if list_all (\<lambda>b. o_delivery_state b \<in> {DeliveryAccepted, DeliveryTerminalRejected}) bs
     then Inr (a \<or> list_ex (\<lambda>b. o_finalization_confirmed_at b \<noteq> None) bs,
       n + length (filter (\<lambda>b. o_finalization_confirmed_at b = None) bs))
     else Inl ErrFinalizationConfirmationBlocked)"
  by (induction bs arbitrary: a n) (simp_all add: confirmation_step_def)

text \<open>The row updates of a confirmation.\<close>

definition confirm_db :: "ConfirmFinalizedMutationsRequest \<Rightarrow> time \<Rightarrow> db \<Rightarrow> db" where
  "confirm_db rq now d = update_outbox (confirm_covered rq)
     (\<lambda>b. b\<lparr>o_finalization_confirmed_at := Some now, o_updated_at := now\<rparr>) d"

lemma ConfirmFinalizedMutations_success:
  assumes "ConfirmFinalizedMutations clk rq d = (Inr r, d')"
  obtains t where "validateFinalizationConfirmation rq = Inr ()" "find_trip (cq_TripID rq) d = Some t"
    "0 \<le> t_finalized_mutation_sequence t" "cq_FinalizedMutationSequence rq \<le> uint64 (t_finalized_mutation_sequence t)"
    "\<forall>b\<in>set (planner_outbox d). lock_covered rq b \<longrightarrow> o_delivery_state b \<in> {DeliveryAccepted, DeliveryTerminalRejected}"
    "cf_RowsConfirmed r = sql_count (confirm_covered rq) (planner_outbox d)"
    "cf_Duplicate r \<longleftrightarrow> cf_RowsConfirmed r = 0" "d' = confirm_db rq (clk 0) d"
proof -
  have v: "validateFinalizationConfirmation rq = Inr ()" and tx: "ConfirmFinalizedMutations_tx clk rq d = Inr (r, d')"
    using assms by (simp_all add: ConfirmFinalizedMutations_def run_tx_Inr split: sum.splits)
  from tx obtain t where t: "find_trip (cq_TripID rq) d = Some t"
    unfolding ConfirmFinalizedMutations_tx_def by (cases "find_trip (cq_TripID rq) d") simp_all
  let ?cov = "sort_key o_mutation_sequence (sql_select (lock_covered rq) (planner_outbox d))"
  let ?n = "length (filter (\<lambda>b. o_finalization_confirmed_at b = None) ?cov)"
  have all: "list_all (\<lambda>b. o_delivery_state b \<in> {DeliveryAccepted, DeliveryTerminalRejected}) ?cov"
    and rng: "0 \<le> t_finalized_mutation_sequence t" "cq_FinalizedMutationSequence rq \<le> uint64 (t_finalized_mutation_sequence t)"
    using tx t unfolding ConfirmFinalizedMutations_tx_def by (auto simp: confirmation_loop split: if_splits)
  then have all': "\<forall>b\<in>set (planner_outbox d). lock_covered rq b \<longrightarrow> o_delivery_state b \<in> {DeliveryAccepted, DeliveryTerminalRejected}"
    by (simp add: list_all_iff sql_select_def)
  have "filter (\<lambda>b. o_finalization_confirmed_at b = None) ?cov = sort_key o_mutation_sequence
      (filter (\<lambda>b. o_finalization_confirmed_at b = None) (sql_select (lock_covered rq) (planner_outbox d)))"
    by (rule filter_sort)
  moreover have "filter (\<lambda>b. o_finalization_confirmed_at b = None) (sql_select (lock_covered rq) (planner_outbox d)) =
      filter (confirm_covered rq) (planner_outbox d)"
    unfolding sql_select_def filter_filter by (rule filter_cong) (use all' in \<open>auto simp: confirm_covered_def lock_covered_def\<close>)
  ultimately have n: "?n = sql_count (confirm_covered rq) (planner_outbox d)"
    by (simp add: sql_count_def)
  have r: "cf_RowsConfirmed r = ?n" "cf_Duplicate r \<longleftrightarrow> cf_RowsConfirmed r = 0"
    using tx t all rng unfolding ConfirmFinalizedMutations_tx_def
    by (auto simp: confirmation_loop Let_def split: if_splits prod.splits)
  have "d' = (if ?n > 0 then confirm_db rq (clk 0) d else d)"
    using tx t all rng unfolding ConfirmFinalizedMutations_tx_def
    by (auto simp: confirmation_loop Let_def confirm_db_def split: if_splits prod.splits)
  moreover have "confirm_db rq (clk 0) d = d" if "?n = 0"
  proof -
    have "\<forall>b\<in>set (planner_outbox d). \<not> confirm_covered rq b"
      using that n by (simp add: sql_count_eq_0)
    from sql_update_none [OF this] show ?thesis by (simp add: confirm_db_def update_outbox_def)
  qed
  ultimately have "d' = confirm_db rq (clk 0) d" by (cases "?n = 0") simp_all
  then show thesis using that v t rng all' r n by simp
qed

lemma schema_ConfirmFinalizedMutations: "schema_ok d \<Longrightarrow> schema_ok (snd (ConfirmFinalizedMutations clk rq d))"
proof (cases "fst (ConfirmFinalizedMutations clk rq d)")
  case (Inr r)
  then obtain d' where s: "ConfirmFinalizedMutations clk rq d = (Inr r, d')"
    by (cases "ConfirmFinalizedMutations clk rq d") auto
  assume "schema_ok d"
  then have "schema_ok (confirm_db rq (clk 0) d)"
    unfolding confirm_db_def by (rule schema_update_outbox) (simp_all add: outbox_check_def)
  moreover have "d' = confirm_db rq (clk 0) d" by (rule ConfirmFinalizedMutations_success [OF s])
  ultimately show ?thesis using s by simp
qed (auto simp: ConfirmFinalizedMutations_def run_tx_def split: sum.splits)

interpretation confirm: atomic_store_op ConfirmFinalizedMutations
  by unfold_locales (erule schema_ConfirmFinalizedMutations,
    auto simp: ConfirmFinalizedMutations_def run_tx_def split: sum.splits)

lemma normalized_windows:
  assumes "for_each normalized_window_step ws p = Inr q"
  shows "list_all (\<lambda>w. OpensAtUnixMilliseconds w < ClosesAtUnixMilliseconds w) ws \<and>
    sorted_wrt (\<lambda>u w. ClosesAtUnixMilliseconds u \<le> OpensAtUnixMilliseconds w) ws \<and>
    (\<forall>c w. p = Some c \<longrightarrow> w \<in> set ws \<longrightarrow> c \<le> OpensAtUnixMilliseconds w)"
  using assms
proof (induction ws arbitrary: p)
  case (Cons w ws)
  from Cons.prems have w: "OpensAtUnixMilliseconds w < ClosesAtUnixMilliseconds w"
    "\<And>c. p = Some c \<Longrightarrow> c \<le> OpensAtUnixMilliseconds w"
    and rest: "for_each normalized_window_step ws (Some (ClosesAtUnixMilliseconds w)) = Inr q"
    by (auto simp: normalized_window_step_def [of w] split: if_splits)
  show ?case using Cons.IH [OF rest] w by fastforce
qed simp

lemma mutation_kind_hours:
  "mutation_kind mu = Inr k \<Longrightarrow> m_OperatingHours mu = Some v \<Longrightarrow> k = CommandOperatingHoursChanged"
  by (simp add: mutation_kind_def Let_def split: if_splits)

section \<open>Properties\<close>

text \<open>Outcomes for the queued sample command.\<close>

definition sample_terminal :: FinalizeTerminalCommandRequest where
  "sample_terminal = \<lparr>ft_TripID = sample_uuid CHR ''1'', ft_IntentID = sample_uuid CHR ''3'',
     ft_OutboxID = sample_uuid CHR ''4'', ft_EventID = sample_uuid CHR ''5'', ft_MutationSequence = 2,
     ft_ExpectedTripRevision = 1, ft_ResultingPlannerStateVersion = 7, ft_Status = ''INFEASIBLE'',
     ft_OutcomePayload = [123, 125]\<rparr>"

definition no_mutation :: AcceptedMutation where
  "no_mutation = \<lparr>m_ActivityStatus = None, m_ActivityDelay = None, m_Reservation = None,
     m_MandatoryDeadline = None, m_OperatingHours = None, m_PlaceFoundClosed = None, m_TravelDelay = None\<rparr>"

definition sample_accepted :: "AcceptedMutation \<Rightarrow> FinalizeAcceptedMutationRequest" where
  "sample_accepted mu = \<lparr>fa_TripID = sample_uuid CHR ''1'', fa_IntentID = sample_uuid CHR ''3'',
     fa_OutboxID = sample_uuid CHR ''4'', fa_EventID = sample_uuid CHR ''5'', fa_MutationSequence = 2,
     fa_ExpectedTripRevision = 1, fa_ResultingPlannerStateVersion = 7, fa_Mutation = mu,
     fa_OutcomePayload = [123, 125]\<rparr>"

definition sample_delay :: AcceptedMutation where
  "sample_delay = no_mutation\<lparr>m_ActivityDelay := Some \<lparr>adm_ActivityID = sample_uuid CHR ''8'', adm_DelaySeconds = 60\<rparr>\<rparr>"

definition sample_hours :: OperatingHoursMutation where
  "sample_hours = \<lparr>ohm_ActivityID = sample_uuid CHR ''8'',
     ohm_OpenWindows = [\<lparr>OpensAtUnixMilliseconds = 0, ClosesAtUnixMilliseconds = 5\<rparr>,
       \<lparr>OpensAtUnixMilliseconds = 5, ClosesAtUnixMilliseconds = 9\<rparr>]\<rparr>"

definition queued_hours_db :: db where
  "queued_hours_db = queued_db\<lparr>command_intents :=
     [(runtime_intent_row sample_record 2 [123, 125] 0)\<lparr>i_command_kind := CommandOperatingHoursChanged\<rparr>]\<rparr>"

lemmas finalization_eval = finalization_rows_def find_trip_def query_row_def queued_db_def queued_hours_db_def
  sample_db_def empty_db_def sample_trip_def sample_activity_def allocate_sequence_def runtime_intent_row_def
  sample_record_def new_outbox_row_def int64_def uint64_def add_u64_def MaxInt64_def MaxInt32_def i64_ok_def update_trip_def
  trip_check_def trips_execution_lifecycle_check_def trips_name_check_def check_next_finalization_def sql_update_def Let_def

lemma sample_terminal_applies:
  "\<exists>r d'. FinalizeTerminal sample_ext (\<lambda>_. 5) sample_terminal queued_db = (Inr r, d')"
  by (simp add: FinalizeTerminal_def validateTerminalFinalization_def sample_terminal_def TerminalStatus_valid_def
      TerminalStatusStale_def TerminalStatusInvalidArgument_def TerminalStatusNotFound_def TerminalStatusInfeasible_def
      FinalizeTerminal_tx_def FinalizeTerminal_apply_def run_tx_def finalization_eval)

lemma sample_delay_applies:
  "\<exists>r d'. FinalizeAcceptedMutation sample_ext (\<lambda>_. 5) (sample_accepted sample_delay) queued_db = (Inr r, d') \<and> \<not> fc_Duplicate r"
  by (simp add: FinalizeAcceptedMutation_def validateAcceptedMutationRequest_def sample_accepted_def sample_delay_def
      no_mutation_def mutation_kind_def mutation_activities_def deref_def FinalizeAcceptedMutation_tx_def
      FinalizeAcceptedMutation_apply_def applyAcceptedMutation_def update_activity_def sql_count_def run_tx_def
      stale_pending_proposals_def update_proposals_def accepted_result_def finalization_eval)

lemma sample_hours_applies:
  "\<exists>r d'. FinalizeAcceptedMutation sample_ext (\<lambda>_. 5) (sample_accepted (no_mutation\<lparr>m_OperatingHours := Some sample_hours\<rparr>))
     queued_hours_db = (Inr r, d') \<and> \<not> fc_Duplicate r"
  by (simp add: FinalizeAcceptedMutation_def validateAcceptedMutationRequest_def sample_accepted_def sample_hours_def
      no_mutation_def mutation_kind_def mutation_activities_def deref_def FinalizeAcceptedMutation_tx_def
      FinalizeAcceptedMutation_apply_def applyAcceptedMutation_def replace_open_windows_def activity_exists_def sql_exists_def
      insert_window_step_def insert_window_def window_check_def fresh_in_def i32_ok_def unixMilliseconds_def millis_def
      normalized_window_step_def sql_delete_def run_tx_def
      stale_pending_proposals_def update_proposals_def accepted_result_def finalization_eval)

lemma sample_confirm_applies:
  "\<exists>r d'. ConfirmFinalizedMutations (\<lambda>_. 9) \<lparr>cq_TripID = sample_uuid CHR ''1'', cq_FinalizedMutationSequence = 2\<rparr>
     (snd (FinalizeTerminal sample_ext (\<lambda>_. 5) sample_terminal queued_db)) = (Inr r, d')"
  by (simp add: FinalizeTerminal_def validateTerminalFinalization_def sample_terminal_def TerminalStatus_valid_def
      TerminalStatusStale_def TerminalStatusInvalidArgument_def TerminalStatusNotFound_def TerminalStatusInfeasible_def
      FinalizeTerminal_tx_def FinalizeTerminal_apply_def run_tx_def finalization_eval ConfirmFinalizedMutations_def
      validateFinalizationConfirmation_def ConfirmFinalizedMutations_tx_def update_outbox_def update_intent_def
      confirmation_step_def sql_select_def lock_covered_def confirm_covered_def)

text \<open>
  C14. A terminal rejection takes effect exactly once: after the first success any number of
  redeliveries leaves the database alone and each of them is answered with the stored outcome.
\<close>

theorem terminal_finalization_once:
  assumes "schema_ok d" "FinalizeTerminal e clk rq d = (Inr r, d')"
  shows "fold (\<lambda>clk d. snd (FinalizeTerminal e clk rq d)) clks d' = d' \<and>
    FinalizeTerminal e clk' rq d' = (Inr (r\<lparr>fc_Duplicate := True\<rparr>), d')"
  using terminal_once.redelivery [OF assms(1) _ assms(2)] FinalizeTerminal_repeat [OF assms(2)] by simp

theorem terminal_finalization_once_witness:
  "\<exists>r d'. FinalizeTerminal sample_ext (\<lambda>_. 5) sample_terminal queued_db = (Inr r, d') \<and>
     FinalizeTerminal sample_ext (\<lambda>_. 6) sample_terminal d' = (Inr (r\<lparr>fc_Duplicate := True\<rparr>), d')"
proof -
  obtain r d' where s: "FinalizeTerminal sample_ext (\<lambda>_. 5) sample_terminal queued_db = (Inr r, d')"
    using sample_terminal_applies by blast
  from terminal_finalization_once [OF schema_queued s] s show ?thesis by blast
qed

text \<open>
  C15. An accepted mutation takes effect exactly once in the same sense; its first success raises
  the trip revision and the finalized sequence by one, resolves the intent and the outbox row, and
  leaves no proposal of the trip pending.
\<close>

theorem accepted_finalization_once:
  assumes "schema_ok d" "FinalizeAcceptedMutation e clk rq d = (Inr r, d')" "\<not> fc_Duplicate r"
    "find_trip (fa_TripID rq) d = Some t"
  shows "fold (\<lambda>clk d. snd (FinalizeAcceptedMutation e clk rq d)) clks d' = d' \<and>
    (\<exists>t'. find_trip (fa_TripID rq) d' = Some t' \<and> t_trip_revision t' = t_trip_revision t + 1 \<and>
      t_finalized_mutation_sequence t' = t_finalized_mutation_sequence t + 1) \<and>
    (\<forall>i\<in>set (command_intents d'). i_id i = fa_IntentID rq \<longrightarrow> i_state i = IntentApplied) \<and>
    (\<forall>b\<in>set (planner_outbox d'). o_id b = fa_OutboxID rq \<longrightarrow> o_delivery_state b = DeliveryAccepted) \<and>
    (\<forall>p\<in>set (plan_proposals d'). \<not> pending_of (fa_TripID rq) p)"
proof -
  obtain kind where k: "validateAcceptedMutationRequest e rq = Inr kind"
    and tx: "FinalizeAcceptedMutation_tx e clk rq kind d = Inr (r, d')"
    by (rule FinalizeAcceptedMutation_success [OF assms(2)])
  from tx show ?thesis
  proof (cases rule: FinalizeAcceptedMutation_tx_cases)
    case (resolved t i b)
    have "fc_Duplicate r"
      by (rule FinalizeAcceptedMutation_resolved_result [OF resolved(4)]) (simp add: accepted_result_def)
    then show ?thesis using assms(3) by simp
  next
    case (pending u i b payload d1)
    note fr = applyAcceptedMutation_frame [OF pending(6)]
    have eqs: "trips d1 = trips d" "command_intents d1 = command_intents d" "planner_outbox d1 = planner_outbox d"
      "plan_proposals d1 = plan_proposals d"
      by (subst fr, simp)+
    have "u = t" using finalization_rows_SomeD(1) [OF pending(1)] assms(4) by simp
    let ?f = "advance_trip (int64 (add_u64 (fa_ExpectedTripRevision rq) 1)) (i_mutation_sequence i) (clk 0)"
    have "find_trip (fa_TripID rq) d' = Some (?f t)"
      using query_row_update [OF assms(4) [unfolded find_trip_def], of "\<lambda>t. t_id t = fa_TripID rq" ?f]
        find_trip_SomeD [OF assms(4)] by (simp add: find_trip_def pending(10) accepted_db_def eqs(1))
    moreover have "t_trip_revision (?f t) = t_trip_revision t + 1"
      using pending(2,4) validateAcceptedMutationRequest_range [OF k] \<open>u = t\<close>
      by (simp add: accepted_identity_def add_u64_small int64_small)
    moreover have "t_finalized_mutation_sequence (?f t) = t_finalized_mutation_sequence t + 1"
      using pending(5) \<open>u = t\<close> by simp
    moreover have "\<forall>i\<in>set (command_intents d'). i_id i = fa_IntentID rq \<longrightarrow> i_state i = IntentApplied"
      by (auto simp: pending(10) accepted_db_def elim!: sql_updateE)
    moreover have "\<forall>b\<in>set (planner_outbox d'). o_id b = fa_OutboxID rq \<longrightarrow> o_delivery_state b = DeliveryAccepted"
      by (auto simp: pending(10) accepted_db_def elim!: sql_updateE)
    moreover have "\<forall>p\<in>set (plan_proposals d'). \<not> pending_of (fa_TripID rq) p"
      by (auto simp: pending(10) accepted_db_def pending_of_def elim!: sql_updateE)
    ultimately show ?thesis using accepted_once.redelivery [OF assms(1) _ assms(2)] by auto
  qed
qed

theorem accepted_finalization_once_witness:
  "\<exists>r d'. FinalizeAcceptedMutation sample_ext (\<lambda>_. 5) (sample_accepted sample_delay) queued_db = (Inr r, d') \<and>
     (\<exists>t'. find_trip (sample_uuid CHR ''1'') d' = Some t' \<and> t_trip_revision t' = 2)"
proof -
  obtain r d' where s: "FinalizeAcceptedMutation sample_ext (\<lambda>_. 5) (sample_accepted sample_delay) queued_db = (Inr r, d')"
    "\<not> fc_Duplicate r"
    using sample_delay_applies by blast
  have t: "find_trip (fa_TripID (sample_accepted sample_delay)) queued_db = Some (allocate_sequence 0 sample_trip)"
    and rv: "t_trip_revision (allocate_sequence 0 sample_trip) = 1"
    and tid: "fa_TripID (sample_accepted sample_delay) = sample_uuid CHR ''1''"
    by (simp_all add: finalization_eval sample_accepted_def)
  from accepted_finalization_once [OF schema_queued s t, of "[]"]
  obtain t' where "find_trip (sample_uuid CHR ''1'') d' = Some t'" "t_trip_revision t' = 2" by (auto simp: rv tid)
  with s(1) show ?thesis by blast
qed

text \<open>
  C16. After an operating-hours mutation the activity has exactly the windows of the mutation, in
  order, each of positive length and none overlapping the next; other activities keep theirs.
\<close>

theorem operating_hours_replaced:
  assumes "FinalizeAcceptedMutation e clk rq d = (Inr r, d')" "\<not> fc_Duplicate r"
    "m_OperatingHours (fa_Mutation rq) = Some v"
  shows "map (\<lambda>w. (w_window_index w, w_opens_at w, w_closes_at w))
      (filter (\<lambda>w. w_trip_id w = fa_TripID rq \<and> w_activity_id w = ohm_ActivityID v) (activity_open_windows d')) =
    map (\<lambda>(k, w). (int k, unixMilliseconds (OpensAtUnixMilliseconds w), unixMilliseconds (ClosesAtUnixMilliseconds w)))
      (enumerate 0 (ohm_OpenWindows v)) \<and>
    sorted_wrt (\<lambda>u w. ClosesAtUnixMilliseconds u \<le> OpensAtUnixMilliseconds w) (ohm_OpenWindows v) \<and>
    list_all (\<lambda>w. OpensAtUnixMilliseconds w < ClosesAtUnixMilliseconds w) (ohm_OpenWindows v) \<and>
    filter (\<lambda>w. \<not> (w_trip_id w = fa_TripID rq \<and> w_activity_id w = ohm_ActivityID v)) (activity_open_windows d') =
    filter (\<lambda>w. \<not> (w_trip_id w = fa_TripID rq \<and> w_activity_id w = ohm_ActivityID v)) (activity_open_windows d)"
proof -
  obtain kind where k: "validateAcceptedMutationRequest e rq = Inr kind"
    and tx: "FinalizeAcceptedMutation_tx e clk rq kind d = Inr (r, d')"
    by (rule FinalizeAcceptedMutation_success [OF assms(1)])
  have "mutation_kind (fa_Mutation rq) = Inr kind"
    using k by (auto simp: validateAcceptedMutationRequest_def bindr_eq_Inr split: if_splits)
  then have kind: "kind = CommandOperatingHoursChanged" using assms(3) by (rule mutation_kind_hours)
  obtain ids where "mutation_activities (fa_Mutation rq) kind = Inr ids"
    by (rule validateAcceptedMutationRequest_kind [OF k])
  then obtain q where q: "for_each normalized_window_step (ohm_OpenWindows v) None = Inr q"
    using kind assms(3) by (auto simp: mutation_activities_def deref_def bindr_eq_Inr)
  from tx show ?thesis
  proof (cases rule: FinalizeAcceptedMutation_tx_cases)
    case (resolved t i b)
    have "fc_Duplicate r"
      by (rule FinalizeAcceptedMutation_resolved_result [OF resolved(4)]) (simp add: accepted_result_def)
    then show ?thesis using assms(2) by simp
  next
    case (pending t i b payload d1)
    have "replace_open_windows (fa_TripID rq) v d = Inr d1"
      using pending(6) kind assms(3) by (simp add: applyAcceptedMutation_def deref_def)
    note w = replace_open_windowsD(1) [OF this]
    have "activity_open_windows d' = activity_open_windows d1" by (simp add: pending(10) accepted_db_def)
    then have w': "activity_open_windows d' =
      sql_delete (\<lambda>w. w_trip_id w = fa_TripID rq \<and> w_activity_id w = ohm_ActivityID v) (activity_open_windows d) @
      map (\<lambda>(j, w). \<lparr>w_trip_id = fa_TripID rq, w_activity_id = ohm_ActivityID v, w_window_index = int j,
        w_opens_at = unixMilliseconds (OpensAtUnixMilliseconds w),
        w_closes_at = unixMilliseconds (ClosesAtUnixMilliseconds w)\<rparr>) (enumerate 0 (ohm_OpenWindows v))"
      by (simp add: w)
    show ?thesis
      using normalized_windows [OF q]
      by (simp add: w' sql_delete_def filter_map comp_def case_prod_unfold cong: filter_cong)
  qed
qed

theorem operating_hours_replaced_witness:
  "\<exists>r d'. FinalizeAcceptedMutation sample_ext (\<lambda>_. 5) (sample_accepted (no_mutation\<lparr>m_OperatingHours := Some sample_hours\<rparr>))
     queued_hours_db = (Inr r, d') \<and>
     sorted_wrt (\<lambda>u w. ClosesAtUnixMilliseconds u \<le> OpensAtUnixMilliseconds w) (ohm_OpenWindows sample_hours)"
proof -
  obtain r d' where s: "FinalizeAcceptedMutation sample_ext (\<lambda>_. 5)
      (sample_accepted (no_mutation\<lparr>m_OperatingHours := Some sample_hours\<rparr>)) queued_hours_db = (Inr r, d')" "\<not> fc_Duplicate r"
    using sample_hours_applies by blast
  have "m_OperatingHours (fa_Mutation (sample_accepted (no_mutation\<lparr>m_OperatingHours := Some sample_hours\<rparr>))) = Some sample_hours"
    by (simp add: sample_accepted_def)
  from operating_hours_replaced [OF s this] s(1) show ?thesis by blast
qed

text \<open>
  C17. A confirmation covers resolved work only, is complete and touches nothing else. On success the
  sequence is not ahead of the finalized one and every outbox row of the trip up to it was accepted or
  terminally rejected, so an unresolved row in the range refuses the confirmation; exactly those of
  them that had no confirmation time get the database time, their number is reported, every other row
  and every other table stays as it was, and a repetition changes nothing and is a duplicate.
\<close>

theorem confirmation_covers_resolved:
  assumes "ConfirmFinalizedMutations clk rq d = (Inr r, d')"
  shows "(\<forall>b\<in>set (planner_outbox d). o_trip_id b = cq_TripID rq \<and>
        o_mutation_sequence b \<le> int (cq_FinalizedMutationSequence rq) \<longrightarrow>
      o_delivery_state b = DeliveryAccepted \<or> o_delivery_state b = DeliveryTerminalRejected) \<and>
    d' = d\<lparr>planner_outbox := map (\<lambda>b. if o_trip_id b = cq_TripID rq \<and>
          o_mutation_sequence b \<le> int (cq_FinalizedMutationSequence rq) \<and> o_finalization_confirmed_at b = None
        then b\<lparr>o_finalization_confirmed_at := Some (clk 0), o_updated_at := clk 0\<rparr> else b) (planner_outbox d)\<rparr> \<and>
    cf_RowsConfirmed r = length (filter (\<lambda>b. o_trip_id b = cq_TripID rq \<and>
          o_mutation_sequence b \<le> int (cq_FinalizedMutationSequence rq) \<and> o_finalization_confirmed_at b = None) (planner_outbox d)) \<and>
    (\<exists>t. find_trip (cq_TripID rq) d = Some t \<and> int (cq_FinalizedMutationSequence rq) \<le> t_finalized_mutation_sequence t) \<and>
    (\<exists>x. ConfirmFinalizedMutations clk' rq d' = (Inr x, d') \<and> cf_Duplicate x)"
proof -
  obtain t where v: "validateFinalizationConfirmation rq = Inr ()" and t: "find_trip (cq_TripID rq) d = Some t"
    and rng: "0 \<le> t_finalized_mutation_sequence t" "cq_FinalizedMutationSequence rq \<le> uint64 (t_finalized_mutation_sequence t)"
    and all: "\<forall>b\<in>set (planner_outbox d). lock_covered rq b \<longrightarrow> o_delivery_state b \<in> {DeliveryAccepted, DeliveryTerminalRejected}"
    and n: "cf_RowsConfirmed r = sql_count (confirm_covered rq) (planner_outbox d)"
    and d': "d' = confirm_db rq (clk 0) d"
    by (rule ConfirmFinalizedMutations_success [OF assms])
  let ?P = "\<lambda>b. o_trip_id b = cq_TripID rq \<and>
    o_mutation_sequence b \<le> int (cq_FinalizedMutationSequence rq) \<and> o_finalization_confirmed_at b = None"
  have i: "int64 (cq_FinalizedMutationSequence rq) = int (cq_FinalizedMutationSequence rq)"
    using v by (auto simp: validateFinalizationConfirmation_def int64_small split: if_splits)
  have P: "confirm_covered rq b \<longleftrightarrow> ?P b" if "b \<in> set (planner_outbox d)" for b
    using all that by (auto simp: confirm_covered_def lock_covered_def i)
  have eq: "d' = d\<lparr>planner_outbox := map (\<lambda>b. if ?P b
      then b\<lparr>o_finalization_confirmed_at := Some (clk 0), o_updated_at := clk 0\<rparr> else b) (planner_outbox d)\<rparr>"
    unfolding d' confirm_db_def update_outbox_def sql_update_def using P by (simp cong: map_cong)
  have "filter (confirm_covered rq) (planner_outbox d) = filter ?P (planner_outbox d)"
    by (rule filter_cong) (simp_all add: P)
  then have len: "cf_RowsConfirmed r = length (filter ?P (planner_outbox d))" by (simp add: n sql_count_def)
  have "int (uint64 (t_finalized_mutation_sequence t)) \<le> t_finalized_mutation_sequence t"
    using rng(1) by (simp add: uint64_def zmod_le_nonneg_dividend)
  then have "int (cq_FinalizedMutationSequence rq) \<le> t_finalized_mutation_sequence t" using rng(2) by linarith
  moreover have "\<exists>x. ConfirmFinalizedMutations clk' rq d' = (Inr x, d') \<and> cf_Duplicate x"
  proof -
    have cf: "\<forall>b\<in>set (planner_outbox d'). lock_covered rq b \<longrightarrow>
        o_delivery_state b \<in> {DeliveryAccepted, DeliveryTerminalRejected} \<and> o_finalization_confirmed_at b \<noteq> None"
      using all by (auto simp: eq lock_covered_def i)
    have "find_trip (cq_TripID rq) d' = Some t" using t by (simp add: eq find_trip_def)
    moreover have "list_all (\<lambda>b. o_delivery_state b \<in> {DeliveryAccepted, DeliveryTerminalRejected})
        (sort_key o_mutation_sequence (sql_select (lock_covered rq) (planner_outbox d')))"
      using cf by (simp add: list_all_iff sql_select_def)
    moreover have "filter (\<lambda>b. o_finalization_confirmed_at b = None)
        (sort_key o_mutation_sequence (sql_select (lock_covered rq) (planner_outbox d'))) = []"
      using cf by (auto simp: filter_empty_conv sql_select_def)
    ultimately show ?thesis using rng v
      by (simp add: ConfirmFinalizedMutations_def run_tx_def ConfirmFinalizedMutations_tx_def confirmation_loop Let_def)
  qed
  ultimately show ?thesis using all t eq len by (simp add: lock_covered_def i)
qed

theorem confirmation_covers_resolved_witness:
  "\<exists>r d' x. ConfirmFinalizedMutations (\<lambda>_. 9) \<lparr>cq_TripID = sample_uuid CHR ''1'', cq_FinalizedMutationSequence = 2\<rparr>
     (snd (FinalizeTerminal sample_ext (\<lambda>_. 5) sample_terminal queued_db)) = (Inr r, d') \<and>
     ConfirmFinalizedMutations (\<lambda>_. 9) \<lparr>cq_TripID = sample_uuid CHR ''1'', cq_FinalizedMutationSequence = 2\<rparr> d' = (Inr x, d') \<and>
     cf_Duplicate x"
proof -
  obtain r d' where s: "ConfirmFinalizedMutations (\<lambda>_. 9) \<lparr>cq_TripID = sample_uuid CHR ''1'', cq_FinalizedMutationSequence = 2\<rparr>
     (snd (FinalizeTerminal sample_ext (\<lambda>_. 5) sample_terminal queued_db)) = (Inr r, d')"
    using sample_confirm_applies by blast
  from confirmation_covers_resolved [OF s, of "\<lambda>_. 9"] s show ?thesis by blast
qed

end
