(* ===== verification/LR_Leases.thy ===== *)
theory LR_Leases
  imports LR_Database
begin

text \<open>
  The runtime leases (\<open>persistence/leases.go\<close>): \<open>LeaseStore.LeasedTrips\<close>, \<open>Acquire\<close>, \<open>Renew\<close>, \<open>Current\<close>
  and \<open>Release\<close>. Shown: at most one holder has authority over a trip at any instant, a takeover
  fences the previous holder and its proposals, epochs only grow while the row lives, and what
  \<open>Release\<close> does to the epoch.
\<close>

record RuntimeLease =
  TripID :: uuid
  HolderID :: uuid
  RuntimeEpoch :: u64
  LeaseExpiresAt :: time
  RenewedAt :: time

definition lease_of_row :: "lease_row \<Rightarrow> RuntimeLease" where
  "lease_of_row l = \<lparr>TripID = l_trip_id l, HolderID = l_holder_id l,
     RuntimeEpoch = uint64 (l_runtime_epoch l), LeaseExpiresAt = l_lease_expires_at l,
     RenewedAt = l_renewed_at l\<rparr>"

definition LeasedTrips :: "db \<Rightarrow> uuid list" where
  "LeasedTrips d = map l_trip_id (sort_key l_trip_id (trip_runtime_leases d))"

definition validateLeaseInput :: "uuid \<Rightarrow> uuid \<Rightarrow> duration \<Rightarrow> unit result" where
  "validateLeaseInput tripID holderID dur =
     (if tripID = [] \<or> holderID = [] then Inl (ErrText ''trip and holder ids are required'')
      else if Milliseconds dur \<le> 0
        then Inl (ErrText ''lease duration must be at least one millisecond'')
      else Inr ())"

definition lockTrip :: "uuid \<Rightarrow> db \<Rightarrow> unit result" where
  "lockTrip tripID d = (if trip_exists tripID d then Inr () else Inl ErrTripNotFound)"

text \<open>The branch of \<open>Acquire\<close> that inserts the first lease row of a trip.\<close>

definition Acquire_insert ::
  "clock \<Rightarrow> uuid \<Rightarrow> uuid \<Rightarrow> duration \<Rightarrow> db \<Rightarrow> err + (RuntimeLease \<times> db)" where
  "Acquire_insert clk tripID holderID dur d =
     (let now = clk 1;
          row = \<lparr>l_trip_id = tripID, l_holder_id = holderID, l_runtime_epoch = 1,
            l_lease_expires_at = now + millis (Milliseconds dur), l_renewed_at = now\<rparr> in
      bindr (exec_sql ''write runtime lease'' (insert_lease row d)) (\<lambda>d'.
        Inr (lease_of_row row, d')))"

definition takeover :: "time \<Rightarrow> uuid \<Rightarrow> duration \<Rightarrow> lease_row \<Rightarrow> lease_row" where
  "takeover now holderID dur l = l\<lparr>l_holder_id := holderID,
     l_runtime_epoch := l_runtime_epoch l + 1,
     l_lease_expires_at := now + millis (Milliseconds dur), l_renewed_at := now\<rparr>"

definition stale_old_epoch :: "uuid \<Rightarrow> i64 \<Rightarrow> time \<Rightarrow> db \<Rightarrow> db" where
  "stale_old_epoch tripID epoch now d =
     update_proposals
       (\<lambda>r. r_trip_id r = tripID \<and> r_state r = ProposalPending \<and> r_source_runtime_epoch r < epoch)
       (\<lambda>r. r\<lparr>r_state := ProposalIsStale, r_decided_at := Some now\<rparr>) d"

text \<open>The branch that takes an expired lease over and stales the proposals of older epochs.\<close>

definition Acquire_takeover ::
  "clock \<Rightarrow> uuid \<Rightarrow> uuid \<Rightarrow> duration \<Rightarrow> lease_row \<Rightarrow> db \<Rightarrow> err + (RuntimeLease \<times> db)" where
  "Acquire_takeover clk tripID holderID dur l d =
     (if l_runtime_epoch l = int MaxInt64 then Inl ErrEpochExhausted
      else
        let now = clk 1; l' = takeover now holderID dur l;
            d1 = d\<lparr>trip_runtime_leases := sql_update (\<lambda>l. l_trip_id l = tripID)
                     (takeover now holderID dur) (trip_runtime_leases d)\<rparr> in
        Inr (lease_of_row l', stale_old_epoch tripID (l_runtime_epoch l') now d1))"

definition Acquire_tx ::
  "clock \<Rightarrow> uuid \<Rightarrow> uuid \<Rightarrow> duration \<Rightarrow> db \<Rightarrow> err + (RuntimeLease \<times> db)" where
  "Acquire_tx clk tripID holderID dur d =
     bindr (lockTrip tripID d) (\<lambda>_.
       case find_lease tripID d of
         None \<Rightarrow> Acquire_insert clk tripID holderID dur d
       | Some l \<Rightarrow>
           if l_lease_expires_at l > clk 0 then Inl ErrLeaseHeld
           else Acquire_takeover clk tripID holderID dur l d)"

definition Acquire ::
  "clock \<Rightarrow> uuid \<times> uuid \<times> duration \<Rightarrow> db \<Rightarrow> RuntimeLease result \<times> db" where
  "Acquire clk rq d = (case rq of (tripID, holderID, dur) \<Rightarrow>
     case validateLeaseInput tripID holderID dur of
       Inl e \<Rightarrow> (Inl e, d)
     | Inr _ \<Rightarrow> run_tx (Acquire_tx clk tripID holderID dur) d)"

definition renew_row :: "time \<Rightarrow> duration \<Rightarrow> lease_row \<Rightarrow> lease_row" where
  "renew_row now dur l = l\<lparr>l_lease_expires_at := now + millis (Milliseconds dur), l_renewed_at := now\<rparr>"

definition Renew_tx ::
  "clock \<Rightarrow> uuid \<Rightarrow> uuid \<Rightarrow> u64 \<Rightarrow> duration \<Rightarrow> db \<Rightarrow> err + (RuntimeLease \<times> db)" where
  "Renew_tx clk tripID holderID epoch dur d =
     bindr (lockTrip tripID d) (\<lambda>_.
       let now = clk 0;
           P = (\<lambda>l. l_trip_id l = tripID \<and> l_holder_id l = holderID \<and>
                  l_runtime_epoch l = int64 epoch \<and> l_lease_expires_at l > now) in
       case query_row P (trip_runtime_leases d) of
         None \<Rightarrow> Inl ErrLeaseLost
       | Some l \<Rightarrow>
           Inr (lease_of_row (renew_row now dur l),
                d\<lparr>trip_runtime_leases := sql_update P (renew_row now dur) (trip_runtime_leases d)\<rparr>))"

definition Renew ::
  "clock \<Rightarrow> uuid \<times> uuid \<times> u64 \<times> duration \<Rightarrow> db \<Rightarrow> RuntimeLease result \<times> db" where
  "Renew clk rq d = (case rq of (tripID, holderID, epoch, dur) \<Rightarrow>
     case validateLeaseInput tripID holderID dur of
       Inl e \<Rightarrow> (Inl e, d)
     | Inr _ \<Rightarrow>
         if epoch = 0 \<or> epoch > MaxInt64 then (Inl (ErrText ''runtime epoch is invalid''), d)
         else run_tx (Renew_tx clk tripID holderID epoch dur) d)"

definition Current :: "time \<Rightarrow> uuid \<Rightarrow> uuid \<Rightarrow> db \<Rightarrow> RuntimeLease result" where
  "Current now tripID holderID d =
     (if tripID = [] \<or> holderID = [] then Inl (ErrText ''trip and holder ids are required'')
      else case query_row (\<lambda>l. l_trip_id l = tripID \<and> l_holder_id l = holderID \<and>
               l_lease_expires_at l > now) (trip_runtime_leases d) of
        None \<Rightarrow> Inl ErrLeaseLost
      | Some l \<Rightarrow> if l_runtime_epoch l \<le> 0 then Inl ErrLeaseLost else Inr (lease_of_row l))"

definition Release_tx :: "uuid \<Rightarrow> uuid \<Rightarrow> u64 \<Rightarrow> db \<Rightarrow> err + (unit \<times> db)" where
  "Release_tx tripID holderID epoch d =
     bindr (lockTrip tripID d) (\<lambda>_.
       let P = (\<lambda>l. l_trip_id l = tripID \<and> l_holder_id l = holderID \<and>
                  l_runtime_epoch l = int64 epoch) in
       if sql_count P (trip_runtime_leases d) \<noteq> 1 then Inl ErrLeaseLost
       else Inr ((), d\<lparr>trip_runtime_leases := sql_delete P (trip_runtime_leases d)\<rparr>))"

definition Release :: "clock \<Rightarrow> uuid \<times> uuid \<times> u64 \<Rightarrow> db \<Rightarrow> unit result \<times> db" where
  "Release clk rq d = (case rq of (tripID, holderID, epoch) \<Rightarrow>
     if tripID = [] \<or> holderID = [] \<or> epoch = 0 \<or> epoch > MaxInt64
       then (Inl (ErrText ''lease release input is invalid''), d)
     else run_tx (Release_tx tripID holderID epoch) d)"

section \<open>Interface laws\<close>

lemma schema_stale_old_epoch: "schema_ok d \<Longrightarrow> schema_ok (stale_old_epoch tid e now d)"
  unfolding stale_old_epoch_def
  by (rule schema_update_proposals) (auto simp: proposal_check_def)

lemma schema_leases_update:
  assumes "schema_ok d" "\<And>l. l_trip_id (f l) = l_trip_id l"
    "\<And>l. l \<in> set (trip_runtime_leases d) \<Longrightarrow> P l \<Longrightarrow> lease_check l \<Longrightarrow> lease_check (f l)"
  shows "schema_ok (d\<lparr>trip_runtime_leases := sql_update P f (trip_runtime_leases d)\<rparr>)"
proof -
  have "leases_ok (sql_update P f (trip_runtime_leases d))"
    unfolding leases_ok_def
    by (intro conjI distinct_update list_all_update)
      (use assms in \<open>auto simp: schema_ok_def leases_ok_def\<close>)
  then show ?thesis using assms(1) by (simp add: schema_ok_def)
qed

lemma lease_unique:
  assumes "schema_ok d" "l \<in> set (trip_runtime_leases d)" "m \<in> set (trip_runtime_leases d)"
    "l_trip_id l = l_trip_id m"
  shows "l = m"
  using assms by (auto simp: schema_ok_def leases_ok_def distinct_map dest: inj_onD)

lemma schema_Acquire_takeover:
  assumes "schema_ok d" "find_lease tid d = Some l" "Acquire_takeover clk tid hid dur l d = Inr (x, d')"
  shows "schema_ok d'"
proof -
  have ne: "l_runtime_epoch l \<noteq> int MaxInt64"
    and d': "d' = stale_old_epoch tid (l_runtime_epoch l + 1) (clk 1)
      (d\<lparr>trip_runtime_leases := sql_update (\<lambda>l. l_trip_id l = tid) (takeover (clk 1) hid dur)
         (trip_runtime_leases d)\<rparr>)"
    using assms(3) by (auto simp: Acquire_takeover_def Let_def takeover_def split: if_splits)
  have "schema_ok (d\<lparr>trip_runtime_leases := sql_update (\<lambda>l. l_trip_id l = tid)
      (takeover (clk 1) hid dur) (trip_runtime_leases d)\<rparr>)"
  proof (rule schema_leases_update [OF assms(1)])
    fix m assume m: "m \<in> set (trip_runtime_leases d)" "l_trip_id m = tid" "lease_check m"
    then have "m = l" using lease_unique [OF assms(1)] find_lease_SomeD [OF assms(2)] by metis
    then show "lease_check (takeover (clk 1) hid dur m)"
      using m(3) ne by (simp add: lease_check_def takeover_def i64_ok_def)
  qed (simp add: takeover_def)
  then show ?thesis unfolding d' by (rule schema_stale_old_epoch)
qed

lemma schema_Acquire: "schema_ok d \<Longrightarrow> schema_ok (snd (Acquire clk rq d))"
  by (auto simp: Acquire_def run_tx_def Acquire_tx_def Acquire_insert_def bindr_eq_Inr Let_def
      dest: schema_insert_lease intro: schema_Acquire_takeover split: prod.splits sum.splits option.splits if_splits)

lemma schema_Renew: "schema_ok d \<Longrightarrow> schema_ok (snd (Renew clk rq d))"
  by (auto simp: Renew_def run_tx_def Renew_tx_def bindr_eq_Inr Let_def renew_row_def lease_check_def
      intro!: schema_leases_update split: prod.splits sum.splits option.splits if_splits)

lemma schema_Release: "schema_ok d \<Longrightarrow> schema_ok (snd (Release clk rq d))"
  by (auto simp: Release_def run_tx_def Release_tx_def bindr_eq_Inr Let_def schema_ok_def leases_ok_def
      distinct_sql_delete list_all_delete split: prod.splits sum.splits if_splits)

interpretation acquire: atomic_store_op Acquire
  by unfold_locales (erule schema_Acquire, auto simp: Acquire_def run_tx_def split: prod.splits sum.splits)

interpretation renew: atomic_store_op Renew
  by unfold_locales (erule schema_Renew, auto simp: Renew_def run_tx_def split: prod.splits sum.splits if_splits)

interpretation release: atomic_store_op Release
  by unfold_locales (erule schema_Release, auto simp: Release_def run_tx_def split: prod.splits sum.splits if_splits)

section \<open>Facts on successful calls\<close>

lemma find_lease_unique:
  "schema_ok d \<Longrightarrow> l \<in> set (trip_runtime_leases d) \<Longrightarrow> find_lease (l_trip_id l) d = Some l"
  unfolding find_lease_def
  by (rule query_row_key [where key = l_trip_id]) (auto simp: schema_ok_def leases_ok_def)

lemma find_lease_stale [simp]: "find_lease tid (stale_old_epoch tid' e now d) = find_lease tid d"
  by (simp add: find_lease_def stale_old_epoch_def update_proposals_def)

lemma find_lease_update:
  assumes "find_lease tid d = Some l" "\<And>l. l_trip_id (f l) = l_trip_id l"
  shows "find_lease tid (d\<lparr>trip_runtime_leases := sql_update (\<lambda>l. l_trip_id l = tid) f
     (trip_runtime_leases d)\<rparr>) = Some (f l)"
  using query_row_update [OF assms(1) [unfolded find_lease_def], of "\<lambda>l. l_trip_id l = tid" f]
    assms(2) find_lease_SomeD [OF assms(1)] by (simp add: find_lease_def)

lemma stale_old_epoch_pending:
  assumes "r \<in> set (plan_proposals (stale_old_epoch tid e now d))" "pending_of tid r"
  shows "e \<le> r_source_runtime_epoch r"
  using assms(1) unfolding stale_old_epoch_def update_proposals_def
  by (simp, elim sql_updateE) (use assms(2) in \<open>simp_all add: pending_of_def\<close>)

text \<open>What a successful \<open>Acquire\<close> leaves behind.\<close>

lemma Acquire_success:
  assumes "Acquire clk (tid, hid, dur) d = (Inr lease, d')"
  obtains row where "find_lease tid d' = Some row" "lease = lease_of_row row" "l_holder_id row = hid"
    "l_trip_id row = tid" "trip_exists tid d'" "0 < Milliseconds dur"
    "find_lease tid d = None \<Longrightarrow> l_runtime_epoch row = 1 \<and> plan_proposals d' = plan_proposals d"
    "\<And>l. find_lease tid d = Some l \<Longrightarrow> l_lease_expires_at l \<le> clk 0 \<and>
       l_runtime_epoch row = l_runtime_epoch l + 1 \<and>
       (\<forall>r\<in>set (plan_proposals d'). pending_of tid r \<longrightarrow> l_runtime_epoch row \<le> r_source_runtime_epoch r)"
proof -
  have v: "validateLeaseInput tid hid dur = Inr ()" and tx: "Acquire_tx clk tid hid dur d = Inr (lease, d')"
    using assms by (auto simp: Acquire_def run_tx_Inr split: sum.splits)
  have ms: "0 < Milliseconds dur" using v by (auto simp: validateLeaseInput_def split: if_splits)
  have ex: "trip_exists tid d" using tx by (auto simp: Acquire_tx_def lockTrip_def split: if_splits)
  show thesis
  proof (cases "find_lease tid d")
    case None
    let ?row = "\<lparr>l_trip_id = tid, l_holder_id = hid, l_runtime_epoch = 1,
      l_lease_expires_at = clk 1 + millis (Milliseconds dur), l_renewed_at = clk 1\<rparr>"
    have i: "insert_lease ?row d = Some d'" and l: "lease = lease_of_row ?row"
      using tx None ex by (auto simp: Acquire_tx_def lockTrip_def Acquire_insert_def Let_def bindr_eq_Inr)
    have "find_lease tid d' = Some ?row" "trip_exists tid d'" "plan_proposals d' = plan_proposals d"
      using i None ex by (auto simp: insert_lease_def find_lease_def trip_exists_def query_row_snoc
          split: if_splits)
    then show thesis using that [of ?row] None l ms by simp
  next
    case (Some l)
    then have t: "Acquire_takeover clk tid hid dur l d = Inr (lease, d')" and e: "l_lease_expires_at l \<le> clk 0"
      using tx ex by (auto simp: Acquire_tx_def lockTrip_def split: if_splits)
    let ?row = "takeover (clk 1) hid dur l"
    have d': "d' = stale_old_epoch tid (l_runtime_epoch ?row) (clk 1)
      (d\<lparr>trip_runtime_leases := sql_update (\<lambda>l. l_trip_id l = tid) (takeover (clk 1) hid dur)
         (trip_runtime_leases d)\<rparr>)" and l: "lease = lease_of_row ?row"
      using t by (auto simp: Acquire_takeover_def Let_def split: if_splits)
    have f: "find_lease tid d' = Some ?row"
      unfolding d' find_lease_stale by (rule find_lease_update [OF Some]) (simp add: takeover_def)
    have p: "\<forall>r\<in>set (plan_proposals d'). pending_of tid r \<longrightarrow> l_runtime_epoch ?row \<le> r_source_runtime_epoch r"
      unfolding d' by (blast intro: stale_old_epoch_pending)
    have "trip_exists tid d'" using ex unfolding d'
      by (simp add: trip_exists_def stale_old_epoch_def update_proposals_def)
    then show thesis
      using that [of ?row] Some l ms e f p find_lease_SomeD [OF Some] by (simp add: takeover_def)
  qed
qed

text \<open>What \<open>Current\<close> confirms, in terms of the lease rows.\<close>

lemma Current_iff:
  assumes "schema_ok d"
  shows "Current now tid hid d = Inr lease \<longleftrightarrow> tid \<noteq> [] \<and> hid \<noteq> [] \<and>
    (\<exists>row\<in>set (trip_runtime_leases d). l_trip_id row = tid \<and> l_holder_id row = hid \<and>
       now < l_lease_expires_at row \<and> lease = lease_of_row row)"
proof
  assume "Current now tid hid d = Inr lease"
  then show "tid \<noteq> [] \<and> hid \<noteq> [] \<and> (\<exists>row\<in>set (trip_runtime_leases d). l_trip_id row = tid \<and> l_holder_id row = hid \<and>
       now < l_lease_expires_at row \<and> lease = lease_of_row row)"
    by (auto simp: Current_def split: if_splits option.splits dest!: query_row_SomeD)
next
  assume r: "tid \<noteq> [] \<and> hid \<noteq> [] \<and> (\<exists>row\<in>set (trip_runtime_leases d). l_trip_id row = tid \<and> l_holder_id row = hid \<and>
       now < l_lease_expires_at row \<and> lease = lease_of_row row)"
  then obtain row where row: "row \<in> set (trip_runtime_leases d)" "l_trip_id row = tid" "l_holder_id row = hid"
    "now < l_lease_expires_at row" "lease = lease_of_row row" by blast
  have "0 < l_runtime_epoch row"
    using assms row(1) by (auto simp: schema_ok_def leases_ok_def list_all_iff lease_check_def)
  moreover have "query_row (\<lambda>l. l_trip_id l = tid \<and> l_holder_id l = hid \<and> now < l_lease_expires_at l)
      (trip_runtime_leases d) = Some row"
    by (rule query_row_key [where key = l_trip_id])
      (use assms row in \<open>auto simp: schema_ok_def leases_ok_def\<close>)
  ultimately show "Current now tid hid d = Inr lease" using r row(5) by (simp add: Current_def)
qed

lemma Acquire_input:
  assumes "Acquire clk (tid, hid, dur) d = (Inr lease, d')"
  shows "tid \<noteq> []" "hid \<noteq> []"
proof -
  have "validateLeaseInput tid hid dur = Inr ()" using assms by (auto simp: Acquire_def split: sum.splits)
  then show "tid \<noteq> []" "hid \<noteq> []" by (auto simp: validateLeaseInput_def split: if_splits)
qed

section \<open>Properties\<close>

definition sample_lease :: lease_row where
  "sample_lease = \<lparr>l_trip_id = sample_uuid CHR ''1'', l_holder_id = sample_uuid CHR ''b'',
     l_runtime_epoch = 7, l_lease_expires_at = 100, l_renewed_at = 0\<rparr>"

definition leased_db :: db where
  "leased_db = sample_db\<lparr>trip_runtime_leases := [sample_lease]\<rparr>"

lemma schema_leased: "schema_ok leased_db"
  using schema_sample by (simp add: leased_db_def schema_ok_def leases_ok_def lease_check_def
      sample_lease_def i64_ok_def MaxInt64_def)

lemmas lease_eval = Acquire_def Acquire_tx_def Acquire_insert_def Acquire_takeover_def takeover_def
  stale_old_epoch_def update_proposals_def Release_def Release_tx_def Current_def lockTrip_def
  validateLeaseInput_def Milliseconds_def quot_trunc_def run_tx_def millis_def insert_lease_def
  lease_check_def i64_ok_def MaxInt64_def fresh_in_def trip_exists_def find_lease_def query_row_def
  sql_exists_def sql_update_def sql_delete_def sql_count_def leased_db_def sample_lease_def
  sample_db_def sample_trip_def empty_db_def lease_of_row_def uint64_def int64_def Let_def


text \<open>
  C5. Dispatch authority over a trip never overlaps. While \<open>Current\<close> confirms a lease, it confirms no
  other holder and no other lease of the trip. Whoever acquires the trip next does so only at a database
  time at which the confirmed lease has expired, so the time of the confirmation lies strictly before
  that expiry and the time of the next grant at or after it. From then on \<open>Current\<close> confirms the new
  lease, to its holder, at exactly the times before its expiry, and nothing else; at its expiry the
  holder gets \<open>ErrLeaseLost\<close>.
\<close>

theorem lease_mutual_exclusion:
  assumes "schema_ok d" "Current now tid h1 d = Inr l1" "Acquire clk (tid, h2, dur) d = (Inr l2, d')"
  shows "(\<forall>h l. Current now tid h d = Inr l \<longrightarrow> h = h1 \<and> l = l1) \<and>
    now < LeaseExpiresAt l1 \<and> LeaseExpiresAt l1 \<le> clk 0 \<and>
    (\<forall>t h l. Current t tid h d' = Inr l \<longleftrightarrow> h = h2 \<and> l = l2 \<and> t < LeaseExpiresAt l2) \<and>
    (\<forall>t. LeaseExpiresAt l2 \<le> t \<longrightarrow> Current t tid h2 d' = Inl ErrLeaseLost)"
proof (intro conjI allI impI)
  obtain r1 where r1: "r1 \<in> set (trip_runtime_leases d)" "l_trip_id r1 = tid" "l_holder_id r1 = h1"
    "now < l_lease_expires_at r1" "l1 = lease_of_row r1"
    using assms(2) Current_iff [OF assms(1)] by blast
  show "h = h1" "l = l1" if c: "Current now tid h d = Inr l" for h l
  proof -
    obtain r where r: "r \<in> set (trip_runtime_leases d)" "l_trip_id r = tid" "l_holder_id r = h" "l = lease_of_row r"
      using c Current_iff [OF assms(1)] by blast
    then have "r1 = r" using lease_unique [OF assms(1) r1(1)] r1(2) by simp
    then show "h = h1" "l = l1" using r r1 by simp_all
  qed
  show "now < LeaseExpiresAt l1" using r1 by (simp add: lease_of_row_def)
  have "find_lease tid d = Some r1"
    unfolding find_lease_def by (rule query_row_key [where key = l_trip_id])
      (use assms(1) r1 in \<open>auto simp: schema_ok_def leases_ok_def\<close>)
  then obtain row where row: "find_lease tid d' = Some row" "l2 = lease_of_row row" "l_holder_id row = h2"
    and old: "l_lease_expires_at r1 \<le> clk 0"
    using Acquire_success [OF assms(3)] by metis
  show "LeaseExpiresAt l1 \<le> clk 0" using old r1(5) by (simp add: lease_of_row_def)
  have s: "schema_ok d'" using acquire.schema_kept [OF assms(1), of clk "(tid, h2, dur)"] assms(3) by simp
  have mem: "row \<in> set (trip_runtime_leases d')" "l_trip_id row = tid" using find_lease_SomeD [OF row(1)] by auto
  have uniq: "m = row" if "m \<in> set (trip_runtime_leases d')" "l_trip_id m = tid" for m
    using lease_unique [OF s that(1) mem(1)] that(2) mem(2) by simp
  show iff: "Current t tid h d' = Inr l \<longleftrightarrow> h = h2 \<and> l = l2 \<and> t < LeaseExpiresAt l2" for t h l
  proof
    assume "Current t tid h d' = Inr l"
    then obtain r where r: "r \<in> set (trip_runtime_leases d')" "l_trip_id r = tid" "l_holder_id r = h"
      "t < l_lease_expires_at r" "l = lease_of_row r"
      using Current_iff [OF s] by blast
    then show "h = h2 \<and> l = l2 \<and> t < LeaseExpiresAt l2" using uniq [OF r(1,2)] row by (simp add: lease_of_row_def)
  next
    assume "h = h2 \<and> l = l2 \<and> t < LeaseExpiresAt l2"
    then show "Current t tid h d' = Inr l"
      unfolding Current_iff [OF s] using mem row Acquire_input [OF assms(3)]
      by (intro conjI bexI [of _ row]) (simp_all add: lease_of_row_def)
  qed
  show "Current t tid h2 d' = Inl ErrLeaseLost" if "LeaseExpiresAt l2 \<le> t" for t
  proof -
    have "Current t tid h2 d' = Inl ErrLeaseLost \<or> (\<exists>l. Current t tid h2 d' = Inr l)"
      using Acquire_input [OF assms(3)] by (simp add: Current_def split: option.split)
    then show ?thesis using iff [of t h2] that by force
  qed
qed

theorem lease_mutual_exclusion_witness:
  "\<exists>lease d'. Current 50 (sample_uuid CHR ''1'') (sample_uuid CHR ''b'') leased_db = Inr (lease_of_row sample_lease) \<and>
     Acquire (\<lambda>_. 100) (sample_uuid CHR ''1'', sample_uuid CHR ''0'', 3000000) leased_db = (Inr lease, d') \<and>
     LeaseExpiresAt (lease_of_row sample_lease) \<le> 100 \<and>
     Current 3099 (sample_uuid CHR ''1'') (sample_uuid CHR ''0'') d' = Inr lease \<and>
     Current 3100 (sample_uuid CHR ''1'') (sample_uuid CHR ''0'') d' = Inl ErrLeaseLost"
proof -
  have c: "Current 50 (sample_uuid CHR ''1'') (sample_uuid CHR ''b'') leased_db = Inr (lease_of_row sample_lease)"
    by (simp add: lease_eval)
  obtain lease d' where a: "Acquire (\<lambda>_. 100) (sample_uuid CHR ''1'', sample_uuid CHR ''0'', 3000000) leased_db
      = (Inr lease, d')" and l: "LeaseExpiresAt lease = 3100"
    by (simp add: lease_eval)
  note m = lease_mutual_exclusion [OF schema_leased c a, THEN conjunct2, THEN conjunct2]
  have "Current 3099 (sample_uuid CHR ''1'') (sample_uuid CHR ''0'') d' = Inr lease"
    by (rule m [THEN conjunct2, THEN conjunct1, rule_format, THEN iffD2]) (simp add: l)
  moreover have "Current 3100 (sample_uuid CHR ''1'') (sample_uuid CHR ''0'') d' = Inl ErrLeaseLost"
    using m [THEN conjunct2, THEN conjunct2, THEN spec, of 3100] l by (simp only: order_refl simp_thms)
  ultimately show ?thesis using c a m [THEN conjunct1] by blast
qed

text \<open>
  C6. After a successful \<open>Acquire\<close> the trip cannot be acquired by anyone before the granted lease
  expires: a well-formed attempt gets \<open>ErrLeaseHeld\<close>, any attempt fails and changes nothing. Until then
  \<open>Current\<close> confirms exactly that lease to its holder.
\<close>

theorem acquire_exclusive:
  assumes "schema_ok d" "Acquire clk (tid, hid, dur) d = (Inr lease, d')"
    "now < LeaseExpiresAt lease" "clk' 0 = now"
  shows "isl (fst (Acquire clk' (tid, hid', dur') d')) \<and> snd (Acquire clk' (tid, hid', dur') d') = d' \<and>
    (hid' \<noteq> [] \<and> 0 < Milliseconds dur' \<longrightarrow> fst (Acquire clk' (tid, hid', dur') d') = Inl ErrLeaseHeld) \<and>
    Current now tid hid d' = Inr lease"
proof -
  obtain row where row: "find_lease tid d' = Some row" "lease = lease_of_row row" "l_holder_id row = hid"
    "l_trip_id row = tid" "trip_exists tid d'"
    using Acquire_success [OF assms(2)] by metis
  have s: "schema_ok d'" using acquire.schema_kept [OF assms(1), of clk "(tid, hid, dur)"] assms(2) by simp
  have live: "now < l_lease_expires_at row" using assms(3) row(2) by (simp add: lease_of_row_def)
  have "Current now tid hid d' = Inr lease"
    unfolding Current_iff [OF s] using find_lease_SomeD [OF row(1)] row live Acquire_input [OF assms(2)]
    by (intro conjI bexI [of _ row]) simp_all
  moreover have "isl (fst (Acquire clk' (tid, hid', dur') d')) \<and> snd (Acquire clk' (tid, hid', dur') d') = d'"
    using row(1,5) live assms(4)
    by (auto simp: Acquire_def Acquire_tx_def lockTrip_def run_tx_def split: sum.splits)
  moreover have "fst (Acquire clk' (tid, hid', dur') d') = Inl ErrLeaseHeld" if "hid' \<noteq> []" "0 < Milliseconds dur'"
    using that row(1,5) live assms(4) Acquire_input [OF assms(2)]
    by (simp add: Acquire_def Acquire_tx_def lockTrip_def run_tx_def validateLeaseInput_def)
  ultimately show ?thesis by blast
qed

theorem acquire_exclusive_witness:
  "Current 5000 (sample_uuid CHR ''1'') (sample_uuid CHR ''0'')
     (snd (Acquire (\<lambda>_. 4000) (sample_uuid CHR ''1'', sample_uuid CHR ''0'', 3000000) sample_db)) =
   fst (Acquire (\<lambda>_. 4000) (sample_uuid CHR ''1'', sample_uuid CHR ''0'', 3000000) sample_db)"
proof -
  obtain lease d' where a: "Acquire (\<lambda>_. 4000) (sample_uuid CHR ''1'', sample_uuid CHR ''0'', 3000000) sample_db
      = (Inr lease, d')" and l: "LeaseExpiresAt lease = 7000"
    by (simp add: lease_eval)
  show ?thesis
    using acquire_exclusive [OF schema_sample a, of 5000 "\<lambda>_. 5000"] l a by simp
qed

text \<open>
  C7. A takeover fences its predecessor: the epoch grows by one, the previous epoch can neither be
  renewed nor released nor confirmed by \<open>Current\<close> for any holder, not even when the new holder is the
  previous one, and no proposal computed under an older epoch stays pending.
\<close>

theorem takeover_fences_predecessor:
  assumes "schema_ok d" "find_lease tid d = Some l" "Acquire clk (tid, hid, dur) d = (Inr lease, d')"
  shows "int (RuntimeEpoch lease) = l_runtime_epoch l + 1 \<and>
    isl (fst (Renew clk' (tid, hid', uint64 (l_runtime_epoch l), dur') d')) \<and>
    isl (fst (Release clk' (tid, hid', uint64 (l_runtime_epoch l)) d')) \<and>
    (\<forall>now x. Current now tid hid' d' = Inr x \<longrightarrow> x = lease) \<and>
    (\<forall>r\<in>set (plan_proposals d'). pending_of tid r \<longrightarrow> l_runtime_epoch l < r_source_runtime_epoch r)"
proof -
  obtain row where row: "find_lease tid d' = Some row" "lease = lease_of_row row"
    "l_runtime_epoch row = l_runtime_epoch l + 1"
    "\<forall>r\<in>set (plan_proposals d'). pending_of tid r \<longrightarrow> l_runtime_epoch row \<le> r_source_runtime_epoch r"
    using Acquire_success [OF assms(3)] assms(2) by metis
  have s: "schema_ok d'" using acquire.schema_kept [OF assms(1), of clk "(tid, hid, dur)"] assms(3) by simp
  have mem: "row \<in> set (trip_runtime_leases d')" "l_trip_id row = tid"
    using find_lease_SomeD [OF row(1)] by auto
  have bounds: "0 < l_runtime_epoch l" "l_runtime_epoch row \<le> int MaxInt64"
    using assms(1) s mem find_lease_SomeD [OF assms(2)]
    by (auto simp: schema_ok_def leases_ok_def list_all_iff lease_check_def i64_ok_def)
  then have e: "int64 (uint64 (l_runtime_epoch l)) = l_runtime_epoch l"
    using row(3) by (intro int64_uint64) (auto simp: MaxInt64_def)
  have no: "\<not> (m \<in> set (trip_runtime_leases d') \<and> l_trip_id m = tid \<and> l_runtime_epoch m = l_runtime_epoch l)" for m
    using lease_unique [OF s, of m row] mem row(3) by auto
  have "isl (fst (Renew clk' (tid, hid', uint64 (l_runtime_epoch l), dur') d'))"
    using no by (auto simp: Renew_def Renew_tx_def run_tx_def e bindr_eq_Inr Let_def
        split: sum.splits option.splits dest!: query_row_SomeD)
  moreover have "isl (fst (Release clk' (tid, hid', uint64 (l_runtime_epoch l)) d'))"
  proof -
    have "sql_count (\<lambda>m. l_trip_id m = tid \<and> l_holder_id m = hid' \<and> l_runtime_epoch m = l_runtime_epoch l)
        (trip_runtime_leases d') = 0"
      using no by (simp add: sql_count_eq_0)
    then show ?thesis by (auto simp: Release_def Release_tx_def run_tx_def e bindr_eq_Inr Let_def split: sum.splits)
  qed
  moreover have "\<forall>now x. Current now tid hid' d' = Inr x \<longrightarrow> x = lease"
    unfolding Current_iff [OF s] using lease_unique [OF s _ mem(1)] mem(2) row(2) by metis
  moreover have "int (RuntimeEpoch lease) = l_runtime_epoch l + 1"
    using row(2,3) bounds by (simp add: lease_of_row_def uint64_small)
  ultimately show ?thesis using row(3,4) by force
qed

theorem takeover_fences_predecessor_witness:
  "isl (fst (Renew (\<lambda>_. 4001) (sample_uuid CHR ''1'', sample_uuid CHR ''b'', 7, 3000000)
     (snd (Acquire (\<lambda>_. 4000) (sample_uuid CHR ''1'', sample_uuid CHR ''0'', 3000000) leased_db))))"
proof -
  obtain lease d' where a: "Acquire (\<lambda>_. 4000) (sample_uuid CHR ''1'', sample_uuid CHR ''0'', 3000000) leased_db
      = (Inr lease, d')"
    by (simp add: lease_eval)
  have f: "find_lease (sample_uuid CHR ''1'') leased_db = Some sample_lease"
    and e: "uint64 (l_runtime_epoch sample_lease) = 7"
    by (simp_all add: lease_eval)
  show ?thesis using takeover_fences_predecessor [OF schema_leased f a] a e by simp
qed

text \<open>
  C8. The epoch is not monotone across a \<open>Release\<close>: the row is deleted, so whatever epoch the trip
  had reached, the next \<open>Acquire\<close> grants epoch 1 again, and it leaves the pending proposals of the
  higher epochs pending.
\<close>

theorem release_restarts_epoch:
  assumes "schema_ok d" "Release clk (tid, hid, e) d = (Inr (), d1)"
    "Acquire clk' (tid, hid', dur) d1 = (Inr lease, d2)"
  shows "RuntimeEpoch lease = 1 \<and> plan_proposals d2 = plan_proposals d"
proof -
  let ?P = "\<lambda>l. l_trip_id l = tid \<and> l_holder_id l = hid \<and> l_runtime_epoch l = int64 e"
  have tx: "Release_tx tid hid e d = Inr ((), d1)"
    using assms(2) by (auto simp: Release_def run_tx_Inr split: if_splits)
  then have c: "sql_count ?P (trip_runtime_leases d) = 1"
    and d1: "d1 = d\<lparr>trip_runtime_leases := sql_delete ?P (trip_runtime_leases d)\<rparr>"
    by (auto simp: Release_tx_def bindr_eq_Inr Let_def split: if_splits)
  obtain l where l: "l \<in> set (trip_runtime_leases d)" "?P l"
    using c sql_count_eq_0 [of ?P "trip_runtime_leases d"] by auto
  have none: "find_lease tid d1 = None"
    unfolding d1 find_lease_def query_row_None
    using lease_unique [OF assms(1) _ l(1)] l(2) by (simp add: set_sql_delete) blast
  obtain row where "lease = lease_of_row row" "l_runtime_epoch row = 1" "plan_proposals d2 = plan_proposals d1"
    using Acquire_success [OF assms(3)] none by metis
  then show ?thesis using d1 by (simp add: lease_of_row_def uint64_def)
qed

theorem release_restarts_epoch_witness:
  "\<exists>lease d2. Acquire (\<lambda>_. 4000) (sample_uuid CHR ''1'', sample_uuid CHR ''0'', 3000000)
      (snd (Release (\<lambda>_. 50) (sample_uuid CHR ''1'', sample_uuid CHR ''b'', 7) leased_db)) = (Inr lease, d2) \<and>
    RuntimeEpoch lease = 1"
proof -
  obtain d1 where r: "Release (\<lambda>_. 50) (sample_uuid CHR ''1'', sample_uuid CHR ''b'', 7) leased_db = (Inr (), d1)"
    by (simp add: lease_eval)
  obtain lease d2 where a: "Acquire (\<lambda>_. 4000) (sample_uuid CHR ''1'', sample_uuid CHR ''0'', 3000000)
      (snd (Release (\<lambda>_. 50) (sample_uuid CHR ''1'', sample_uuid CHR ''b'', 7) leased_db)) = (Inr lease, d2)"
    by (simp add: lease_eval)
  then show ?thesis using release_restarts_epoch [OF schema_leased r, of "\<lambda>_. 4000"] r by simp
qed

end
