(* ===== verification/LR_Proposals.thy ===== *)
theory LR_Proposals
  imports LR_Finalization LR_Leases
begin

text \<open>
  Plan proposals: \<open>persistence/proposals.go\<close> (\<open>ProposalStore.Persist\<close>, \<open>LatestPendingPayload\<close>),
  \<open>persistence/proposal_acceptance.go\<close> (\<open>PrepareProposalAcceptance\<close>), \<open>persistence/proposal_decisions.go\<close>
  (\<open>FinalizeProposalRejection\<close>, \<open>FinalizeStaleProposalDecision\<close>) and \<open>persistence/accepted_proposal.go\<close>
  (\<open>FinalizeProposalAcceptance\<close>). Shown: a stored proposal is fresh against lease, revision and plan,
  at most one is pending, an acceptance publishes exactly the recorded plan, and where a
  redelivered decision is not answered as a duplicate.
\<close>

record ProposalSource =
  ps_RuntimeEpoch :: u64
  ps_PlannerStateVersion :: u64
  ps_TripRevision :: u64
  ps_AcceptedMutationSequence :: u64
  ps_BaseCurrentPlanID :: uuid

record RuntimeFreshness =
  rf_HolderID :: uuid
  rf_RuntimeEpoch :: u64
  rf_PlannerStateVersion :: u64
  rf_AcceptedMutationSequence :: u64

record PersistProposalRequest =
  pp_ProposalID :: uuid
  pp_TripID :: uuid
  pp_Source :: ProposalSource
  pp_Current :: RuntimeFreshness
  pp_Payload :: bytes
  pp_Checksum :: bytes
  pp_CreatedAt :: time

record PersistedProposal =
  pd_ProposalID :: uuid
  pd_TripID :: uuid
  pd_Source :: ProposalSource
  pd_State :: proposal_state
  pd_PayloadSizeBytes :: u64
  pd_Checksum :: bytes
  pd_CreatedAt :: time
  pd_Duplicate :: bool
  pd_Publishable :: bool
  pd_SupersededProposalCount :: u64
  pd_Payload :: bytes

section \<open>Storing proposals\<close>

text \<open>
  \<open>ORDER BY created_at DESC, id DESC LIMIT 1\<close>: the last row in ascending order.
\<close>

definition LatestPendingPayload :: "uuid \<Rightarrow> db \<Rightarrow> bytes result" where
  "LatestPendingPayload tripID d =
     (if \<not> validCanonicalUUID tripID then Inl (ErrText ''trip id is invalid'')
      else case rev (sort_key r_created_at (sort_key r_id (sql_select (pending_of tripID) (plan_proposals d)))) of
        [] \<Rightarrow> Inl ErrPendingProposalNotFound
      | r # _ \<Rightarrow> Inr (r_payload r))"

definition validatePersistProposal :: "ext \<Rightarrow> PersistProposalRequest \<Rightarrow> unit result" where
  "validatePersistProposal e rq =
     (if \<not> list_all validCanonicalUUID [pp_ProposalID rq, pp_TripID rq, ps_BaseCurrentPlanID (pp_Source rq),
          rf_HolderID (pp_Current rq)]
        then Inl (ErrText ''proposal identifiers must be canonical lowercase UUIDs'')
      else if list_ex (\<lambda>v. v > MaxInt64) [ps_RuntimeEpoch (pp_Source rq), ps_PlannerStateVersion (pp_Source rq),
          ps_TripRevision (pp_Source rq), ps_AcceptedMutationSequence (pp_Source rq), rf_RuntimeEpoch (pp_Current rq),
          rf_PlannerStateVersion (pp_Current rq), rf_AcceptedMutationSequence (pp_Current rq)]
        then Inl (ErrText ''proposal source version is out of range'')
      else if ps_RuntimeEpoch (pp_Source rq) = 0 \<or> ps_TripRevision (pp_Source rq) = 0 \<or>
          ps_AcceptedMutationSequence (pp_Source rq) = 0 \<or> rf_RuntimeEpoch (pp_Current rq) = 0 \<or>
          rf_AcceptedMutationSequence (pp_Current rq) = 0
        then Inl (ErrText ''proposal source versions must be positive'')
      else if pp_Payload rq = [] \<or> length (pp_Payload rq) > MaxInt32 then Inl ErrProposalPayloadInvalid
      else if sha256 e (pp_Payload rq) \<noteq> pp_Checksum rq then Inl ErrProposalPayloadInvalid
      else if pp_CreatedAt rq = zero_time \<or> pp_CreatedAt rq mod 1000 \<noteq> 0
        then Inl (ErrText ''proposal creation time must have exact millisecond precision'')
      else Inr ())"

definition lockProposals :: "uuid \<Rightarrow> db \<Rightarrow> proposal_row list" where
  "lockProposals tripID d = sort_key r_id (sql_select (\<lambda>r. r_trip_id r = tripID) (plan_proposals d))"

definition proposalMatches :: "proposal_row \<Rightarrow> PersistProposalRequest \<Rightarrow> bool" where
  "proposalMatches stored rq \<longleftrightarrow>
     r_base_current_plan_id stored = ps_BaseCurrentPlanID (pp_Source rq) \<and>
     r_source_runtime_epoch stored = int64 (ps_RuntimeEpoch (pp_Source rq)) \<and>
     r_source_planner_state_version stored = int64 (ps_PlannerStateVersion (pp_Source rq)) \<and>
     r_source_trip_revision stored = int64 (ps_TripRevision (pp_Source rq)) \<and>
     r_source_accepted_mutation_sequence stored = int64 (ps_AcceptedMutationSequence (pp_Source rq)) \<and>
     r_payload_size_bytes stored = int (length (pp_Payload rq)) \<and>
     length (r_checksum_sha256 stored) = 32 \<and> r_checksum_sha256 stored = pp_Checksum rq \<and>
     r_payload stored = pp_Payload rq \<and> r_created_at stored = pp_CreatedAt rq"

definition sourceIsCurrent ::
  "PersistProposalRequest \<Rightarrow> i64 \<Rightarrow> i64 \<Rightarrow> uuid \<Rightarrow> uuid \<Rightarrow> i64 \<Rightarrow> time \<Rightarrow> time \<Rightarrow> bool" where
  "sourceIsCurrent rq tripRevision finalizedMutationSequence currentPlanID leaseHolderID leaseRuntimeEpoch
     leaseExpiresAt databaseTime \<longleftrightarrow>
     ps_RuntimeEpoch (pp_Source rq) = rf_RuntimeEpoch (pp_Current rq) \<and>
     ps_PlannerStateVersion (pp_Source rq) = rf_PlannerStateVersion (pp_Current rq) \<and>
     ps_AcceptedMutationSequence (pp_Source rq) = rf_AcceptedMutationSequence (pp_Current rq) \<and>
     ps_TripRevision (pp_Source rq) = uint64 tripRevision \<and>
     ps_AcceptedMutationSequence (pp_Source rq) \<le> uint64 finalizedMutationSequence \<and>
     ps_BaseCurrentPlanID (pp_Source rq) = currentPlanID \<and>
     rf_HolderID (pp_Current rq) = leaseHolderID \<and>
     rf_RuntimeEpoch (pp_Current rq) = uint64 leaseRuntimeEpoch \<and>
     leaseExpiresAt > databaseTime"

definition persistedProposal ::
  "PersistProposalRequest \<Rightarrow> proposal_state \<Rightarrow> bool \<Rightarrow> bool \<Rightarrow> u64 \<Rightarrow> PersistedProposal" where
  "persistedProposal rq st duplicate publishable superseded =
     \<lparr>pd_ProposalID = pp_ProposalID rq, pd_TripID = pp_TripID rq, pd_Source = pp_Source rq, pd_State = st,
      pd_PayloadSizeBytes = length (pp_Payload rq), pd_Checksum = pp_Checksum rq,
      pd_CreatedAt = pp_CreatedAt rq, pd_Duplicate = duplicate, pd_Publishable = publishable,
      pd_SupersededProposalCount = superseded, pd_Payload = pp_Payload rq\<rparr>"

definition proposal_row_of :: "PersistProposalRequest \<Rightarrow> proposal_row" where
  "proposal_row_of rq =
     \<lparr>r_id = pp_ProposalID rq, r_trip_id = pp_TripID rq,
      r_base_current_plan_id = ps_BaseCurrentPlanID (pp_Source rq),
      r_source_runtime_epoch = int64 (ps_RuntimeEpoch (pp_Source rq)),
      r_source_planner_state_version = int64 (ps_PlannerStateVersion (pp_Source rq)),
      r_source_trip_revision = int64 (ps_TripRevision (pp_Source rq)),
      r_source_accepted_mutation_sequence = int64 (ps_AcceptedMutationSequence (pp_Source rq)),
      r_schema_version = 1, r_payload = pp_Payload rq, r_payload_size_bytes = int (length (pp_Payload rq)),
      r_checksum_sha256 = pp_Checksum rq, r_state = ProposalPending, r_decision_message_id = None,
      r_resulting_current_plan_id = None, r_created_at = pp_CreatedAt rq, r_decided_at = None\<rparr>"

definition supersede_pending :: "uuid \<Rightarrow> time \<Rightarrow> db \<Rightarrow> db" where
  "supersede_pending tripID now d =
     update_proposals (pending_of tripID) (\<lambda>r. r\<lparr>r_state := ProposalSuperseded, r_decided_at := Some now\<rparr>) d"

definition Persist_tx :: "clock \<Rightarrow> PersistProposalRequest \<Rightarrow> db \<Rightarrow> err + (PersistedProposal \<times> db)" where
  "Persist_tx clk rq d =
     (case find_trip (pp_TripID rq) d of
        None \<Rightarrow> Inl ErrTripNotFound
      | Some t \<Rightarrow>
      (case t_current_plan_id t of
        None \<Rightarrow> Inl (ErrSQL ''lock proposal trip'')
      | Some currentPlanID \<Rightarrow>
      (case find_lease (pp_TripID rq) d of
        None \<Rightarrow> Inl ErrProposalStale
      | Some l \<Rightarrow>
        let databaseTime = clk 0;
            current = sourceIsCurrent rq (t_trip_revision t) (t_finalized_mutation_sequence t) currentPlanID
              (l_holder_id l) (l_runtime_epoch l) (l_lease_expires_at l) databaseTime in
        case query_row (\<lambda>r. r_id r = pp_ProposalID rq) (lockProposals (pp_TripID rq) d) of
          Some r \<Rightarrow>
            if \<not> proposalMatches r rq then Inl ErrProposalIdentityConflict
            else Inr (persistedProposal rq (r_state r) True (current \<and> r_state r = ProposalPending) 0, d)
        | None \<Rightarrow>
            if \<not> current then Inl ErrProposalStale
            else bindr (exec_sql ''insert proposal'' (insert_proposal (proposal_row_of rq)
                (supersede_pending (pp_TripID rq) databaseTime d))) (\<lambda>d'.
              Inr (persistedProposal rq ProposalPending False True
                (sql_count (pending_of (pp_TripID rq)) (plan_proposals d)), d')))))"

definition Persist ::
  "ext \<Rightarrow> clock \<Rightarrow> PersistProposalRequest \<Rightarrow> db \<Rightarrow> PersistedProposal result \<times> db" where
  "Persist e clk rq d =
     (case validatePersistProposal e rq of
        Inl x \<Rightarrow> (Inl x, d)
      | Inr _ \<Rightarrow> run_tx (Persist_tx clk rq) d)"

section \<open>Preparing an acceptance\<close>

record ProposalAcceptancePreparation =
  pr_ProposalID :: uuid
  pr_TripID :: uuid
  pr_Source :: ProposalSource
  pr_Payload :: bytes
  pr_CreatedAt :: time
  pr_CurrentPlanID :: uuid
  pr_NextPlanRevision :: u64

text \<open>\<open>COALESCE(MAX(plan_revision), 0)\<close> over the plans of a trip.\<close>

definition max_plan_revision :: "uuid \<Rightarrow> db \<Rightarrow> i64" where
  "max_plan_revision tripID d =
     foldr max (map p_plan_revision (sql_select (\<lambda>p. p_trip_id p = tripID) (itinerary_plans d))) 0"

definition PrepareProposalAcceptance ::
  "clock \<Rightarrow> uuid \<Rightarrow> uuid \<Rightarrow> db \<Rightarrow> ProposalAcceptancePreparation result" where
  "PrepareProposalAcceptance clk tripID proposalID d =
     (if \<not> validCanonicalUUID tripID \<or> \<not> validCanonicalUUID proposalID
        then Inl (ErrText ''proposal acceptance identifiers are invalid'')
      else case find_trip tripID d of
        None \<Rightarrow> Inl ErrTripNotFound
      | Some t \<Rightarrow>
      (case t_current_plan_id t of
        None \<Rightarrow> Inl (ErrSQL ''lock proposal trip'')
      | Some currentPlanID \<Rightarrow>
      (case query_row (\<lambda>r. r_id r = proposalID \<and> r_trip_id r = tripID \<and> r_state r = ProposalPending)
          (plan_proposals d) of
        None \<Rightarrow> Inl ErrPendingProposalNotFound
      | Some r \<Rightarrow>
        let maximumRevision = max_plan_revision tripID d in
        if r_source_runtime_epoch r \<le> 0 \<or> r_source_planner_state_version r < 0 \<or>
           r_source_trip_revision r \<le> 0 \<or> r_source_accepted_mutation_sequence r \<le> 0 \<or>
           maximumRevision < 0 \<or> maximumRevision = int MaxInt64 \<or>
           \<not> validCanonicalUUID (r_base_current_plan_id r) \<or> \<not> validCanonicalUUID currentPlanID
          then Inl (ErrText ''pending proposal metadata is invalid'')
        else Inr \<lparr>pr_ProposalID = r_id r, pr_TripID = r_trip_id r,
          pr_Source = \<lparr>ps_RuntimeEpoch = uint64 (r_source_runtime_epoch r),
            ps_PlannerStateVersion = uint64 (r_source_planner_state_version r),
            ps_TripRevision = uint64 (r_source_trip_revision r),
            ps_AcceptedMutationSequence = uint64 (r_source_accepted_mutation_sequence r),
            ps_BaseCurrentPlanID = r_base_current_plan_id r\<rparr>,
          pr_Payload = r_payload r, pr_CreatedAt = trunc_millis (clk 0), pr_CurrentPlanID = currentPlanID,
          pr_NextPlanRevision = uint64 (maximumRevision + 1)\<rparr>)))"

section \<open>Rejections and stale decisions\<close>

record ProposalDecisionIdentity =
  pi_ProposalID :: uuid
  pi_SourceRuntimeEpoch :: u64
  pi_SourcePlannerStateVersion :: u64
  pi_BaseCurrentPlanID :: uuid

record FinalizeProposalDecisionRequest =
  fd_TripID :: uuid
  fd_IntentID :: uuid
  fd_OutboxID :: uuid
  fd_EventID :: uuid
  fd_MutationSequence :: u64
  fd_ExpectedTripRevision :: u64
  fd_ResultingPlannerStateVersion :: u64
  fd_Identity :: ProposalDecisionIdentity
  fd_OutcomePayload :: bytes

definition validateProposalDecisionFinalization :: "ext \<Rightarrow> FinalizeProposalDecisionRequest \<Rightarrow> unit result" where
  "validateProposalDecisionFinalization e rq =
     (if \<not> list_all validCanonicalUUID [fd_TripID rq, fd_IntentID rq, fd_OutboxID rq, fd_EventID rq,
          pi_ProposalID (fd_Identity rq), pi_BaseCurrentPlanID (fd_Identity rq)]
        then Inl (ErrText ''proposal-decision identifiers must be canonical lowercase UUIDs'')
      else if list_ex (\<lambda>v. v > MaxInt64) [fd_MutationSequence rq, fd_ExpectedTripRevision rq,
          fd_ResultingPlannerStateVersion rq, pi_SourceRuntimeEpoch (fd_Identity rq),
          pi_SourcePlannerStateVersion (fd_Identity rq)]
        then Inl (ErrText ''proposal-decision version is out of range'')
      else if fd_MutationSequence rq = 0 \<or> pi_SourceRuntimeEpoch (fd_Identity rq) = 0 \<or>
          \<not> json_valid e (fd_OutcomePayload rq)
        then Inl (ErrText ''proposal-decision finalization is invalid'')
      else Inr ())"

text \<open>The five values the flag \<open>stale\<close> selects.\<close>

definition decision_status :: "bool \<Rightarrow> string" where
  "decision_status stale = (if stale then ''STALE'' else ''OK'')"

definition decision_intent_state :: "bool \<Rightarrow> intent_state" where
  "decision_intent_state stale = (if stale then IntentRejected else IntentApplied)"

definition decision_outbox_state :: "bool \<Rightarrow> delivery_state" where
  "decision_outbox_state stale = (if stale then DeliveryTerminalRejected else DeliveryAccepted)"

definition decision_revision :: "bool \<Rightarrow> FinalizeProposalDecisionRequest \<Rightarrow> u64" where
  "decision_revision stale rq =
     (if stale then fd_ExpectedTripRevision rq else add_u64 (fd_ExpectedTripRevision rq) 1)"

definition decision_proposal_state :: "bool \<Rightarrow> proposal_state" where
  "decision_proposal_state stale = (if stale then ProposalIsStale else ProposalRejected)"

definition decision_result :: "bool \<Rightarrow> FinalizeProposalDecisionRequest \<Rightarrow> time \<Rightarrow> bool \<Rightarrow> FinalizedCommand" where
  "decision_result stale rq finalizedAt duplicate =
     \<lparr>fc_IntentID = fd_IntentID rq, fc_OutboxID = fd_OutboxID rq, fc_TripID = fd_TripID rq,
      fc_EventID = fd_EventID rq, fc_MutationSequence = fd_MutationSequence rq,
      fc_State = decision_intent_state stale, fc_Status = decision_status stale,
      fc_ResultingTripRevision = decision_revision stale rq,
      fc_ResultingPlannerStateVersion = fd_ResultingPlannerStateVersion rq,
      fc_FinalizedAt = finalizedAt, fc_Duplicate = duplicate\<rparr>"

text \<open>
  The four rows a decision locks, in the order of the queries. A trip without a current plan fails
  the scan of the first row; \<open>scan\<close> says whether the columns of the intent can be scanned.
\<close>

definition decision_rows ::
  "string \<Rightarrow> (intent_row \<Rightarrow> unit result) \<Rightarrow> FinalizeProposalDecisionRequest \<Rightarrow> db \<Rightarrow>
     (trip_row \<times> uuid \<times> intent_row \<times> outbox_row \<times> proposal_row) result" where
  "decision_rows label scan rq d =
     (case find_trip (fd_TripID rq) d of
        None \<Rightarrow> Inl ErrTripNotFound
      | Some t \<Rightarrow>
      (case t_current_plan_id t of
        None \<Rightarrow> Inl (ErrSQL label)
      | Some currentPlanID \<Rightarrow>
      (case query_row (\<lambda>i. i_id i = fd_IntentID rq \<and> i_trip_id i = fd_TripID rq \<and>
          i_application_order i = RuntimeFirst) (command_intents d) of
        None \<Rightarrow> Inl ErrCommandNotFound
      | Some i \<Rightarrow> bindr (scan i) (\<lambda>_.
          case query_row (\<lambda>b. o_id b = fd_OutboxID rq \<and> o_command_intent_id b = fd_IntentID rq \<and>
              o_trip_id b = fd_TripID rq) (planner_outbox d) of
            None \<Rightarrow> Inl ErrCommandNotFound
          | Some b \<Rightarrow>
          (case query_row (\<lambda>r. r_id r = pi_ProposalID (fd_Identity rq) \<and> r_trip_id r = fd_TripID rq)
              (plan_proposals d) of
            None \<Rightarrow> Inl ErrProposalStale
          | Some p \<Rightarrow> Inr (t, currentPlanID, i, b, p))))))"

definition decision_identity :: "FinalizeProposalDecisionRequest \<Rightarrow> intent_row \<Rightarrow> proposal_row \<Rightarrow> bool" where
  "decision_identity rq i p \<longleftrightarrow> i_event_id i = fd_EventID rq \<and>
     i_mutation_sequence i = int64 (fd_MutationSequence rq) \<and>
     i_expected_trip_revision i = int64 (fd_ExpectedTripRevision rq) \<and>
     r_source_runtime_epoch p = int64 (pi_SourceRuntimeEpoch (fd_Identity rq)) \<and>
     r_source_planner_state_version p = int64 (pi_SourcePlannerStateVersion (fd_Identity rq)) \<and>
     r_base_current_plan_id p = pi_BaseCurrentPlanID (fd_Identity rq)"

definition decision_proposal_matches :: "bool \<Rightarrow> intent_row \<Rightarrow> proposal_row \<Rightarrow> bool" where
  "decision_proposal_matches stale i p =
     (if stale \<and> r_state p \<noteq> ProposalPending \<and> r_state p \<noteq> ProposalIsStale
      then r_decision_message_id p = None \<or> r_decision_message_id p = Some (i_message_id i)
      else r_state p = decision_proposal_state stale \<and> r_decision_message_id p = Some (i_message_id i))"

definition decision_resolved ::
  "ext \<Rightarrow> bool \<Rightarrow> FinalizeProposalDecisionRequest \<Rightarrow> intent_row \<Rightarrow> outbox_row \<Rightarrow> proposal_row \<Rightarrow>
     FinalizedCommand result" where
  "decision_resolved e stale rq i b p =
     bindr (payload_matches e ''compare proposal-decision outcome'' i (fd_OutcomePayload rq)) (\<lambda>payloadMatches.
       case i_finalized_at i of
         None \<Rightarrow> Inl ErrCommandFinalizationConflict
       | Some finalizedAt \<Rightarrow>
           if i_state i \<noteq> decision_intent_state stale \<or> i_outcome_status i \<noteq> Some (decision_status stale) \<or>
              i_resulting_trip_revision i \<noteq> Some (int64 (decision_revision stale rq)) \<or>
              i_resulting_planner_state_version i \<noteq> Some (int64 (fd_ResultingPlannerStateVersion rq)) \<or>
              o_delivery_state b \<noteq> decision_outbox_state stale \<or>
              \<not> decision_proposal_matches stale i p \<or> \<not> payloadMatches
             then Inl ErrCommandFinalizationConflict
           else Inr (decision_result stale rq finalizedAt True))"

definition decide_proposal :: "bool \<Rightarrow> uuid \<Rightarrow> time \<Rightarrow> proposal_row \<Rightarrow> proposal_row" where
  "decide_proposal stale messageID now r =
     r\<lparr>r_state := decision_proposal_state stale, r_decision_message_id := Some messageID, r_decided_at := Some now\<rparr>"

definition decision_apply ::
  "ext \<Rightarrow> clock \<Rightarrow> bool \<Rightarrow> FinalizeProposalDecisionRequest \<Rightarrow> intent_row \<Rightarrow> proposal_row \<Rightarrow> db \<Rightarrow>
     err + (FinalizedCommand \<times> db)" where
  "decision_apply e clk stale rq i p d =
     (let databaseTime = clk 0;
          d1 = (if \<not> stale \<or> r_state p = ProposalPending
            then update_proposals (\<lambda>r. r_id r = pi_ProposalID (fd_Identity rq))
              (decide_proposal stale (i_message_id i) databaseTime) d
            else d) in
      bindr (exec_sql ''advance proposal-decision trip'' (update_trip (fd_TripID rq)
          (advance_trip (int64 (decision_revision stale rq)) (i_mutation_sequence i) databaseTime) d1)) (\<lambda>d2.
      bindr (exec_sql ''resolve proposal-decision intent'' (to_jsonb e (fd_OutcomePayload rq))) (\<lambda>payload.
      let d3 = update_intent (fd_IntentID rq) (resolve_intent (decision_intent_state stale) (decision_status stale)
            payload (int64 (decision_revision stale rq)) (fd_ResultingPlannerStateVersion rq) databaseTime) d2;
          d4 = update_outbox (\<lambda>b. o_id b = fd_OutboxID rq)
            (resolve_outbox (decision_outbox_state stale) (decision_status stale) databaseTime) d3 in
      Inr (decision_result stale rq databaseTime False, d4))))"

definition finalizeProposalDecision_tx ::
  "ext \<Rightarrow> clock \<Rightarrow> bool \<Rightarrow> FinalizeProposalDecisionRequest \<Rightarrow> db \<Rightarrow> err + (FinalizedCommand \<times> db)" where
  "finalizeProposalDecision_tx e clk stale rq d =
     bindr (decision_rows ''lock proposal-decision trip'' (\<lambda>_. Inr ()) rq d) (\<lambda>(t, currentPlanID, i, b, p).
       if \<not> decision_identity rq i p then Inl ErrCommandFinalizationConflict
       else if i_command_kind i \<noteq> CommandAcceptProposal \<and> i_command_kind i \<noteq> CommandRejectProposal
         then Inl ErrCommandFinalizationConflict
       else if \<not> stale \<and> i_command_kind i \<noteq> CommandRejectProposal then Inl ErrCommandFinalizationConflict
       else if i_state i \<noteq> IntentPending
         then bindr (decision_resolved e stale rq i b p) (\<lambda>result. Inr (result, d))
       else if t_trip_revision t \<noteq> i_expected_trip_revision i \<or>
           (\<not> stale \<and> currentPlanID \<noteq> pi_BaseCurrentPlanID (fd_Identity rq))
         then Inl ErrTripRevisionStale
       else bindr (check_next_finalization t (i_mutation_sequence i)) (\<lambda>_.
         if \<not> stale \<and> r_state p \<noteq> ProposalPending then Inl ErrProposalStale
         else if \<not> stale \<and> r_source_trip_revision p \<noteq> i_expected_trip_revision i then Inl ErrProposalStale
         else decision_apply e clk stale rq i p d))"

definition finalizeProposalDecision ::
  "ext \<Rightarrow> bool \<Rightarrow> clock \<Rightarrow> FinalizeProposalDecisionRequest \<Rightarrow> db \<Rightarrow> FinalizedCommand result \<times> db" where
  "finalizeProposalDecision e stale clk rq d =
     (case validateProposalDecisionFinalization e rq of
        Inl x \<Rightarrow> (Inl x, d)
      | Inr _ \<Rightarrow> run_tx (finalizeProposalDecision_tx e clk stale rq) d)"

definition FinalizeProposalRejection ::
  "ext \<Rightarrow> clock \<Rightarrow> FinalizeProposalDecisionRequest \<Rightarrow> db \<Rightarrow> FinalizedCommand result \<times> db" where
  "FinalizeProposalRejection e clk rq d =
     (if fd_ExpectedTripRevision rq = MaxInt64 then (Inl (ErrText ''trip revision is exhausted''), d)
      else finalizeProposalDecision e False clk rq d)"

definition FinalizeStaleProposalDecision ::
  "ext \<Rightarrow> clock \<Rightarrow> FinalizeProposalDecisionRequest \<Rightarrow> db \<Rightarrow> FinalizedCommand result \<times> db" where
  "FinalizeStaleProposalDecision e clk rq d = finalizeProposalDecision e True clk rq d"

section \<open>Acceptances\<close>

text \<open>The checks on the planned plan that are made for a pending and for a resolved command alike.\<close>

definition acceptance_plan ::
  "ext \<Rightarrow> FinalizeProposalDecisionRequest \<Rightarrow> uuid \<Rightarrow> bytes \<Rightarrow> bytes \<Rightarrow> proposal_row \<Rightarrow> db \<Rightarrow>
     currentPlanWire result" where
  "acceptance_plan e rq plannedPlanID plannedPayload plannedChecksum p d =
     (if length plannedChecksum \<noteq> 32 \<or> sha256 e plannedPayload \<noteq> plannedChecksum
        then Inl ErrProposalPayloadInvalid
      else case parseCurrentPlan plannedPayload of
        Inl _ \<Rightarrow> Inl ErrProposalPayloadInvalid
      | Inr plan \<Rightarrow>
        if planID plan \<noteq> plannedPlanID \<or> sourceProposalID plan \<noteq> pi_ProposalID (fd_Identity rq) \<or>
           origin plan \<noteq> 2
          then Inl ErrProposalPayloadInvalid
        else case validateProposalPlanMapping plan (r_payload p) of
          Inl _ \<Rightarrow> Inl ErrProposalPayloadInvalid
        | Inr _ \<Rightarrow>
          let activityIDs = remdups (map a_id (sql_select (\<lambda>a. a_trip_id a = fd_TripID rq) (trip_activities d))) in
          if length activityIDs \<noteq> length (segments plan) then Inl ErrProposalPayloadInvalid
          else if \<not> list_all (\<lambda>s. seg_activityID s \<in> set activityIDs) (segments plan)
            then Inl ErrProposalPayloadInvalid
          else Inr plan)"

text \<open>The planned plan is scanned into a \<open>string\<close> and two byte slices; only the first refuses \<open>NULL\<close>.\<close>

definition scan_planned_plan :: "intent_row \<Rightarrow> unit result" where
  "scan_planned_plan i =
     (if i_planned_current_plan_id i = None then Inl (ErrSQL ''lock proposal-acceptance intent'') else Inr ())"

definition nil_bytes :: "bytes option \<Rightarrow> bytes" where
  "nil_bytes b = (case b of None \<Rightarrow> [] | Some x \<Rightarrow> x)"

definition acceptance_result :: "FinalizeProposalDecisionRequest \<Rightarrow> time \<Rightarrow> bool \<Rightarrow> FinalizedCommand" where
  "acceptance_result rq finalizedAt duplicate =
     \<lparr>fc_IntentID = fd_IntentID rq, fc_OutboxID = fd_OutboxID rq, fc_TripID = fd_TripID rq,
      fc_EventID = fd_EventID rq, fc_MutationSequence = fd_MutationSequence rq,
      fc_State = IntentApplied, fc_Status = ''OK'',
      fc_ResultingTripRevision = add_u64 (fd_ExpectedTripRevision rq) 1,
      fc_ResultingPlannerStateVersion = fd_ResultingPlannerStateVersion rq,
      fc_FinalizedAt = finalizedAt, fc_Duplicate = duplicate\<rparr>"

definition acceptance_plan_matches ::
  "FinalizeProposalDecisionRequest \<Rightarrow> currentPlanWire \<Rightarrow> bytes \<Rightarrow> bytes \<Rightarrow> plan_row option \<Rightarrow> bool" where
  "acceptance_plan_matches rq plan plannedPayload plannedChecksum existingPlan =
     (case existingPlan of
        None \<Rightarrow> False
      | Some q \<Rightarrow> p_plan_revision q = int64 (planRevision plan) \<and> p_origin q = AcceptedEngineProposal \<and>
          p_source_proposal_id q = Some (pi_ProposalID (fd_Identity rq)) \<and> p_payload q = plannedPayload \<and>
          p_checksum_sha256 q = plannedChecksum \<and> p_created_at q = millis (createdAtUnixMS plan))"

definition acceptance_resolved ::
  "ext \<Rightarrow> FinalizeProposalDecisionRequest \<Rightarrow> uuid \<Rightarrow> uuid \<Rightarrow> bool \<Rightarrow> intent_row \<Rightarrow> outbox_row \<Rightarrow>
     proposal_row \<Rightarrow> FinalizedCommand result" where
  "acceptance_resolved e rq currentPlanID plannedPlanID planMatches i b p =
     bindr (payload_matches e ''compare proposal-acceptance outcome'' i (fd_OutcomePayload rq)) (\<lambda>payloadMatches.
       case i_finalized_at i of
         None \<Rightarrow> Inl ErrCommandFinalizationConflict
       | Some finalizedAt \<Rightarrow>
           if i_state i \<noteq> IntentApplied \<or> i_outcome_status i \<noteq> Some ''OK'' \<or>
              i_resulting_trip_revision i \<noteq> Some (int64 (add_u64 (fd_ExpectedTripRevision rq) 1)) \<or>
              i_resulting_planner_state_version i \<noteq> Some (int64 (fd_ResultingPlannerStateVersion rq)) \<or>
              o_delivery_state b \<noteq> DeliveryAccepted \<or> r_state p \<noteq> ProposalAccepted \<or>
              currentPlanID \<noteq> plannedPlanID \<or> \<not> planMatches \<or> \<not> payloadMatches
             then Inl ErrCommandFinalizationConflict
           else Inr (acceptance_result rq finalizedAt True))"

definition accepted_plan_row ::
  "FinalizeProposalDecisionRequest \<Rightarrow> uuid \<Rightarrow> currentPlanWire \<Rightarrow> uuid \<Rightarrow> bytes \<Rightarrow> bytes \<Rightarrow> plan_row" where
  "accepted_plan_row rq ownerUserID plan plannedPlanID plannedPayload plannedChecksum =
     \<lparr>p_id = plannedPlanID, p_trip_id = fd_TripID rq, p_plan_revision = int64 (planRevision plan),
      p_origin = AcceptedEngineProposal, p_authored_by_user_id = ownerUserID,
      p_source_proposal_id = Some (pi_ProposalID (fd_Identity rq)), p_schema_version = 1,
      p_payload = plannedPayload, p_payload_size_bytes = int (length plannedPayload),
      p_checksum_sha256 = plannedChecksum, p_created_at = millis (createdAtUnixMS plan)\<rparr>"

definition accept_proposal_row :: "uuid \<Rightarrow> uuid \<Rightarrow> time \<Rightarrow> proposal_row \<Rightarrow> proposal_row" where
  "accept_proposal_row messageID plannedPlanID now r =
     r\<lparr>r_state := ProposalAccepted, r_decision_message_id := Some messageID,
       r_resulting_current_plan_id := Some plannedPlanID, r_decided_at := Some now\<rparr>"

definition publish_plan :: "uuid \<Rightarrow> i64 \<Rightarrow> i64 \<Rightarrow> time \<Rightarrow> trip_row \<Rightarrow> trip_row" where
  "publish_plan pid rv mseq now t =
     t\<lparr>t_current_plan_id := Some pid, t_trip_revision := rv, t_finalized_mutation_sequence := mseq,
       t_updated_at := now\<rparr>"

definition acceptance_apply ::
  "ext \<Rightarrow> clock \<Rightarrow> FinalizeProposalDecisionRequest \<Rightarrow> trip_row \<Rightarrow> intent_row \<Rightarrow> currentPlanWire \<Rightarrow>
     uuid \<Rightarrow> bytes \<Rightarrow> bytes \<Rightarrow> db \<Rightarrow> err + (FinalizedCommand \<times> db)" where
  "acceptance_apply e clk rq t i plan plannedPlanID plannedPayload plannedChecksum d =
     (let resultRevision = int64 (add_u64 (fd_ExpectedTripRevision rq) 1); databaseTime = clk 0 in
      bindr (exec_sql ''insert accepted plan'' (insert_plan (accepted_plan_row rq (t_owner_user_id t) plan
          plannedPlanID plannedPayload plannedChecksum) d)) (\<lambda>d1.
      let d2 = update_proposals (\<lambda>r. r_id r = pi_ProposalID (fd_Identity rq))
            (accept_proposal_row (i_message_id i) plannedPlanID databaseTime) d1 in
      bindr (exec_sql ''publish accepted plan'' (update_trip (fd_TripID rq)
          (publish_plan plannedPlanID resultRevision (i_mutation_sequence i) databaseTime) d2)) (\<lambda>d3.
      bindr (exec_sql ''resolve proposal-acceptance intent'' (to_jsonb e (fd_OutcomePayload rq))) (\<lambda>payload.
      let d4 = update_intent (fd_IntentID rq) (resolve_intent IntentApplied ''OK'' payload resultRevision
            (fd_ResultingPlannerStateVersion rq) databaseTime) d3;
          d5 = update_outbox (\<lambda>b. o_id b = fd_OutboxID rq) (resolve_outbox DeliveryAccepted ''OK'' databaseTime) d4 in
      Inr (acceptance_result rq databaseTime False, d5)))))"

definition FinalizeProposalAcceptance_tx ::
  "ext \<Rightarrow> clock \<Rightarrow> FinalizeProposalDecisionRequest \<Rightarrow> db \<Rightarrow> err + (FinalizedCommand \<times> db)" where
  "FinalizeProposalAcceptance_tx e clk rq d =
     bindr (decision_rows ''lock proposal-acceptance trip'' scan_planned_plan rq d) (\<lambda>(t, currentPlanID, i, b, p).
       let plannedPlanID = (case i_planned_current_plan_id i of None \<Rightarrow> [] | Some s \<Rightarrow> s);
           plannedPayload = nil_bytes (i_planned_current_plan_payload i);
           plannedChecksum = nil_bytes (i_planned_current_plan_checksum i) in
       if \<not> decision_identity rq i p \<or> i_command_kind i \<noteq> CommandAcceptProposal
         then Inl ErrCommandFinalizationConflict
       else bindr (acceptance_plan e rq plannedPlanID plannedPayload plannedChecksum p d) (\<lambda>plan.
         let maximumPlanRevision = max_plan_revision (fd_TripID rq) d;
             existingPlan = query_row (\<lambda>q. p_trip_id q = fd_TripID rq \<and> p_id q = plannedPlanID) (itinerary_plans d) in
         if (maximumPlanRevision = int MaxInt64 \<or> planRevision plan \<noteq> uint64 (maximumPlanRevision + 1)) \<and>
            i_state i = IntentPending
           then Inl ErrProposalPayloadInvalid
         else if i_state i \<noteq> IntentPending
           then bindr (acceptance_resolved e rq currentPlanID plannedPlanID
               (acceptance_plan_matches rq plan plannedPayload plannedChecksum existingPlan) i b p)
             (\<lambda>result. Inr (result, d))
         else if t_trip_revision t \<noteq> i_expected_trip_revision i \<or>
             currentPlanID \<noteq> pi_BaseCurrentPlanID (fd_Identity rq) \<or>
             r_source_trip_revision p \<noteq> i_expected_trip_revision i \<or> r_state p \<noteq> ProposalPending \<or>
             t_finalized_mutation_sequence t < 0 \<or> t_finalized_mutation_sequence t = int MaxInt64 \<or>
             t_finalized_mutation_sequence t + 1 \<noteq> i_mutation_sequence i \<or> existingPlan \<noteq> None
           then Inl ErrProposalStale
         else acceptance_apply e clk rq t i plan plannedPlanID plannedPayload plannedChecksum d))"

definition FinalizeProposalAcceptance ::
  "ext \<Rightarrow> clock \<Rightarrow> FinalizeProposalDecisionRequest \<Rightarrow> db \<Rightarrow> FinalizedCommand result \<times> db" where
  "FinalizeProposalAcceptance e clk rq d =
     (case validateProposalDecisionFinalization e rq of
        Inl x \<Rightarrow> (Inl x, d)
      | Inr _ \<Rightarrow>
          if fd_ExpectedTripRevision rq = MaxInt64 then (Inl (ErrText ''trip revision is exhausted''), d)
          else run_tx (FinalizeProposalAcceptance_tx e clk rq) d)"

section \<open>Facts on stored proposals\<close>

lemma proposal_row_of_simps [simp]:
  "r_id (proposal_row_of rq) = pp_ProposalID rq" "r_trip_id (proposal_row_of rq) = pp_TripID rq"
  "r_state (proposal_row_of rq) = ProposalPending"
  by (simp_all add: proposal_row_of_def)

lemma schema_supersede_pending: "schema_ok d \<Longrightarrow> schema_ok (supersede_pending tid now d)"
  unfolding supersede_pending_def
  by (rule schema_update_proposals) (auto simp: proposal_check_def pending_of_def)

lemma no_pending_after_supersede: "r \<in> set (plan_proposals (supersede_pending tid now d)) \<Longrightarrow> \<not> pending_of tid r"
  unfolding supersede_pending_def update_proposals_def
  by (auto simp: pending_of_def elim!: sql_updateE)

lemma Persist_success:
  assumes "Persist e clk rq d = (Inr r, d')"
  shows "validatePersistProposal e rq = Inr ()" "Persist_tx clk rq d = Inr (r, d')"
  using assms by (simp_all add: Persist_def run_tx_Inr split: sum.splits)

lemma Persist_tx_cases:
  assumes "Persist_tx clk rq d = Inr (r, d')"
  obtains (duplicate) t c l s where "find_trip (pp_TripID rq) d = Some t" "t_current_plan_id t = Some c"
      "find_lease (pp_TripID rq) d = Some l"
      "query_row (\<lambda>r. r_id r = pp_ProposalID rq) (lockProposals (pp_TripID rq) d) = Some s"
      "proposalMatches s rq" "d' = d" "pd_Duplicate r" "pd_State r = r_state s"
  | (fresh) t c l where "find_trip (pp_TripID rq) d = Some t" "t_current_plan_id t = Some c"
      "find_lease (pp_TripID rq) d = Some l"
      "sourceIsCurrent rq (t_trip_revision t) (t_finalized_mutation_sequence t) c (l_holder_id l)
         (l_runtime_epoch l) (l_lease_expires_at l) (clk 0)"
      "insert_proposal (proposal_row_of rq) (supersede_pending (pp_TripID rq) (clk 0) d) = Some d'"
      "r = persistedProposal rq ProposalPending False True (sql_count (pending_of (pp_TripID rq)) (plan_proposals d))"
proof -
  from assms obtain t where t: "find_trip (pp_TripID rq) d = Some t"
    unfolding Persist_tx_def by (cases "find_trip (pp_TripID rq) d") simp_all
  from assms t obtain c where c: "t_current_plan_id t = Some c"
    unfolding Persist_tx_def by (cases "t_current_plan_id t") simp_all
  from assms t c obtain l where l: "find_lease (pp_TripID rq) d = Some l"
    unfolding Persist_tx_def by (cases "find_lease (pp_TripID rq) d") simp_all
  show thesis
  proof (cases "query_row (\<lambda>r. r_id r = pp_ProposalID rq) (lockProposals (pp_TripID rq) d)")
    case None
    then show thesis using assms t c l fresh [OF t c l] unfolding Persist_tx_def
      by (auto simp: Let_def bindr_eq_Inr split: if_splits)
  next
    case (Some s)
    then show thesis using assms t c l duplicate [OF t c l Some] unfolding Persist_tx_def
      by (auto simp: Let_def persistedProposal_def split: if_splits)
  qed
qed

lemma schema_Persist: "schema_ok d \<Longrightarrow> schema_ok (snd (Persist e clk rq d))"
proof (cases "fst (Persist e clk rq d)")
  case (Inr r)
  then obtain d' where s: "Persist e clk rq d = (Inr r, d')" by (cases "Persist e clk rq d") auto
  assume ok: "schema_ok d"
  from Persist_success(2) [OF s] show ?thesis
  proof (cases rule: Persist_tx_cases)
    case (fresh t c l)
    then show ?thesis using schema_insert_proposal [OF fresh(5) schema_supersede_pending [OF ok]] s by simp
  qed (simp add: s ok)
qed (auto simp: Persist_def run_tx_def split: sum.splits)

lemma insert_proposal_SomeD:
  "insert_proposal r d = Some d' \<Longrightarrow> d' = d\<lparr>plan_proposals := plan_proposals d @ [r]\<rparr> \<and> proposal_check r \<and>
     fresh_in r_id r (plan_proposals d)"
  by (simp add: insert_proposal_def split: if_splits)

lemma distinct_lockProposals:
  assumes "schema_ok d"
  shows "distinct (map r_id (lockProposals tid d))"
proof -
  have "distinct (map r_id (sql_select (\<lambda>r. r_trip_id r = tid) (plan_proposals d)))"
    using assms by (simp add: schema_ok_def proposals_ok_def sql_select_def distinct_map_filter)
  then show ?thesis by (simp only: lockProposals_def distinct_map set_sort distinct_sort)
qed

lemma proposalMatches_row_of:
  "length (pp_Checksum rq) = 32 \<Longrightarrow> proposalMatches (proposal_row_of rq) rq"
  by (simp add: proposalMatches_def proposal_row_of_def)

lemma Persist_repeat:
  assumes "schema_ok d" "Persist e clk rq d = (Inr r, d')"
  shows "\<exists>y. Persist e clk' rq d' = (Inr y, d') \<and> pd_Duplicate y"
proof -
  have ok': "schema_ok d'" using schema_Persist [OF assms(1), of e clk rq] assms(2) by simp
  have "\<exists>y. Persist_tx clk' rq d' = Inr (y, d') \<and> pd_Duplicate y"
    using Persist_success(2) [OF assms(2)]
  proof (cases rule: Persist_tx_cases)
    case (duplicate t c l s)
    then show ?thesis by (simp add: Persist_tx_def Let_def persistedProposal_def)
  next
    case (fresh t c l)
    note ins = insert_proposal_SomeD [OF fresh(5)]
    have tables: "trips d' = trips d" "trip_runtime_leases d' = trip_runtime_leases d"
      "plan_proposals d' = plan_proposals (supersede_pending (pp_TripID rq) (clk 0) d) @ [proposal_row_of rq]"
      using ins by (simp_all add: supersede_pending_def update_proposals_def)
    have q: "query_row (\<lambda>r. r_id r = pp_ProposalID rq) (lockProposals (pp_TripID rq) d') = Some (proposal_row_of rq)"
    proof (rule query_row_key [where key = r_id])
      show "distinct (map r_id (lockProposals (pp_TripID rq) d'))" by (rule distinct_lockProposals [OF ok'])
      show "proposal_row_of rq \<in> set (lockProposals (pp_TripID rq) d')"
        by (simp add: lockProposals_def sql_select_def tables)
    qed simp_all
    have "proposalMatches (proposal_row_of rq) rq"
      using ins by (intro proposalMatches_row_of) (simp add: proposal_check_def proposal_row_of_def)
    then show ?thesis using fresh(1-3) q
      by (simp add: Persist_tx_def Let_def persistedProposal_def find_trip_def find_lease_def tables)
  qed
  then show ?thesis using Persist_success(1) [OF assms(2)] by (auto simp: Persist_def run_tx_def)
qed

interpretation persist: atomic_store_op "Persist e" for e
  by unfold_locales (erule schema_Persist, auto simp: Persist_def run_tx_def split: sum.splits)

interpretation persist_once: idempotent_store_op "Persist e" "\<lambda>_ _. True" for e
  by unfold_locales (blast dest: Persist_repeat)

section \<open>Facts on decisions\<close>

lemma decision_rows_InrD:
  assumes "decision_rows label scan rq d = Inr (t, c, i, b, p)"
  shows "finalization_rows (fd_TripID rq) (fd_IntentID rq) (fd_OutboxID rq) d = Inr (t, i, b)"
    "t_current_plan_id t = Some c" "scan i = Inr ()"
    "query_row (\<lambda>r. r_id r = pi_ProposalID (fd_Identity rq) \<and> r_trip_id r = fd_TripID rq) (plan_proposals d) = Some p"
  using assms unfolding decision_rows_def finalization_rows_def
  by (simp_all add: bindr_eq_Inr split: option.splits)

lemma decision_rowsI:
  assumes "finalization_rows (fd_TripID rq) (fd_IntentID rq) (fd_OutboxID rq) d = Inr (t, i, b)"
    "t_current_plan_id t = Some c" "scan i = Inr ()"
    "query_row (\<lambda>r. r_id r = pi_ProposalID (fd_Identity rq) \<and> r_trip_id r = fd_TripID rq) (plan_proposals d) = Some p"
  shows "decision_rows label scan rq d = Inr (t, c, i, b, p)"
  using finalization_rows_queries [OF assms(1)] assms(2-4) by (simp add: decision_rows_def)

lemma decide_proposal_simps [simp]:
  "r_id (decide_proposal st m now r) = r_id r" "r_trip_id (decide_proposal st m now r) = r_trip_id r"
  "r_state (decide_proposal st m now r) = decision_proposal_state st"
  "r_decision_message_id (decide_proposal st m now r) = Some m"
  "r_source_runtime_epoch (decide_proposal st m now r) = r_source_runtime_epoch r"
  "r_source_planner_state_version (decide_proposal st m now r) = r_source_planner_state_version r"
  "r_base_current_plan_id (decide_proposal st m now r) = r_base_current_plan_id r"
  by (simp_all add: decide_proposal_def)

lemma decision_states [simp]:
  "decision_intent_state st \<noteq> IntentPending" "decision_proposal_state st \<noteq> ProposalPending"
  "decision_proposal_state st \<noteq> ProposalAccepted"
  by (simp_all add: decision_intent_state_def decision_proposal_state_def)

text \<open>The proposals after a decision: only one that is decided now changes.\<close>

definition decided_proposals :: "bool \<Rightarrow> FinalizeProposalDecisionRequest \<Rightarrow> intent_row \<Rightarrow> proposal_row \<Rightarrow> time \<Rightarrow> db \<Rightarrow> db" where
  "decided_proposals stale rq i p now d = (if \<not> stale \<or> r_state p = ProposalPending
     then update_proposals (\<lambda>r. r_id r = pi_ProposalID (fd_Identity rq)) (decide_proposal stale (i_message_id i) now) d
     else d)"

definition decision_applies :: "bool \<Rightarrow> FinalizeProposalDecisionRequest \<Rightarrow> intent_row \<Rightarrow> proposal_row \<Rightarrow> bool" where
  "decision_applies stale rq i p \<longleftrightarrow> decision_identity rq i p \<and>
     (i_command_kind i = CommandRejectProposal \<or> stale \<and> i_command_kind i = CommandAcceptProposal)"

lemma decision_apply_statements:
  assumes "decision_apply e clk stale rq i p d = Inr (r, d')"
  obtains d2 payload where
    "update_trip (fd_TripID rq) (advance_trip (int64 (decision_revision stale rq)) (i_mutation_sequence i) (clk 0))
       (decided_proposals stale rq i p (clk 0) d) = Some d2"
    "to_jsonb e (fd_OutcomePayload rq) = Some payload" "r = decision_result stale rq (clk 0) False"
    "d' = update_outbox (\<lambda>b. o_id b = fd_OutboxID rq)
       (resolve_outbox (decision_outbox_state stale) (decision_status stale) (clk 0))
       (update_intent (fd_IntentID rq) (resolve_intent (decision_intent_state stale) (decision_status stale)
          payload (int64 (decision_revision stale rq)) (fd_ResultingPlannerStateVersion rq) (clk 0)) d2)"
  using assms unfolding decision_apply_def Let_def bindr_eq_Inr exec_sql_eq_Inr decided_proposals_def [symmetric]
  by auto

lemma finalizeProposalDecision_tx_cases:
  assumes "finalizeProposalDecision_tx e clk stale rq d = Inr (r, d')"
  obtains (resolved) t c i b p where
      "decision_rows ''lock proposal-decision trip'' (\<lambda>_. Inr ()) rq d = Inr (t, c, i, b, p)"
      "decision_applies stale rq i p" "i_state i \<noteq> IntentPending" "decision_resolved e stale rq i b p = Inr r" "d' = d"
  | (pending) t c i b p where
      "decision_rows ''lock proposal-decision trip'' (\<lambda>_. Inr ()) rq d = Inr (t, c, i, b, p)"
      "decision_applies stale rq i p" "i_state i = IntentPending" "t_trip_revision t = i_expected_trip_revision i"
      "i_mutation_sequence i = t_finalized_mutation_sequence t + 1"
      "\<not> stale \<Longrightarrow> c = pi_BaseCurrentPlanID (fd_Identity rq) \<and> r_state p = ProposalPending \<and>
         r_source_trip_revision p = i_expected_trip_revision i"
      "decision_apply e clk stale rq i p d = Inr (r, d')"
proof -
  from assms obtain t c i b p where rows: "decision_rows ''lock proposal-decision trip'' (\<lambda>_. Inr ()) rq d = Inr (t, c, i, b, p)"
    unfolding finalizeProposalDecision_tx_def bindr_eq_Inr by auto
  have idt: "decision_applies stale rq i p"
    using assms rows unfolding finalizeProposalDecision_tx_def decision_applies_def by (simp split: if_splits) auto
  show thesis
  proof (cases "i_state i = IntentPending")
    case False
    then show thesis
      using assms rows resolved [OF rows idt False] unfolding finalizeProposalDecision_tx_def
      by (auto simp: bindr_eq_Inr split: if_splits)
  next
    case True
    then have "t_trip_revision t = i_expected_trip_revision i"
      "check_next_finalization t (i_mutation_sequence i) = Inr ()"
      "\<not> stale \<longrightarrow> c = pi_BaseCurrentPlanID (fd_Identity rq) \<and> r_state p = ProposalPending \<and>
         r_source_trip_revision p = i_expected_trip_revision i"
      "decision_apply e clk stale rq i p d = Inr (r, d')"
      using assms rows unfolding finalizeProposalDecision_tx_def
      by (auto simp: bindr_eq_Inr split: if_splits)
    then show thesis using pending [OF rows idt True] check_next_finalizationD by blast
  qed
qed

lemma finalizeProposalDecision_success:
  assumes "finalizeProposalDecision e stale clk rq d = (Inr r, d')"
  shows "validateProposalDecisionFinalization e rq = Inr ()" "finalizeProposalDecision_tx e clk stale rq d = Inr (r, d')"
  using assms by (simp_all add: finalizeProposalDecision_def run_tx_Inr split: sum.splits)

lemma schema_decided_proposals:
  assumes "schema_ok d" "query_row (\<lambda>r. r_id r = pi_ProposalID (fd_Identity rq) \<and> r_trip_id r = fd_TripID rq) (plan_proposals d) = Some p"
    "\<not> stale \<Longrightarrow> r_state p = ProposalPending"
  shows "schema_ok (decided_proposals stale rq i p now d)"
proof (cases "r_state p = ProposalPending")
  case True
  have "schema_ok (update_proposals (\<lambda>r. r_id r = pi_ProposalID (fd_Identity rq)) (decide_proposal stale (i_message_id i) now) d)"
  proof (rule schema_update_proposals [OF assms(1)])
    fix r assume r: "r \<in> set (plan_proposals d)" "r_id r = pi_ProposalID (fd_Identity rq)" "proposal_check r"
    have "r = p"
      using r query_row_SomeD [OF assms(2)] assms(1) distinct_key_unique [of r_id "plan_proposals d" r p]
      by (simp add: schema_ok_def proposals_ok_def)
    then show "proposal_check (decide_proposal stale (i_message_id i) now r)"
      using r(3) True by (simp add: proposal_check_def decide_proposal_def)
  qed simp_all
  then show ?thesis by (simp add: decided_proposals_def True)
qed (use assms in \<open>auto simp: decided_proposals_def\<close>)

lemma schema_finalizeProposalDecision: "schema_ok d \<Longrightarrow> schema_ok (snd (finalizeProposalDecision e stale clk rq d))"
proof (cases "fst (finalizeProposalDecision e stale clk rq d)")
  case (Inr r)
  then obtain d' where s: "finalizeProposalDecision e stale clk rq d = (Inr r, d')"
    by (cases "finalizeProposalDecision e stale clk rq d") auto
  assume ok: "schema_ok d"
  from finalizeProposalDecision_success(2) [OF s] show ?thesis
  proof (cases rule: finalizeProposalDecision_tx_cases)
    case (pending t c i b p)
    from pending(7) obtain d2 payload where
      u: "update_trip (fd_TripID rq) (advance_trip (int64 (decision_revision stale rq)) (i_mutation_sequence i) (clk 0))
        (decided_proposals stale rq i p (clk 0) d) = Some d2"
      and d': "d' = update_outbox (\<lambda>b. o_id b = fd_OutboxID rq)
       (resolve_outbox (decision_outbox_state stale) (decision_status stale) (clk 0))
       (update_intent (fd_IntentID rq) (resolve_intent (decision_intent_state stale) (decision_status stale)
          payload (int64 (decision_revision stale rq)) (fd_ResultingPlannerStateVersion rq) (clk 0)) d2)"
      by (rule decision_apply_statements)
    have "schema_ok (decided_proposals stale rq i p (clk 0) d)"
      using schema_decided_proposals [OF ok decision_rows_InrD(4) [OF pending(1)]] pending(6) by simp
    from schema_update_trip [OF this u] have "schema_ok d2" by simp
    then show ?thesis using schema_resolve_outbox [OF schema_resolve_intent] by (simp add: s d')
  qed (simp add: s ok)
qed (auto simp: finalizeProposalDecision_def run_tx_def split: sum.splits)

text \<open>The rows a decision finds again after it took effect.\<close>

lemma decision_rows_after:
  assumes rows: "decision_rows ''lock proposal-decision trip'' (\<lambda>_. Inr ()) rq d = Inr (t, c, i, b, p)"
    and ap: "decision_apply e clk stale rq i p d = Inr (r, d')"
  obtains payload where "to_jsonb e (fd_OutcomePayload rq) = Some payload" "r = decision_result stale rq (clk 0) False"
    "decision_rows ''lock proposal-decision trip'' (\<lambda>_. Inr ()) rq d' =
      Inr (advance_trip (int64 (decision_revision stale rq)) (i_mutation_sequence i) (clk 0) t, c,
        resolve_intent (decision_intent_state stale) (decision_status stale) payload (int64 (decision_revision stale rq))
          (fd_ResultingPlannerStateVersion rq) (clk 0) i,
        resolve_outbox (decision_outbox_state stale) (decision_status stale) (clk 0) b,
        if \<not> stale \<or> r_state p = ProposalPending then decide_proposal stale (i_message_id i) (clk 0) p else p)"
proof -
  from ap obtain d2 payload where
    u: "update_trip (fd_TripID rq) (advance_trip (int64 (decision_revision stale rq)) (i_mutation_sequence i) (clk 0))
        (decided_proposals stale rq i p (clk 0) d) = Some d2"
    and pl: "to_jsonb e (fd_OutcomePayload rq) = Some payload" and r: "r = decision_result stale rq (clk 0) False"
    and d': "d' = update_outbox (\<lambda>b. o_id b = fd_OutboxID rq)
       (resolve_outbox (decision_outbox_state stale) (decision_status stale) (clk 0))
       (update_intent (fd_IntentID rq) (resolve_intent (decision_intent_state stale) (decision_status stale)
          payload (int64 (decision_revision stale rq)) (fd_ResultingPlannerStateVersion rq) (clk 0)) d2)"
    by (rule decision_apply_statements)
  let ?P = "\<lambda>r. r_id r = pi_ProposalID (fd_Identity rq) \<and> r_trip_id r = fd_TripID rq"
  note D = decision_rows_InrD [OF rows] and U = update_trip_SomeD [OF u]
  have tables: "trips d' = sql_update (\<lambda>t. t_id t = fd_TripID rq)
      (advance_trip (int64 (decision_revision stale rq)) (i_mutation_sequence i) (clk 0)) (trips d)"
    "command_intents d' = sql_update (\<lambda>i. i_id i = fd_IntentID rq) (resolve_intent (decision_intent_state stale) (decision_status stale)
          payload (int64 (decision_revision stale rq)) (fd_ResultingPlannerStateVersion rq) (clk 0)) (command_intents d)"
    "planner_outbox d' = sql_update (\<lambda>b. o_id b = fd_OutboxID rq)
       (resolve_outbox (decision_outbox_state stale) (decision_status stale) (clk 0)) (planner_outbox d)"
    "plan_proposals d' = plan_proposals (decided_proposals stale rq i p (clk 0) d)"
    using U by (simp_all add: d' update_outbox_def update_intent_def decided_proposals_def update_proposals_def)
  have "query_row ?P (plan_proposals d') = Some (if \<not> stale \<or> r_state p = ProposalPending
      then decide_proposal stale (i_message_id i) (clk 0) p else p)"
    using query_row_update [OF D(4), of "\<lambda>r. r_id r = pi_ProposalID (fd_Identity rq)" "decide_proposal stale (i_message_id i) (clk 0)"]
      query_row_SomeD [OF D(4)] D(4) by (simp add: tables(4) decided_proposals_def update_proposals_def)
  moreover have "t_current_plan_id (advance_trip (int64 (decision_revision stale rq)) (i_mutation_sequence i) (clk 0) t) = Some c"
    using D(2) by (simp add: advance_trip_def)
  ultimately show thesis
    using that [OF pl r] decision_rowsI finalization_rows_resolved [OF D(1) tables(1) _ tables(2,3)] by simp
qed

text \<open>What a redelivered decision is answered.\<close>

lemma finalizeProposalDecision_repeat:
  assumes "finalizeProposalDecision e stale clk rq d = (Inr r, d')"
    "decision_rows ''lock proposal-decision trip'' (\<lambda>_. Inr ()) rq d = Inr (t, c, i, b, p)"
  shows "finalizeProposalDecision e stale clk' rq d' =
    (if i_state i = IntentPending \<and> stale \<and> r_state p = ProposalIsStale \<and> r_decision_message_id p \<noteq> Some (i_message_id i) \<or>
        i_state i = IntentPending \<and> stale \<and> r_state p \<notin> {ProposalIsStale, ProposalPending} \<and>
          r_decision_message_id p \<notin> {None, Some (i_message_id i)}
     then Inl ErrCommandFinalizationConflict else Inr (r\<lparr>fc_Duplicate := True\<rparr>), d')"
  using finalizeProposalDecision_success(2) [OF assms(1)]
proof (cases rule: finalizeProposalDecision_tx_cases)
  case (resolved t' c' i' b' p')
  have eq: "i' = i" "p' = p" "b' = b" using resolved(1) assms(2) by simp_all
  have "finalizeProposalDecision_tx e clk' stale rq d' = Inr (r, d')"
    using finalizeProposalDecision_success(2) [OF assms(1)] resolved unfolding finalizeProposalDecision_tx_def
    by (auto simp: decision_applies_def)
  moreover have "\<exists>now. r = decision_result stale rq now True"
    using resolved(4) by (auto simp: decision_resolved_def bindr_eq_Inr split: option.splits if_splits)
  then have "r\<lparr>fc_Duplicate := True\<rparr> = r" by (auto simp: decision_result_def)
  ultimately show ?thesis
    using finalizeProposalDecision_success(1) [OF assms(1)] resolved(3) eq by (simp add: finalizeProposalDecision_def run_tx_def)
next
  case (pending t' c' i' b' p')
  have eq: "t' = t" "c' = c" "i' = i" "p' = p" "b' = b" using pending(1) assms(2) by simp_all
  note pending = pending [unfolded eq]
  let ?p = "if \<not> stale \<or> r_state p = ProposalPending then decide_proposal stale (i_message_id i) (clk 0) p else p"
  obtain payload where pl: "to_jsonb e (fd_OutcomePayload rq) = Some payload" and r: "r = decision_result stale rq (clk 0) False"
    and rows: "decision_rows ''lock proposal-decision trip'' (\<lambda>_. Inr ()) rq d' =
      Inr (advance_trip (int64 (decision_revision stale rq)) (i_mutation_sequence i) (clk 0) t, c,
        resolve_intent (decision_intent_state stale) (decision_status stale) payload (int64 (decision_revision stale rq))
          (fd_ResultingPlannerStateVersion rq) (clk 0) i,
        resolve_outbox (decision_outbox_state stale) (decision_status stale) (clk 0) b, ?p)"
    by (rule decision_rows_after [OF pending(1,7)])
  let ?i = "resolve_intent (decision_intent_state stale) (decision_status stale) payload (int64 (decision_revision stale rq))
          (fd_ResultingPlannerStateVersion rq) (clk 0) i"
  have "decision_applies stale rq ?i ?p" using pending(2) by (simp add: decision_applies_def decision_identity_def)
  moreover have "payload_matches e ''compare proposal-decision outcome'' ?i (fd_OutcomePayload rq) = Inr True"
    by (rule payload_matches_stored) (simp_all add: pl)
  moreover have "decision_proposal_matches stale ?i ?p \<longleftrightarrow>
      \<not> (stale \<and> r_state p = ProposalIsStale \<and> r_decision_message_id p \<noteq> Some (i_message_id i) \<or>
        stale \<and> r_state p \<notin> {ProposalIsStale, ProposalPending} \<and> r_decision_message_id p \<notin> {None, Some (i_message_id i)})"
    by (auto simp: decision_proposal_matches_def decision_proposal_state_def)
  ultimately have "finalizeProposalDecision_tx e clk' stale rq d' =
    (if stale \<and> r_state p = ProposalIsStale \<and> r_decision_message_id p \<noteq> Some (i_message_id i) \<or>
        stale \<and> r_state p \<notin> {ProposalIsStale, ProposalPending} \<and> r_decision_message_id p \<notin> {None, Some (i_message_id i)}
     then Inl ErrCommandFinalizationConflict else Inr (r\<lparr>fc_Duplicate := True\<rparr>, d'))"
    using rows unfolding finalizeProposalDecision_tx_def
    by (auto simp: decision_applies_def decision_resolved_def decision_result_def r)
  then show ?thesis
    using finalizeProposalDecision_success(1) [OF assms(1)] pending(3) by (simp add: finalizeProposalDecision_def run_tx_def)
qed

interpretation rejection: atomic_store_op "FinalizeProposalRejection e" for e
proof unfold_locales
  show "schema_ok d \<Longrightarrow> schema_ok (snd (FinalizeProposalRejection e clk rq d))" for d clk rq
    by (simp add: FinalizeProposalRejection_def schema_finalizeProposalDecision)
qed (auto simp: FinalizeProposalRejection_def finalizeProposalDecision_def run_tx_def split: sum.splits if_splits)

interpretation stale_decision: atomic_store_op "FinalizeStaleProposalDecision e" for e
proof unfold_locales
  show "schema_ok d \<Longrightarrow> schema_ok (snd (FinalizeStaleProposalDecision e clk rq d))" for d clk rq
    by (simp add: FinalizeStaleProposalDecision_def schema_finalizeProposalDecision)
qed (auto simp: FinalizeStaleProposalDecision_def finalizeProposalDecision_def run_tx_def split: sum.splits)

lemma FinalizeProposalRejection_repeat:
  assumes "FinalizeProposalRejection e clk rq d = (Inr r, d')"
  shows "FinalizeProposalRejection e clk' rq d' = (Inr (r\<lparr>fc_Duplicate := True\<rparr>), d')"
proof -
  have f: "finalizeProposalDecision e False clk rq d = (Inr r, d')" "fd_ExpectedTripRevision rq \<noteq> MaxInt64"
    using assms by (simp_all add: FinalizeProposalRejection_def split: if_splits)
  obtain t c i b p where "decision_rows ''lock proposal-decision trip'' (\<lambda>_. Inr ()) rq d = Inr (t, c, i, b, p)"
    by (rule finalizeProposalDecision_tx_cases [OF finalizeProposalDecision_success(2) [OF f(1)]])
  from finalizeProposalDecision_repeat [OF f(1) this] show ?thesis
    using f(2) by (simp add: FinalizeProposalRejection_def)
qed

interpretation rejection_once: idempotent_store_op "FinalizeProposalRejection e" "\<lambda>_ _. True" for e
  by unfold_locales (blast dest: FinalizeProposalRejection_repeat)

lemma FinalizeProposalRejection_decides:
  assumes "FinalizeProposalRejection e clk rq d = (Inr r, d')"
  shows "\<exists>i\<in>set (command_intents d'). \<exists>p\<in>set (plan_proposals d'). i_id i = fd_IntentID rq \<and> i_state i = IntentApplied \<and>
    r_id p = pi_ProposalID (fd_Identity rq) \<and> r_state p = ProposalRejected \<and> r_decision_message_id p = Some (i_message_id i)"
proof -
  have f: "finalizeProposalDecision e False clk rq d = (Inr r, d')"
    using assms by (simp add: FinalizeProposalRejection_def split: if_splits)
  have "\<exists>t c i b p. decision_rows ''lock proposal-decision trip'' (\<lambda>_. Inr ()) rq d' = Inr (t, c, i, b, p) \<and>
    i_state i = IntentApplied \<and> r_state p = ProposalRejected \<and> r_decision_message_id p = Some (i_message_id i)"
    using finalizeProposalDecision_success(2) [OF f]
  proof (cases rule: finalizeProposalDecision_tx_cases)
    case (resolved t c i b p)
    then show ?thesis
      by (auto simp: decision_resolved_def decision_proposal_matches_def decision_proposal_state_def decision_intent_state_def
          bindr_eq_Inr split: option.splits if_splits)
  next
    case (pending t c i b p)
    obtain payload where
      "decision_rows ''lock proposal-decision trip'' (\<lambda>_. Inr ()) rq d' =
        Inr (advance_trip (int64 (decision_revision False rq)) (i_mutation_sequence i) (clk 0) t, c,
          resolve_intent (decision_intent_state False) (decision_status False) payload (int64 (decision_revision False rq))
            (fd_ResultingPlannerStateVersion rq) (clk 0) i,
          resolve_outbox (decision_outbox_state False) (decision_status False) (clk 0) b,
          if \<not> False \<or> r_state p = ProposalPending then decide_proposal False (i_message_id i) (clk 0) p else p)"
      by (rule decision_rows_after [OF pending(1,7)])
    then show ?thesis by (simp add: decision_proposal_state_def decision_intent_state_def)
  qed
  then obtain t c i b p where rows: "decision_rows ''lock proposal-decision trip'' (\<lambda>_. Inr ()) rq d' = Inr (t, c, i, b, p)"
    and st: "i_state i = IntentApplied" "r_state p = ProposalRejected" "r_decision_message_id p = Some (i_message_id i)"
    by blast
  note D = decision_rows_InrD [OF rows]
  show ?thesis
    using query_row_SomeD [OF D(4)] finalization_rows_SomeD [OF D(1)] st by blast
qed

section \<open>Facts on acceptances\<close>

lemma accept_proposal_row_simps [simp]:
  "r_id (accept_proposal_row m pid now r) = r_id r" "r_trip_id (accept_proposal_row m pid now r) = r_trip_id r"
  "r_state (accept_proposal_row m pid now r) = ProposalAccepted"
  "r_payload (accept_proposal_row m pid now r) = r_payload r"
  "r_source_runtime_epoch (accept_proposal_row m pid now r) = r_source_runtime_epoch r"
  "r_source_planner_state_version (accept_proposal_row m pid now r) = r_source_planner_state_version r"
  "r_base_current_plan_id (accept_proposal_row m pid now r) = r_base_current_plan_id r"
  by (simp_all add: accept_proposal_row_def)

lemma publish_plan_simps [simp]:
  "t_id (publish_plan pid rv n now t) = t_id t" "t_current_plan_id (publish_plan pid rv n now t) = Some pid"
  "t_trip_revision (publish_plan pid rv n now t) = rv"
  "t_finalized_mutation_sequence (publish_plan pid rv n now t) = n"
  "t_next_mutation_sequence (publish_plan pid rv n now t) = t_next_mutation_sequence t"
  "t_owner_user_id (publish_plan pid rv n now t) = t_owner_user_id t"
  by (simp_all add: publish_plan_def)

lemma insert_plan_SomeD:
  "insert_plan p d = Some d' \<Longrightarrow> d' = d\<lparr>itinerary_plans := itinerary_plans d @ [p]\<rparr> \<and> plan_check p \<and>
     fresh_in p_id p (itinerary_plans d) \<and> fresh_in plan_revision_key p (itinerary_plans d)"
  by (simp add: insert_plan_def split: if_splits)

text \<open>The planned plan of an intent, as the code scans it.\<close>

abbreviation planned_id :: "intent_row \<Rightarrow> uuid" where
  "planned_id i \<equiv> (case i_planned_current_plan_id i of None \<Rightarrow> [] | Some s \<Rightarrow> s)"

abbreviation planned_payload :: "intent_row \<Rightarrow> bytes" where
  "planned_payload i \<equiv> nil_bytes (i_planned_current_plan_payload i)"

abbreviation planned_checksum :: "intent_row \<Rightarrow> bytes" where
  "planned_checksum i \<equiv> nil_bytes (i_planned_current_plan_checksum i)"

abbreviation existing_plan :: "FinalizeProposalDecisionRequest \<Rightarrow> intent_row \<Rightarrow> db \<Rightarrow> plan_row option" where
  "existing_plan rq i d \<equiv> query_row (\<lambda>q. p_trip_id q = fd_TripID rq \<and> p_id q = planned_id i) (itinerary_plans d)"

lemma acceptance_apply_statements:
  assumes "acceptance_apply e clk rq t i plan pid pl ck d = Inr (r, d')"
  obtains d1 d3 payload where
    "insert_plan (accepted_plan_row rq (t_owner_user_id t) plan pid pl ck) d = Some d1"
    "update_trip (fd_TripID rq) (publish_plan pid (int64 (add_u64 (fd_ExpectedTripRevision rq) 1)) (i_mutation_sequence i) (clk 0))
       (update_proposals (\<lambda>r. r_id r = pi_ProposalID (fd_Identity rq)) (accept_proposal_row (i_message_id i) pid (clk 0)) d1) = Some d3"
    "to_jsonb e (fd_OutcomePayload rq) = Some payload" "r = acceptance_result rq (clk 0) False"
    "d' = update_outbox (\<lambda>b. o_id b = fd_OutboxID rq) (resolve_outbox DeliveryAccepted ''OK'' (clk 0))
       (update_intent (fd_IntentID rq) (resolve_intent IntentApplied ''OK'' payload
         (int64 (add_u64 (fd_ExpectedTripRevision rq) 1)) (fd_ResultingPlannerStateVersion rq) (clk 0)) d3)"
  using assms unfolding acceptance_apply_def Let_def bindr_eq_Inr exec_sql_eq_Inr by auto

lemma FinalizeProposalAcceptance_tx_cases:
  assumes "FinalizeProposalAcceptance_tx e clk rq d = Inr (r, d')"
  obtains (resolved) t c i b p plan where
      "decision_rows ''lock proposal-acceptance trip'' scan_planned_plan rq d = Inr (t, c, i, b, p)"
      "decision_identity rq i p" "i_command_kind i = CommandAcceptProposal"
      "acceptance_plan e rq (planned_id i) (planned_payload i) (planned_checksum i) p d = Inr plan"
      "i_state i \<noteq> IntentPending"
      "acceptance_resolved e rq c (planned_id i)
         (acceptance_plan_matches rq plan (planned_payload i) (planned_checksum i) (existing_plan rq i d)) i b p = Inr r"
      "d' = d"
  | (pending) t c i b p plan where
      "decision_rows ''lock proposal-acceptance trip'' scan_planned_plan rq d = Inr (t, c, i, b, p)"
      "decision_identity rq i p" "i_command_kind i = CommandAcceptProposal"
      "acceptance_plan e rq (planned_id i) (planned_payload i) (planned_checksum i) p d = Inr plan"
      "i_state i = IntentPending" "planRevision plan = uint64 (max_plan_revision (fd_TripID rq) d + 1)"
      "t_trip_revision t = i_expected_trip_revision i" "c = pi_BaseCurrentPlanID (fd_Identity rq)"
      "r_source_trip_revision p = i_expected_trip_revision i" "r_state p = ProposalPending"
      "i_mutation_sequence i = t_finalized_mutation_sequence t + 1" "existing_plan rq i d = None"
      "acceptance_apply e clk rq t i plan (planned_id i) (planned_payload i) (planned_checksum i) d = Inr (r, d')"
      "max_plan_revision (fd_TripID rq) d \<noteq> int MaxInt64"
proof -
  from assms obtain t c i b p where rows: "decision_rows ''lock proposal-acceptance trip'' scan_planned_plan rq d = Inr (t, c, i, b, p)"
    unfolding FinalizeProposalAcceptance_tx_def bindr_eq_Inr by auto
  have idt: "decision_identity rq i p" "i_command_kind i = CommandAcceptProposal"
    using assms rows unfolding FinalizeProposalAcceptance_tx_def Let_def by (simp_all split: if_splits)
  note tx = assms [unfolded FinalizeProposalAcceptance_tx_def Let_def rows bindr_simps prod.case, simplified idt simp_thms if_False]
  obtain plan where plan: "acceptance_plan e rq (planned_id i) (planned_payload i) (planned_checksum i) p d = Inr plan"
    using tx by (cases "acceptance_plan e rq (planned_id i) (planned_payload i) (planned_checksum i) p d") simp_all
  show thesis
  proof (cases "i_state i = IntentPending")
    case False
    then have "bindr (acceptance_resolved e rq c (planned_id i)
         (acceptance_plan_matches rq plan (planned_payload i) (planned_checksum i) (existing_plan rq i d)) i b p) (\<lambda>result. Inr (result, d))
        = Inr (r, d')"
      using tx by (simp add: plan)
    then have "acceptance_resolved e rq c (planned_id i)
         (acceptance_plan_matches rq plan (planned_payload i) (planned_checksum i) (existing_plan rq i d)) i b p = Inr r" "d' = d"
      unfolding bindr_eq_Inr by blast+
    then show thesis by (rule resolved [OF rows idt plan False])
  next
    case True
    then have "planRevision plan = uint64 (max_plan_revision (fd_TripID rq) d + 1)"
      using tx by (simp add: plan split: if_splits)
    moreover have "t_trip_revision t = i_expected_trip_revision i" "c = pi_BaseCurrentPlanID (fd_Identity rq)"
      "r_source_trip_revision p = i_expected_trip_revision i" "r_state p = ProposalPending"
      "i_mutation_sequence i = t_finalized_mutation_sequence t + 1" "existing_plan rq i d = None"
      "acceptance_apply e clk rq t i plan (planned_id i) (planned_payload i) (planned_checksum i) d = Inr (r, d')"
      using tx True by (simp_all add: plan split: if_splits)
    moreover have "max_plan_revision (fd_TripID rq) d \<noteq> int MaxInt64"
      using tx True by (simp add: plan split: if_splits)
    ultimately show thesis by (rule pending [OF rows idt plan True])
  qed
qed

lemma FinalizeProposalAcceptance_success:
  assumes "FinalizeProposalAcceptance e clk rq d = (Inr r, d')"
  shows "validateProposalDecisionFinalization e rq = Inr ()" "fd_ExpectedTripRevision rq \<noteq> MaxInt64"
    "FinalizeProposalAcceptance_tx e clk rq d = Inr (r, d')"
  using assms by (simp_all add: FinalizeProposalAcceptance_def run_tx_Inr split: sum.splits if_splits)

lemma schema_FinalizeProposalAcceptance: "schema_ok d \<Longrightarrow> schema_ok (snd (FinalizeProposalAcceptance e clk rq d))"
proof (cases "fst (FinalizeProposalAcceptance e clk rq d)")
  case (Inr r)
  then obtain d' where s: "FinalizeProposalAcceptance e clk rq d = (Inr r, d')"
    by (cases "FinalizeProposalAcceptance e clk rq d") auto
  assume ok: "schema_ok d"
  from FinalizeProposalAcceptance_success(3) [OF s] show ?thesis
  proof (cases rule: FinalizeProposalAcceptance_tx_cases)
    case (pending t c i b p plan)
    from pending(13) obtain d1 d3 payload where
      ins: "insert_plan (accepted_plan_row rq (t_owner_user_id t) plan (planned_id i) (planned_payload i) (planned_checksum i)) d = Some d1"
      and u: "update_trip (fd_TripID rq) (publish_plan (planned_id i) (int64 (add_u64 (fd_ExpectedTripRevision rq) 1)) (i_mutation_sequence i) (clk 0))
       (update_proposals (\<lambda>r. r_id r = pi_ProposalID (fd_Identity rq)) (accept_proposal_row (i_message_id i) (planned_id i) (clk 0)) d1) = Some d3"
      and d': "d' = update_outbox (\<lambda>b. o_id b = fd_OutboxID rq) (resolve_outbox DeliveryAccepted ''OK'' (clk 0))
       (update_intent (fd_IntentID rq) (resolve_intent IntentApplied ''OK'' payload
         (int64 (add_u64 (fd_ExpectedTripRevision rq) 1)) (fd_ResultingPlannerStateVersion rq) (clk 0)) d3)"
      by (rule acceptance_apply_statements)
    have "schema_ok (update_proposals (\<lambda>r. r_id r = pi_ProposalID (fd_Identity rq)) (accept_proposal_row (i_message_id i) (planned_id i) (clk 0)) d1)"
    proof (rule schema_update_proposals [OF schema_insert_plan [OF ins ok]])
      fix r assume "proposal_check r"
      then show "proposal_check (accept_proposal_row (i_message_id i) (planned_id i) (clk 0) r)"
        by (simp add: proposal_check_def accept_proposal_row_def)
    qed simp_all
    from schema_update_trip [OF this u] have "schema_ok d3" by simp
    then show ?thesis using schema_resolve_outbox [OF schema_resolve_intent] by (simp add: s d')
  qed (simp add: s ok)
qed (auto simp: FinalizeProposalAcceptance_def run_tx_def split: sum.splits if_splits)

interpretation acceptance: atomic_store_op "FinalizeProposalAcceptance e" for e
  by unfold_locales (erule schema_FinalizeProposalAcceptance,
    auto simp: FinalizeProposalAcceptance_def run_tx_def split: sum.splits if_splits)

lemma acceptance_plan_parse:
  assumes "acceptance_plan e rq pid pl ck p d = Inr plan"
  shows "parseCurrentPlan pl = Inr plan" "planID plan = pid" "sourceProposalID plan = pi_ProposalID (fd_Identity rq)"
    "sha256 e pl = ck" "validateProposalPlanMapping plan (r_payload p) = Inr ()"
    "length (segments plan) = length (remdups (map a_id (sql_select (\<lambda>a. a_trip_id a = fd_TripID rq) (trip_activities d))))"
    "set (map seg_activityID (segments plan)) \<subseteq> set (map a_id (sql_select (\<lambda>a. a_trip_id a = fd_TripID rq) (trip_activities d)))"
  using assms unfolding acceptance_plan_def
  by (auto simp: Let_def list_all_iff split: if_splits sum.splits)

text \<open>The tables after an acceptance.\<close>

definition accepted_plan_db ::
  "FinalizeProposalDecisionRequest \<Rightarrow> intent_row \<Rightarrow> plan_row \<Rightarrow> bytes \<Rightarrow> time \<Rightarrow> db \<Rightarrow> db" where
  "accepted_plan_db rq i q payload now d = d\<lparr>
     itinerary_plans := itinerary_plans d @ [q],
     plan_proposals := sql_update (\<lambda>r. r_id r = pi_ProposalID (fd_Identity rq))
       (accept_proposal_row (i_message_id i) (p_id q) now) (plan_proposals d),
     trips := sql_update (\<lambda>t. t_id t = fd_TripID rq)
       (publish_plan (p_id q) (int64 (add_u64 (fd_ExpectedTripRevision rq) 1)) (i_mutation_sequence i) now) (trips d),
     command_intents := sql_update (\<lambda>i. i_id i = fd_IntentID rq) (resolve_intent IntentApplied ''OK'' payload
       (int64 (add_u64 (fd_ExpectedTripRevision rq) 1)) (fd_ResultingPlannerStateVersion rq) now) (command_intents d),
     planner_outbox := sql_update (\<lambda>b. o_id b = fd_OutboxID rq) (resolve_outbox DeliveryAccepted ''OK'' now)
       (planner_outbox d)\<rparr>"

lemma acceptance_apply_db:
  assumes "acceptance_apply e clk rq t i plan pid pl ck d = Inr (r, d')"
  obtains payload where "to_jsonb e (fd_OutcomePayload rq) = Some payload" "r = acceptance_result rq (clk 0) False"
    "d' = accepted_plan_db rq i (accepted_plan_row rq (t_owner_user_id t) plan pid pl ck) payload (clk 0) d"
    "\<forall>t\<in>set (trips d). t_id t = fd_TripID rq \<longrightarrow>
       trip_check (publish_plan pid (int64 (add_u64 (fd_ExpectedTripRevision rq) 1)) (i_mutation_sequence i) (clk 0) t)"
    "fresh_in p_id (accepted_plan_row rq (t_owner_user_id t) plan pid pl ck) (itinerary_plans d)"
proof -
  from assms obtain d1 d3 payload where
    ins: "insert_plan (accepted_plan_row rq (t_owner_user_id t) plan pid pl ck) d = Some d1"
    and u: "update_trip (fd_TripID rq) (publish_plan pid (int64 (add_u64 (fd_ExpectedTripRevision rq) 1)) (i_mutation_sequence i) (clk 0))
       (update_proposals (\<lambda>r. r_id r = pi_ProposalID (fd_Identity rq)) (accept_proposal_row (i_message_id i) pid (clk 0)) d1) = Some d3"
    and pl: "to_jsonb e (fd_OutcomePayload rq) = Some payload" and r: "r = acceptance_result rq (clk 0) False"
    and d': "d' = update_outbox (\<lambda>b. o_id b = fd_OutboxID rq) (resolve_outbox DeliveryAccepted ''OK'' (clk 0))
       (update_intent (fd_IntentID rq) (resolve_intent IntentApplied ''OK'' payload
         (int64 (add_u64 (fd_ExpectedTripRevision rq) 1)) (fd_ResultingPlannerStateVersion rq) (clk 0)) d3)"
    by (rule acceptance_apply_statements)
  have pid: "p_id (accepted_plan_row rq (t_owner_user_id t) plan pid pl ck) = pid" by (simp add: accepted_plan_row_def)
  show thesis
    by (rule that [OF pl r])
      (use insert_plan_SomeD [OF ins] update_trip_SomeD [OF u] in
        \<open>simp_all add: d' accepted_plan_db_def pid update_outbox_def update_intent_def update_proposals_def\<close>)
qed

lemma max_plan_revision_bounds:
  assumes "schema_ok d"
  shows "0 \<le> max_plan_revision tid d" "max_plan_revision tid d \<le> int MaxInt64"
proof -
  have "0 \<le> foldr max xs (0::int)" for xs by (induction xs) auto
  then show "0 \<le> max_plan_revision tid d" by (simp add: max_plan_revision_def)
  have "foldr max xs (0::int) \<le> m" if "0 \<le> m" "\<forall>x\<in>set xs. x \<le> m" for xs m
    using that by (induction xs) auto
  moreover have "\<forall>p\<in>set (itinerary_plans d). p_plan_revision p \<le> int MaxInt64"
    using assms by (simp add: schema_ok_def plans_ok_def list_all_iff plan_check_def i64_ok_def)
  ultimately show "max_plan_revision tid d \<le> int MaxInt64"
    by (simp add: max_plan_revision_def sql_select_def)
qed

lemma accepted_plan_row_simps [simp]:
  "p_id (accepted_plan_row rq u plan pid pl ck) = pid" "p_trip_id (accepted_plan_row rq u plan pid pl ck) = fd_TripID rq"
  "p_plan_revision (accepted_plan_row rq u plan pid pl ck) = int64 (planRevision plan)"
  "p_payload (accepted_plan_row rq u plan pid pl ck) = pl"
  by (simp_all add: accepted_plan_row_def)

lemma acceptance_plan_cong:
  assumes "r_payload p = r_payload p'" "trip_activities d = trip_activities d'"
  shows "acceptance_plan e rq pid pl ck p d = acceptance_plan e rq pid pl ck p' d'"
  unfolding acceptance_plan_def assms ..

lemma FinalizeProposalAcceptance_repeat:
  assumes "FinalizeProposalAcceptance e clk rq d = (Inr r, d')"
  shows "FinalizeProposalAcceptance e clk' rq d' = (Inr (r\<lparr>fc_Duplicate := True\<rparr>), d')"
proof -
  have "FinalizeProposalAcceptance_tx e clk' rq d' = Inr (r\<lparr>fc_Duplicate := True\<rparr>, d')"
    using FinalizeProposalAcceptance_success(3) [OF assms]
  proof (cases rule: FinalizeProposalAcceptance_tx_cases)
    case (resolved t c i b p plan)
    have "\<exists>now. r = acceptance_result rq now True"
      using resolved(6) by (auto simp: acceptance_resolved_def bindr_eq_Inr split: option.splits if_splits)
    then have "r\<lparr>fc_Duplicate := True\<rparr> = r" by (auto simp: acceptance_result_def)
    then show ?thesis
      using resolved unfolding FinalizeProposalAcceptance_tx_def by (simp add: Let_def)
  next
    case (pending t c i b p plan)
    let ?q = "accepted_plan_row rq (t_owner_user_id t) plan (planned_id i) (planned_payload i) (planned_checksum i)"
    let ?rv = "int64 (add_u64 (fd_ExpectedTripRevision rq) 1)"
    obtain payload where pl: "to_jsonb e (fd_OutcomePayload rq) = Some payload"
      and r: "r = acceptance_result rq (clk 0) False" and d': "d' = accepted_plan_db rq i ?q payload (clk 0) d"
      by (rule acceptance_apply_db [OF pending(13)])
    let ?i = "resolve_intent IntentApplied ''OK'' payload ?rv (fd_ResultingPlannerStateVersion rq) (clk 0) i"
    let ?p = "accept_proposal_row (i_message_id i) (planned_id i) (clk 0) p"
    note D = decision_rows_InrD [OF pending(1)]
    have fin: "finalization_rows (fd_TripID rq) (fd_IntentID rq) (fd_OutboxID rq) d' =
        Inr (publish_plan (planned_id i) ?rv (i_mutation_sequence i) (clk 0) t, ?i, resolve_outbox DeliveryAccepted ''OK'' (clk 0) b)"
      by (rule finalization_rows_resolved [OF D(1), where ft = "publish_plan (planned_id i) ?rv (i_mutation_sequence i) (clk 0)"])
        (simp_all add: d' accepted_plan_db_def)
    have prp: "query_row (\<lambda>r. r_id r = pi_ProposalID (fd_Identity rq) \<and> r_trip_id r = fd_TripID rq) (plan_proposals d') = Some ?p"
      using query_row_update [OF D(4), of "\<lambda>r. r_id r = pi_ProposalID (fd_Identity rq)" "accept_proposal_row (i_message_id i) (planned_id i) (clk 0)"]
        query_row_SomeD [OF D(4)] by (simp add: d' accepted_plan_db_def)
    have rows: "decision_rows ''lock proposal-acceptance trip'' scan_planned_plan rq d' =
        Inr (publish_plan (planned_id i) ?rv (i_mutation_sequence i) (clk 0) t, planned_id i, ?i,
          resolve_outbox DeliveryAccepted ''OK'' (clk 0) b, ?p)"
      by (rule decision_rowsI [OF fin _ _ prp]) (use D(3) in \<open>simp_all add: scan_planned_plan_def\<close>)
    have plan: "acceptance_plan e rq (planned_id i) (planned_payload i) (planned_checksum i) ?p d' = Inr plan"
      using pending(4) acceptance_plan_cong [of ?p p d' d] by (simp add: d' accepted_plan_db_def)
    have "existing_plan rq i d' = Some ?q"
      using pending(12) by (simp add: d' accepted_plan_db_def query_row_snoc)
    then have m: "acceptance_plan_matches rq plan (planned_payload i) (planned_checksum i) (existing_plan rq i d')"
      by (simp add: acceptance_plan_matches_def accepted_plan_row_def)
    have "payload_matches e ''compare proposal-acceptance outcome'' ?i (fd_OutcomePayload rq) = Inr True"
      by (rule payload_matches_stored) (simp_all add: pl)
    then have res: "acceptance_resolved e rq (planned_id i) (planned_id i) True ?i (resolve_outbox DeliveryAccepted ''OK'' (clk 0) b) ?p
        = Inr (acceptance_result rq (clk 0) True)"
      by (simp add: acceptance_resolved_def)
    have "decision_identity rq ?i ?p" using pending(2) by (simp add: decision_identity_def)
    then show ?thesis
      using rows plan m res pending(3) by (simp add: FinalizeProposalAcceptance_tx_def Let_def r acceptance_result_def)
  qed
  then show ?thesis
    using FinalizeProposalAcceptance_success(1,2) [OF assms] by (simp add: FinalizeProposalAcceptance_def run_tx_def)
qed

interpretation acceptance_once: idempotent_store_op "FinalizeProposalAcceptance e" "\<lambda>_ _. True" for e
  by unfold_locales (blast dest: FinalizeProposalAcceptance_repeat)

lemma parseCurrentPlan_Nil: "parseCurrentPlan [] \<noteq> Inr plan"
  by (simp add: parseCurrentPlan_def parseCurrentPlanWithOrigin_def consumeWireFields.simps [of "[]"] emptyPlan_def)

lemma decision_range:
  assumes "validateProposalDecisionFinalization e rq = Inr ()"
  shows "fd_ExpectedTripRevision rq \<le> MaxInt64" "fd_MutationSequence rq \<le> MaxInt64"
  using assms by (auto simp: validateProposalDecisionFinalization_def split: if_splits)

lemma same_set_by_length:
  assumes "distinct xs" "set xs \<subseteq> set ys" "length xs = length (remdups ys)"
  shows "set xs = set ys"
  using assms by (intro card_subset_eq) (simp_all add: distinct_card length_remdups_card_conv)

section \<open>Samples\<close>

text \<open>A plan of one scheduled segment and the proposal it is made from, byte by byte.\<close>

definition sample_plan_payload :: bytes where
  "sample_plan_payload = [10, 36] @ bytes_of_string (sample_uuid CHR ''9'') @ [16, 2, 24, 2, 34, 44] @
     [10, 36] @ bytes_of_string (sample_uuid CHR ''8'') @ [16, 1, 24, 100, 32, 120] @
     [40, 5, 50, 36] @ bytes_of_string (sample_uuid CHR ''6'')"

definition sample_proposal_payload :: bytes where
  "sample_proposal_payload = [10, 46, 58, 44, 10, 36] @ bytes_of_string (sample_uuid CHR ''8'') @
     [32, 100, 40, 120, 56, 1]"

definition sample_planned :: currentPlanWire where
  "sample_planned = \<lparr>planID = sample_uuid CHR ''9'', planRevision = 2, origin = 2,
     segments = [\<lparr>seg_activityID = sample_uuid CHR ''8'', seg_state = 1, seg_start = Some 100, seg_end = Some 120\<rparr>],
     createdAtUnixMS = 5, sourceProposalID = sample_uuid CHR ''6''\<rparr>"

lemma sample_plan_parse: "parseCurrentPlan sample_plan_payload = Inr sample_planned"
  by code_simp

lemma sample_plan_mapping: "validateProposalPlanMapping sample_planned sample_proposal_payload = Inr ()"
  by code_simp

lemma sample_proposal_payload_length: "length sample_proposal_payload = 48"
  by (simp add: sample_proposal_payload_def sample_uuid_def bytes_of_string_def)

lemma sample_plan_payload_length: "length sample_plan_payload = 128"
  by (simp add: sample_plan_payload_def sample_uuid_def bytes_of_string_def)

lemma sample_proposal_payload_nonempty: "sample_proposal_payload \<noteq> []"
  by (simp add: sample_proposal_payload_def)

definition sample_persist :: PersistProposalRequest where
  "sample_persist = \<lparr>pp_ProposalID = sample_uuid CHR ''6'', pp_TripID = sample_uuid CHR ''1'',
     pp_Source = \<lparr>ps_RuntimeEpoch = 1, ps_PlannerStateVersion = 0, ps_TripRevision = 1,
       ps_AcceptedMutationSequence = 1, ps_BaseCurrentPlanID = sample_uuid CHR ''2''\<rparr>,
     pp_Current = \<lparr>rf_HolderID = sample_uuid CHR ''b'', rf_RuntimeEpoch = 1, rf_PlannerStateVersion = 0,
       rf_AcceptedMutationSequence = 1\<rparr>,
     pp_Payload = sample_proposal_payload, pp_Checksum = replicate 32 0, pp_CreatedAt = 1000\<rparr>"

definition sample_base_plan :: plan_row where
  "sample_base_plan = \<lparr>p_id = sample_uuid CHR ''2'', p_trip_id = sample_uuid CHR ''1'', p_plan_revision = 1,
     p_origin = UserAuthored, p_authored_by_user_id = sample_uuid CHR ''a'', p_source_proposal_id = None,
     p_schema_version = 1, p_payload = [], p_payload_size_bytes = 0, p_checksum_sha256 = replicate 32 0,
     p_created_at = 0\<rparr>"

definition proposing_db :: db where
  "proposing_db = sample_db\<lparr>itinerary_plans := [sample_base_plan], trip_runtime_leases := [\<lparr>l_trip_id = sample_uuid CHR ''1'', l_holder_id = sample_uuid CHR ''b'',
     l_runtime_epoch = 1, l_lease_expires_at = 100, l_renewed_at = 0\<rparr>]\<rparr>"

definition sample_decision :: FinalizeProposalDecisionRequest where
  "sample_decision = \<lparr>fd_TripID = sample_uuid CHR ''1'', fd_IntentID = sample_uuid CHR ''3'',
     fd_OutboxID = sample_uuid CHR ''4'', fd_EventID = sample_uuid CHR ''5'', fd_MutationSequence = 2,
     fd_ExpectedTripRevision = 1, fd_ResultingPlannerStateVersion = 4,
     fd_Identity = \<lparr>pi_ProposalID = sample_uuid CHR ''6'', pi_SourceRuntimeEpoch = 1,
       pi_SourcePlannerStateVersion = 0, pi_BaseCurrentPlanID = sample_uuid CHR ''2''\<rparr>,
     fd_OutcomePayload = [123, 125]\<rparr>"

definition decision_intent :: "CommandKind \<Rightarrow> intent_row" where
  "decision_intent kind = (runtime_intent_row sample_record 2 [123, 125] 0)\<lparr>i_command_kind := kind\<rparr>"

definition rejecting_db :: "proposal_row \<Rightarrow> db" where
  "rejecting_db p = queued_db\<lparr>command_intents := [decision_intent CommandRejectProposal], plan_proposals := [p]\<rparr>"

definition planned_intent :: intent_row where
  "planned_intent = (decision_intent CommandAcceptProposal)\<lparr>i_planned_current_plan_id := Some (sample_uuid CHR ''9''),
     i_planned_current_plan_payload := Some sample_plan_payload,
     i_planned_current_plan_checksum := Some (replicate 32 0)\<rparr>"

definition accepting_db :: db where
  "accepting_db = queued_db\<lparr>itinerary_plans := [sample_base_plan], command_intents := [planned_intent], plan_proposals := [proposal_row_of sample_persist]\<rparr>"

definition executing_trip :: trip_row where
  "executing_trip = (allocate_sequence 0 sample_trip)\<lparr>t_execution_state := ExecActive,
     t_active_execution_plan_id := Some (sample_uuid CHR ''2''), t_activated_at := Some 0\<rparr>"

definition executing_db :: db where
  "executing_db = accepting_db\<lparr>trips := [executing_trip]\<rparr>"

lemma sample_proposal_check: "proposal_check (proposal_row_of sample_persist)"
  by (simp add: proposal_check_def proposal_row_of_def sample_persist_def int64_def i32_ok_def MaxInt32_def
      sample_proposal_payload_length)

lemma decision_intent_check: "intent_check (decision_intent CommandRejectProposal)" "intent_check planned_intent"
  by (simp_all add: decision_intent_def planned_intent_def intent_check_def known_kind_def canonical_kind_def
      runtime_intent_row_def sample_record_def int64_def i64_ok_def MaxInt64_def)

lemma sample_base_plan_check: "plan_check sample_base_plan"
  by (simp add: sample_base_plan_def plan_check_def i64_ok_def MaxInt64_def i32_ok_def MaxInt32_def)

lemma schema_proposing: "schema_ok proposing_db"
  using schema_sample sample_base_plan_check
  by (simp add: proposing_db_def schema_ok_def plans_ok_def leases_ok_def lease_check_def i64_ok_def MaxInt64_def)

lemma schema_rejecting: "schema_ok (rejecting_db (proposal_row_of sample_persist))"
  using schema_queued decision_intent_check(1) sample_proposal_check
  by (simp add: rejecting_db_def schema_ok_def intents_ok_def proposals_ok_def)

lemma schema_accepting: "schema_ok accepting_db"
  using schema_queued decision_intent_check(2) sample_proposal_check sample_base_plan_check
  by (simp add: accepting_db_def schema_ok_def plans_ok_def intents_ok_def proposals_ok_def)

lemma schema_executing: "schema_ok executing_db"
  using schema_accepting
  by (simp add: executing_db_def schema_ok_def trips_ok_def trip_check_def
      executing_trip_def allocate_sequence_def sample_trip_def trips_execution_lifecycle_check_def trips_name_check_def i64_ok_def MaxInt64_def)

lemma sample_rows:
  "finalization_rows (fd_TripID sample_decision) (fd_IntentID sample_decision) (fd_OutboxID sample_decision) accepting_db =
     Inr (allocate_sequence 0 sample_trip, planned_intent, hd (planner_outbox queued_db))"
  "finalization_rows (fd_TripID sample_decision) (fd_IntentID sample_decision) (fd_OutboxID sample_decision) executing_db =
     Inr (executing_trip, planned_intent, hd (planner_outbox queued_db))"
  by (simp_all add: sample_decision_def accepting_db_def executing_db_def executing_trip_def planned_intent_def
      decision_intent_def finalization_eval)

lemma sample_persist_applies: "\<exists>r d'. Persist sample_ext (\<lambda>_. 5) sample_persist proposing_db = (Inr r, d') \<and> \<not> pd_Duplicate r"
  by (simp add: Persist_def validatePersistProposal_def Persist_tx_def sample_persist_def proposing_db_def
      sample_proposal_payload_length sample_proposal_payload_nonempty zero_time_def find_lease_def lockProposals_def
      sourceIsCurrent_def insert_proposal_def proposal_row_of_def supersede_pending_def update_proposals_def
      plan_exists_def trip_exists_def sql_exists_def sample_base_plan_def
      proposal_check_def pending_of_def persistedProposal_def fresh_in_def i32_ok_def sql_select_def run_tx_def
      finalization_eval)

lemma sample_decision_valid: "validateProposalDecisionFinalization sample_ext sample_decision = Inr ()"
  by (simp add: validateProposalDecisionFinalization_def sample_decision_def MaxInt64_def)

lemma sample_rejection_applies:
  "\<exists>r d'. FinalizeProposalRejection sample_ext (\<lambda>_. 5) sample_decision (rejecting_db (proposal_row_of sample_persist)) = (Inr r, d')"
  using sample_decision_valid
  by (simp add: FinalizeProposalRejection_def finalizeProposalDecision_def finalizeProposalDecision_tx_def
      decision_rows_def decision_identity_def decision_apply_def decision_revision_def rejecting_db_def
      decision_intent_def update_proposals_def advance_trip_def proposal_row_of_def sample_persist_def
      sample_decision_def run_tx_def finalization_eval)

text \<open>A proposal that became stale without a decision.\<close>

definition undecided_stale :: proposal_row where
  "undecided_stale = (proposal_row_of sample_persist)\<lparr>r_state := ProposalIsStale, r_decided_at := Some 3\<rparr>"

lemma sample_stale_rows: "decision_rows ''lock proposal-decision trip'' (\<lambda>_. Inr ()) sample_decision (rejecting_db undecided_stale) =
    Inr (allocate_sequence 0 sample_trip, sample_uuid CHR ''2'', decision_intent CommandRejectProposal, hd (planner_outbox queued_db),
      undecided_stale)"
  by (simp add: decision_rows_def rejecting_db_def decision_intent_def undecided_stale_def proposal_row_of_def
      sample_persist_def sample_decision_def finalization_eval)

lemma sample_stale_applies:
  "\<exists>r d'. FinalizeStaleProposalDecision sample_ext (\<lambda>_. 5) sample_decision (rejecting_db undecided_stale) = (Inr r, d')"
  using sample_decision_valid sample_stale_rows
  by (simp add: FinalizeStaleProposalDecision_def finalizeProposalDecision_def finalizeProposalDecision_tx_def
      decision_identity_def decision_apply_def decision_revision_def rejecting_db_def undecided_stale_def
      decision_intent_def update_proposals_def advance_trip_def proposal_row_of_def sample_persist_def
      sample_decision_def run_tx_def finalization_eval)

lemma sample_acceptance_rows: "decision_rows ''lock proposal-acceptance trip'' scan_planned_plan sample_decision accepting_db =
    Inr (allocate_sequence 0 sample_trip, sample_uuid CHR ''2'', planned_intent, hd (planner_outbox queued_db),
      proposal_row_of sample_persist)"
  by (rule decision_rowsI [OF sample_rows(1)])
    (simp_all add: accepting_db_def scan_planned_plan_def planned_intent_def proposal_row_of_def
      sample_persist_def sample_decision_def finalization_eval)

lemma sample_acceptance_plan:
  "acceptance_plan sample_ext sample_decision (planned_id planned_intent) (planned_payload planned_intent)
     (planned_checksum planned_intent) (proposal_row_of sample_persist) accepting_db = Inr sample_planned"
proof -
  have "r_payload (proposal_row_of sample_persist) = sample_proposal_payload"
    by (simp add: proposal_row_of_def sample_persist_def)
  then show ?thesis
    using sample_plan_parse sample_plan_mapping
    by (simp add: acceptance_plan_def planned_intent_def nil_bytes_def sample_planned_def sample_decision_def
        accepting_db_def queued_db_def sample_db_def sample_activity_def sql_select_def)
qed

lemma sample_acceptance_applies:
  "\<exists>r d'. FinalizeProposalAcceptance sample_ext (\<lambda>_. 5) sample_decision accepting_db = (Inr r, d') \<and> \<not> fc_Duplicate r"
proof -
  have "\<exists>r d'. acceptance_apply sample_ext (\<lambda>_. 5) sample_decision (allocate_sequence 0 sample_trip) planned_intent sample_planned
      (planned_id planned_intent) (planned_payload planned_intent) (planned_checksum planned_intent) accepting_db = Inr (r, d') \<and>
      \<not> fc_Duplicate r"
    by (simp add: acceptance_apply_def insert_plan_def accepted_plan_row_def plan_check_def trip_exists_def sql_exists_def
        fresh_in_def accepting_db_def sample_base_plan_def planned_intent_def decision_intent_def sample_planned_def
        nil_bytes_def update_proposals_def publish_plan_def sample_plan_payload_length i32_ok_def acceptance_result_def
        sample_decision_def finalization_eval)
  then obtain r d' where "acceptance_apply sample_ext (\<lambda>_. 5) sample_decision (allocate_sequence 0 sample_trip) planned_intent
      sample_planned (planned_id planned_intent) (planned_payload planned_intent) (planned_checksum planned_intent) accepting_db =
      Inr (r, d')" "\<not> fc_Duplicate r" by blast
  moreover have "decision_identity sample_decision planned_intent (proposal_row_of sample_persist)"
    by (simp add: decision_identity_def planned_intent_def decision_intent_def proposal_row_of_def sample_persist_def
        sample_decision_def finalization_eval)
  moreover have "max_plan_revision (fd_TripID sample_decision) accepting_db = 1" "planRevision sample_planned = 2"
    by (simp_all add: max_plan_revision_def accepting_db_def sample_base_plan_def sample_decision_def sql_select_def sample_planned_def)
  moreover have "existing_plan sample_decision planned_intent accepting_db = None"
    by (simp add: accepting_db_def sample_base_plan_def planned_intent_def query_row_def)
  moreover have "t_trip_revision (allocate_sequence 0 sample_trip) = 1" "t_finalized_mutation_sequence (allocate_sequence 0 sample_trip) = 1"
    "i_state planned_intent = IntentPending" "i_command_kind planned_intent = CommandAcceptProposal"
    "i_expected_trip_revision planned_intent = 1" "i_mutation_sequence planned_intent = 2"
    "pi_BaseCurrentPlanID (fd_Identity sample_decision) = sample_uuid CHR ''2''" "fd_ExpectedTripRevision sample_decision = 1"
    "r_source_trip_revision (proposal_row_of sample_persist) = 1"
    by (simp_all add: planned_intent_def decision_intent_def proposal_row_of_def sample_persist_def
        sample_decision_def finalization_eval)
  ultimately show ?thesis
    using sample_decision_valid sample_acceptance_rows sample_acceptance_plan
    by (simp add: FinalizeProposalAcceptance_def FinalizeProposalAcceptance_tx_def run_tx_def MaxInt64_def uint64_def)
qed

section \<open>Properties\<close>

text \<open>
  C18. A proposal is stored only when it is fresh: its epoch, holder and base plan are those of the
  live lease and of the trip, its revision is the trip's, and afterwards it is the one pending
  proposal of the trip. Storing it again is answered as a duplicate without any change.
\<close>

theorem proposal_persist_fresh:
  assumes "schema_ok d" "Persist e clk rq d = (Inr r, d')" "\<not> pd_Duplicate r"
  shows "filter (pending_of (pp_TripID rq)) (plan_proposals d') = [proposal_row_of rq] \<and>
    (\<exists>t l. find_trip (pp_TripID rq) d = Some t \<and> find_lease (pp_TripID rq) d = Some l \<and>
      l_holder_id l = rf_HolderID (pp_Current rq) \<and> l_runtime_epoch l = int (ps_RuntimeEpoch (pp_Source rq)) \<and>
      clk 0 < l_lease_expires_at l \<and> t_trip_revision t = int (ps_TripRevision (pp_Source rq)) \<and>
      t_current_plan_id t = Some (ps_BaseCurrentPlanID (pp_Source rq))) \<and>
    (\<exists>y. Persist e clk' rq d' = (Inr y, d') \<and> pd_Duplicate y)"
  using Persist_success(2) [OF assms(2)]
proof (cases rule: Persist_tx_cases)
  case (duplicate t c l s)
  then show ?thesis using assms(3) by simp
next
  case (fresh t c l)
  note ins = insert_proposal_SomeD [OF fresh(5)]
  have "filter (pending_of (pp_TripID rq)) (plan_proposals (supersede_pending (pp_TripID rq) (clk 0) d)) = []"
    using no_pending_after_supersede by (auto simp: filter_empty_conv)
  then have one: "filter (pending_of (pp_TripID rq)) (plan_proposals d') = [proposal_row_of rq]"
    using ins by (simp add: pending_of_def)
  have tc: "trip_check t" "lease_check l"
    using assms(1) find_trip_SomeD [OF fresh(1)] find_lease_SomeD [OF fresh(3)]
    by (simp_all add: schema_ok_def trips_ok_def leases_ok_def list_all_iff)
  have "l_runtime_epoch l = int (ps_RuntimeEpoch (pp_Source rq))" "t_trip_revision t = int (ps_TripRevision (pp_Source rq))"
    using fresh(4) tc by (simp_all add: sourceIsCurrent_def trip_check_def lease_check_def i64_ok_def uint64_small)
  moreover have "l_holder_id l = rf_HolderID (pp_Current rq)" "clk 0 < l_lease_expires_at l"
    "c = ps_BaseCurrentPlanID (pp_Source rq)"
    using fresh(4) by (simp_all add: sourceIsCurrent_def)
  ultimately show ?thesis using one fresh(1-3) Persist_repeat [OF assms(1,2)] by blast
qed

theorem proposal_persist_fresh_witness:
  "\<exists>r d'. Persist sample_ext (\<lambda>_. 5) sample_persist proposing_db = (Inr r, d') \<and>
     filter (pending_of (sample_uuid CHR ''1'')) (plan_proposals d') = [proposal_row_of sample_persist] \<and>
     (\<exists>y. Persist sample_ext (\<lambda>_. 6) sample_persist d' = (Inr y, d') \<and> pd_Duplicate y)"
proof -
  obtain r d' where s: "Persist sample_ext (\<lambda>_. 5) sample_persist proposing_db = (Inr r, d')" "\<not> pd_Duplicate r"
    using sample_persist_applies by blast
  have "pp_TripID sample_persist = sample_uuid CHR ''1''" by (simp add: sample_persist_def)
  with proposal_persist_fresh [OF schema_proposing s, of "\<lambda>_. 6"] s(1) show ?thesis by auto
qed

text \<open>
  C19. A rejection takes effect exactly once: the proposal is decided by the message of the command
  and any number of redeliveries leaves the database alone.
\<close>

theorem rejection_finalized_once:
  assumes "schema_ok d" "FinalizeProposalRejection e clk rq d = (Inr r, d')"
  shows "fold (\<lambda>clk d. snd (FinalizeProposalRejection e clk rq d)) clks d' = d' \<and>
    FinalizeProposalRejection e clk' rq d' = (Inr (r\<lparr>fc_Duplicate := True\<rparr>), d') \<and>
    (\<exists>i\<in>set (command_intents d'). \<exists>p\<in>set (plan_proposals d'). i_id i = fd_IntentID rq \<and> i_state i = IntentApplied \<and>
      r_id p = pi_ProposalID (fd_Identity rq) \<and> r_state p = ProposalRejected \<and> r_decision_message_id p = Some (i_message_id i))"
  using rejection_once.redelivery [OF assms(1) _ assms(2)] FinalizeProposalRejection_repeat [OF assms(2)]
    FinalizeProposalRejection_decides [OF assms(2)] by simp

theorem rejection_finalized_once_witness:
  "\<exists>r d'. FinalizeProposalRejection sample_ext (\<lambda>_. 5) sample_decision (rejecting_db (proposal_row_of sample_persist)) = (Inr r, d') \<and>
     FinalizeProposalRejection sample_ext (\<lambda>_. 6) sample_decision d' = (Inr (r\<lparr>fc_Duplicate := True\<rparr>), d')"
proof -
  obtain r d' where s: "FinalizeProposalRejection sample_ext (\<lambda>_. 5) sample_decision (rejecting_db (proposal_row_of sample_persist)) = (Inr r, d')"
    using sample_rejection_applies by blast
  from rejection_finalized_once [OF schema_rejecting s, of "[]" "\<lambda>_. 6"] s show ?thesis by blast
qed

text \<open>
  C20. A stale decision is not idempotent on a proposal that a takeover or a mutation has already
  made stale: it carries no decision message, so after a first success the redelivery of the very
  same request is refused as a conflict.
\<close>

theorem stale_decision_redelivery_conflict:
  assumes "FinalizeStaleProposalDecision e clk rq d = (Inr r, d')"
    "decision_rows ''lock proposal-decision trip'' (\<lambda>_. Inr ()) rq d = Inr (t, c, i, b, p)"
    "i_state i = IntentPending" "r_state p = ProposalIsStale" "r_decision_message_id p = None"
  shows "FinalizeStaleProposalDecision e clk' rq d' = (Inl ErrCommandFinalizationConflict, d')"
  using finalizeProposalDecision_repeat [of e True clk rq d r d', OF _ assms(2)] assms(1,3-5)
  by (simp add: FinalizeStaleProposalDecision_def)

theorem stale_decision_redelivery_conflict_witness:
  "\<exists>r d'. FinalizeStaleProposalDecision sample_ext (\<lambda>_. 5) sample_decision (rejecting_db undecided_stale) = (Inr r, d') \<and>
     FinalizeStaleProposalDecision sample_ext (\<lambda>_. 6) sample_decision d' = (Inl ErrCommandFinalizationConflict, d')"
proof -
  obtain r d' where s: "FinalizeStaleProposalDecision sample_ext (\<lambda>_. 5) sample_decision (rejecting_db undecided_stale) = (Inr r, d')"
    using sample_stale_applies by blast
  have "i_state (decision_intent CommandRejectProposal) = IntentPending" "r_state undecided_stale = ProposalIsStale"
    "r_decision_message_id undecided_stale = None"
    by (simp_all add: decision_intent_def runtime_intent_row_def undecided_stale_def proposal_row_of_def)
  from stale_decision_redelivery_conflict [OF s sample_stale_rows this] s show ?thesis by blast
qed

text \<open>
  C21. An acceptance publishes exactly the plan recorded with the command: one plan row is added,
  with the recorded bytes and the next plan revision, it becomes the current plan, its segments
  are a permutation of the activities of the trip, the trip revision and the finalized sequence
  grow by one, and redeliveries change nothing.
\<close>

theorem acceptance_publishes_recorded_plan:
  assumes "schema_ok d" "FinalizeProposalAcceptance e clk rq d = (Inr r, d')" "\<not> fc_Duplicate r"
    "finalization_rows (fd_TripID rq) (fd_IntentID rq) (fd_OutboxID rq) d = Inr (t, i, b)"
  shows "\<exists>q plan t'. itinerary_plans d' = itinerary_plans d @ [q] \<and> p_trip_id q = fd_TripID rq \<and>
    Some (p_payload q) = i_planned_current_plan_payload i \<and> p_plan_revision q = max_plan_revision (fd_TripID rq) d + 1 \<and>
    parseCurrentPlan (p_payload q) = Inr plan \<and> planID plan = p_id q \<and> distinct (map seg_activityID (segments plan)) \<and>
    set (map seg_activityID (segments plan)) = a_id ` {a \<in> set (trip_activities d'). a_trip_id a = fd_TripID rq} \<and>
    find_trip (fd_TripID rq) d' = Some t' \<and> t_current_plan_id t' = Some (p_id q) \<and>
    t_trip_revision t' = t_trip_revision t + 1 \<and>
    t_finalized_mutation_sequence t' = t_finalized_mutation_sequence t + 1 \<and>
    fold (\<lambda>clk d. snd (FinalizeProposalAcceptance e clk rq d)) clks d' = d'"
  using FinalizeProposalAcceptance_success(3) [OF assms(2)]
proof (cases rule: FinalizeProposalAcceptance_tx_cases)
  case (resolved t c i b p plan)
  then show ?thesis
    using assms(3) by (auto simp: acceptance_resolved_def acceptance_result_def bindr_eq_Inr split: option.splits if_splits)
next
  case (pending u c j o' p plan)
  note D = decision_rows_InrD [OF pending(1)]
  have eqs: "u = t" "j = i" using D(1) assms(4) by simp_all
  let ?q = "accepted_plan_row rq (t_owner_user_id u) plan (planned_id j) (planned_payload j) (planned_checksum j)"
  obtain payload where d': "d' = accepted_plan_db rq j ?q payload (clk 0) d"
    by (rule acceptance_apply_db [OF pending(13)])
  note P = acceptance_plan_parse [OF pending(4)]
  let ?f = "publish_plan (planned_id i) (int64 (add_u64 (fd_ExpectedTripRevision rq) 1)) (i_mutation_sequence i) (clk 0)"
  note ft = finalization_rows_SomeD(1) [OF assms(4)]
  have "find_trip (fd_TripID rq) d' = Some (?f t)"
    using query_row_update [OF ft [unfolded find_trip_def], of "\<lambda>t. t_id t = fd_TripID rq" ?f] find_trip_SomeD [OF ft]
    by (simp add: find_trip_def d' accepted_plan_db_def eqs)
  moreover have "t_trip_revision (?f t) = t_trip_revision t + 1"
    using pending(2,7) eqs decision_range [OF FinalizeProposalAcceptance_success(1) [OF assms(2)]]
      FinalizeProposalAcceptance_success(2) [OF assms(2)]
    by (simp add: decision_identity_def add_u64_small int64_small)
  moreover have "t_finalized_mutation_sequence (?f t) = t_finalized_mutation_sequence t + 1" using pending(11) eqs by simp
  moreover have "Some (p_payload ?q) = i_planned_current_plan_payload i"
    using P(1) eqs by (cases "i_planned_current_plan_payload i") (simp_all add: nil_bytes_def parseCurrentPlan_Nil)
  moreover have "p_plan_revision ?q = max_plan_revision (fd_TripID rq) d + 1"
    using pending(6,14) max_plan_revision_bounds [OF assms(1), of "fd_TripID rq"]
    by (simp add: uint64_small int64_small)
  moreover have "distinct (map seg_activityID (segments plan))"
    using parseCurrentPlanWithOrigin_ok(2) [OF P(1) [unfolded parseCurrentPlan_def]] by (simp add: segments_ordered_def)
  moreover have "set (map seg_activityID (segments plan)) = a_id ` {a \<in> set (trip_activities d'). a_trip_id a = fd_TripID rq}"
    using same_set_by_length [OF calculation(6) P(7)] P(6) by (simp add: sql_select_def d' accepted_plan_db_def length_remdups_card_conv)
  moreover have "itinerary_plans d' = itinerary_plans d @ [?q]" by (simp add: d' accepted_plan_db_def)
  ultimately show ?thesis
    using P(1,2) eqs acceptance_once.redelivery [OF assms(1) _ assms(2)]
    by (intro exI [of _ ?q] exI [of _ plan] exI [of _ "?f t"]) simp
qed

theorem acceptance_publishes_recorded_plan_witness:
  "\<exists>r d' q. FinalizeProposalAcceptance sample_ext (\<lambda>_. 5) sample_decision accepting_db = (Inr r, d') \<and>
     itinerary_plans d' = itinerary_plans accepting_db @ [q] \<and> p_payload q = sample_plan_payload"
proof -
  obtain r d' where s: "FinalizeProposalAcceptance sample_ext (\<lambda>_. 5) sample_decision accepting_db = (Inr r, d')" "\<not> fc_Duplicate r"
    using sample_acceptance_applies by blast
  have "i_planned_current_plan_payload planned_intent = Some sample_plan_payload" by (simp add: planned_intent_def)
  with acceptance_publishes_recorded_plan [OF schema_accepting s sample_rows(1), of "[]"] s(1) show ?thesis by auto
qed

text \<open>
  C22. While a trip is executing no proposal can be accepted: the update that publishes the plan
  leaves \<open>active_execution_plan_id\<close> at the previous plan and violates the lifecycle check of \<open>trips\<close>, so
  every acceptance of a pending command fails and nothing is changed.
\<close>

theorem acceptance_impossible_while_executing:
  assumes "finalization_rows (fd_TripID rq) (fd_IntentID rq) (fd_OutboxID rq) d = Inr (t, i, b)"
    "schema_ok d" "i_state i = IntentPending" "t_execution_state t \<noteq> ExecInactive"
    "\<exists>q\<in>set (itinerary_plans d). p_trip_id q = fd_TripID rq \<and> t_current_plan_id t = Some (p_id q)"
  shows "isl (fst (FinalizeProposalAcceptance e clk rq d)) \<and> snd (FinalizeProposalAcceptance e clk rq d) = d"
proof (rule acceptance.fails_without_effect, rule notI)
  fix r d' assume s: "FinalizeProposalAcceptance e clk rq d = (Inr r, d')"
  from FinalizeProposalAcceptance_success(3) [OF s] show False
  proof (cases rule: FinalizeProposalAcceptance_tx_cases)
    case (resolved u c j o' p plan)
    then show ?thesis using decision_rows_InrD(1) [OF resolved(1)] assms(1,3) by simp
  next
    case (pending u c j o' p plan)
    have eqs: "u = t" "j = i" using decision_rows_InrD(1) [OF pending(1)] assms(1) by simp_all
    note T = find_trip_SomeD [OF finalization_rows_SomeD(1) [OF assms(1)]]
    let ?f = "publish_plan (planned_id i) (int64 (add_u64 (fd_ExpectedTripRevision rq) 1)) (i_mutation_sequence i) (clk 0)"
    have "\<forall>t\<in>set (trips d). t_id t = fd_TripID rq \<longrightarrow> trip_check (?f t)"
      using acceptance_apply_db [OF pending(13)] eqs by blast
    then have "trip_check (?f t)" using T by blast
    moreover have "trip_check t" using T assms(2) by (simp add: schema_ok_def trips_ok_def list_all_iff)
    ultimately have "t_current_plan_id t = Some (planned_id i)"
      using assms(4) by (auto simp: trip_check_def trips_execution_lifecycle_check_def trips_name_check_def publish_plan_def split: execution_state.splits)
    then show ?thesis using assms(5) pending(12) eqs by (auto simp: query_row_None)
  qed
qed

theorem acceptance_impossible_while_executing_witness:
  "isl (fst (FinalizeProposalAcceptance sample_ext (\<lambda>_. 5) sample_decision executing_db)) \<and>
     snd (FinalizeProposalAcceptance sample_ext (\<lambda>_. 5) sample_decision executing_db) = executing_db"
  by (rule acceptance_impossible_while_executing [OF sample_rows(2) schema_executing])
    (simp_all add: planned_intent_def decision_intent_def runtime_intent_row_def executing_trip_def executing_db_def
      accepting_db_def sample_base_plan_def allocate_sequence_def sample_trip_def sample_decision_def)

end
