(* ===== verification/LR_Mirror.thy ===== *)
theory LR_Mirror
  imports LR_Finalization "HOL-Library.Multiset"
begin

text \<open>
  Delivery of canonical-first commands: \<open>persistence/canonical_mirror.go\<close> (\<open>FinalizeCanonicalMirror\<close>) and
  \<open>persistence/bootstrap_convergence.go\<close> (\<open>ResolveCanonicalBootstrap\<close>). A mirror acknowledgement that does not
  match the stored identity commits the pause of the mirror and reports an error; a bootstrap resolves
  every covered mirror at once. Shown: both take effect once, a paused mirror stays paused for
  every later acknowledgement, and a bootstrap resolves everything it covers and nothing else.
\<close>

section \<open>Mirror acknowledgements\<close>

record FinalizeCanonicalMirrorRequest =
  fm_TripID :: uuid
  fm_IntentID :: uuid
  fm_OutboxID :: uuid
  fm_EventID :: uuid
  fm_MutationSequence :: u64
  fm_ExpectedTripRevision :: u64
  fm_ResultingTripRevision :: u64
  fm_ResultingCurrentPlanID :: uuid

record FinalizedCanonicalMirror =
  fz_IntentID :: uuid
  fz_OutboxID :: uuid
  fz_TripID :: uuid
  fz_EventID :: uuid
  fz_MutationSequence :: u64
  fz_ExpectedTripRevision :: u64
  fz_ResultingTripRevision :: u64
  fz_ResultingCurrentPlanID :: uuid
  fz_RuntimeSyncState :: runtime_sync_state
  fz_DeliveryState :: delivery_state
  fz_Duplicate :: bool

definition validateCanonicalMirrorFinalization :: "FinalizeCanonicalMirrorRequest \<Rightarrow> unit result" where
  "validateCanonicalMirrorFinalization rq =
     (if \<not> list_all validCanonicalUUID [fm_TripID rq, fm_IntentID rq, fm_OutboxID rq, fm_EventID rq]
        then Inl (ErrText ''canonical mirror identifiers must be canonical lowercase UUIDs'')
      else if fm_MutationSequence rq > MaxInt64 \<or> fm_ExpectedTripRevision rq > MaxInt64 \<or>
          fm_ResultingTripRevision rq > MaxInt64
        then Inl (ErrText ''canonical mirror versions are out of range'')
      else Inr ())"

definition lockCanonicalMirrorTrip :: "uuid \<Rightarrow> db \<Rightarrow> unit result" where
  "lockCanonicalMirrorTrip tripID d =
     (case find_trip tripID d of None \<Rightarrow> Inl ErrTripNotFound | Some _ \<Rightarrow> Inr ())"

definition canonicalMirrorIdentityMatches :: "FinalizeCanonicalMirrorRequest \<Rightarrow> intent_row \<Rightarrow> bool" where
  "canonicalMirrorIdentityMatches rq i =
     (if i_command_kind i \<noteq> CommandTripEdited \<and> i_command_kind i \<noteq> CommandReplaceCurrentPlan then False
      else i_state i = IntentApplied \<and> i_event_id i = fm_EventID rq \<and>
        i_mutation_sequence i = int64 (fm_MutationSequence rq) \<and>
        i_expected_trip_revision i = int64 (fm_ExpectedTripRevision rq) \<and>
        i_resulting_trip_revision i = Some (int64 (fm_ResultingTripRevision rq)) \<and>
        (case i_resulting_current_plan_id i of
           None \<Rightarrow> False
         | Some pid \<Rightarrow> validCanonicalUUID pid \<and> pid = fm_ResultingCurrentPlanID rq))"

definition canonicalMirrorResult ::
  "FinalizeCanonicalMirrorRequest \<Rightarrow> uuid \<Rightarrow> runtime_sync_state \<Rightarrow> delivery_state \<Rightarrow> bool \<Rightarrow> FinalizedCanonicalMirror" where
  "canonicalMirrorResult rq pid runtimeSyncState deliveryState duplicate =
     \<lparr>fz_IntentID = fm_IntentID rq, fz_OutboxID = fm_OutboxID rq, fz_TripID = fm_TripID rq,
      fz_EventID = fm_EventID rq, fz_MutationSequence = fm_MutationSequence rq,
      fz_ExpectedTripRevision = fm_ExpectedTripRevision rq,
      fz_ResultingTripRevision = fm_ResultingTripRevision rq, fz_ResultingCurrentPlanID = pid,
      fz_RuntimeSyncState = runtimeSyncState, fz_DeliveryState = deliveryState, fz_Duplicate = duplicate\<rparr>"

definition pauseCanonicalMirror :: "clock \<Rightarrow> uuid \<Rightarrow> uuid \<Rightarrow> db \<Rightarrow> db" where
  "pauseCanonicalMirror clk intentID outboxID d =
     d\<lparr>planner_outbox := sql_update (\<lambda>b. o_id b = outboxID \<and> o_delivery_state b = DeliveryPending)
         (\<lambda>b. b\<lparr>o_delivery_state := DeliveryPausedInternal, o_last_status := Some ''INTERNAL'',
            o_claim_owner := None, o_claim_expires_at := None, o_updated_at := clk 0\<rparr>) (planner_outbox d),
       command_intents := sql_update (\<lambda>i. i_id i = intentID \<and> i_runtime_sync_state i = SyncPending)
         (\<lambda>i. i\<lparr>i_runtime_sync_state := SyncPausedInternal\<rparr>) (command_intents d)\<rparr>"

text \<open>The two statements that resolve a mirror.\<close>

definition accept_mirror :: "FinalizeCanonicalMirrorRequest \<Rightarrow> time \<Rightarrow> db \<Rightarrow> db" where
  "accept_mirror rq now d =
     d\<lparr>planner_outbox := sql_update (\<lambda>b. o_id b = fm_OutboxID rq \<and> o_command_intent_id b = fm_IntentID rq \<and>
           o_trip_id b = fm_TripID rq \<and> o_delivery_state b = DeliveryPending)
         (\<lambda>b. b\<lparr>o_delivery_state := DeliveryAccepted, o_last_status := Some ''OK'',
            o_claim_owner := None, o_claim_expires_at := None, o_updated_at := now\<rparr>) (planner_outbox d),
       command_intents := sql_update (\<lambda>i. i_id i = fm_IntentID rq \<and> i_trip_id i = fm_TripID rq \<and>
           i_runtime_sync_state i = SyncPending)
         (\<lambda>i. i\<lparr>i_runtime_sync_state := Synced\<rparr>) (command_intents d)\<rparr>"

text \<open>
  The intent and the outbox row of an acknowledgement. \<open>Inl\<close> is an error after which the transaction is
  rolled back; an error that follows a commit is the \<open>Inl\<close> of the result in the pair.
\<close>

definition mirror_rows :: "FinalizeCanonicalMirrorRequest \<Rightarrow> db \<Rightarrow> (intent_row \<times> outbox_row) result" where
  "mirror_rows rq d =
     bindr (lockCanonicalMirrorTrip (fm_TripID rq) d) (\<lambda>_.
       case query_row (\<lambda>i. i_id i = fm_IntentID rq \<and> i_trip_id i = fm_TripID rq \<and>
           i_application_order i = CanonicalFirst) (command_intents d) of
         None \<Rightarrow> Inl ErrCommandNotFound
       | Some i \<Rightarrow>
         (case query_row (\<lambda>b. o_id b = fm_OutboxID rq \<and> o_command_intent_id b = fm_IntentID rq \<and>
             o_trip_id b = fm_TripID rq) (planner_outbox d) of
            None \<Rightarrow> Inl ErrCommandNotFound
          | Some b \<Rightarrow> Inr (i, b)))"

definition FinalizeCanonicalMirror_tx ::
  "clock \<Rightarrow> FinalizeCanonicalMirrorRequest \<Rightarrow> db \<Rightarrow> err + (FinalizedCanonicalMirror result \<times> db)" where
  "FinalizeCanonicalMirror_tx clk rq d =
     bindr (mirror_rows rq d) (\<lambda>(i, b).
       let identityMatches = canonicalMirrorIdentityMatches rq i;
           storedPlanID = (case i_resulting_current_plan_id i of None \<Rightarrow> [] | Some pid \<Rightarrow> pid) in
       if i_runtime_sync_state i = Synced \<or> o_delivery_state b = DeliveryAccepted then
         (if \<not> identityMatches \<or> i_runtime_sync_state i \<noteq> Synced \<or> o_delivery_state b \<noteq> DeliveryAccepted
            then Inl ErrCanonicalMirrorConflict
          else Inr (Inr (canonicalMirrorResult rq storedPlanID (i_runtime_sync_state i) (o_delivery_state b) True), d))
       else if i_runtime_sync_state i = SyncPausedInternal \<or> o_delivery_state b = DeliveryPausedInternal
         then Inl ErrCanonicalMirrorPaused
       else if i_runtime_sync_state i \<noteq> SyncPending \<or> o_delivery_state b \<noteq> DeliveryPending
         then Inl ErrCanonicalMirrorConflict
       else if \<not> identityMatches
         then Inr (Inl ErrCanonicalMirrorIdentity, pauseCanonicalMirror clk (fm_IntentID rq) (fm_OutboxID rq) d)
       else Inr (Inr (canonicalMirrorResult rq storedPlanID Synced DeliveryAccepted False), accept_mirror rq (clk 0) d))"

definition FinalizeCanonicalMirror ::
  "clock \<Rightarrow> FinalizeCanonicalMirrorRequest \<Rightarrow> db \<Rightarrow> FinalizedCanonicalMirror result \<times> db" where
  "FinalizeCanonicalMirror clk rq d =
     (case validateCanonicalMirrorFinalization rq of
        Inl x \<Rightarrow> (Inl x, d)
      | Inr _ \<Rightarrow> (case FinalizeCanonicalMirror_tx clk rq d of Inl x \<Rightarrow> (Inl x, d) | Inr c \<Rightarrow> c))"

section \<open>Bootstrap convergence\<close>

record ResolveCanonicalBootstrapRequest =
  rb_TripID :: uuid
  rb_TripRevision :: u64
  rb_AcceptedMutationSequence :: u64
  rb_FinalizedMutationSequence :: u64
  rb_CurrentPlanID :: uuid

record ResolvedCanonicalBootstrap =
  rs_TripID :: uuid
  rs_TripRevision :: u64
  rs_AcceptedMutationSequence :: u64
  rs_FinalizedMutationSequence :: u64
  rs_CurrentPlanID :: uuid
  rs_MirrorsResolved :: u64
  rs_RowsConfirmed :: u64
  rs_ConfirmedAt :: time
  rs_Duplicate :: bool

definition validateCanonicalBootstrapResolution :: "ResolveCanonicalBootstrapRequest \<Rightarrow> unit result" where
  "validateCanonicalBootstrapResolution rq =
     (if \<not> validCanonicalUUID (rb_TripID rq) \<or> \<not> validCanonicalUUID (rb_CurrentPlanID rq)
        then Inl (ErrText ''bootstrap resolution identifiers must be canonical lowercase UUIDs'')
      else if rb_TripRevision rq = 0 \<or> rb_TripRevision rq > MaxInt64 \<or>
          rb_AcceptedMutationSequence rq = 0 \<or> rb_AcceptedMutationSequence rq > MaxInt64 \<or>
          rb_FinalizedMutationSequence rq = 0 \<or> rb_FinalizedMutationSequence rq > MaxInt64
        then Inl (ErrText ''bootstrap resolution versions are invalid'')
      else Inr ())"

text \<open>The join of the intents of the trip with their outbox rows up to the finalized sequence, in order.\<close>

definition covers :: "ResolveCanonicalBootstrapRequest \<Rightarrow> intent_row \<Rightarrow> outbox_row \<Rightarrow> bool" where
  "covers rq i b \<longleftrightarrow> o_command_intent_id b = i_id i \<and> i_trip_id i = rb_TripID rq \<and>
     o_mutation_sequence b \<le> int64 (rb_FinalizedMutationSequence rq)"

definition covered_mirrors :: "ResolveCanonicalBootstrapRequest \<Rightarrow> db \<Rightarrow> (intent_row \<times> outbox_row) list" where
  "covered_mirrors rq d = sort_key (\<lambda>(i, b). o_mutation_sequence b)
     [(i, b). b \<leftarrow> planner_outbox d, i \<leftarrow> command_intents d, covers rq i b]"

definition blocks_bootstrap :: "intent_row \<times> outbox_row \<Rightarrow> bool" where
  "blocks_bootstrap m = (case m of (i, b) \<Rightarrow> i_application_order i = RuntimeFirst \<and>
     (i_runtime_sync_state i = SyncPending \<or> o_delivery_state b = DeliveryPending \<or> o_delivery_state b = DeliveryPausedInternal))"

definition mirror_unresolved :: "intent_row \<times> outbox_row \<Rightarrow> bool" where
  "mirror_unresolved m = (case m of (i, b) \<Rightarrow> i_application_order i = CanonicalFirst \<and>
     (i_runtime_sync_state i = SyncPending \<or> i_runtime_sync_state i = SyncPausedInternal \<or>
      o_delivery_state b = DeliveryPending \<or> o_delivery_state b = DeliveryPausedInternal))"

text \<open>What the last loop does to the two rows of a mirror.\<close>

definition converge_intent :: "intent_row \<Rightarrow> intent_row \<Rightarrow> intent_row" where
  "converge_intent i r =
     (if i_application_order i = CanonicalFirst \<and> (i_runtime_sync_state i = SyncPending \<or> i_runtime_sync_state i = SyncPausedInternal)
        then r\<lparr>i_runtime_sync_state := Synced\<rparr> else r)"

definition converge_outbox :: "time \<Rightarrow> intent_row \<Rightarrow> outbox_row \<Rightarrow> outbox_row \<Rightarrow> outbox_row" where
  "converge_outbox now i b r =
     (if i_application_order i = CanonicalFirst \<and> (o_delivery_state b = DeliveryPending \<or> o_delivery_state b = DeliveryPausedInternal)
        then r\<lparr>o_delivery_state := DeliveryAccepted, o_last_status := Some ''OK'', o_claim_owner := None,
          o_claim_expires_at := None, o_finalization_confirmed_at := Some now, o_updated_at := now\<rparr>
      else if o_finalization_confirmed_at b = None
        then r\<lparr>o_finalization_confirmed_at := Some now, o_updated_at := now\<rparr>
      else r)"

definition converge_step :: "uuid \<Rightarrow> time \<Rightarrow> intent_row \<times> outbox_row \<Rightarrow> db \<Rightarrow> db" where
  "converge_step tripID now m d = (case m of (i, b) \<Rightarrow>
     d\<lparr>command_intents := sql_update (\<lambda>r. i_id r = i_id i \<and> i_trip_id r = tripID) (converge_intent i) (command_intents d),
       planner_outbox := sql_update (\<lambda>r. o_id r = o_id b \<and> o_trip_id r = tripID) (converge_outbox now i b) (planner_outbox d)\<rparr>)"

definition bootstrap_time :: "clock \<Rightarrow> bool \<Rightarrow> (intent_row \<times> outbox_row) list \<Rightarrow> time" where
  "bootstrap_time clk read covered =
     (let databaseTime = (if read then clk 0 else zero_time) in
      if databaseTime = zero_time
      then (case List.map_filter (\<lambda>(i, b). o_finalization_confirmed_at b) covered of
              [] \<Rightarrow> databaseTime | t # _ \<Rightarrow> t)
      else databaseTime)"

definition ResolveCanonicalBootstrap_tx ::
  "clock \<Rightarrow> ResolveCanonicalBootstrapRequest \<Rightarrow> db \<Rightarrow> err + (ResolvedCanonicalBootstrap \<times> db)" where
  "ResolveCanonicalBootstrap_tx clk rq d =
     (case find_trip (rb_TripID rq) d of
        None \<Rightarrow> Inl ErrTripNotFound
      | Some t \<Rightarrow>
      (case t_current_plan_id t of
        None \<Rightarrow> Inl (ErrSQL ''lock canonical bootstrap trip'')
      | Some currentPlanID \<Rightarrow>
        if t_trip_revision t \<noteq> int64 (rb_TripRevision rq) \<or>
           t_finalized_mutation_sequence t \<noteq> int64 (rb_FinalizedMutationSequence rq) \<or>
           rb_AcceptedMutationSequence rq \<noteq> rb_FinalizedMutationSequence rq \<or>
           currentPlanID \<noteq> rb_CurrentPlanID rq
          then Inl ErrBootstrapConvergenceConflict
        else let covered = covered_mirrors rq d in
          if list_ex blocks_bootstrap covered then Inl ErrBootstrapConvergenceBlocked
          else
            let mirrorsResolved = length (filter mirror_unresolved covered);
                rowsConfirmed = length (filter (\<lambda>(i, b). o_finalization_confirmed_at b = None) covered);
                databaseTime = bootstrap_time clk (mirrorsResolved > 0 \<or> rowsConfirmed > 0) covered in
            Inr (\<lparr>rs_TripID = rb_TripID rq, rs_TripRevision = rb_TripRevision rq,
                rs_AcceptedMutationSequence = rb_AcceptedMutationSequence rq,
                rs_FinalizedMutationSequence = rb_FinalizedMutationSequence rq,
                rs_CurrentPlanID = rb_CurrentPlanID rq, rs_MirrorsResolved = mirrorsResolved,
                rs_RowsConfirmed = rowsConfirmed, rs_ConfirmedAt = databaseTime,
                rs_Duplicate = (mirrorsResolved = 0 \<and> rowsConfirmed = 0)\<rparr>,
              fold (converge_step (rb_TripID rq) databaseTime) covered d)))"

definition ResolveCanonicalBootstrap ::
  "clock \<Rightarrow> ResolveCanonicalBootstrapRequest \<Rightarrow> db \<Rightarrow> ResolvedCanonicalBootstrap result \<times> db" where
  "ResolveCanonicalBootstrap clk rq d =
     (case validateCanonicalBootstrapResolution rq of
        Inl x \<Rightarrow> (Inl x, d)
      | Inr _ \<Rightarrow> run_tx (ResolveCanonicalBootstrap_tx clk rq) d)"

section \<open>Facts on mirrors\<close>

lemma identity_ignores_sync [simp]:
  "canonicalMirrorIdentityMatches rq (i\<lparr>i_runtime_sync_state := s\<rparr>) = canonicalMirrorIdentityMatches rq i"
  by (simp add: canonicalMirrorIdentityMatches_def)

lemma mirror_rows_InrD:
  assumes "mirror_rows rq d = Inr (i, b)"
  shows "find_trip (fm_TripID rq) d \<noteq> None"
    "query_row (\<lambda>i. i_id i = fm_IntentID rq \<and> i_trip_id i = fm_TripID rq \<and> i_application_order i = CanonicalFirst)
       (command_intents d) = Some i"
    "query_row (\<lambda>b. o_id b = fm_OutboxID rq \<and> o_command_intent_id b = fm_IntentID rq \<and> o_trip_id b = fm_TripID rq)
       (planner_outbox d) = Some b"
  using assms by (auto simp: mirror_rows_def lockCanonicalMirrorTrip_def bindr_eq_Inr split: option.splits)

lemma mirror_rowsI:
  assumes "find_trip (fm_TripID rq) d \<noteq> None"
    "query_row (\<lambda>i. i_id i = fm_IntentID rq \<and> i_trip_id i = fm_TripID rq \<and> i_application_order i = CanonicalFirst)
       (command_intents d) = Some i"
    "query_row (\<lambda>b. o_id b = fm_OutboxID rq \<and> o_command_intent_id b = fm_IntentID rq \<and> o_trip_id b = fm_TripID rq)
       (planner_outbox d) = Some b"
  shows "mirror_rows rq d = Inr (i, b)"
  using assms by (auto simp: mirror_rows_def lockCanonicalMirrorTrip_def)

text \<open>The outcomes of an acknowledgement: a duplicate, a refusal without effect, a pause, an acceptance.\<close>

lemma FinalizeCanonicalMirror_cases:
  obtains (refused) x where "FinalizeCanonicalMirror clk rq d = (Inl x, d)"
  | (duplicate) i b where "mirror_rows rq d = Inr (i, b)" "canonicalMirrorIdentityMatches rq i"
      "i_runtime_sync_state i = Synced" "o_delivery_state b = DeliveryAccepted"
      "FinalizeCanonicalMirror clk rq d = (Inr (canonicalMirrorResult rq (fm_ResultingCurrentPlanID rq) Synced DeliveryAccepted True), d)"
  | (paused) i b where "mirror_rows rq d = Inr (i, b)" "\<not> canonicalMirrorIdentityMatches rq i"
      "i_runtime_sync_state i = SyncPending" "o_delivery_state b = DeliveryPending"
      "FinalizeCanonicalMirror clk rq d =
        (Inl ErrCanonicalMirrorIdentity, pauseCanonicalMirror clk (fm_IntentID rq) (fm_OutboxID rq) d)"
  | (accepted) i b where "mirror_rows rq d = Inr (i, b)" "canonicalMirrorIdentityMatches rq i"
      "i_runtime_sync_state i = SyncPending" "o_delivery_state b = DeliveryPending"
      "FinalizeCanonicalMirror clk rq d =
        (Inr (canonicalMirrorResult rq (fm_ResultingCurrentPlanID rq) Synced DeliveryAccepted False), accept_mirror rq (clk 0) d)"
proof (cases "validateCanonicalMirrorFinalization rq")
  case (Inl x)
  then show ?thesis by (intro refused) (simp add: FinalizeCanonicalMirror_def)
next
  case valid: (Inr u)
  show ?thesis
  proof (cases "mirror_rows rq d")
    case (Inl x)
    then show ?thesis by (intro refused) (simp add: FinalizeCanonicalMirror_def FinalizeCanonicalMirror_tx_def valid)
  next
    case (Inr ib)
    obtain i b where rows: "mirror_rows rq d = Inr (i, b)" using Inr by (cases ib) simp
    have pid: "canonicalMirrorIdentityMatches rq i \<Longrightarrow>
        (case i_resulting_current_plan_id i of None \<Rightarrow> [] | Some pid \<Rightarrow> pid) = fm_ResultingCurrentPlanID rq"
      by (auto simp: canonicalMirrorIdentityMatches_def split: if_splits option.splits)
    note simps = FinalizeCanonicalMirror_def FinalizeCanonicalMirror_tx_def valid rows Let_def
    show ?thesis
    proof (cases "i_runtime_sync_state i = Synced \<or> o_delivery_state b = DeliveryAccepted")
      case True
      then show ?thesis
      proof (cases "canonicalMirrorIdentityMatches rq i \<and> i_runtime_sync_state i = Synced \<and> o_delivery_state b = DeliveryAccepted")
        case True
        then show ?thesis using duplicate [OF rows] by (simp add: simps pid)
      next
        case False
        with \<open>i_runtime_sync_state i = Synced \<or> o_delivery_state b = DeliveryAccepted\<close>
        show ?thesis by (intro refused) (simp add: simps)
      qed
    next
      case False
      show ?thesis
      proof (cases "i_runtime_sync_state i = SyncPending \<and> o_delivery_state b = DeliveryPending")
        case True
        then show ?thesis using paused [OF rows] accepted [OF rows] by (cases "canonicalMirrorIdentityMatches rq i") (simp_all add: simps pid)
      next
        case other: False
        have "\<exists>x. FinalizeCanonicalMirror clk rq d = (Inl x, d)"
          using False other by (simp add: simps)
        then show ?thesis using refused by blast
      qed
    qed
  qed
qed

lemma FinalizeCanonicalMirror_refused_paused:
  assumes "validateCanonicalMirrorFinalization rq = Inr u" "mirror_rows rq d = Inr (i, b)"
    "i_runtime_sync_state i = SyncPausedInternal" "o_delivery_state b = DeliveryPausedInternal"
  shows "FinalizeCanonicalMirror clk rq d = (Inl ErrCanonicalMirrorPaused, d)"
  using assms by (simp add: FinalizeCanonicalMirror_def FinalizeCanonicalMirror_tx_def Let_def)

lemma schema_pauseCanonicalMirror: "schema_ok d \<Longrightarrow> schema_ok (pauseCanonicalMirror clk iid oid d)"
  unfolding schema_ok_def pauseCanonicalMirror_def
  by (auto intro!: intents_ok_update outbox_ok_update simp: intent_check_def outbox_check_def)

lemma schema_accept_mirror: "schema_ok d \<Longrightarrow> schema_ok (accept_mirror rq now d)"
  unfolding schema_ok_def accept_mirror_def
  by (auto intro!: intents_ok_update outbox_ok_update simp: intent_check_def outbox_check_def)

lemma schema_FinalizeCanonicalMirror: "schema_ok d \<Longrightarrow> schema_ok (snd (FinalizeCanonicalMirror clk rq d))"
  by (rule FinalizeCanonicalMirror_cases [of clk rq d]) (simp_all add: schema_pauseCanonicalMirror schema_accept_mirror)

interpretation mirror: store_op FinalizeCanonicalMirror
  by unfold_locales (rule schema_FinalizeCanonicalMirror)

text \<open>The rows found again after an acceptance and after a pause.\<close>

lemma mirror_rows_after_accept:
  assumes "mirror_rows rq d = Inr (i, b)" "i_runtime_sync_state i = SyncPending" "o_delivery_state b = DeliveryPending"
  shows "mirror_rows rq (accept_mirror rq now d) = Inr (i\<lparr>i_runtime_sync_state := Synced\<rparr>,
    b\<lparr>o_delivery_state := DeliveryAccepted, o_last_status := Some ''OK'', o_claim_owner := None,
      o_claim_expires_at := None, o_updated_at := now\<rparr>)"
proof (rule mirror_rowsI)
  note D = mirror_rows_InrD [OF assms(1)]
  show "find_trip (fm_TripID rq) (accept_mirror rq now d) \<noteq> None"
    using D(1) by (simp add: find_trip_def accept_mirror_def)
  show "query_row (\<lambda>i. i_id i = fm_IntentID rq \<and> i_trip_id i = fm_TripID rq \<and> i_application_order i = CanonicalFirst)
      (command_intents (accept_mirror rq now d)) = Some (i\<lparr>i_runtime_sync_state := Synced\<rparr>)"
    using query_row_update [OF D(2), of "\<lambda>i. i_id i = fm_IntentID rq \<and> i_trip_id i = fm_TripID rq \<and> i_runtime_sync_state i = SyncPending"
        "\<lambda>i. i\<lparr>i_runtime_sync_state := Synced\<rparr>"] query_row_SomeD [OF D(2)] assms(2)
    by (simp add: accept_mirror_def)
  show "query_row (\<lambda>b. o_id b = fm_OutboxID rq \<and> o_command_intent_id b = fm_IntentID rq \<and> o_trip_id b = fm_TripID rq)
      (planner_outbox (accept_mirror rq now d)) = Some (b\<lparr>o_delivery_state := DeliveryAccepted, o_last_status := Some ''OK'',
        o_claim_owner := None, o_claim_expires_at := None, o_updated_at := now\<rparr>)"
    using query_row_update [OF D(3), of "\<lambda>b. o_id b = fm_OutboxID rq \<and> o_command_intent_id b = fm_IntentID rq \<and>
          o_trip_id b = fm_TripID rq \<and> o_delivery_state b = DeliveryPending"
        "\<lambda>b. b\<lparr>o_delivery_state := DeliveryAccepted, o_last_status := Some ''OK'',
        o_claim_owner := None, o_claim_expires_at := None, o_updated_at := now\<rparr>"] query_row_SomeD [OF D(3)] assms(3)
    by (simp add: accept_mirror_def)
qed

lemma mirror_rows_after_pause:
  assumes "mirror_rows rq d = Inr (i, b)" "i_runtime_sync_state i = SyncPending" "o_delivery_state b = DeliveryPending"
  shows "mirror_rows rq (pauseCanonicalMirror clk (fm_IntentID rq) (fm_OutboxID rq) d) =
    Inr (i\<lparr>i_runtime_sync_state := SyncPausedInternal\<rparr>,
      b\<lparr>o_delivery_state := DeliveryPausedInternal, o_last_status := Some ''INTERNAL'', o_claim_owner := None,
        o_claim_expires_at := None, o_updated_at := clk 0\<rparr>)"
proof (rule mirror_rowsI)
  note D = mirror_rows_InrD [OF assms(1)]
  let ?d = "pauseCanonicalMirror clk (fm_IntentID rq) (fm_OutboxID rq) d"
  show "find_trip (fm_TripID rq) ?d \<noteq> None"
    using D(1) by (simp add: find_trip_def pauseCanonicalMirror_def)
  show "query_row (\<lambda>i. i_id i = fm_IntentID rq \<and> i_trip_id i = fm_TripID rq \<and> i_application_order i = CanonicalFirst)
      (command_intents ?d) = Some (i\<lparr>i_runtime_sync_state := SyncPausedInternal\<rparr>)"
    using query_row_update [OF D(2), of "\<lambda>i. i_id i = fm_IntentID rq \<and> i_runtime_sync_state i = SyncPending"
        "\<lambda>i. i\<lparr>i_runtime_sync_state := SyncPausedInternal\<rparr>"] query_row_SomeD [OF D(2)] assms(2)
    by (simp add: pauseCanonicalMirror_def)
  show "query_row (\<lambda>b. o_id b = fm_OutboxID rq \<and> o_command_intent_id b = fm_IntentID rq \<and> o_trip_id b = fm_TripID rq)
      (planner_outbox ?d) = Some (b\<lparr>o_delivery_state := DeliveryPausedInternal, o_last_status := Some ''INTERNAL'',
        o_claim_owner := None, o_claim_expires_at := None, o_updated_at := clk 0\<rparr>)"
    using query_row_update [OF D(3), of "\<lambda>b. o_id b = fm_OutboxID rq \<and> o_delivery_state b = DeliveryPending"
        "\<lambda>b. b\<lparr>o_delivery_state := DeliveryPausedInternal, o_last_status := Some ''INTERNAL'',
        o_claim_owner := None, o_claim_expires_at := None, o_updated_at := clk 0\<rparr>"] query_row_SomeD [OF D(3)] assms(3)
    by (simp add: pauseCanonicalMirror_def)
qed

lemma FinalizeCanonicalMirror_valid:
  "fst (FinalizeCanonicalMirror clk rq d) = Inr r \<or> fst (FinalizeCanonicalMirror clk rq d) = Inl ErrCanonicalMirrorIdentity \<Longrightarrow>
     validateCanonicalMirrorFinalization rq = Inr ()"
  by (cases "validateCanonicalMirrorFinalization rq")
    (auto simp: FinalizeCanonicalMirror_def validateCanonicalMirrorFinalization_def split: if_splits)

lemma FinalizeCanonicalMirror_repeat:
  assumes "FinalizeCanonicalMirror clk rq d = (Inr r, d')"
  shows "FinalizeCanonicalMirror clk' rq d' = (Inr (r\<lparr>fz_Duplicate := True\<rparr>), d')"
proof -
  have v: "validateCanonicalMirrorFinalization rq = Inr ()"
    using FinalizeCanonicalMirror_valid [of clk rq d r] assms by simp
  have "\<exists>i b. mirror_rows rq d' = Inr (i, b) \<and> canonicalMirrorIdentityMatches rq i \<and> i_runtime_sync_state i = Synced \<and>
      o_delivery_state b = DeliveryAccepted \<and>
      r\<lparr>fz_Duplicate := True\<rparr> = canonicalMirrorResult rq (fm_ResultingCurrentPlanID rq) Synced DeliveryAccepted True"
  proof (rule FinalizeCanonicalMirror_cases [of clk rq d])
    fix i b assume "mirror_rows rq d = Inr (i, b)" "canonicalMirrorIdentityMatches rq i" "i_runtime_sync_state i = SyncPending"
      "o_delivery_state b = DeliveryPending" "FinalizeCanonicalMirror clk rq d =
        (Inr (canonicalMirrorResult rq (fm_ResultingCurrentPlanID rq) Synced DeliveryAccepted False), accept_mirror rq (clk 0) d)"
    then show ?thesis
      using assms mirror_rows_after_accept [of rq d i b "clk 0"]
      by (auto simp: canonicalMirrorResult_def)
  qed (use assms in \<open>auto simp: canonicalMirrorResult_def\<close>)
  then obtain i b where rows: "mirror_rows rq d' = Inr (i, b)" "canonicalMirrorIdentityMatches rq i"
    "i_runtime_sync_state i = Synced" "o_delivery_state b = DeliveryAccepted"
    and r: "r\<lparr>fz_Duplicate := True\<rparr> = canonicalMirrorResult rq (fm_ResultingCurrentPlanID rq) Synced DeliveryAccepted True"
    by blast
  have "(case i_resulting_current_plan_id i of None \<Rightarrow> [] | Some pid \<Rightarrow> pid) = fm_ResultingCurrentPlanID rq"
    using rows(2) by (auto simp: canonicalMirrorIdentityMatches_def split: if_splits option.splits)
  then show ?thesis
    using rows v by (simp add: FinalizeCanonicalMirror_def FinalizeCanonicalMirror_tx_def r)
qed

interpretation mirror_once: idempotent_store_op FinalizeCanonicalMirror "\<lambda>_ _. True"
  by unfold_locales (blast dest: FinalizeCanonicalMirror_repeat)

section \<open>Facts on bootstraps\<close>

text \<open>Updates that are addressed by keys: with distinct keys each row meets at most one of them.\<close>

lemma fold_keyed_miss: "\<forall>x\<in>set xs. k x \<noteq> key r \<Longrightarrow> fold (\<lambda>x r. if key r = k x \<and> Q r then f x r else r) xs r = r"
  by (induction xs) auto

lemma fold_keyed_hit:
  assumes "distinct (map k xs)" "x \<in> set xs" "k x = key r" "Q r" "\<And>x r. key (f x r) = key r"
  shows "fold (\<lambda>x r. if key r = k x \<and> Q r then f x r else r) xs r = f x r"
  using assms(1-4)
proof (induction xs arbitrary: r)
  case (Cons y ys)
  show ?case
  proof (cases "y = x")
    case True
    then have "\<forall>z\<in>set ys. k z \<noteq> key (f x r)" using Cons.prems by (auto simp: assms(5)) (metis imageI)
    from fold_keyed_miss [where f = f and key = key and k = k and Q = Q, OF this] show ?thesis using True Cons.prems by simp
  next
    case False
    then have "k y \<noteq> key r" "x \<in> set ys" using Cons.prems by (auto simp: rev_image_eqI)
    then show ?thesis using Cons by simp
  qed
qed simp

lemma distinct_join:
  assumes "distinct (map kb bs)" "\<And>b. length (filter (\<lambda>a. P a b) as) \<le> 1" "\<And>a b. P a b \<Longrightarrow> key (a, b) = kb b"
  shows "distinct (map key [(a, b). b \<leftarrow> bs, a \<leftarrow> as, P a b])"
  using assms(1)
proof (induction bs)
  case (Cons b bs)
  have row: "concat (map (\<lambda>a. if P a b then [(a, b)] else []) as) = map (\<lambda>a. (a, b)) (filter (\<lambda>a. P a b) as)"
    by (induction as) auto
  have "distinct (map key (map (\<lambda>a. (a, b)) (filter (\<lambda>a. P a b) as)))"
    using assms(2) [of b] by (cases "filter (\<lambda>a. P a b) as") (auto simp: le_Suc_eq)
  moreover have "key ` set (map (\<lambda>a. (a, b)) (filter (\<lambda>a. P a b) as)) \<subseteq> {kb b}" using assms(3) by auto
  moreover have "key ` set [(a, b). b \<leftarrow> bs, a \<leftarrow> as, P a b] \<subseteq> kb ` set bs" using assms(3) by auto
  ultimately show ?case using Cons unfolding list.map concat.simps row map_append distinct_append
    by auto (metis assms(3) imageI)
qed simp

lemma unique_key_filter:
  assumes "distinct (map key as)" "\<And>a. P a \<Longrightarrow> key a = x"
  shows "length (filter P as) \<le> 1"
  using assms
proof (induction as)
  case (Cons a as)
  have "P a \<Longrightarrow> filter P as = []" using Cons.prems by (fastforce simp: filter_empty_conv)
  then show ?case using Cons by auto
qed simp

lemma covered_mirrors_iff:
  "(i, b) \<in> set (covered_mirrors rq d) \<longleftrightarrow> i \<in> set (command_intents d) \<and> b \<in> set (planner_outbox d) \<and> covers rq i b"
  by (auto simp: covered_mirrors_def)

lemma covered_mirrors_distinct:
  assumes "schema_ok d"
  shows "distinct (map (\<lambda>(i, b). i_id i) (covered_mirrors rq d))" "distinct (map (\<lambda>(i, b). o_id b) (covered_mirrors rq d))"
proof -
  let ?j = "[(i, b). b \<leftarrow> planner_outbox d, i \<leftarrow> command_intents d, covers rq i b]"
  have ids: "distinct (map i_id (command_intents d))" "distinct (map o_id (planner_outbox d))"
    "distinct (map o_command_intent_id (planner_outbox d))"
    using assms by (simp_all add: schema_ok_def intents_ok_def outbox_ok_def)
  have one: "length (filter (\<lambda>i. covers rq i b) (command_intents d)) \<le> 1" for b
    by (rule unique_key_filter [OF ids(1), of _ "o_command_intent_id b"]) (simp add: covers_def)
  have "distinct (map (\<lambda>(i, b). i_id i) ?j)"
    by (rule distinct_join [OF ids(3) one]) (simp add: covers_def)
  moreover have "distinct (map (\<lambda>(i, b). o_id b) ?j)"
    by (rule distinct_join [OF ids(2) one]) simp
  moreover have "distinct (map k (covered_mirrors rq d)) \<longleftrightarrow> distinct (map k ?j)" for k :: "_ \<Rightarrow> uuid"
    by (rule mset_eq_imp_distinct_iff) (simp only: covered_mirrors_def mset_map mset_sort)
  ultimately show "distinct (map (\<lambda>(i, b). i_id i) (covered_mirrors rq d))" "distinct (map (\<lambda>(i, b). o_id b) (covered_mirrors rq d))"
    by blast+
qed

definition converged_intent :: "uuid \<Rightarrow> (intent_row \<times> outbox_row) list \<Rightarrow> intent_row \<Rightarrow> intent_row" where
  "converged_intent tid xs = fold (\<lambda>m r. if i_id r = (case m of (i, b) \<Rightarrow> i_id i) \<and> i_trip_id r = tid
     then converge_intent (fst m) r else r) xs"

definition converged_outbox :: "uuid \<Rightarrow> time \<Rightarrow> (intent_row \<times> outbox_row) list \<Rightarrow> outbox_row \<Rightarrow> outbox_row" where
  "converged_outbox tid now xs = fold (\<lambda>m r. if o_id r = (case m of (i, b) \<Rightarrow> o_id b) \<and> o_trip_id r = tid
     then converge_outbox now (fst m) (snd m) r else r) xs"

lemma converge_fold:
  "fold (converge_step tid now) xs d = d\<lparr>command_intents := map (converged_intent tid xs) (command_intents d),
     planner_outbox := map (converged_outbox tid now xs) (planner_outbox d)\<rparr>"
proof (induction xs arbitrary: d)
  case (Cons m xs)
  obtain i b where "m = (i, b)" by (cases m)
  then show ?case
    using Cons by (simp add: converge_step_def converged_intent_def converged_outbox_def sql_update_def comp_def)
qed (simp add: converged_intent_def converged_outbox_def)

lemma converge_keys [simp]:
  "i_id (converge_intent i r) = i_id r" "i_trip_id (converge_intent i r) = i_trip_id r"
  "o_id (converge_outbox now i b q) = o_id q" "o_trip_id (converge_outbox now i b q) = o_trip_id q"
  "o_command_intent_id (converge_outbox now i b q) = o_command_intent_id q"
  "o_mutation_sequence (converge_outbox now i b q) = o_mutation_sequence q"
  "i_application_order (converge_intent i r) = i_application_order r"
  by (simp_all add: converge_intent_def converge_outbox_def)

lemma converged_keys [simp]:
  "i_id (converged_intent tid xs r) = i_id r" "i_trip_id (converged_intent tid xs r) = i_trip_id r"
  "i_application_order (converged_intent tid xs r) = i_application_order r"
  "o_id (converged_outbox tid now xs q) = o_id q" "o_trip_id (converged_outbox tid now xs q) = o_trip_id q"
  "o_command_intent_id (converged_outbox tid now xs q) = o_command_intent_id q"
  "o_mutation_sequence (converged_outbox tid now xs q) = o_mutation_sequence q"
proof -
  show "i_id (converged_intent tid xs r) = i_id r" "i_trip_id (converged_intent tid xs r) = i_trip_id r"
    "i_application_order (converged_intent tid xs r) = i_application_order r"
    unfolding converged_intent_def by (induction xs arbitrary: r) auto
  show "o_id (converged_outbox tid now xs q) = o_id q" "o_trip_id (converged_outbox tid now xs q) = o_trip_id q"
    "o_command_intent_id (converged_outbox tid now xs q) = o_command_intent_id q"
    "o_mutation_sequence (converged_outbox tid now xs q) = o_mutation_sequence q"
    unfolding converged_outbox_def by (induction xs arbitrary: q) auto
qed

text \<open>An outbox row carries the trip of its intent.\<close>

definition outbox_linked :: "db \<Rightarrow> bool" where
  "outbox_linked d \<longleftrightarrow> (\<forall>b\<in>set (planner_outbox d). \<forall>i\<in>set (command_intents d).
     o_command_intent_id b = i_id i \<longrightarrow> o_trip_id b = i_trip_id i)"

lemma converged_covered:
  assumes "schema_ok d" "outbox_linked d" "(i, b) \<in> set (covered_mirrors rq d)"
  shows "converged_intent (rb_TripID rq) (covered_mirrors rq d) i = converge_intent i i"
    "converged_outbox (rb_TripID rq) now (covered_mirrors rq d) b = converge_outbox now i b b"
proof -
  have m: "i_trip_id i = rb_TripID rq" "o_trip_id b = rb_TripID rq"
    using assms(2,3) by (auto simp: covered_mirrors_iff covers_def outbox_linked_def)
  show "converged_intent (rb_TripID rq) (covered_mirrors rq d) i = converge_intent i i"
    unfolding converged_intent_def
    using fold_keyed_hit [where k = "\<lambda>(i, b). i_id i" and key = i_id and f = "\<lambda>m. converge_intent (fst m)" and
        Q = "\<lambda>r. i_trip_id r = rb_TripID rq", OF covered_mirrors_distinct(1) [OF assms(1)] assms(3)] m by simp
  show "converged_outbox (rb_TripID rq) now (covered_mirrors rq d) b = converge_outbox now i b b"
    unfolding converged_outbox_def
    using fold_keyed_hit [where k = "\<lambda>(i, b). o_id b" and key = o_id and f = "\<lambda>m. converge_outbox now (fst m) (snd m)" and
        Q = "\<lambda>r. o_trip_id r = rb_TripID rq", OF covered_mirrors_distinct(2) [OF assms(1)] assms(3)] m by simp
qed

lemma converged_uncovered:
  assumes "schema_ok d"
  shows "i \<in> set (command_intents d) \<Longrightarrow> \<forall>b\<in>set (planner_outbox d). \<not> covers rq i b \<Longrightarrow>
      converged_intent tid (covered_mirrors rq d) i = i"
    "b \<in> set (planner_outbox d) \<Longrightarrow> \<forall>i\<in>set (command_intents d). \<not> covers rq i b \<Longrightarrow>
      converged_outbox tid now (covered_mirrors rq d) b = b"
proof -
  have ids: "distinct (map i_id (command_intents d))" "distinct (map o_id (planner_outbox d))"
    using assms by (simp_all add: schema_ok_def intents_ok_def outbox_ok_def)
  show "converged_intent tid (covered_mirrors rq d) i = i"
    if "i \<in> set (command_intents d)" "\<forall>b\<in>set (planner_outbox d). \<not> covers rq i b"
    unfolding converged_intent_def
    by (rule fold_keyed_miss) (use that distinct_key_unique [OF ids(1) that(1)] in \<open>fastforce simp: covered_mirrors_iff\<close>)
  show "converged_outbox tid now (covered_mirrors rq d) b = b"
    if "b \<in> set (planner_outbox d)" "\<forall>i\<in>set (command_intents d). \<not> covers rq i b"
    unfolding converged_outbox_def
    by (rule fold_keyed_miss) (use that distinct_key_unique [OF ids(2) that(1)] in \<open>fastforce simp: covered_mirrors_iff\<close>)
qed

lemma outbox_linked_converged:
  "outbox_linked d \<Longrightarrow> outbox_linked (fold (converge_step tid now) xs d)"
  by (simp add: outbox_linked_def converge_fold)

text \<open>The rows of the two tables after the last loop.\<close>

lemma converged_intent_row:
  assumes "schema_ok d" "outbox_linked d" "i \<in> set (command_intents d)"
  shows "converged_intent (rb_TripID rq) (covered_mirrors rq d) i =
    (if (\<exists>b\<in>set (planner_outbox d). covers rq i b) \<and> i_application_order i = CanonicalFirst \<and>
        (i_runtime_sync_state i = SyncPending \<or> i_runtime_sync_state i = SyncPausedInternal)
     then i\<lparr>i_runtime_sync_state := Synced\<rparr> else i)"
proof (cases "\<exists>b\<in>set (planner_outbox d). covers rq i b")
  case True
  then obtain b where "(i, b) \<in> set (covered_mirrors rq d)" using assms(3) by (auto simp: covered_mirrors_iff)
  from converged_covered(1) [OF assms(1,2) this] True show ?thesis by (simp add: converge_intent_def)
next
  case False
  with converged_uncovered(1) [OF assms(1,3), of rq] show ?thesis by simp
qed

lemma converged_outbox_row:
  assumes "schema_ok d" "outbox_linked d" "\<not> list_ex blocks_bootstrap (covered_mirrors rq d)" "b \<in> set (planner_outbox d)"
  shows "converged_outbox (rb_TripID rq) now (covered_mirrors rq d) b =
    (if \<exists>i\<in>set (command_intents d). covers rq i b
     then if o_delivery_state b = DeliveryPending \<or> o_delivery_state b = DeliveryPausedInternal
       then b\<lparr>o_delivery_state := DeliveryAccepted, o_last_status := Some ''OK'', o_claim_owner := None,
         o_claim_expires_at := None, o_finalization_confirmed_at := Some now, o_updated_at := now\<rparr>
       else if o_finalization_confirmed_at b = None
       then b\<lparr>o_finalization_confirmed_at := Some now, o_updated_at := now\<rparr> else b
     else b)"
proof (cases "\<exists>i\<in>set (command_intents d). covers rq i b")
  case True
  then obtain i where i: "(i, b) \<in> set (covered_mirrors rq d)" using assms(4) by (auto simp: covered_mirrors_iff)
  then have "\<not> blocks_bootstrap (i, b)" using assms(3) by (auto simp: list_ex_iff)
  then have "i_application_order i = CanonicalFirst" if "o_delivery_state b = DeliveryPending \<or> o_delivery_state b = DeliveryPausedInternal"
    using that by (cases "i_application_order i") (auto simp: blocks_bootstrap_def)
  with converged_covered(2) [OF assms(1,2) i, of now] True show ?thesis by (auto simp: converge_outbox_def)
next
  case False
  with converged_uncovered(2) [OF assms(1,4), of rq] show ?thesis by simp
qed

lemma ResolveCanonicalBootstrap_success:
  assumes "ResolveCanonicalBootstrap clk rq d = (Inr r, d')"
  obtains t now where "validateCanonicalBootstrapResolution rq = Inr ()" "find_trip (rb_TripID rq) d = Some t"
    "t_current_plan_id t = Some (rb_CurrentPlanID rq)" "t_trip_revision t = int64 (rb_TripRevision rq)"
    "t_finalized_mutation_sequence t = int64 (rb_FinalizedMutationSequence rq)"
    "rb_AcceptedMutationSequence rq = rb_FinalizedMutationSequence rq"
    "\<not> list_ex blocks_bootstrap (covered_mirrors rq d)"
    "d' = fold (converge_step (rb_TripID rq) now) (covered_mirrors rq d) d" "now = rs_ConfirmedAt r"
proof -
  have v: "validateCanonicalBootstrapResolution rq = Inr ()" and tx: "ResolveCanonicalBootstrap_tx clk rq d = Inr (r, d')"
    using assms by (simp_all add: ResolveCanonicalBootstrap_def run_tx_Inr split: sum.splits)
  from tx obtain t c where t: "find_trip (rb_TripID rq) d = Some t" "t_current_plan_id t = Some c"
    by (auto simp: ResolveCanonicalBootstrap_tx_def split: option.splits)
  show thesis
    using tx t that [OF v t(1)] by (auto simp: ResolveCanonicalBootstrap_tx_def Let_def split: if_splits)
qed

lemma intent_check_sync [simp]: "intent_check (i\<lparr>i_runtime_sync_state := s\<rparr>) = intent_check i"
  by (simp add: intent_check_def)

lemma converged_intents_ok: "intents_ok t \<Longrightarrow> intents_ok (map (converged_intent tid xs) t)"
proof (induction xs arbitrary: t)
  case (Cons m xs)
  obtain i b where "m = (i, b)" by (cases m)
  then have "map (converged_intent tid (m # xs)) t = map (converged_intent tid xs)
      (sql_update (\<lambda>r. i_id r = i_id i \<and> i_trip_id r = tid) (converge_intent i) t)"
    by (simp add: converged_intent_def sql_update_def)
  moreover have "intents_ok (sql_update (\<lambda>r. i_id r = i_id i \<and> i_trip_id r = tid) (converge_intent i) t)"
    by (rule intents_ok_update [OF Cons.prems]) (simp_all add: converge_intent_def)
  ultimately show ?case using Cons.IH by simp
qed (simp add: converged_intent_def)

lemma converged_outbox_ok: "outbox_ok t \<Longrightarrow> outbox_ok (map (converged_outbox tid now xs) t)"
proof (induction xs arbitrary: t)
  case (Cons m xs)
  obtain i b where "m = (i, b)" by (cases m)
  then have "map (converged_outbox tid now (m # xs)) t = map (converged_outbox tid now xs)
      (sql_update (\<lambda>r. o_id r = o_id b \<and> o_trip_id r = tid) (converge_outbox now i b) t)"
    by (simp add: converged_outbox_def sql_update_def)
  moreover have "outbox_ok (sql_update (\<lambda>r. o_id r = o_id b \<and> o_trip_id r = tid) (converge_outbox now i b) t)"
    by (rule outbox_ok_update [OF Cons.prems]) (simp_all add: converge_outbox_def outbox_check_def)
  ultimately show ?case using Cons.IH by simp
qed (simp add: converged_outbox_def)

lemma schema_ResolveCanonicalBootstrap: "schema_ok d \<Longrightarrow> schema_ok (snd (ResolveCanonicalBootstrap clk rq d))"
proof (cases "fst (ResolveCanonicalBootstrap clk rq d)")
  case (Inr r)
  then obtain d' where s: "ResolveCanonicalBootstrap clk rq d = (Inr r, d')"
    by (cases "ResolveCanonicalBootstrap clk rq d") auto
  assume "schema_ok d"
  then show ?thesis
    by (rule_tac ResolveCanonicalBootstrap_success [OF s])
      (simp add: s converge_fold schema_ok_def converged_intents_ok converged_outbox_ok)
qed (auto simp: ResolveCanonicalBootstrap_def run_tx_def split: sum.splits)

interpretation bootstrap: atomic_store_op ResolveCanonicalBootstrap
  by unfold_locales (erule schema_ResolveCanonicalBootstrap,
    auto simp: ResolveCanonicalBootstrap_def run_tx_def split: sum.splits)

lemma bootstrap_resolved:
  assumes "schema_ok d" "outbox_linked d" "ResolveCanonicalBootstrap clk rq d = (Inr r, d')"
    "(i, b) \<in> set (covered_mirrors rq d')"
  shows "\<not> mirror_unresolved (i, b)" "\<not> blocks_bootstrap (i, b)" "o_finalization_confirmed_at b \<noteq> None"
proof -
  obtain now where nb: "\<not> list_ex blocks_bootstrap (covered_mirrors rq d)"
    and d': "d' = fold (converge_step (rb_TripID rq) now) (covered_mirrors rq d) d"
    by (rule ResolveCanonicalBootstrap_success [OF assms(3)])
  let ?F = "converged_intent (rb_TripID rq) (covered_mirrors rq d)" and ?G = "converged_outbox (rb_TripID rq) now (covered_mirrors rq d)"
  from assms(4) obtain j a where ja: "i = ?F j" "b = ?G a" "j \<in> set (command_intents d)" "a \<in> set (planner_outbox d)" "covers rq i b"
    by (auto simp: covered_mirrors_iff d' converge_fold)
  have mem: "(j, a) \<in> set (covered_mirrors rq d)"
    using ja by (simp add: covered_mirrors_iff covers_def)
  note eq = converged_covered(1) [OF assms(1,2) mem] converged_covered(2) [OF assms(1,2) mem, of now]
  from mem have "\<not> blocks_bootstrap (j, a)" using nb by (auto simp: list_ex_iff)
  then show "\<not> mirror_unresolved (i, b)" "\<not> blocks_bootstrap (i, b)" "o_finalization_confirmed_at b \<noteq> None"
    unfolding ja(1,2) eq
    by (auto simp: mirror_unresolved_def blocks_bootstrap_def converge_intent_def converge_outbox_def)
qed

lemma converge_resolved:
  assumes "\<forall>m\<in>set xs. \<not> mirror_unresolved m \<and> o_finalization_confirmed_at (snd m) \<noteq> None"
  shows "fold (converge_step tid now) xs d = d"
  using assms
proof (induction xs)
  case (Cons m xs)
  obtain i b where m: "m = (i, b)" by (cases m)
  have "sql_update P (converge_intent i) t = t" for P t
    using Cons.prems by (auto simp: m mirror_unresolved_def sql_update_def converge_intent_def intro!: map_idI)
  moreover have "sql_update P (converge_outbox now i b) t = t" for P t
    using Cons.prems by (auto simp: m mirror_unresolved_def sql_update_def converge_outbox_def intro!: map_idI)
  ultimately show ?case using Cons by (simp add: m converge_step_def)
qed simp

lemma ResolveCanonicalBootstrap_repeat:
  assumes "schema_ok d" "outbox_linked d" "ResolveCanonicalBootstrap clk rq d = (Inr r, d')"
  shows "\<exists>y. ResolveCanonicalBootstrap clk' rq d' = (Inr y, d') \<and> rs_Duplicate y"
proof -
  obtain t now where v: "validateCanonicalBootstrapResolution rq = Inr ()" and t: "find_trip (rb_TripID rq) d = Some t"
    "t_current_plan_id t = Some (rb_CurrentPlanID rq)" "t_trip_revision t = int64 (rb_TripRevision rq)"
    "t_finalized_mutation_sequence t = int64 (rb_FinalizedMutationSequence rq)"
    "rb_AcceptedMutationSequence rq = rb_FinalizedMutationSequence rq"
    and d': "d' = fold (converge_step (rb_TripID rq) now) (covered_mirrors rq d) d"
    by (rule ResolveCanonicalBootstrap_success [OF assms(3)])
  have t': "find_trip (rb_TripID rq) d' = Some t" using t(1) by (simp add: find_trip_def d' converge_fold)
  have res: "\<forall>m\<in>set (covered_mirrors rq d'). \<not> mirror_unresolved m \<and> o_finalization_confirmed_at (snd m) \<noteq> None"
    "\<not> list_ex blocks_bootstrap (covered_mirrors rq d')"
    using bootstrap_resolved [OF assms] by (auto simp: list_ex_iff)
  have "filter mirror_unresolved (covered_mirrors rq d') = []"
    "filter (\<lambda>(i, b). o_finalization_confirmed_at b = None) (covered_mirrors rq d') = []"
    using res(1) by (auto simp: filter_empty_conv)
  then show ?thesis
    using v t t' res(2) converge_resolved [OF res(1)]
    by (simp add: ResolveCanonicalBootstrap_def run_tx_def ResolveCanonicalBootstrap_tx_def Let_def)
qed

interpretation bootstrap_once: idempotent_store_op ResolveCanonicalBootstrap "\<lambda>_. outbox_linked"
  by unfold_locales (blast dest: ResolveCanonicalBootstrap_repeat)

section \<open>Samples\<close>

text \<open>The sample trip after an edit whose mirror is not delivered yet.\<close>

definition edited_intent :: intent_row where
  "edited_intent = (runtime_intent_row sample_record 2 [123, 125] 0)\<lparr>i_command_kind := CommandTripEdited,
     i_application_order := CanonicalFirst, i_state := IntentApplied, i_resulting_trip_revision := Some 2,
     i_resulting_current_plan_id := Some (sample_uuid CHR ''9''), i_runtime_sync_state := SyncPending\<rparr>"

definition mirrored_db :: db where
  "mirrored_db = queued_db\<lparr>command_intents := [edited_intent],
     trips := [sample_trip\<lparr>t_trip_revision := 2, t_next_mutation_sequence := 3, t_finalized_mutation_sequence := 2,
       t_current_plan_id := Some (sample_uuid CHR ''9'')\<rparr>]\<rparr>"

definition sample_mirror :: FinalizeCanonicalMirrorRequest where
  "sample_mirror = \<lparr>fm_TripID = sample_uuid CHR ''1'', fm_IntentID = sample_uuid CHR ''3'', fm_OutboxID = sample_uuid CHR ''4'',
     fm_EventID = sample_uuid CHR ''5'', fm_MutationSequence = 2, fm_ExpectedTripRevision = 1,
     fm_ResultingTripRevision = 2, fm_ResultingCurrentPlanID = sample_uuid CHR ''9''\<rparr>"

definition sample_bootstrap :: ResolveCanonicalBootstrapRequest where
  "sample_bootstrap = \<lparr>rb_TripID = sample_uuid CHR ''1'', rb_TripRevision = 2, rb_AcceptedMutationSequence = 2,
     rb_FinalizedMutationSequence = 2, rb_CurrentPlanID = sample_uuid CHR ''9''\<rparr>"

lemma schema_mirrored: "schema_ok mirrored_db"
  using schema_queued
  by (simp add: mirrored_db_def schema_ok_def trips_ok_def intents_ok_def edited_intent_def intent_check_def known_kind_def
      canonical_kind_def finalization_eval)

lemma linked_mirrored: "outbox_linked mirrored_db"
  by (simp add: outbox_linked_def mirrored_db_def edited_intent_def finalization_eval)

lemma sample_mirror_outcomes:
  "\<exists>r d'. FinalizeCanonicalMirror (\<lambda>_. 5) sample_mirror mirrored_db = (Inr r, d')"
  "\<exists>d'. FinalizeCanonicalMirror (\<lambda>_. 5) (sample_mirror\<lparr>fm_ResultingTripRevision := 7\<rparr>) mirrored_db =
     (Inl ErrCanonicalMirrorIdentity, d')"
  by (simp_all add: FinalizeCanonicalMirror_def FinalizeCanonicalMirror_tx_def validateCanonicalMirrorFinalization_def
      mirror_rows_def lockCanonicalMirrorTrip_def canonicalMirrorIdentityMatches_def sample_mirror_def mirrored_db_def
      edited_intent_def finalization_eval)

lemma sample_bootstrap_applies: "\<exists>r d'. ResolveCanonicalBootstrap (\<lambda>_. 5) sample_bootstrap mirrored_db = (Inr r, d')"
  by (simp add: ResolveCanonicalBootstrap_def validateCanonicalBootstrapResolution_def run_tx_def
      ResolveCanonicalBootstrap_tx_def covered_mirrors_def covers_def blocks_bootstrap_def sample_bootstrap_def mirrored_db_def
      edited_intent_def finalization_eval)

section \<open>Properties\<close>

text \<open>
  C23. A mirror acknowledgement takes effect exactly once: afterwards the outbox row is accepted and
  the intent synced, and every redelivery is answered as a duplicate without a change.
\<close>

theorem mirror_acknowledged_once:
  assumes "schema_ok d" "FinalizeCanonicalMirror clk rq d = (Inr r, d')"
  shows "fold (\<lambda>clk d. snd (FinalizeCanonicalMirror clk rq d)) clks d' = d' \<and>
    FinalizeCanonicalMirror clk' rq d' = (Inr (r\<lparr>fz_Duplicate := True\<rparr>), d') \<and>
    (\<exists>i\<in>set (command_intents d'). i_id i = fm_IntentID rq \<and> i_runtime_sync_state i = Synced \<and>
      i_resulting_current_plan_id i = Some (fz_ResultingCurrentPlanID r)) \<and>
    (\<exists>b\<in>set (planner_outbox d'). o_id b = fm_OutboxID rq \<and> o_delivery_state b = DeliveryAccepted)"
proof -
  have rep: "FinalizeCanonicalMirror clk' rq d' = (Inr (r\<lparr>fz_Duplicate := True\<rparr>), d')"
    by (rule FinalizeCanonicalMirror_repeat [OF assms(2)])
  have "\<exists>i b. mirror_rows rq d' = Inr (i, b) \<and> i_runtime_sync_state i = Synced \<and> o_delivery_state b = DeliveryAccepted \<and>
      i_resulting_current_plan_id i = Some (fz_ResultingCurrentPlanID r)"
  proof (rule FinalizeCanonicalMirror_cases [of clk' rq d'])
    fix i b assume a: "mirror_rows rq d' = Inr (i, b)" "canonicalMirrorIdentityMatches rq i" "i_runtime_sync_state i = Synced"
      "o_delivery_state b = DeliveryAccepted" "FinalizeCanonicalMirror clk' rq d' =
        (Inr (canonicalMirrorResult rq (fm_ResultingCurrentPlanID rq) Synced DeliveryAccepted True), d')"
    have "fz_ResultingCurrentPlanID (r\<lparr>fz_Duplicate := True\<rparr>) = fm_ResultingCurrentPlanID rq"
      using a(5) rep by (simp add: canonicalMirrorResult_def)
    then show ?thesis using a(1-4) by (auto simp: canonicalMirrorIdentityMatches_def split: if_splits option.splits)
  qed (use rep in \<open>auto simp: canonicalMirrorResult_def dest: arg_cong [of _ _ fz_Duplicate]\<close>)
  then obtain i b where rows: "mirror_rows rq d' = Inr (i, b)" "i_runtime_sync_state i = Synced" "o_delivery_state b = DeliveryAccepted"
      "i_resulting_current_plan_id i = Some (fz_ResultingCurrentPlanID r)" by blast
  show ?thesis
    using rep rows(2-4) query_row_SomeD [OF mirror_rows_InrD(2) [OF rows(1)]] query_row_SomeD [OF mirror_rows_InrD(3) [OF rows(1)]]
      mirror_once.redelivery [OF assms(1) _ assms(2)] by auto
qed

theorem mirror_acknowledged_once_witness:
  "\<exists>r d'. FinalizeCanonicalMirror (\<lambda>_. 5) sample_mirror mirrored_db = (Inr r, d') \<and>
     FinalizeCanonicalMirror (\<lambda>_. 6) sample_mirror d' = (Inr (r\<lparr>fz_Duplicate := True\<rparr>), d')"
proof -
  obtain r d' where s: "FinalizeCanonicalMirror (\<lambda>_. 5) sample_mirror mirrored_db = (Inr r, d')"
    using sample_mirror_outcomes(1) by blast
  from mirror_acknowledged_once [OF schema_mirrored s, of "[]" "\<lambda>_. 6"] s show ?thesis by blast
qed

text \<open>
  C24. An acknowledgement that does not match the stored identity pauses the mirror durably: whatever
  acknowledgement of the same rows comes next, a matching one included, is refused as paused and
  changes nothing, so a mirror with a mismatch is never accepted by this path.
\<close>

theorem mirror_mismatch_pauses:
  assumes "FinalizeCanonicalMirror clk rq d = (Inl ErrCanonicalMirrorIdentity, d')"
    "fm_TripID rq' = fm_TripID rq" "fm_IntentID rq' = fm_IntentID rq" "fm_OutboxID rq' = fm_OutboxID rq"
    "validateCanonicalMirrorFinalization rq' = Inr ()"
  shows "FinalizeCanonicalMirror clk' rq' d' = (Inl ErrCanonicalMirrorPaused, d')"
proof -
  have v: "validateCanonicalMirrorFinalization rq = Inr ()"
    using FinalizeCanonicalMirror_valid [of clk rq d] assms(1) by simp
  obtain ib where ib: "mirror_rows rq d = Inr ib"
    using assms(1) v
    by (cases "mirror_rows rq d")
      (auto simp: FinalizeCanonicalMirror_def FinalizeCanonicalMirror_tx_def mirror_rows_def lockCanonicalMirrorTrip_def
        split: option.splits)
  then have "\<exists>i b. mirror_rows rq d = Inr (i, b) \<and> i_runtime_sync_state i = SyncPending \<and> o_delivery_state b = DeliveryPending \<and>
      d' = pauseCanonicalMirror clk (fm_IntentID rq) (fm_OutboxID rq) d"
    using assms(1) v
    by (cases ib) (simp add: FinalizeCanonicalMirror_def FinalizeCanonicalMirror_tx_def Let_def split: if_splits)
  then obtain i b where a: "mirror_rows rq d = Inr (i, b)" "i_runtime_sync_state i = SyncPending" "o_delivery_state b = DeliveryPending"
    and d': "d' = pauseCanonicalMirror clk (fm_IntentID rq) (fm_OutboxID rq) d"
    by blast
  have "mirror_rows rq' d' = mirror_rows rq d'" unfolding mirror_rows_def assms(2-4) ..
  then show ?thesis
    using mirror_rows_after_pause [OF a, of clk] FinalizeCanonicalMirror_refused_paused [OF assms(5), of d'] by (simp add: d')
qed

theorem mirror_mismatch_pauses_witness:
  "\<exists>d'. FinalizeCanonicalMirror (\<lambda>_. 5) (sample_mirror\<lparr>fm_ResultingTripRevision := 7\<rparr>) mirrored_db =
       (Inl ErrCanonicalMirrorIdentity, d') \<and>
     FinalizeCanonicalMirror (\<lambda>_. 6) sample_mirror d' = (Inl ErrCanonicalMirrorPaused, d')"
proof -
  obtain d' where s: "FinalizeCanonicalMirror (\<lambda>_. 5) (sample_mirror\<lparr>fm_ResultingTripRevision := 7\<rparr>) mirrored_db =
      (Inl ErrCanonicalMirrorIdentity, d')"
    using sample_mirror_outcomes(2) by blast
  have "validateCanonicalMirrorFinalization sample_mirror = Inr ()"
    by (simp add: validateCanonicalMirrorFinalization_def sample_mirror_def MaxInt64_def)
  from mirror_mismatch_pauses [OF s _ _ _ this] s show ?thesis by auto
qed

text \<open>
  C25. A bootstrap resolves all it covers and nothing else. It covers the commands of the trip whose outbox
  event has a mutation sequence up to the finalized one. On success no covered runtime-first command was
  waiting for the runtime and its event was resolved; of the covered commands exactly the canonical-first ones
  whose mirror was pending or paused become synced; every covered event that was pending or paused becomes
  accepted and loses its claim, it and every other covered event without a confirmation is confirmed at the
  reported time; all other commands, events and tables stay as they were. An outbox event still carries the
  trip of its command, and repeating the call is a duplicate.
\<close>

theorem bootstrap_resolves_covered:
  assumes "schema_ok d" "outbox_linked d" "ResolveCanonicalBootstrap clk rq d = (Inr r, d')"
  shows "(\<forall>i\<in>set (command_intents d). \<forall>b\<in>set (planner_outbox d).
      i_trip_id i = rb_TripID rq \<and> o_command_intent_id b = i_id i \<and>
        o_mutation_sequence b \<le> int (rb_FinalizedMutationSequence rq) \<and> i_application_order i = RuntimeFirst \<longrightarrow>
      i_runtime_sync_state i \<noteq> SyncPending \<and> (o_delivery_state b = DeliveryAccepted \<or> o_delivery_state b = DeliveryTerminalRejected)) \<and>
    d' = d\<lparr>
      command_intents := map (\<lambda>i.
        if i_trip_id i = rb_TripID rq \<and> i_application_order i = CanonicalFirst \<and>
           (i_runtime_sync_state i = SyncPending \<or> i_runtime_sync_state i = SyncPausedInternal) \<and>
           (\<exists>b\<in>set (planner_outbox d). o_command_intent_id b = i_id i \<and> o_mutation_sequence b \<le> int (rb_FinalizedMutationSequence rq))
        then i\<lparr>i_runtime_sync_state := Synced\<rparr> else i) (command_intents d),
      planner_outbox := map (\<lambda>b.
        if o_mutation_sequence b \<le> int (rb_FinalizedMutationSequence rq) \<and>
           (\<exists>i\<in>set (command_intents d). i_id i = o_command_intent_id b \<and> i_trip_id i = rb_TripID rq)
        then if o_delivery_state b = DeliveryPending \<or> o_delivery_state b = DeliveryPausedInternal
          then b\<lparr>o_delivery_state := DeliveryAccepted, o_last_status := Some ''OK'', o_claim_owner := None,
            o_claim_expires_at := None, o_finalization_confirmed_at := Some (rs_ConfirmedAt r), o_updated_at := rs_ConfirmedAt r\<rparr>
          else if o_finalization_confirmed_at b = None
          then b\<lparr>o_finalization_confirmed_at := Some (rs_ConfirmedAt r), o_updated_at := rs_ConfirmedAt r\<rparr> else b
        else b) (planner_outbox d)\<rparr> \<and>
    outbox_linked d' \<and> (\<exists>y. ResolveCanonicalBootstrap clk' rq d' = (Inr y, d') \<and> rs_Duplicate y)"
    (is "?open \<and> d' = d\<lparr>command_intents := map ?f _, planner_outbox := map ?g _\<rparr> \<and> _")
proof (intro conjI)
  have v: "validateCanonicalBootstrapResolution rq = Inr ()" and nb: "\<not> list_ex blocks_bootstrap (covered_mirrors rq d)"
    and d': "d' = fold (converge_step (rb_TripID rq) (rs_ConfirmedAt r)) (covered_mirrors rq d) d"
    using ResolveCanonicalBootstrap_success [OF assms(3)] by metis+
  have cov: "covers rq i b \<longleftrightarrow> o_command_intent_id b = i_id i \<and> i_trip_id i = rb_TripID rq \<and>
      o_mutation_sequence b \<le> int (rb_FinalizedMutationSequence rq)" for i b
    using v by (auto simp: covers_def validateCanonicalBootstrapResolution_def int64_small split: if_splits)
  show ?open
  proof (intro ballI impI)
    fix i b
    assume "i \<in> set (command_intents d)" "b \<in> set (planner_outbox d)" and c: "i_trip_id i = rb_TripID rq \<and>
      o_command_intent_id b = i_id i \<and> o_mutation_sequence b \<le> int (rb_FinalizedMutationSequence rq) \<and> i_application_order i = RuntimeFirst"
    then have "(i, b) \<in> set (covered_mirrors rq d)" by (simp add: covered_mirrors_iff cov)
    then have "\<not> blocks_bootstrap (i, b)" using nb by (auto simp: list_ex_iff)
    then show "i_runtime_sync_state i \<noteq> SyncPending \<and> (o_delivery_state b = DeliveryAccepted \<or> o_delivery_state b = DeliveryTerminalRejected)"
      using c by (cases "o_delivery_state b") (simp_all add: blocks_bootstrap_def)
  qed
  let ?c = "covered_mirrors rq d" and ?now = "rs_ConfirmedAt r"
  have "converged_intent (rb_TripID rq) ?c i = ?f i" if "i \<in> set (command_intents d)" for i
    using converged_intent_row [OF assms(1,2) that, of rq] by (auto simp: cov)
  then have "map (converged_intent (rb_TripID rq) ?c) (command_intents d) = map ?f (command_intents d)" by simp
  moreover have "converged_outbox (rb_TripID rq) ?now ?c b = ?g b" if b: "b \<in> set (planner_outbox d)" for b
  proof -
    have "(\<exists>i\<in>set (command_intents d). covers rq i b) \<longleftrightarrow> o_mutation_sequence b \<le> int (rb_FinalizedMutationSequence rq) \<and>
        (\<exists>i\<in>set (command_intents d). i_id i = o_command_intent_id b \<and> i_trip_id i = rb_TripID rq)"
      by (metis cov)
    with converged_outbox_row [OF assms(1,2) nb b, of ?now] show ?thesis by simp
  qed
  then have "map (converged_outbox (rb_TripID rq) ?now ?c) (planner_outbox d) = map ?g (planner_outbox d)" by simp
  ultimately show "d' = d\<lparr>command_intents := map ?f (command_intents d), planner_outbox := map ?g (planner_outbox d)\<rparr>"
    unfolding d' converge_fold by (rule arg_cong2 [where f = "\<lambda>x y. d\<lparr>command_intents := x, planner_outbox := y\<rparr>"])
  show "outbox_linked d'" unfolding d' by (rule outbox_linked_converged [OF assms(2)])
  show "\<exists>y. ResolveCanonicalBootstrap clk' rq d' = (Inr y, d') \<and> rs_Duplicate y"
    by (rule ResolveCanonicalBootstrap_repeat [OF assms])
qed

theorem bootstrap_resolves_covered_witness:
  "\<exists>r d'. ResolveCanonicalBootstrap (\<lambda>_. 5) sample_bootstrap mirrored_db = (Inr r, d') \<and>
     (\<exists>y. ResolveCanonicalBootstrap (\<lambda>_. 6) sample_bootstrap d' = (Inr y, d') \<and> rs_Duplicate y)"
proof -
  obtain r d' where s: "ResolveCanonicalBootstrap (\<lambda>_. 5) sample_bootstrap mirrored_db = (Inr r, d')"
    using sample_bootstrap_applies by blast
  from bootstrap_resolves_covered [OF schema_mirrored linked_mirrored s, of "\<lambda>_. 6"] s show ?thesis by blast
qed

end
