(* ===== verification/LR_Canonical.thy ===== *)
theory LR_Canonical
  imports LR_Proposals "HOL-Library.AList"
begin

text \<open>
  Canonical-first commands: \<open>persistence/canonical_commands.go\<close> with the types of
  \<open>persistence/canonical_state.go\<close>. \<open>CreateTrip\<close>, \<open>ReplaceCurrentPlan\<close>, \<open>ReorderActivities\<close>, \<open>RemoveActivity\<close>,
  \<open>ReplaceActivity\<close> and \<open>AddActivity\<close> with their validation. The five edits share a guard and the
  statements that publish a plan; the locale \<open>canonical_edit\<close> states what each of them does in between
  and proves once that an edit is idempotent, advances the trip by one and publishes its plan.
\<close>

section \<open>Requests\<close>

record CanonicalOpenWindow =
  cw_OpensAt :: time
  cw_ClosesAt :: time

record CanonicalActivity =
  ca_ID :: uuid
  ca_Ordinal :: nat
  ca_PlaceID :: string
  ca_DisplayName :: string
  ca_Latitude :: float64
  ca_Longitude :: float64
  ca_TimeZoneName :: string
  ca_InboundTravelMode :: string
  ca_ActivityClass :: string
  ca_ActivityState :: ActivityState
  ca_ActivityDelaySeconds :: nat
  ca_FoundClosedAt :: "time option"
  ca_PriorityRank :: int
  ca_UtilityScore :: int
  ca_ReservationStart :: "time option"
  ca_ReservationGraceSeconds :: nat
  ca_MandatoryDeadline :: "time option"
  ca_MinDurationSeconds :: nat
  ca_PreferredDurationSeconds :: nat
  ca_MaxDurationSeconds :: nat
  ca_Mandatory :: bool
  ca_CanShorten :: bool
  ca_CanMove :: bool
  ca_CanSkip :: bool
  ca_OpenWindows :: "CanonicalOpenWindow list"

record CanonicalTravelDelay =
  cd_FromActivityID :: uuid
  cd_ToActivityID :: uuid
  cd_AdditionalSeconds :: nat
  cd_ObservedAt :: time

record CanonicalPlanMetadata =
  md_ID :: uuid
  md_Revision :: u64
  md_CreatedAt :: time

text \<open>The callback that builds the stored event is a parameter of the request; \<open>None\<close> is \<open>nil\<close>.\<close>

type_synonym CanonicalEventPayloadBuilder = "CanonicalPlanMetadata \<Rightarrow> bytes result"

record CreateTripRequest =
  ct_TripID :: uuid
  ct_OwnerUserID :: uuid
  ct_DefaultTimeZoneName :: string
  ct_IntentID :: uuid
  ct_MessageID :: uuid
  ct_EventID :: uuid
  ct_PlanID :: uuid
  ct_Activities :: "CanonicalActivity list"
  ct_TravelDelays :: "CanonicalTravelDelay list"
  ct_PlanSegments :: "CanonicalPlanSegmentDraft list"
  ct_CommandPayload :: bytes
  ct_PayloadDigest :: bytes
  ct_OutcomePayload :: bytes

text \<open>The fields the requests of the five edits have in common, and the requests that extend them.\<close>

record ReplaceCurrentPlanRequest =
  ce_TripID :: uuid
  ce_OwnerUserID :: uuid
  ce_IntentID :: uuid
  ce_OutboxID :: uuid
  ce_MessageID :: uuid
  ce_EventID :: uuid
  ce_PlanID :: uuid
  ce_ExpectedTripRevision :: u64
  ce_CommandExpiresAt :: "time option"
  ce_MaxPendingCanonicalMirror :: nat
  ce_PlanSegments :: "CanonicalPlanSegmentDraft list"
  ce_CommandPayload :: bytes
  ce_EventPayload :: bytes
  ce_EventPayloadBuilder :: "CanonicalEventPayloadBuilder option"
  ce_PayloadDigest :: bytes
  ce_OutcomePayload :: bytes

record ReorderActivitiesRequest = ReplaceCurrentPlanRequest +
  ro_ActivityIDs :: "uuid list"

record RemoveActivityRequest = ReplaceCurrentPlanRequest +
  rm_ActivityID :: uuid

record ReplaceActivityRequest = ReplaceCurrentPlanRequest +
  ra_Activity :: CanonicalActivity

record AddActivityRequest = ReplaceCurrentPlanRequest +
  aa_Ordinal :: nat
  aa_Activity :: CanonicalActivity

section \<open>Validation\<close>

definition validCanonicalEventPayload :: "ext \<Rightarrow> bytes \<Rightarrow> CanonicalEventPayloadBuilder option \<Rightarrow> bool" where
  "validCanonicalEventPayload e payload builder \<longleftrightarrow> builder \<noteq> None \<or> json_valid e payload"

definition buildCanonicalEventPayload ::
  "ext \<Rightarrow> bytes \<Rightarrow> CanonicalEventPayloadBuilder option \<Rightarrow> CanonicalPlanMetadata \<Rightarrow> bytes result" where
  "buildCanonicalEventPayload e payload builder metadata = (case builder of
     None \<Rightarrow> Inr payload
   | Some build \<Rightarrow> (case build metadata of
       Inl _ \<Rightarrow> Inl (ErrText ''build canonical planner event'')
     | Inr result \<Rightarrow>
         if \<not> json_valid e result then Inl (ErrText ''canonical planner event builder returned invalid JSON'')
         else Inr result))"

definition coordinate_ok :: "rat \<Rightarrow> float64 \<Rightarrow> bool" where
  "coordinate_ok bound x = (case x of Finite r \<Rightarrow> - bound \<le> r \<and> r \<le> bound | _ \<Rightarrow> False)"

definition open_window_step :: "CanonicalOpenWindow \<Rightarrow> time option \<Rightarrow> time option result" where
  "open_window_step w previousClose =
     (if \<not> cw_OpensAt w < cw_ClosesAt w \<or> (case previousClose of None \<Rightarrow> False | Some p \<Rightarrow> cw_OpensAt w < p)
      then Inl (ErrText ''activity opening windows are not normalized'')
      else Inr (Some (cw_ClosesAt w)))"

definition validateCanonicalActivity :: "CanonicalActivity \<Rightarrow> unit result" where
  "validateCanonicalActivity a =
     (if \<not> validCanonicalUUID (ca_ID a) \<or> ca_PlaceID a = [] \<or> ca_DisplayName a = [] \<or> ca_TimeZoneName a = [] \<or>
         ca_InboundTravelMode a \<notin> {''walking'', ''driving''} \<or> ca_ActivityClass a \<notin> {''fixed'', ''flexible''} \<or>
         \<not> ActivityState_valid (ca_ActivityState a) \<or>
         ca_ActivityDelaySeconds a > MaxInt32 \<or> ca_ReservationGraceSeconds a > MaxInt32 \<or>
         ca_MinDurationSeconds a > MaxInt32 \<or> ca_PreferredDurationSeconds a > MaxInt32 \<or>
         ca_MaxDurationSeconds a > MaxInt32 \<or> ca_MinDurationSeconds a > ca_PreferredDurationSeconds a \<or>
         ca_PreferredDurationSeconds a > ca_MaxDurationSeconds a
        then Inl (ErrText ''activity draft is invalid'')
      else if \<not> coordinate_ok 90 (ca_Latitude a) \<or> \<not> coordinate_ok 180 (ca_Longitude a)
        then Inl (ErrText ''activity location is invalid'')
      else bindr (for_each open_window_step (ca_OpenWindows a) None) (\<lambda>_. Inr ()))"

definition validateCanonicalActivityDraft :: "CanonicalActivity \<Rightarrow> nat \<Rightarrow> unit result" where
  "validateCanonicalActivityDraft a index =
     (if ca_Ordinal a \<noteq> index then Inl (ErrText ''activity draft ordinal is invalid'')
      else validateCanonicalActivity a)"

text \<open>
  The loop over the segments of a plan, which \<open>validateCreateTripRequest\<close> and \<open>validateReplacementPlan\<close> both
  contain. The state is the set of activities seen, whether the terminal prefix is still open,
  whether an activity is started, and the end of the last scheduled segment.
\<close>

definition terminal_state :: "ActivityState \<Rightarrow> bool" where
  "terminal_state st \<longleftrightarrow> st = ActivityStateCompleted \<or> st = ActivityStateSkipped"

definition segment_times ::
  "string \<Rightarrow> string \<Rightarrow> CanonicalPlanSegmentDraft \<Rightarrow> i64 option \<Rightarrow> i64 option result" where
  "segment_times op scheduled s previousEnd =
     (if dr_Scheduled s
      then case (dr_Start s, dr_End s) of
          (Some a, Some b) \<Rightarrow>
            if a \<ge> b \<or> (case previousEnd of None \<Rightarrow> False | Some p \<Rightarrow> a < p)
            then Inl (ErrText (op @ '' scheduled '' @ scheduled @ ''segment is invalid''))
            else Inr (Some b)
        | _ \<Rightarrow> Inl (ErrText (op @ '' scheduled '' @ scheduled @ ''segment is invalid''))
      else if dr_Start s \<noteq> None \<or> dr_End s \<noteq> None then Inl (ErrText (op @ '' omitted segment has times''))
      else Inr previousEnd)"

definition segment_order :: "string \<Rightarrow> ActivityState \<Rightarrow> nat \<Rightarrow> uuid list \<Rightarrow> bool \<Rightarrow> bool \<Rightarrow> (bool \<times> bool) result" where
  "segment_order op state index seen prefixOpen started =
     (if prefixOpen \<and> terminal_state state then Inr (True, started)
      else if terminal_state state then Inl (ErrText (op @ '' terminal activity is outside the prefix''))
      else if state = ActivityStateStarted then
        (if started \<or> index \<noteq> length seen - 1 then Inl (ErrText (op @ '' started activity is out of order''))
         else Inr (False, True))
      else Inr (False, started))"

definition plan_segment_step ::
  "string \<Rightarrow> string \<Rightarrow> (uuid \<times> ActivityState) list \<Rightarrow> nat \<times> CanonicalPlanSegmentDraft \<Rightarrow>
     uuid list \<times> bool \<times> bool \<times> i64 option \<Rightarrow> (uuid list \<times> bool \<times> bool \<times> i64 option) result" where
  "plan_segment_step op scheduled states m st = (case (m, st) of ((index, s), (seen, prefixOpen, started, previousEnd)) \<Rightarrow>
     if \<not> validCanonicalUUID (dr_ActivityID s) then Inl (ErrText (op @ '' plan activity id is invalid''))
     else case map_of states (dr_ActivityID s) of
       None \<Rightarrow> Inl (ErrText (op @ '' plan references an unknown activity''))
     | Some state \<Rightarrow>
       if dr_ActivityID s \<in> set seen then Inl (ErrText (op @ '' plan repeats an activity''))
       else
         bindr (segment_times op scheduled s previousEnd) (\<lambda>previousEnd'.
         bindr (segment_order op state index (seen @ [dr_ActivityID s]) prefixOpen started) (\<lambda>(prefixOpen', started').
         Inr (seen @ [dr_ActivityID s], prefixOpen', started', previousEnd'))))"

definition plan_segments_loop ::
  "string \<Rightarrow> string \<Rightarrow> (uuid \<times> ActivityState) list \<Rightarrow> CanonicalPlanSegmentDraft list \<Rightarrow>
     (uuid list \<times> bool \<times> bool \<times> i64 option) result" where
  "plan_segments_loop op scheduled states segs =
     for_each (plan_segment_step op scheduled states) (enumerate 0 segs) ([], True, False, None)"

definition validateReplacementPlan ::
  "CanonicalPlanSegmentDraft list \<Rightarrow> (uuid \<times> ActivityState) list \<Rightarrow> unit result" where
  "validateReplacementPlan segs states =
     (if length segs \<noteq> length states then Inl (ErrText ''replacement plan must cover every activity'')
      else bindr (plan_segments_loop ''replacement'' [] states segs) (\<lambda>(seen, _).
        if length seen \<noteq> length states then Inl (ErrText ''replacement plan omits an activity'') else Inr ()))"

definition create_activity_step ::
  "nat \<times> CanonicalActivity \<Rightarrow> (uuid \<times> ActivityState) list \<Rightarrow> (uuid \<times> ActivityState) list result" where
  "create_activity_step m states = (case m of (index, a) \<Rightarrow>
     bindr (validateCanonicalActivityDraft a index) (\<lambda>_.
       if map_of states (ca_ID a) \<noteq> None then Inl (ErrText ''create-trip activities must be unique'')
       else Inr (AList.update (ca_ID a) (ca_ActivityState a) states)))"

definition create_delay_step :: "(uuid \<times> ActivityState) list \<Rightarrow> CanonicalTravelDelay \<Rightarrow> unit \<Rightarrow> unit result" where
  "create_delay_step states y u =
     (if \<not> validCanonicalUUID (cd_FromActivityID y) \<or> \<not> validCanonicalUUID (cd_ToActivityID y) \<or>
         cd_AdditionalSeconds y > MaxInt32
        then Inl (ErrText ''create-trip travel delay is invalid'')
      else if map_of states (cd_FromActivityID y) = None then Inl (ErrText ''create-trip delay origin is unknown'')
      else if map_of states (cd_ToActivityID y) = None then Inl (ErrText ''create-trip delay destination is unknown'')
      else Inr ())"

definition validateCreateTripRequest :: "ext \<Rightarrow> CreateTripRequest \<Rightarrow> unit result" where
  "validateCreateTripRequest e rq =
     (if \<not> list_all validCanonicalUUID [ct_TripID rq, ct_OwnerUserID rq, ct_IntentID rq, ct_MessageID rq,
          ct_EventID rq, ct_PlanID rq]
        then Inl (ErrText ''create-trip identifiers must be canonical UUIDs'')
      else if ct_MessageID rq \<noteq> ct_EventID rq \<or> ct_DefaultTimeZoneName rq = [] \<or> ct_Activities rq = [] \<or>
          length (ct_Activities rq) > 64 \<or> \<not> json_valid e (ct_CommandPayload rq) \<or> \<not> json_valid e (ct_OutcomePayload rq)
        then Inl (ErrText ''create-trip draft is invalid'')
      else if sha256 e (ct_CommandPayload rq) \<noteq> ct_PayloadDigest rq
        then Inl (ErrText ''create-trip payload digest is invalid'')
      else if length (ct_PlanSegments rq) \<noteq> length (ct_Activities rq)
        then Inl (ErrText ''create-trip plan must cover every activity'')
      else bindr (for_each create_activity_step (enumerate 0 (ct_Activities rq)) []) (\<lambda>states.
        bindr (plan_segments_loop ''create-trip'' ''plan '' states (ct_PlanSegments rq)) (\<lambda>(seen, _).
          if length seen \<noteq> length (ct_Activities rq) then Inl (ErrText ''create-trip plan omits an activity'')
          else deref (userCurrentPlanPayload (ct_PlanID rq) 1 1 (ct_PlanSegments rq)) (\<lambda>payload.
            case parseUserCurrentPlan payload of
              Inl _ \<Rightarrow> Inl (ErrText ''create-trip plan is invalid'')
            | Inr _ \<Rightarrow> for_each (create_delay_step states) (ct_TravelDelays rq) ()))))"

definition validate_edit ::
  "ext \<Rightarrow> string \<Rightarrow> string \<Rightarrow> bool \<Rightarrow> 'a ReplaceCurrentPlanRequest_scheme \<Rightarrow> unit result" where
  "validate_edit e identifiers request shape rq =
     (if \<not> list_all validCanonicalUUID [ce_TripID rq, ce_OwnerUserID rq, ce_IntentID rq, ce_OutboxID rq,
          ce_MessageID rq, ce_EventID rq, ce_PlanID rq]
        then Inl (ErrText (identifiers @ '' identifiers must be canonical UUIDs''))
      else if ce_MessageID rq \<noteq> ce_EventID rq \<or> ce_MaxPendingCanonicalMirror rq = 0 \<or> \<not> shape \<or>
          \<not> json_valid e (ce_CommandPayload rq) \<or>
          \<not> validCanonicalEventPayload e (ce_EventPayload rq) (ce_EventPayloadBuilder rq) \<or>
          \<not> json_valid e (ce_OutcomePayload rq)
        then Inl (ErrText (request @ '' request is invalid''))
      else if sha256 e (ce_CommandPayload rq) \<noteq> ce_PayloadDigest rq
        then Inl (ErrText (identifiers @ '' payload digest is invalid''))
      else Inr ())"

definition validateReplaceCurrentPlanRequest :: "ext \<Rightarrow> ReplaceCurrentPlanRequest \<Rightarrow> unit result" where
  "validateReplaceCurrentPlanRequest e rq = validate_edit e ''replacement'' ''replacement'' True rq"

definition unique_id_step :: "uuid \<Rightarrow> uuid list \<Rightarrow> uuid list result" where
  "unique_id_step aid seen =
     (if \<not> validCanonicalUUID aid then Inl (ErrText ''trip-edit activity id is invalid'')
      else if aid \<in> set seen then Inl (ErrText ''trip-edit activity ids must be unique'')
      else Inr (aid # seen))"

definition validateReorderActivitiesRequest :: "ext \<Rightarrow> ReorderActivitiesRequest \<Rightarrow> unit result" where
  "validateReorderActivitiesRequest e rq =
     bindr (validate_edit e ''trip-edit'' ''trip-edit'' (ro_ActivityIDs rq \<noteq> []) rq) (\<lambda>_.
       bindr (for_each unique_id_step (ro_ActivityIDs rq) []) (\<lambda>_. Inr ()))"

definition validateRemoveActivityRequest :: "ext \<Rightarrow> RemoveActivityRequest \<Rightarrow> unit result" where
  "validateRemoveActivityRequest e rq =
     validate_edit e ''trip-edit'' ''trip-edit remove'' (validCanonicalUUID (rm_ActivityID rq)) rq"

definition validateReplaceActivityRequest :: "ext \<Rightarrow> ReplaceActivityRequest \<Rightarrow> unit result" where
  "validateReplaceActivityRequest e rq =
     bindr (validate_edit e ''trip-edit'' ''trip-edit replace'' True rq) (\<lambda>_. validateCanonicalActivity (ra_Activity rq))"

definition validateAddActivityRequest :: "ext \<Rightarrow> AddActivityRequest \<Rightarrow> unit result" where
  "validateAddActivityRequest e rq =
     bindr (validate_edit e ''trip-edit'' ''trip-edit add'' True rq) (\<lambda>_. validateCanonicalActivity (aa_Activity rq))"

section \<open>Rows and statements\<close>

definition activity_row_of :: "uuid \<Rightarrow> int \<Rightarrow> CanonicalActivity \<Rightarrow> activity_row" where
  "activity_row_of tripID ordinal a =
     \<lparr>a_id = ca_ID a, a_trip_id = tripID, a_ordinal = ordinal, a_place_id = ca_PlaceID a,
      a_display_name = ca_DisplayName a, a_latitude = ca_Latitude a, a_longitude = ca_Longitude a,
      a_time_zone_name = ca_TimeZoneName a, a_inbound_travel_mode = ca_InboundTravelMode a,
      a_activity_class = ca_ActivityClass a, a_activity_state = ca_ActivityState a,
      a_activity_delay_seconds = int (ca_ActivityDelaySeconds a), a_found_closed_at = ca_FoundClosedAt a,
      a_priority_rank = ca_PriorityRank a, a_utility_score = ca_UtilityScore a,
      a_reservation_start = ca_ReservationStart a,
      a_reservation_grace_seconds = int (ca_ReservationGraceSeconds a),
      a_mandatory_deadline = ca_MandatoryDeadline a, a_min_duration_seconds = int (ca_MinDurationSeconds a),
      a_preferred_duration_seconds = int (ca_PreferredDurationSeconds a),
      a_max_duration_seconds = int (ca_MaxDurationSeconds a), a_mandatory = ca_Mandatory a,
      a_can_shorten = ca_CanShorten a, a_can_move = ca_CanMove a, a_can_skip = ca_CanSkip a\<rparr>"

definition open_window_row :: "uuid \<Rightarrow> uuid \<Rightarrow> nat \<Rightarrow> CanonicalOpenWindow \<Rightarrow> window_row" where
  "open_window_row tripID aid index w =
     \<lparr>w_trip_id = tripID, w_activity_id = aid, w_window_index = int index,
      w_opens_at = cw_OpensAt w, w_closes_at = cw_ClosesAt w\<rparr>"

definition insert_open_windows :: "string \<Rightarrow> uuid \<Rightarrow> CanonicalActivity \<Rightarrow> db \<Rightarrow> db result" where
  "insert_open_windows op tripID a d =
     for_each (\<lambda>(index, w) d. exec_sql (''insert '' @ op @ '' window'')
         (insert_window (open_window_row tripID (ca_ID a) index w) d))
       (enumerate 0 (ca_OpenWindows a)) d"

definition insert_activity_draft :: "string \<Rightarrow> uuid \<Rightarrow> int \<Rightarrow> CanonicalActivity \<Rightarrow> db \<Rightarrow> db result" where
  "insert_activity_draft op tripID ordinal a d =
     bindr (exec_sql (''insert '' @ op @ '' activity'') (insert_activity (activity_row_of tripID ordinal a) d)) (\<lambda>d1.
       insert_open_windows op tripID a d1)"

definition user_plan_row :: "ext \<Rightarrow> uuid \<Rightarrow> uuid \<Rightarrow> u64 \<Rightarrow> uuid \<Rightarrow> bytes \<Rightarrow> time \<Rightarrow> plan_row" where
  "user_plan_row e pid tripID planRev ownerUserID payload createdAt =
     \<lparr>p_id = pid, p_trip_id = tripID, p_plan_revision = int64 planRev, p_origin = UserAuthored,
      p_authored_by_user_id = ownerUserID, p_source_proposal_id = None, p_schema_version = 1,
      p_payload = payload, p_payload_size_bytes = int (length payload),
      p_checksum_sha256 = sha256 e payload, p_created_at = createdAt\<rparr>"

definition canonical_intent_row ::
  "uuid \<Rightarrow> uuid \<Rightarrow> uuid \<Rightarrow> uuid \<Rightarrow> i64 \<Rightarrow> i64 \<Rightarrow> CommandKind \<Rightarrow> bytes \<Rightarrow> bytes \<Rightarrow> bytes \<Rightarrow> i64 \<Rightarrow> uuid \<Rightarrow>
     runtime_sync_state \<Rightarrow> time \<Rightarrow> time option \<Rightarrow> intent_row" where
  "canonical_intent_row intentID tripID messageID eventID mseq expected kind digest payload outcome resulting pid sync createdAt expiresAt =
     \<lparr>i_id = intentID, i_trip_id = tripID, i_message_id = messageID, i_event_id = eventID,
      i_mutation_sequence = mseq, i_expected_trip_revision = expected, i_command_kind = kind,
      i_application_order = CanonicalFirst, i_command_expires_at = expiresAt,
      i_digest_algorithm = ''rfc8785-sha256-v1'', i_payload_digest = digest, i_command_payload = payload,
      i_state = IntentApplied, i_outcome_status = Some ''OK'', i_outcome_payload = Some outcome,
      i_resulting_trip_revision = Some resulting, i_resulting_current_plan_id = Some pid,
      i_resulting_planner_state_version = None, i_planned_current_plan_id = None,
      i_planned_current_plan_payload = None, i_planned_current_plan_checksum = None,
      i_runtime_sync_state = sync, i_recorded_at = createdAt, i_finalized_at = Some createdAt\<rparr>"

definition canonical_result ::
  "uuid \<Rightarrow> string \<Rightarrow> uuid \<Rightarrow> uuid \<Rightarrow> uuid \<Rightarrow> u64 \<Rightarrow> u64 \<Rightarrow> CommandKind \<Rightarrow> runtime_sync_state \<Rightarrow> bytes \<Rightarrow> u64 \<Rightarrow> uuid \<Rightarrow>
     time \<Rightarrow> RecordedCommand" where
  "canonical_result intentID outboxID tripID messageID eventID mseq expected kind sync outcome resulting pid createdAt =
     \<lparr>rc_IntentID = intentID, rc_OutboxID = outboxID, rc_TripID = tripID, rc_MessageID = messageID,
      rc_EventID = eventID, rc_MutationSequence = mseq, rc_ExpectedTripRevision = expected, rc_Kind = kind,
      rc_State = IntentApplied, rc_RuntimeSyncState = sync, rc_OutcomeStatus = Some ''OK'',
      rc_OutcomePayload = Some outcome, rc_ResultingTripRevision = Some resulting,
      rc_ResultingCurrentPlanID = Some pid, rc_ResultingPlannerStateVersion = None,
      rc_RecordedAt = createdAt, rc_FinalizedAt = Some createdAt, rc_Duplicate = False\<rparr>"

text \<open>
  An \<open>UPDATE\<close> that changes a unique key is checked row by row: the new key of a row must differ from
  the present keys of all other rows, updated or not.
\<close>

fun rowwise_update :: "('r \<Rightarrow> 'k) \<Rightarrow> ('r \<Rightarrow> bool) \<Rightarrow> ('r \<Rightarrow> 'r) \<Rightarrow> 'r list \<Rightarrow> 'r list \<Rightarrow> 'r list option" where
  "rowwise_update key P f updated [] = Some updated"
| "rowwise_update key P f updated (r # rest) =
     (if \<not> P r then rowwise_update key P f (updated @ [r]) rest
      else if key (f r) \<in> set (map key (updated @ rest)) then None
      else rowwise_update key P f (updated @ [f r]) rest)"

definition update_ordinals :: "(activity_row \<Rightarrow> bool) \<Rightarrow> (int \<Rightarrow> int) \<Rightarrow> db \<Rightarrow> db option" where
  "update_ordinals P f d =
     (if list_all (\<lambda>a. P a \<longrightarrow> activity_check (a\<lparr>a_ordinal := f (a_ordinal a)\<rparr>)) (trip_activities d)
      then map_option (\<lambda>rows. d\<lparr>trip_activities := rows\<rparr>)
        (rowwise_update activity_ordinal_key P (\<lambda>a. a\<lparr>a_ordinal := f (a_ordinal a)\<rparr>) [] (trip_activities d))
      else None)"

definition stage_ordinals :: "uuid \<Rightarrow> nat \<Rightarrow> db \<Rightarrow> db option" where
  "stage_ordinals tripID n d = update_ordinals (\<lambda>a. a_trip_id a = tripID) (\<lambda>k. k + int n) d"

definition apply_ordinals :: "string \<Rightarrow> uuid \<Rightarrow> uuid list \<Rightarrow> db \<Rightarrow> db result" where
  "apply_ordinals op tripID ids d =
     for_each (\<lambda>(index, aid) d. exec_sql (''apply '' @ op @ '' ordinal'')
         (update_ordinals (\<lambda>a. a_trip_id a = tripID \<and> a_id a = aid) (\<lambda>_. int index) d))
       (enumerate 0 ids) d"

section \<open>Creating a trip\<close>

definition CreateTrip_existing :: "ext \<Rightarrow> CreateTripRequest \<Rightarrow> db \<Rightarrow> err + (RecordedCommand \<times> db)" where
  "CreateTrip_existing e rq d =
     (case recordedCommandSelect (ct_TripID rq) (ct_MessageID rq) d of
        None \<Rightarrow> Inl ErrCanonicalTripConflict
      | Some row \<Rightarrow> (case scanRecordedCommand e row True of
          Inl _ \<Rightarrow> Inl (ErrSQL ''read existing create-trip intent'')
        | Inr (existing, storedDigest, algorithm) \<Rightarrow>
            if rc_Kind existing \<noteq> CommandCreateTrip then Inl ErrCanonicalTripConflict
            else if algorithm \<noteq> DigestAlgorithmRFC8785SHA256V1 \<or> storedDigest \<noteq> ct_PayloadDigest rq
              then Inl ErrIdempotencyKeyReused
            else Inr (existing, d)))"

text \<open>The trigger \<open>trips_fill_legacy_trip_name\<close> names a trip that is inserted without a name.\<close>

definition legacy_trip_name :: "uuid \<Rightarrow> string" where
  "legacy_trip_name tid = ''Trip '' @ take 8 tid"

definition new_trip_row :: "CreateTripRequest \<Rightarrow> time \<Rightarrow> time \<Rightarrow> trip_row" where
  "new_trip_row rq created now =
     \<lparr>t_id = ct_TripID rq, t_owner_user_id = ct_OwnerUserID rq,
      t_default_time_zone_name = ct_DefaultTimeZoneName rq, t_trip_revision = 1, t_next_mutation_sequence = 2,
      t_finalized_mutation_sequence = 1, t_current_plan_id = Some (ct_PlanID rq), t_updated_at = now,
      t_saved_plan_id = None, t_execution_state = ExecInactive, t_active_execution_plan_id = None,
      t_activated_at = None, t_transition_operation_id = None, t_trip_name = legacy_trip_name (ct_TripID rq),
      t_created_at = created\<rparr>"

definition delay_row_of :: "uuid \<Rightarrow> CanonicalTravelDelay \<Rightarrow> delay_row" where
  "delay_row_of tripID y =
     \<lparr>y_trip_id = tripID, y_from_activity_id = cd_FromActivityID y, y_to_activity_id = cd_ToActivityID y,
      y_additional_seconds = int (cd_AdditionalSeconds y), y_observed_at = cd_ObservedAt y\<rparr>"

definition CreateTrip_insert :: "ext \<Rightarrow> clock \<Rightarrow> CreateTripRequest \<Rightarrow> db \<Rightarrow> err + (RecordedCommand \<times> db)" where
  "CreateTrip_insert e clk rq d =
     (let createdAt = trunc_millis (clk 0) in
      deref (userCurrentPlanPayload (ct_PlanID rq) 1 (UnixMilli createdAt) (ct_PlanSegments rq)) (\<lambda>payload.
      bindr (exec_sql ''insert create-trip'' (insert_trip (new_trip_row rq (clk 1) (clk 2)) d)) (\<lambda>d1.
      bindr (for_each (\<lambda>a. insert_activity_draft ''create-trip'' (ct_TripID rq) (int (ca_Ordinal a)) a)
          (ct_Activities rq) d1) (\<lambda>d2.
      bindr (for_each (\<lambda>y d. exec_sql ''insert create-trip delay'' (insert_delay (delay_row_of (ct_TripID rq) y) d))
          (ct_TravelDelays rq) d2) (\<lambda>d3.
      bindr (exec_sql ''insert create-trip plan'' (insert_plan (user_plan_row e (ct_PlanID rq) (ct_TripID rq) 1
          (ct_OwnerUserID rq) payload createdAt) d3)) (\<lambda>d4.
      bindr (exec_sql ''insert create-trip intent'' (to_jsonb e (ct_CommandPayload rq))) (\<lambda>command.
      bindr (exec_sql ''insert create-trip intent'' (to_jsonb e (ct_OutcomePayload rq))) (\<lambda>outcome.
      bindr (exec_sql ''insert create-trip intent'' (insert_intent (canonical_intent_row (ct_IntentID rq) (ct_TripID rq)
          (ct_MessageID rq) (ct_EventID rq) 1 0 CommandCreateTrip (ct_PayloadDigest rq) command outcome 1
          (ct_PlanID rq) NotRequired createdAt None) d4)) (\<lambda>d5.
      Inr (canonical_result (ct_IntentID rq) [] (ct_TripID rq) (ct_MessageID rq) (ct_EventID rq) 1 0 CommandCreateTrip
        NotRequired (ct_OutcomePayload rq) 1 (ct_PlanID rq) createdAt, d5))))))))))"

definition CreateTrip_tx :: "ext \<Rightarrow> clock \<Rightarrow> CreateTripRequest \<Rightarrow> db \<Rightarrow> err + (RecordedCommand \<times> db)" where
  "CreateTrip_tx e clk rq d =
     (case find_trip (ct_TripID rq) d of
        Some t \<Rightarrow>
          if t_owner_user_id t \<noteq> ct_OwnerUserID rq then Inl ErrCanonicalTripConflict
          else CreateTrip_existing e rq d
      | None \<Rightarrow>
          if ct_OwnerUserID rq \<notin> set (users d) then Inl ErrCanonicalOwnerMissing
          else CreateTrip_insert e clk rq d)"

definition CreateTrip :: "ext \<Rightarrow> clock \<Rightarrow> CreateTripRequest \<Rightarrow> db \<Rightarrow> RecordedCommand result \<times> db" where
  "CreateTrip e clk rq d =
     (case validateCreateTripRequest e rq of
        Inl x \<Rightarrow> (Inl x, d)
      | Inr _ \<Rightarrow> run_tx (CreateTrip_tx e clk rq) d)"

section \<open>The parts common to the edits\<close>

datatype edit_guard = Existing RecordedCommand | Fresh trip_row uuid

text \<open>
  The first part of an edit: it locks the trip, answers a recorded message, and refuses a stale revision,
  an exhausted sequence, an open runtime-first command and too many pending mirrors.
\<close>

definition canonical_edit_guard ::
  "ext \<Rightarrow> string \<Rightarrow> CommandKind \<Rightarrow> 'a ReplaceCurrentPlanRequest_scheme \<Rightarrow> db \<Rightarrow> edit_guard result" where
  "canonical_edit_guard e op kind rq d =
     (case find_trip (ce_TripID rq) d of
        None \<Rightarrow> Inl ErrCanonicalTripConflict
      | Some t \<Rightarrow>
      (case t_current_plan_id t of
        None \<Rightarrow> Inl (ErrSQL (''lock '' @ op @ '' trip''))
      | Some currentPlanID \<Rightarrow>
        if t_owner_user_id t \<noteq> ce_OwnerUserID rq then Inl ErrCanonicalTripConflict
        else case recordedCommandSelect (ce_TripID rq) (ce_MessageID rq) d of
          Some row \<Rightarrow>
            (case scanRecordedCommand e row True of
               Inl _ \<Rightarrow> Inl (ErrSQL (''read existing '' @ op @ '' intent''))
             | Inr (existing, storedDigest, algorithm) \<Rightarrow>
                 if algorithm \<noteq> DigestAlgorithmRFC8785SHA256V1 \<or> storedDigest \<noteq> ce_PayloadDigest rq \<or>
                    rc_Kind existing \<noteq> kind
                   then Inl ErrIdempotencyKeyReused
                 else Inr (Existing existing))
        | None \<Rightarrow>
            if t_trip_revision t < 0 \<or> uint64 (t_trip_revision t) \<noteq> ce_ExpectedTripRevision rq
              then Inl ErrTripRevisionStale
            else if t_trip_revision t = int MaxInt64 \<or> t_next_mutation_sequence t \<le> 0 \<or>
                t_next_mutation_sequence t = int MaxInt64
              then Inl ErrMutationSequenceExhausted
            else if sql_count (\<lambda>i. i_trip_id i = ce_TripID rq \<and> i_application_order i = RuntimeFirst \<and>
                i_state i = IntentPending) (command_intents d) \<noteq> 0
              then Inl ErrDurableCommandBlocked
            else if sql_count (\<lambda>i. i_trip_id i = ce_TripID rq \<and> i_application_order i = CanonicalFirst \<and>
                i_runtime_sync_state i \<in> {SyncPending, SyncPausedInternal}) (command_intents d) \<ge>
                ce_MaxPendingCanonicalMirror rq
              then Inl ErrCanonicalMirrorCapacity
            else Inr (Fresh t currentPlanID)))"

definition activity_state_step ::
  "activity_row \<Rightarrow> uuid list \<times> (uuid \<times> ActivityState) list \<Rightarrow> (uuid list \<times> (uuid \<times> ActivityState) list) result" where
  "activity_state_step a st = (case st of (ids, states) \<Rightarrow>
     if a_ordinal a \<noteq> int (length ids) \<or> \<not> validCanonicalUUID (a_id a) \<or> \<not> ActivityState_valid (a_activity_state a)
       then Inl ErrCanonicalStateCorrupt
     else Inr (ids @ [a_id a], AList.update (a_id a) (a_activity_state a) states))"

definition load_activities :: "uuid \<Rightarrow> db \<Rightarrow> (uuid list \<times> (uuid \<times> ActivityState) list) result" where
  "load_activities tripID d =
     for_each activity_state_step (sort_key a_ordinal (sql_select (\<lambda>a. a_trip_id a = tripID) (trip_activities d))) ([], [])"

definition lock_current_plan :: "string \<Rightarrow> uuid \<Rightarrow> uuid \<Rightarrow> db \<Rightarrow> unit result" where
  "lock_current_plan label tripID currentPlanID d =
     (case query_row (\<lambda>p. p_trip_id p = tripID \<and> p_id p = currentPlanID) (itinerary_plans d) of
        None \<Rightarrow> Inl (ErrSQL label) | Some _ \<Rightarrow> Inr ())"

definition edit_payloads ::
  "ext \<Rightarrow> clock \<Rightarrow> 'a ReplaceCurrentPlanRequest_scheme \<Rightarrow> trip_row \<Rightarrow> (bytes \<times> bytes) result" where
  "edit_payloads e clk rq t =
     (let planRev = uint64 (t_trip_revision t + 1); createdAt = trunc_millis (clk 0) in
      deref (userCurrentPlanPayload (ce_PlanID rq) planRev (UnixMilli createdAt) (ce_PlanSegments rq)) (\<lambda>payload.
      bindr (buildCanonicalEventPayload e (ce_EventPayload rq) (ce_EventPayloadBuilder rq)
          \<lparr>md_ID = ce_PlanID rq, md_Revision = planRev, md_CreatedAt = createdAt\<rparr>) (\<lambda>event.
      Inr (payload, event))))"

definition publish_edit_row :: "uuid \<Rightarrow> u64 \<Rightarrow> u64 \<Rightarrow> time \<Rightarrow> trip_row \<Rightarrow> trip_row" where
  "publish_edit_row pid planRev mseq now t =
     t\<lparr>t_trip_revision := int64 planRev, t_next_mutation_sequence := int64 (add_u64 mseq 1),
       t_finalized_mutation_sequence := int64 mseq, t_current_plan_id := Some pid, t_updated_at := now\<rparr>"

text \<open>The last part of an edit: the plan, the trip, the intent and the outbox row.\<close>

definition publish_edit ::
  "ext \<Rightarrow> clock \<Rightarrow> string \<Rightarrow> CommandKind \<Rightarrow> 'a ReplaceCurrentPlanRequest_scheme \<Rightarrow> trip_row \<Rightarrow> bytes \<times> bytes \<Rightarrow> db \<Rightarrow>
     err + (RecordedCommand \<times> db)" where
  "publish_edit e clk op kind rq t payloads d =
     (let planRev = uint64 (t_trip_revision t + 1); mseq = uint64 (t_next_mutation_sequence t);
          createdAt = trunc_millis (clk 0) in
      bindr (exec_sql (''insert '' @ op @ '' plan'') (insert_plan (user_plan_row e (ce_PlanID rq) (ce_TripID rq) planRev
          (ce_OwnerUserID rq) (fst payloads) createdAt) d)) (\<lambda>d1.
      bindr (exec_sql (''update '' @ op @ '' trip'') (update_trip (ce_TripID rq)
          (publish_edit_row (ce_PlanID rq) planRev mseq (clk 2)) d1)) (\<lambda>d2.
      bindr (exec_sql (''insert '' @ op @ '' intent'') (to_jsonb e (ce_CommandPayload rq))) (\<lambda>command.
      bindr (exec_sql (''insert '' @ op @ '' intent'') (to_jsonb e (ce_OutcomePayload rq))) (\<lambda>outcome.
      bindr (exec_sql (''insert '' @ op @ '' intent'') (insert_intent (canonical_intent_row (ce_IntentID rq) (ce_TripID rq)
          (ce_MessageID rq) (ce_EventID rq) (int64 mseq) (int64 (ce_ExpectedTripRevision rq)) kind (ce_PayloadDigest rq)
          command outcome (int64 planRev) (ce_PlanID rq) SyncPending createdAt (ce_CommandExpiresAt rq)) d2)) (\<lambda>d3.
      bindr (exec_sql (''insert '' @ op @ '' outbox'') (to_jsonb e (snd payloads))) (\<lambda>event.
      bindr (exec_sql (''insert '' @ op @ '' outbox'') (insert_outbox (new_outbox_row (ce_OutboxID rq) (ce_IntentID rq)
          (ce_TripID rq) (int64 mseq) event (clk 3) (clk 4)) d3)) (\<lambda>d4.
      Inr (canonical_result (ce_IntentID rq) (ce_OutboxID rq) (ce_TripID rq) (ce_MessageID rq) (ce_EventID rq) mseq
        (ce_ExpectedTripRevision rq) kind SyncPending (ce_OutcomePayload rq) planRev (ce_PlanID rq) createdAt, d4)))))))))"

definition canonical_edit_tx ::
  "ext \<Rightarrow> string \<Rightarrow> CommandKind \<Rightarrow> 'a ReplaceCurrentPlanRequest_scheme \<Rightarrow>
     (trip_row \<Rightarrow> uuid \<Rightarrow> db \<Rightarrow> err + (RecordedCommand \<times> db)) \<Rightarrow> db \<Rightarrow> err + (RecordedCommand \<times> db)" where
  "canonical_edit_tx e op kind rq edit d =
     bindr (canonical_edit_guard e op kind rq d) (\<lambda>g. case g of
       Existing existing \<Rightarrow> Inr (existing, d)
     | Fresh t currentPlanID \<Rightarrow> edit t currentPlanID d)"

section \<open>The edits\<close>

definition ReplaceCurrentPlan_edit ::
  "ext \<Rightarrow> clock \<Rightarrow> ReplaceCurrentPlanRequest \<Rightarrow> trip_row \<Rightarrow> uuid \<Rightarrow> db \<Rightarrow> err + (RecordedCommand \<times> db)" where
  "ReplaceCurrentPlan_edit e clk rq t currentPlanID d =
     bindr (load_activities (ce_TripID rq) d) (\<lambda>(ids, states).
     bindr (validateReplacementPlan (ce_PlanSegments rq) states) (\<lambda>_.
     bindr (edit_payloads e clk rq t) (\<lambda>payloads.
     bindr (lock_current_plan ''lock current replacement plan'' (ce_TripID rq) currentPlanID d) (\<lambda>_.
     publish_edit e clk ''replacement'' CommandReplaceCurrentPlan rq t payloads
       (supersede_pending (ce_TripID rq) (clk 1) d)))))"

definition ReplaceCurrentPlan ::
  "ext \<Rightarrow> clock \<Rightarrow> ReplaceCurrentPlanRequest \<Rightarrow> db \<Rightarrow> RecordedCommand result \<times> db" where
  "ReplaceCurrentPlan e clk rq d =
     (case validateReplaceCurrentPlanRequest e rq of
        Inl x \<Rightarrow> (Inl x, d)
      | Inr _ \<Rightarrow> run_tx (canonical_edit_tx e ''replacement'' CommandReplaceCurrentPlan rq
          (ReplaceCurrentPlan_edit e clk rq)) d)"

definition reorder_step ::
  "(uuid \<times> ActivityState) list \<Rightarrow> uuid \<Rightarrow> uuid option \<Rightarrow> uuid option result" where
  "reorder_step states aid previous =
     (if map_of states aid = None then Inl (ErrText ''trip-edit reorder references unknown activity'')
      else if previous = Some aid then Inl (ErrText ''trip-edit reorder repeats an activity'')
      else Inr (Some aid))"

definition ReorderActivities_edit ::
  "ext \<Rightarrow> clock \<Rightarrow> ReorderActivitiesRequest \<Rightarrow> trip_row \<Rightarrow> uuid \<Rightarrow> db \<Rightarrow> err + (RecordedCommand \<times> db)" where
  "ReorderActivities_edit e clk rq t currentPlanID d =
     bindr (load_activities (ce_TripID rq) d) (\<lambda>(currentActivityIDs, states).
     if length currentActivityIDs \<noteq> length (ro_ActivityIDs rq)
       then Inl (ErrText ''trip-edit reorder must cover every activity'')
     else bindr (for_each (reorder_step states) (ro_ActivityIDs rq) None) (\<lambda>_.
     bindr (validateReplacementPlan (ce_PlanSegments rq) states) (\<lambda>_.
     bindr (lock_current_plan ''lock trip-edit current plan'' (ce_TripID rq) currentPlanID d) (\<lambda>_.
     bindr (edit_payloads e clk rq t) (\<lambda>payloads.
     bindr (exec_sql ''stage trip-edit ordinals'' (stage_ordinals (ce_TripID rq) (length currentActivityIDs)
         (supersede_pending (ce_TripID rq) (clk 1) d))) (\<lambda>d1.
     bindr (apply_ordinals ''trip-edit'' (ce_TripID rq) (ro_ActivityIDs rq) d1) (\<lambda>d2.
     publish_edit e clk ''trip-edit'' CommandTripEdited rq t payloads d2)))))))"

definition ReorderActivities ::
  "ext \<Rightarrow> clock \<Rightarrow> ReorderActivitiesRequest \<Rightarrow> db \<Rightarrow> RecordedCommand result \<times> db" where
  "ReorderActivities e clk rq d =
     (case validateReorderActivitiesRequest e rq of
        Inl x \<Rightarrow> (Inl x, d)
      | Inr _ \<Rightarrow> run_tx (canonical_edit_tx e ''trip-edit'' CommandTripEdited rq (ReorderActivities_edit e clk rq)) d)"

definition delete_activity :: "uuid \<Rightarrow> uuid \<Rightarrow> db \<Rightarrow> db" where
  "delete_activity tripID aid d =
     d\<lparr>trip_travel_delays := sql_delete (\<lambda>y. y_trip_id y = tripID \<and> (y_from_activity_id y = aid \<or> y_to_activity_id y = aid))
         (trip_travel_delays d),
       activity_open_windows := sql_delete (\<lambda>w. w_trip_id w = tripID \<and> w_activity_id w = aid) (activity_open_windows d),
       trip_activities := sql_delete (\<lambda>a. a_trip_id a = tripID \<and> a_id a = aid) (trip_activities d)\<rparr>"

definition RemoveActivity_edit ::
  "ext \<Rightarrow> clock \<Rightarrow> RemoveActivityRequest \<Rightarrow> trip_row \<Rightarrow> uuid \<Rightarrow> db \<Rightarrow> err + (RecordedCommand \<times> db)" where
  "RemoveActivity_edit e clk rq t currentPlanID d =
     bindr (load_activities (ce_TripID rq) d) (\<lambda>(currentActivityIDs, states).
     if map_of states (rm_ActivityID rq) = None
       then Inl (ErrText ''trip-edit remove references unknown activity'')
     else
     let resultingActivityIDs = filter (\<lambda>aid. aid \<noteq> rm_ActivityID rq) currentActivityIDs;
         resultingActivityStates = fold (\<lambda>aid m. case map_of states aid of
           None \<Rightarrow> AList.update aid (ActivityStateOther []) m | Some st \<Rightarrow> AList.update aid st m) resultingActivityIDs [] in
     bindr (validateReplacementPlan (ce_PlanSegments rq) resultingActivityStates) (\<lambda>_.
     bindr (lock_current_plan ''lock remove-activity current plan'' (ce_TripID rq) currentPlanID d) (\<lambda>_.
     bindr (edit_payloads e clk rq t) (\<lambda>payloads.
     bindr (exec_sql ''stage remove-activity ordinals'' (stage_ordinals (ce_TripID rq) (length currentActivityIDs)
         (supersede_pending (ce_TripID rq) (clk 1) d))) (\<lambda>d1.
     bindr (apply_ordinals ''remove-activity'' (ce_TripID rq) resultingActivityIDs
         (delete_activity (ce_TripID rq) (rm_ActivityID rq) d1)) (\<lambda>d2.
     publish_edit e clk ''remove-activity'' CommandTripEdited rq t payloads d2))))))"

definition RemoveActivity ::
  "ext \<Rightarrow> clock \<Rightarrow> RemoveActivityRequest \<Rightarrow> db \<Rightarrow> RecordedCommand result \<times> db" where
  "RemoveActivity e clk rq d =
     (case validateRemoveActivityRequest e rq of
        Inl x \<Rightarrow> (Inl x, d)
      | Inr _ \<Rightarrow> run_tx (canonical_edit_tx e ''remove-activity'' CommandTripEdited rq (RemoveActivity_edit e clk rq)) d)"

text \<open>\<open>UPDATE trip_activities SET\<close> every column but the key and the ordinal.\<close>

definition replace_activity_row :: "uuid \<Rightarrow> CanonicalActivity \<Rightarrow> db \<Rightarrow> db option" where
  "replace_activity_row tripID a d =
     (let P = (\<lambda>r. a_trip_id r = tripID \<and> a_id r = ca_ID a); f = (\<lambda>r. activity_row_of tripID (a_ordinal r) a) in
      if list_all (\<lambda>r. P r \<longrightarrow> activity_check (f r)) (trip_activities d)
      then Some (d\<lparr>trip_activities := sql_update P f (trip_activities d)\<rparr>) else None)"

definition delete_windows :: "uuid \<Rightarrow> uuid \<Rightarrow> db \<Rightarrow> db" where
  "delete_windows tripID aid d =
     d\<lparr>activity_open_windows := sql_delete (\<lambda>w. w_trip_id w = tripID \<and> w_activity_id w = aid) (activity_open_windows d)\<rparr>"

definition ReplaceActivity_edit ::
  "ext \<Rightarrow> clock \<Rightarrow> ReplaceActivityRequest \<Rightarrow> trip_row \<Rightarrow> uuid \<Rightarrow> db \<Rightarrow> err + (RecordedCommand \<times> db)" where
  "ReplaceActivity_edit e clk rq t currentPlanID d =
     bindr (load_activities (ce_TripID rq) d) (\<lambda>(currentActivityIDs, states).
     let replacement = ra_Activity rq in
     if map_of states (ca_ID replacement) = None
       then Inl (ErrText ''trip-edit replace references unknown activity'')
     else
     bindr (validateReplacementPlan (ce_PlanSegments rq)
         (AList.update (ca_ID replacement) (ca_ActivityState replacement) states)) (\<lambda>_.
     bindr (lock_current_plan ''lock replace-activity current plan'' (ce_TripID rq) currentPlanID d) (\<lambda>_.
     bindr (edit_payloads e clk rq t) (\<lambda>payloads.
     bindr (exec_sql ''apply replace-activity activity'' (replace_activity_row (ce_TripID rq) replacement
         (supersede_pending (ce_TripID rq) (clk 1) d))) (\<lambda>d1.
     bindr (insert_open_windows ''replace-activity'' (ce_TripID rq) replacement
         (delete_windows (ce_TripID rq) (ca_ID replacement) d1)) (\<lambda>d2.
     publish_edit e clk ''replace-activity'' CommandTripEdited rq t payloads d2))))))"

definition ReplaceActivity ::
  "ext \<Rightarrow> clock \<Rightarrow> ReplaceActivityRequest \<Rightarrow> db \<Rightarrow> RecordedCommand result \<times> db" where
  "ReplaceActivity e clk rq d =
     (case validateReplaceActivityRequest e rq of
        Inl x \<Rightarrow> (Inl x, d)
      | Inr _ \<Rightarrow> run_tx (canonical_edit_tx e ''replace-activity'' CommandTripEdited rq (ReplaceActivity_edit e clk rq)) d)"

definition AddActivity_edit ::
  "ext \<Rightarrow> clock \<Rightarrow> AddActivityRequest \<Rightarrow> trip_row \<Rightarrow> uuid \<Rightarrow> db \<Rightarrow> err + (RecordedCommand \<times> db)" where
  "AddActivity_edit e clk rq t currentPlanID d =
     bindr (load_activities (ce_TripID rq) d) (\<lambda>(currentActivityIDs, states).
     let newActivity = aa_Activity rq; n = length currentActivityIDs in
     if n \<ge> 64 then Inl (ErrText ''trip-edit activity limit is exceeded'')
     else if aa_Ordinal rq > n then Inl (ErrText ''trip-edit add ordinal is invalid'')
     else if map_of states (ca_ID newActivity) \<noteq> None then Inl (ErrText ''trip-edit add repeats an activity'')
     else
     let resultingActivityIDs =
       take (aa_Ordinal rq) currentActivityIDs @ [ca_ID newActivity] @ drop (aa_Ordinal rq) currentActivityIDs in
     bindr (validateReplacementPlan (ce_PlanSegments rq)
         (AList.update (ca_ID newActivity) (ca_ActivityState newActivity) states)) (\<lambda>_.
     bindr (lock_current_plan ''lock add-activity current plan'' (ce_TripID rq) currentPlanID d) (\<lambda>_.
     bindr (edit_payloads e clk rq t) (\<lambda>payloads.
     bindr (exec_sql ''stage add-activity ordinals'' (stage_ordinals (ce_TripID rq) (n + 1)
         (supersede_pending (ce_TripID rq) (clk 1) d))) (\<lambda>d1.
     bindr (insert_activity_draft ''add-activity'' (ce_TripID rq) (int (2 * n + 1)) newActivity d1) (\<lambda>d2.
     bindr (apply_ordinals ''add-activity'' (ce_TripID rq) resultingActivityIDs d2) (\<lambda>d3.
     publish_edit e clk ''add-activity'' CommandTripEdited rq t payloads d3)))))))"

definition AddActivity :: "ext \<Rightarrow> clock \<Rightarrow> AddActivityRequest \<Rightarrow> db \<Rightarrow> RecordedCommand result \<times> db" where
  "AddActivity e clk rq d =
     (case validateAddActivityRequest e rq of
        Inl x \<Rightarrow> (Inl x, d)
      | Inr _ \<Rightarrow> run_tx (canonical_edit_tx e ''add-activity'' CommandTripEdited rq (AddActivity_edit e clk rq)) d)"

section \<open>Facts common to the edits\<close>

text \<open>PostgreSQL stores valid JSON: what \<open>jsonb\<close> gives back passes \<open>json.Valid\<close>.\<close>

definition jsonb_valid :: "ext \<Rightarrow> bool" where
  "jsonb_valid e \<longleftrightarrow> (\<forall>b x. to_jsonb e b = Some x \<longrightarrow> json_valid e x)"

lemma canonical_edit_guard_cases:
  assumes "canonical_edit_guard e op kind rq d = Inr g"
  obtains (existing) t c row r where "find_trip (ce_TripID rq) d = Some t" "t_current_plan_id t = Some c"
      "t_owner_user_id t = ce_OwnerUserID rq" "recordedCommandSelect (ce_TripID rq) (ce_MessageID rq) d = Some row"
      "scanRecordedCommand e row True = Inr (r, ce_PayloadDigest rq, DigestAlgorithmRFC8785SHA256V1)"
      "rc_Kind r = kind" "g = Existing r"
  | (fresh) t c where "find_trip (ce_TripID rq) d = Some t" "t_current_plan_id t = Some c"
      "t_owner_user_id t = ce_OwnerUserID rq" "recordedCommandSelect (ce_TripID rq) (ce_MessageID rq) d = None"
      "0 \<le> t_trip_revision t" "uint64 (t_trip_revision t) = ce_ExpectedTripRevision rq" "t_trip_revision t \<noteq> int MaxInt64"
      "0 < t_next_mutation_sequence t" "t_next_mutation_sequence t \<noteq> int MaxInt64"
      "\<not> sql_exists (\<lambda>i. i_trip_id i = ce_TripID rq \<and> i_application_order i = RuntimeFirst \<and> i_state i = IntentPending)
         (command_intents d)"
      "sql_count (\<lambda>i. i_trip_id i = ce_TripID rq \<and> i_application_order i = CanonicalFirst \<and>
         i_runtime_sync_state i \<in> {SyncPending, SyncPausedInternal}) (command_intents d) < ce_MaxPendingCanonicalMirror rq"
      "g = Fresh t c"
proof -
  from assms obtain t c where t: "find_trip (ce_TripID rq) d = Some t" "t_current_plan_id t = Some c"
    unfolding canonical_edit_guard_def by (auto split: option.splits)
  have o: "t_owner_user_id t = ce_OwnerUserID rq"
    using assms t unfolding canonical_edit_guard_def by (simp split: if_splits)
  show thesis
  proof (cases "recordedCommandSelect (ce_TripID rq) (ce_MessageID rq) d")
    case None
    have "0 \<le> t_trip_revision t" "uint64 (t_trip_revision t) = ce_ExpectedTripRevision rq" "t_trip_revision t \<noteq> int MaxInt64"
      "0 < t_next_mutation_sequence t" "t_next_mutation_sequence t \<noteq> int MaxInt64"
      "sql_count (\<lambda>i. i_trip_id i = ce_TripID rq \<and> i_application_order i = RuntimeFirst \<and> i_state i = IntentPending)
         (command_intents d) = 0"
      "sql_count (\<lambda>i. i_trip_id i = ce_TripID rq \<and> i_application_order i = CanonicalFirst \<and>
         i_runtime_sync_state i \<in> {SyncPending, SyncPausedInternal}) (command_intents d) < ce_MaxPendingCanonicalMirror rq"
      "g = Fresh t c"
      using assms t o None unfolding canonical_edit_guard_def by (simp_all split: if_splits)
    then show thesis using fresh [OF t o None] by (simp add: sql_count_eq_0 sql_exists_iff)
  next
    case (Some row)
    then show thesis
      using assms t o existing [OF t o Some] unfolding canonical_edit_guard_def
      by (simp split: sum.splits prod.splits if_splits)
  qed
qed

text \<open>The tables an edit may change before it publishes: the activities, their windows and the delays.\<close>

definition edit_frame :: "db \<Rightarrow> db \<Rightarrow> bool" where
  "edit_frame d d1 \<longleftrightarrow> users d1 = users d \<and> trips d1 = trips d \<and> itinerary_plans d1 = itinerary_plans d \<and>
     plan_proposals d1 = plan_proposals d \<and> command_intents d1 = command_intents d \<and> planner_outbox d1 = planner_outbox d \<and>
     planner_snapshots d1 = planner_snapshots d \<and> trip_runtime_leases d1 = trip_runtime_leases d"

lemma edit_frame_refl [simp]: "edit_frame d d" by (simp add: edit_frame_def)

lemma edit_frame_trans: "edit_frame d d1 \<Longrightarrow> edit_frame d1 d2 \<Longrightarrow> edit_frame d d2"
  by (simp add: edit_frame_def)

lemma user_plan_row_simps [simp]:
  "p_id (user_plan_row e pid tid rv own pl c) = pid" "p_trip_id (user_plan_row e pid tid rv own pl c) = tid"
  "p_plan_revision (user_plan_row e pid tid rv own pl c) = int64 rv" "p_payload (user_plan_row e pid tid rv own pl c) = pl"
  "p_created_at (user_plan_row e pid tid rv own pl c) = c" "p_origin (user_plan_row e pid tid rv own pl c) = UserAuthored"
  "p_source_proposal_id (user_plan_row e pid tid rv own pl c) = None"
  "p_authored_by_user_id (user_plan_row e pid tid rv own pl c) = own"
  by (simp_all add: user_plan_row_def)

lemma publish_edit_row_simps [simp]:
  "t_id (publish_edit_row pid rv mseq now t) = t_id t" "t_owner_user_id (publish_edit_row pid rv mseq now t) = t_owner_user_id t"
  "t_current_plan_id (publish_edit_row pid rv mseq now t) = Some pid"
  "t_trip_revision (publish_edit_row pid rv mseq now t) = int64 rv"
  "t_finalized_mutation_sequence (publish_edit_row pid rv mseq now t) = int64 mseq"
  "t_next_mutation_sequence (publish_edit_row pid rv mseq now t) = int64 (add_u64 mseq 1)"
  "t_default_time_zone_name (publish_edit_row pid rv mseq now t) = t_default_time_zone_name t"
  by (simp_all add: publish_edit_row_def)

abbreviation edit_intent ::
  "CommandKind \<Rightarrow> 'a ReplaceCurrentPlanRequest_scheme \<Rightarrow> trip_row \<Rightarrow> bytes \<Rightarrow> bytes \<Rightarrow> time \<Rightarrow> intent_row" where
  "edit_intent kind rq t command outcome createdAt \<equiv> canonical_intent_row (ce_IntentID rq) (ce_TripID rq)
     (ce_MessageID rq) (ce_EventID rq) (int64 (uint64 (t_next_mutation_sequence t))) (int64 (ce_ExpectedTripRevision rq)) kind
     (ce_PayloadDigest rq) command outcome (int64 (uint64 (t_trip_revision t + 1))) (ce_PlanID rq) SyncPending createdAt
     (ce_CommandExpiresAt rq)"

lemma publish_edit_statements:
  assumes "publish_edit e clk op kind rq t payloads d = Inr (r, d')"
  obtains d1 d2 d3 command outcome event where
    "insert_plan (user_plan_row e (ce_PlanID rq) (ce_TripID rq) (uint64 (t_trip_revision t + 1)) (ce_OwnerUserID rq)
       (fst payloads) (trunc_millis (clk 0))) d = Some d1"
    "update_trip (ce_TripID rq) (publish_edit_row (ce_PlanID rq) (uint64 (t_trip_revision t + 1))
       (uint64 (t_next_mutation_sequence t)) (clk 2)) d1 = Some d2"
    "to_jsonb e (ce_CommandPayload rq) = Some command" "to_jsonb e (ce_OutcomePayload rq) = Some outcome"
    "insert_intent (edit_intent kind rq t command outcome (trunc_millis (clk 0))) d2 = Some d3"
    "to_jsonb e (snd payloads) = Some event"
    "insert_outbox (new_outbox_row (ce_OutboxID rq) (ce_IntentID rq) (ce_TripID rq)
       (int64 (uint64 (t_next_mutation_sequence t))) event (clk 3) (clk 4)) d3 = Some d'"
    "r = canonical_result (ce_IntentID rq) (ce_OutboxID rq) (ce_TripID rq) (ce_MessageID rq) (ce_EventID rq)
       (uint64 (t_next_mutation_sequence t)) (ce_ExpectedTripRevision rq) kind SyncPending (ce_OutcomePayload rq)
       (uint64 (t_trip_revision t + 1)) (ce_PlanID rq) (trunc_millis (clk 0))"
  using assms unfolding publish_edit_def Let_def bindr_eq_Inr exec_sql_eq_Inr by auto

lemma schema_publish_edit:
  assumes "publish_edit e clk op kind rq t payloads d = Inr (r, d')" "schema_ok d"
  shows "schema_ok d'"
proof -
  from assms(1) obtain d1 d2 d3 p i b where "insert_plan p d = Some d1"
    and u: "update_trip (ce_TripID rq) (publish_edit_row (ce_PlanID rq) (uint64 (t_trip_revision t + 1))
       (uint64 (t_next_mutation_sequence t)) (clk 2)) d1 = Some d2"
    and "insert_intent i d2 = Some d3" "insert_outbox b d3 = Some d'"
    by (rule publish_edit_statements)
  then show ?thesis
    using schema_insert_plan [OF _ assms(2)] schema_update_trip [OF _ u] schema_insert_intent schema_insert_outbox by simp
qed

lemma uint64_int64_uint64 [simp]: "uint64 (int64 (uint64 i)) = uint64 i"
  by (rule uint64_int64) (simp add: uint64_def nat_less_iff)

lemma canonical_intent_row_simps [simp]:
  "i_id (canonical_intent_row iid tid mid eid n ex k dg p out rv pid sy c xp) = iid"
  "i_trip_id (canonical_intent_row iid tid mid eid n ex k dg p out rv pid sy c xp) = tid"
  "i_message_id (canonical_intent_row iid tid mid eid n ex k dg p out rv pid sy c xp) = mid"
  "i_application_order (canonical_intent_row iid tid mid eid n ex k dg p out rv pid sy c xp) = CanonicalFirst"
  "i_mutation_sequence (canonical_intent_row iid tid mid eid n ex k dg p out rv pid sy c xp) = n"
  "i_runtime_sync_state (canonical_intent_row iid tid mid eid n ex k dg p out rv pid sy c xp) = sy"
  "i_state (canonical_intent_row iid tid mid eid n ex k dg p out rv pid sy c xp) = IntentApplied"
  "i_resulting_current_plan_id (canonical_intent_row iid tid mid eid n ex k dg p out rv pid sy c xp) = Some pid"
  by (simp_all add: canonical_intent_row_def)

lemma canonical_result_simps [simp]:
  "rc_Duplicate (canonical_result iid oid tid mid eid n ex k sy out rv pid c) = False"
  "rc_MutationSequence (canonical_result iid oid tid mid eid n ex k sy out rv pid c) = n"
  "rc_ResultingTripRevision (canonical_result iid oid tid mid eid n ex k sy out rv pid c) = Some rv"
  "rc_ResultingCurrentPlanID (canonical_result iid oid tid mid eid n ex k sy out rv pid c) = Some pid"
  by (simp_all add: canonical_result_def)

text \<open>The tables after an edit.\<close>

definition published_db ::
  "ext \<Rightarrow> clock \<Rightarrow> 'a ReplaceCurrentPlanRequest_scheme \<Rightarrow> trip_row \<Rightarrow> bytes \<Rightarrow> intent_row \<Rightarrow> outbox_row \<Rightarrow> db \<Rightarrow> db" where
  "published_db e clk rq t payload i b d = d\<lparr>
     itinerary_plans := itinerary_plans d @ [user_plan_row e (ce_PlanID rq) (ce_TripID rq)
       (uint64 (t_trip_revision t + 1)) (ce_OwnerUserID rq) payload (trunc_millis (clk 0))],
     trips := sql_update (\<lambda>t. t_id t = ce_TripID rq) (publish_edit_row (ce_PlanID rq) (uint64 (t_trip_revision t + 1))
       (uint64 (t_next_mutation_sequence t)) (clk 2)) (trips d),
     command_intents := command_intents d @ [i], planner_outbox := planner_outbox d @ [b]\<rparr>"

lemma publish_edit_db:
  assumes "publish_edit e clk op kind rq t payloads d = Inr (r, d')"
  obtains command outcome event i b where "to_jsonb e (ce_OutcomePayload rq) = Some outcome"
    "i = edit_intent kind rq t command outcome (trunc_millis (clk 0))" "intent_check i"
    "b = new_outbox_row (ce_OutboxID rq) (ce_IntentID rq) (ce_TripID rq) (int64 (uint64 (t_next_mutation_sequence t))) event
      (clk 3) (clk 4)"
    "d' = published_db e clk rq t (fst payloads) i b d"
    "recordedCommandSelect (ce_TripID rq) (ce_MessageID rq) d' = Some (i, Some b)"
    "\<not> rc_Duplicate r" "rc_MutationSequence r = uint64 (t_next_mutation_sequence t)"
    "rc_ResultingTripRevision r = Some (uint64 (t_trip_revision t + 1))" "rc_ResultingCurrentPlanID r = Some (ce_PlanID rq)"
    "plan_check (user_plan_row e (ce_PlanID rq) (ce_TripID rq)
       (uint64 (t_trip_revision t + 1)) (ce_OwnerUserID rq) (fst payloads) (trunc_millis (clk 0)))"
    "\<forall>u\<in>set (trips d). t_id u = ce_TripID rq \<longrightarrow> trip_check (publish_edit_row (ce_PlanID rq) (uint64 (t_trip_revision t + 1))
       (uint64 (t_next_mutation_sequence t)) (clk 2) u)"
    "fresh_in p_id (user_plan_row e (ce_PlanID rq) (ce_TripID rq)
       (uint64 (t_trip_revision t + 1)) (ce_OwnerUserID rq) (fst payloads) (trunc_millis (clk 0))) (itinerary_plans d)"
proof -
  let ?p = "user_plan_row e (ce_PlanID rq) (ce_TripID rq) (uint64 (t_trip_revision t + 1)) (ce_OwnerUserID rq)
    (fst payloads) (trunc_millis (clk 0))"
  let ?f = "publish_edit_row (ce_PlanID rq) (uint64 (t_trip_revision t + 1)) (uint64 (t_next_mutation_sequence t)) (clk 2)"
  from assms obtain d1 d2 d3 command outcome event where
    p: "insert_plan ?p d = Some d1" and u: "update_trip (ce_TripID rq) ?f d1 = Some d2"
    and out: "to_jsonb e (ce_OutcomePayload rq) = Some outcome"
    and i: "insert_intent (edit_intent kind rq t command outcome (trunc_millis (clk 0))) d2 = Some d3"
    and b: "insert_outbox (new_outbox_row (ce_OutboxID rq) (ce_IntentID rq) (ce_TripID rq)
       (int64 (uint64 (t_next_mutation_sequence t))) event (clk 3) (clk 4)) d3 = Some d'"
    and r: "r = canonical_result (ce_IntentID rq) (ce_OutboxID rq) (ce_TripID rq) (ce_MessageID rq) (ce_EventID rq)
       (uint64 (t_next_mutation_sequence t)) (ce_ExpectedTripRevision rq) kind SyncPending (ce_OutcomePayload rq)
       (uint64 (t_trip_revision t + 1)) (ce_PlanID rq) (trunc_millis (clk 0))"
    by (rule publish_edit_statements)
  let ?i = "edit_intent kind rq t command outcome (trunc_millis (clk 0))"
  let ?b = "new_outbox_row (ce_OutboxID rq) (ce_IntentID rq) (ce_TripID rq) (int64 (uint64 (t_next_mutation_sequence t))) event (clk 3) (clk 4)"
  note P = insert_plan_SomeD [OF p] and U = update_trip_SomeD [OF u] and I = insert_intent_SomeD [OF i]
    and B = insert_outbox_SomeD [OF b]
  have d': "d' = published_db e clk rq t (fst payloads) ?i ?b d" using P U I B by (simp add: published_db_def)
  have "query_row (\<lambda>i. i_trip_id i = ce_TripID rq \<and> i_message_id i = ce_MessageID rq) (command_intents d) = None"
    unfolding query_row_None using I U P by (simp add: fresh_in_iff)
  moreover have "query_row (\<lambda>b. o_command_intent_id b = ce_IntentID rq) (planner_outbox d) = None"
    unfolding query_row_None using B I U P by (simp add: fresh_in_iff)
  ultimately have "recordedCommandSelect (ce_TripID rq) (ce_MessageID rq) d' = Some (?i, Some ?b)"
    by (simp add: d' published_db_def recordedCommandSelect_def query_row_snoc)
  then show thesis
    using that [of outcome ?i command ?b event] out I d' r P U by simp
qed

lemma canonical_intent_scans:
  assumes "jsonb_valid e" "to_jsonb e outcome0 = Some outcome" "0 < n" "0 \<le> ex" "length dg = 32" "0 \<le> rv" "validCanonicalUUID pid"
  shows "\<exists>r. scanRecordedCommand e (canonical_intent_row iid tid mid eid n ex k dg p outcome rv pid sy c xp, b) dup =
      Inr (r, dg, DigestAlgorithmRFC8785SHA256V1) \<and> rc_Kind r = k \<and> rc_Duplicate r = dup \<and>
      rc_MutationSequence r = uint64 n \<and> rc_ResultingCurrentPlanID r = Some pid \<and> rc_ResultingTripRevision r = Some (uint64 rv)"
  using assms by (auto simp: scanRecordedCommand_def canonical_intent_row_def jsonb_valid_def DigestAlgorithmRFC8785SHA256V1_def)

lemma canonical_edit_guard_recorded:
  assumes "find_trip (ce_TripID rq) d = Some t" "t_current_plan_id t = Some c" "t_owner_user_id t = ce_OwnerUserID rq"
    "recordedCommandSelect (ce_TripID rq) (ce_MessageID rq) d = Some row"
    "scanRecordedCommand e row True = Inr (r, ce_PayloadDigest rq, DigestAlgorithmRFC8785SHA256V1)" "rc_Kind r = kind"
  shows "canonical_edit_guard e op kind rq d = Inr (Existing r)"
  using assms by (simp add: canonical_edit_guard_def)

section \<open>The contract of an edit\<close>

text \<open>
  What an edit provides: it validates, runs behind the common guard, changes nothing but pending
  proposals, activities, windows and delays, and then publishes its plan.
\<close>

locale canonical_edit =
  fixes op :: string and kind :: CommandKind
    and validate :: "ext \<Rightarrow> 'a ReplaceCurrentPlanRequest_scheme \<Rightarrow> unit result"
    and edit :: "ext \<Rightarrow> clock \<Rightarrow> 'a ReplaceCurrentPlanRequest_scheme \<Rightarrow> trip_row \<Rightarrow> uuid \<Rightarrow> db \<Rightarrow> err + (RecordedCommand \<times> db)"
    and run :: "ext \<Rightarrow> clock \<Rightarrow> 'a ReplaceCurrentPlanRequest_scheme \<Rightarrow> db \<Rightarrow> RecordedCommand result \<times> db"
  assumes run_def: "run e clk rq d = (case validate e rq of Inl x \<Rightarrow> (Inl x, d)
      | Inr _ \<Rightarrow> run_tx (canonical_edit_tx e op kind rq (edit e clk rq)) d)"
    and validate_plan: "validate e rq = Inr () \<Longrightarrow> validCanonicalUUID (ce_PlanID rq)"
    and edit_publishes: "edit e clk rq t c d = Inr (r, d') \<Longrightarrow>
      \<exists>d1 payloads. edit_frame (supersede_pending (ce_TripID rq) (clk 1) d) d1 \<and> (schema_ok d \<longrightarrow> schema_ok d1) \<and>
        edit_payloads e clk rq t = Inr payloads \<and> publish_edit e clk op kind rq t payloads d1 = Inr (r, d')"
begin

lemma run_cases:
  assumes "run e clk rq d = (Inr r, d')"
  obtains (existing) t c row where "validate e rq = Inr ()" "find_trip (ce_TripID rq) d = Some t" "t_current_plan_id t = Some c"
      "t_owner_user_id t = ce_OwnerUserID rq" "recordedCommandSelect (ce_TripID rq) (ce_MessageID rq) d = Some row"
      "scanRecordedCommand e row True = Inr (r, ce_PayloadDigest rq, DigestAlgorithmRFC8785SHA256V1)"
      "rc_Kind r = kind" "d' = d"
  | (fresh) t c d1 payloads where "validate e rq = Inr ()" "find_trip (ce_TripID rq) d = Some t" "t_current_plan_id t = Some c"
      "t_owner_user_id t = ce_OwnerUserID rq" "0 \<le> t_trip_revision t" "uint64 (t_trip_revision t) = ce_ExpectedTripRevision rq"
      "t_trip_revision t \<noteq> int MaxInt64" "0 < t_next_mutation_sequence t" "t_next_mutation_sequence t \<noteq> int MaxInt64"
      "\<not> sql_exists (\<lambda>i. i_trip_id i = ce_TripID rq \<and> i_application_order i = RuntimeFirst \<and> i_state i = IntentPending)
         (command_intents d)"
      "edit e clk rq t c d = Inr (r, d')"
      "edit_frame (supersede_pending (ce_TripID rq) (clk 1) d) d1" "schema_ok d \<Longrightarrow> schema_ok d1"
      "edit_payloads e clk rq t = Inr payloads" "publish_edit e clk op kind rq t payloads d1 = Inr (r, d')"
proof -
  have v: "validate e rq = Inr ()" and tx: "canonical_edit_tx e op kind rq (edit e clk rq) d = Inr (r, d')"
    using assms by (simp_all add: run_def run_tx_Inr split: sum.splits)
  from tx obtain g where g: "canonical_edit_guard e op kind rq d = Inr g"
    by (auto simp: canonical_edit_tx_def bindr_eq_Inr)
  from g show thesis
  proof (cases rule: canonical_edit_guard_cases)
    case (existing t c row r0)
    then show thesis using tx g that(1) [OF v existing(1-4)] by (simp add: canonical_edit_tx_def)
  next
    case (fresh t c)
    then have ed: "edit e clk rq t c d = Inr (r, d')" using tx g by (simp add: canonical_edit_tx_def)
    then show thesis using edit_publishes [OF ed] that(2) [OF v fresh(1-3,5-10)] by blast
  qed
qed

lemma schema_run: "schema_ok d \<Longrightarrow> schema_ok (snd (run e clk rq d))"
proof (cases "fst (run e clk rq d)")
  case (Inr r)
  then obtain d' where s: "run e clk rq d = (Inr r, d')" by (cases "run e clk rq d") auto
  assume ok: "schema_ok d"
  from s show ?thesis
  proof (cases rule: run_cases)
    case (fresh t c d1 payloads)
    then show ?thesis using schema_publish_edit ok s by simp
  qed (simp add: s ok)
qed (auto simp: run_def run_tx_def split: sum.splits)

lemma run_error_keeps: "run e clk rq d = (Inl x, d') \<Longrightarrow> d' = d"
  by (auto simp: run_def run_tx_def split: sum.splits)

text \<open>The first success of an edit: the trip moves by one revision and one sequence number to the new plan.\<close>

lemma run_advances:
  assumes "run e clk rq d = (Inr r, d')" "schema_ok d" "\<not> rc_Duplicate r" "find_trip (ce_TripID rq) d = Some t"
  obtains d1 payload event i b where "edit_frame (supersede_pending (ce_TripID rq) (clk 1) d) d1"
    "schema_ok d1" "edit_payloads e clk rq t = Inr (payload, event)" "d' = published_db e clk rq t payload i b d1"
    "t_owner_user_id t = ce_OwnerUserID rq"
    "find_trip (ce_TripID rq) d' = Some (publish_edit_row (ce_PlanID rq) (uint64 (t_trip_revision t + 1))
       (uint64 (t_next_mutation_sequence t)) (clk 2) t)"
    "int64 (uint64 (t_trip_revision t + 1)) = t_trip_revision t + 1"
    "int64 (uint64 (t_next_mutation_sequence t)) = t_next_mutation_sequence t"
    "int64 (add_u64 (uint64 (t_next_mutation_sequence t)) 1) = t_next_mutation_sequence t + 1"
    "0 \<le> t_trip_revision t" "0 < t_next_mutation_sequence t"
    "i_state i = IntentApplied" "i_runtime_sync_state i = SyncPending" "i_id i = ce_IntentID rq"
    "i_mutation_sequence i = t_next_mutation_sequence t" "o_delivery_state b = DeliveryPending" "o_command_intent_id b = i_id i"
    "o_trip_id b = i_trip_id i" "o_mutation_sequence b = i_mutation_sequence i"
    "i_trip_id i = ce_TripID rq" "i_application_order i = CanonicalFirst" "validCanonicalUUID (ce_PlanID rq)"
    "fresh_in p_id (user_plan_row e (ce_PlanID rq) (ce_TripID rq)
       (uint64 (t_trip_revision t + 1)) (ce_OwnerUserID rq) payload (trunc_millis (clk 0))) (itinerary_plans d)"
    "edit e clk rq t (the (t_current_plan_id t)) d = Inr (r, d')"
  using assms(1)
proof (cases rule: run_cases)
  case (existing u c row)
  obtain i b where "row = (i, b)" by (cases row)
  then have "rc_Duplicate r" using existing(6) scanRecordedCommand_fields(2) by fastforce
  then show thesis using assms(3) by simp
next
  case (fresh u c d1 payloads)
  have eq: "u = t" using fresh(2) assms(4) by simp
  obtain command outcome event i b where i: "i = edit_intent kind rq t command outcome (trunc_millis (clk 0))"
    and b: "b = new_outbox_row (ce_OutboxID rq) (ce_IntentID rq) (ce_TripID rq) (int64 (uint64 (t_next_mutation_sequence t))) event
      (clk 3) (clk 4)"
    and d': "d' = published_db e clk rq t (fst payloads) i b d1"
    and fr: "fresh_in p_id (user_plan_row e (ce_PlanID rq) (ce_TripID rq)
       (uint64 (t_trip_revision t + 1)) (ce_OwnerUserID rq) (fst payloads) (trunc_millis (clk 0))) (itinerary_plans d1)"
    by (rule publish_edit_db [OF fresh(15) [unfolded eq]])
  have tc: "trip_check t" using assms(2) find_trip_SomeD [OF assms(4)] by (simp add: schema_ok_def trips_ok_def list_all_iff)
  then have rng: "t_trip_revision t < int MaxInt64" "t_next_mutation_sequence t < int MaxInt64"
    using fresh(7,9) eq by (auto simp: trip_check_def i64_ok_def)
  have "trips d1 = trips d" using fresh(12) by (simp add: edit_frame_def supersede_pending_def update_proposals_def)
  then have ft: "find_trip (ce_TripID rq) d' = Some (publish_edit_row (ce_PlanID rq) (uint64 (t_trip_revision t + 1))
       (uint64 (t_next_mutation_sequence t)) (clk 2) t)"
    using query_row_update [OF assms(4) [unfolded find_trip_def], of "\<lambda>t. t_id t = ce_TripID rq"
        "publish_edit_row (ce_PlanID rq) (uint64 (t_trip_revision t + 1)) (uint64 (t_next_mutation_sequence t)) (clk 2)"]
      find_trip_SomeD [OF assms(4)] by (simp add: find_trip_def d' published_db_def)
  have n1: "int64 (uint64 (t_trip_revision t + 1)) = t_trip_revision t + 1"
    using fresh(5) rng eq by (simp add: uint64_small int64_small)
  have n2: "int64 (uint64 (t_next_mutation_sequence t)) = t_next_mutation_sequence t"
    using fresh(8) rng eq by (simp add: uint64_small int64_small)
  have n3: "int64 (add_u64 (uint64 (t_next_mutation_sequence t)) 1) = t_next_mutation_sequence t + 1"
    using fresh(8) rng eq by (simp add: uint64_small add_u64_small int64_small)
  have ip: "itinerary_plans d1 = itinerary_plans d"
    using fresh(12) by (simp add: edit_frame_def supersede_pending_def update_proposals_def)
  show thesis
    by (rule that [OF fresh(12) fresh(13) [OF assms(2)] _ d' _ ft n1 n2 n3, of "snd payloads"])
      (use fresh eq i b n2 fr ip validate_plan in \<open>simp_all\<close>)
qed

lemma run_repeat:
  assumes "run e clk rq d = (Inr r, d')" "schema_ok d" "jsonb_valid e"
  shows "\<exists>y. run e clk' rq d' = (Inr y, d') \<and> rc_Duplicate y \<and> rc_MutationSequence y = rc_MutationSequence r \<and>
    rc_ResultingCurrentPlanID y = rc_ResultingCurrentPlanID r \<and> rc_ResultingTripRevision y = rc_ResultingTripRevision r"
proof -
  have again: "run e clk' rq d' = (Inr y, d')"
    if "validate e rq = Inr ()" "canonical_edit_guard e op kind rq d' = Inr (Existing y)" for y
    using that by (simp add: run_def run_tx_def canonical_edit_tx_def)
  from assms(1) show ?thesis
  proof (cases rule: run_cases)
    case (existing t c row)
    have "rc_Duplicate r" using existing(6) scanRecordedCommand_fields(2) [of e "fst row" "snd row" True r] by simp
    then show ?thesis
      using again [OF existing(1) canonical_edit_guard_recorded [where t = t and c = c and row = row]] existing by simp
  next
    case (fresh t c d1 payloads)
    obtain command outcome event i b where out: "to_jsonb e (ce_OutcomePayload rq) = Some outcome"
      and i: "i = edit_intent kind rq t command outcome (trunc_millis (clk 0))" and chk: "intent_check i"
      and d': "d' = published_db e clk rq t (fst payloads) i b d1"
      and rec: "recordedCommandSelect (ce_TripID rq) (ce_MessageID rq) d' = Some (i, Some b)"
      and r: "rc_MutationSequence r = uint64 (t_next_mutation_sequence t)"
        "rc_ResultingTripRevision r = Some (uint64 (t_trip_revision t + 1))" "rc_ResultingCurrentPlanID r = Some (ce_PlanID rq)"
      by (rule publish_edit_db [OF fresh(15)])
    have tr: "trips d1 = trips d" using fresh(12) by (simp add: edit_frame_def supersede_pending_def update_proposals_def)
    have "trip_check t" using assms(2) find_trip_SomeD [OF fresh(2)] by (simp add: schema_ok_def trips_ok_def list_all_iff)
    then have "t_trip_revision t < int MaxInt64" using fresh(7) by (auto simp: trip_check_def i64_ok_def)
    then have rv: "0 \<le> int64 (uint64 (t_trip_revision t + 1))" using fresh(5) by (simp add: uint64_small int64_small)
    have "0 < i_mutation_sequence i" "0 \<le> i_expected_trip_revision i" "length (i_payload_digest i) = 32"
      using chk by (simp_all add: intent_check_def)
    from this [unfolded i canonical_intent_row_def, simplified] obtain y where
      y: "scanRecordedCommand e (i, Some b) True = Inr (y, ce_PayloadDigest rq, DigestAlgorithmRFC8785SHA256V1)"
        "rc_Kind y = kind" "rc_Duplicate y" "rc_MutationSequence y = rc_MutationSequence r"
        "rc_ResultingCurrentPlanID y = rc_ResultingCurrentPlanID r" "rc_ResultingTripRevision y = rc_ResultingTripRevision r"
      using canonical_intent_scans [OF assms(3) out _ _ _ rv validate_plan [OF fresh(1)],
        where n = "int64 (uint64 (t_next_mutation_sequence t))" and ex = "int64 (ce_ExpectedTripRevision rq)"
          and dg = "ce_PayloadDigest rq" and iid = "ce_IntentID rq" and tid = "ce_TripID rq" and mid = "ce_MessageID rq"
          and eid = "ce_EventID rq" and k = kind and p = command and sy = SyncPending and c = "trunc_millis (clk 0)"
          and xp = "ce_CommandExpiresAt rq" and b = "Some b" and dup = True]
      unfolding i r by auto
    have "find_trip (ce_TripID rq) d' = Some (publish_edit_row (ce_PlanID rq) (uint64 (t_trip_revision t + 1))
       (uint64 (t_next_mutation_sequence t)) (clk 2) t)"
      using query_row_update [OF fresh(2) [unfolded find_trip_def], of "\<lambda>t. t_id t = ce_TripID rq"
          "publish_edit_row (ce_PlanID rq) (uint64 (t_trip_revision t + 1)) (uint64 (t_next_mutation_sequence t)) (clk 2)"]
        find_trip_SomeD [OF fresh(2)] tr by (simp add: find_trip_def d' published_db_def)
    then show ?thesis
      using again [OF fresh(1) canonical_edit_guard_recorded [OF _ _ _ rec y(1,2)]] fresh(4) y by simp
  qed
qed

end

sublocale canonical_edit \<subseteq> store: atomic_store_op "run e" for e
  by unfold_locales (erule schema_run, erule run_error_keeps)

sublocale canonical_edit \<subseteq> once: idempotent_store_op "run e" "\<lambda>_ _. jsonb_valid e" for e
  by unfold_locales (use run_repeat in blast)

end
