(* ===== verification/LR_Edits.thy ===== *)
theory LR_Edits
  imports LR_Canonical "HOL-Library.Multiset"
begin

text \<open>
  The five edits of a trip implement their contract.

  The first section shows how \<^const>\<open>stage_ordinals\<close> and \<^const>\<open>apply_ordinals\<close> renumber the activities
  of a trip: moving all ordinals out of the way first means that no intermediate state violates
  \<open>UNIQUE (trip_id, ordinal)\<close>, and afterwards the activities stand in the order asked for. The second
  interprets \<open>canonical_edit\<close> on every edit; the third shows what each edit does to the order of
  the trip's activities, an abstract list of identifiers.
\<close>

section \<open>Renumbering\<close>

text \<open>The activities of a trip as the code reads them, \<open>ORDER BY ordinal\<close>, and their identifiers.\<close>

definition trip_rows :: "uuid \<Rightarrow> db \<Rightarrow> activity_row list" where
  "trip_rows tripID d = sort_key a_ordinal (sql_select (\<lambda>a. a_trip_id a = tripID) (trip_activities d))"

definition trip_order :: "uuid \<Rightarrow> db \<Rightarrow> uuid list" where
  "trip_order tripID d = map a_id (trip_rows tripID d)"

definition ordinals_dense :: "uuid \<Rightarrow> db \<Rightarrow> bool" where
  "ordinals_dense tripID d \<longleftrightarrow> map a_ordinal (trip_rows tripID d) = map int [0..<length (trip_rows tripID d)]"

definition position :: "'a list \<Rightarrow> 'a \<Rightarrow> nat" where
  "position xs x = length (takeWhile (\<lambda>y. y \<noteq> x) xs)"

definition place :: "uuid \<Rightarrow> uuid list \<Rightarrow> activity_row \<Rightarrow> activity_row" where
  "place tripID ids a =
     (if a_trip_id a = tripID \<and> a_id a \<in> set ids then a\<lparr>a_ordinal := int (position ids (a_id a))\<rparr> else a)"

lemma position_less: "x \<in> set xs \<Longrightarrow> position xs x < length xs"
  by (induction xs) (auto simp: position_def)

lemma position_nth: "distinct xs \<Longrightarrow> i < length xs \<Longrightarrow> position xs (xs ! i) = i"
proof (induction xs arbitrary: i)
  case (Cons x xs)
  then show ?case by (cases i) (auto simp: position_def)
qed simp

lemma map_position: "distinct xs \<Longrightarrow> map (position xs) xs = [0..<length xs]"
  by (rule nth_equalityI) (simp_all add: position_nth)

lemma position_inj: "distinct xs \<Longrightarrow> inj_on (position xs) (set xs)"
  by (metis distinct_map distinct_upt map_position)

lemma position_snoc: "position (xs @ [y]) x = (if x \<in> set xs then position xs x else if x = y then length xs else length xs + 1)"
  by (induction xs) (auto simp: position_def)

lemma place_fields [simp]:
  "a_id (place tripID ids a) = a_id a" "a_trip_id (place tripID ids a) = a_trip_id a"
  "a_activity_state (place tripID ids a) = a_activity_state a"
  by (simp_all add: place_def)

lemma place_Nil [simp]: "place tripID [] a = a"
  by (simp add: place_def)

lemma place_snoc:
  "x \<notin> set xs \<Longrightarrow> place tripID (xs @ [x]) a =
     (if a_trip_id a = tripID \<and> a_id a = x then (place tripID xs a)\<lparr>a_ordinal := int (length xs)\<rparr> else place tripID xs a)"
  by (auto simp: place_def position_snoc)

lemma rowwise_update_Some:
  assumes "rowwise_update key P f updated rest = Some rows"
  shows "rows = updated @ sql_update P f rest"
  using assms by (induction rest arbitrary: updated) (fastforce simp: sql_update_def split: if_splits)+

lemma rowwise_update_distinct:
  assumes "rowwise_update key P f updated rest = Some rows" "distinct (map key (updated @ rest))"
  shows "distinct (map key rows)"
  using assms
proof (induction rest arbitrary: updated)
  case (Cons r rest)
  show ?case
  proof (cases "P r")
    case False
    then show ?thesis using Cons.IH [of "updated @ [r]"] Cons.prems by simp
  next
    case True
    then have "key (f r) \<notin> set (map key (updated @ rest))" "rowwise_update key P f (updated @ [f r]) rest = Some rows"
      using Cons.prems(1) by (auto split: if_splits)
    then show ?thesis using Cons.IH [of "updated @ [f r]"] Cons.prems(2) by simp
  qed
qed simp

lemma rowwise_update_succeeds:
  assumes "\<forall>r\<in>set rest. P r \<longrightarrow> key (f r) \<notin> key ` (set updated \<union> set rest)" "distinct (map (key \<circ> f) (filter P rest))"
  shows "\<exists>rows. rowwise_update key P f updated rest = Some rows"
  using assms
proof (induction rest arbitrary: updated)
  case (Cons r rest)
  have "\<exists>rows. rowwise_update key P f (updated @ [if P r then f r else r]) rest = Some rows"
    using Cons.prems by (intro Cons.IH) (auto split: if_splits, metis (mono_tags, lifting) imageI mem_Collect_eq)
  then show ?case using Cons.prems by (auto split: if_splits)
qed simp

lemma activity_check_ordinal:
  "activity_check a \<Longrightarrow> 0 \<le> k \<Longrightarrow> k < 2147483648 \<Longrightarrow> activity_check (a\<lparr>a_ordinal := k\<rparr>)"
  by (simp add: activity_check_def i32_ok_def MaxInt32_def)

text \<open>\<^const>\<open>update_ordinals\<close> keeps the schema, and says which rows it changes.\<close>

lemma update_ordinals_SomeD:
  assumes "update_ordinals P f d = Some d'"
  shows "d' = d\<lparr>trip_activities := sql_update P (\<lambda>a. a\<lparr>a_ordinal := f (a_ordinal a)\<rparr>) (trip_activities d)\<rparr>"
  using assms rowwise_update_Some by (fastforce simp: update_ordinals_def split: if_splits)

lemma schema_update_ordinals:
  assumes "update_ordinals P f d = Some d'" "schema_ok d"
  shows "schema_ok d'"
proof -
  let ?f = "\<lambda>a. a\<lparr>a_ordinal := f (a_ordinal a)\<rparr>"
  from assms(1) have c: "list_all (\<lambda>a. P a \<longrightarrow> activity_check (?f a)) (trip_activities d)"
    and r: "rowwise_update activity_ordinal_key P ?f [] (trip_activities d) = Some (trip_activities d')"
    by (auto simp: update_ordinals_def split: if_splits)
  have d': "d' = d\<lparr>trip_activities := sql_update P ?f (trip_activities d)\<rparr>" by (rule update_ordinals_SomeD [OF assms(1)])
  have "distinct (map activity_ordinal_key (trip_activities d'))"
    using rowwise_update_distinct [OF r] assms(2) by (simp add: schema_ok_def activities_ok_def)
  moreover have "distinct (map a_id (trip_activities d'))"
    using assms(2) by (simp add: d' sql_update_key_map schema_ok_def activities_ok_def)
  moreover have "list_all activity_check (trip_activities d')"
    using c assms(2) by (auto simp: d' list_all_iff schema_ok_def activities_ok_def elim!: sql_updateE)
  ultimately show ?thesis using assms(2) by (simp add: d' schema_ok_def activities_ok_def)
qed

lemma schema_stage_ordinals: "stage_ordinals tripID n d = Some d' \<Longrightarrow> schema_ok d \<Longrightarrow> schema_ok d'"
  unfolding stage_ordinals_def by (rule schema_update_ordinals)

lemma schema_apply_ordinals: "apply_ordinals op tripID ids d = Inr d' \<Longrightarrow> schema_ok d \<Longrightarrow> schema_ok d'"
  unfolding apply_ordinals_def
  by (erule for_each_invariant [where P = schema_ok]) (auto intro: schema_update_ordinals simp: exec_sql_eq_Inr)

lemma stage_ordinals_SomeD:
  assumes "stage_ordinals tripID n d = Some d'"
  shows "d' = d\<lparr>trip_activities := sql_update (\<lambda>a. a_trip_id a = tripID) (\<lambda>a. a\<lparr>a_ordinal := a_ordinal a + int n\<rparr>)
    (trip_activities d)\<rparr>"
  using update_ordinals_SomeD assms unfolding stage_ordinals_def .

lemma apply_ordinals_snoc:
  "apply_ordinals op tripID (ids @ [x]) d = bindr (apply_ordinals op tripID ids d) (\<lambda>d1.
     exec_sql (''apply '' @ op @ '' ordinal'')
       (update_ordinals (\<lambda>a. a_trip_id a = tripID \<and> a_id a = x) (\<lambda>_. int (length ids)) d1))"
  by (simp add: apply_ordinals_def enumerate_append_eq for_each_append bindr_def split: sum.splits)

lemma apply_ordinals_InrD:
  assumes "apply_ordinals op tripID ids d = Inr d'" "distinct ids"
  shows "d' = d\<lparr>trip_activities := map (place tripID ids) (trip_activities d)\<rparr>"
  using assms
proof (induction ids arbitrary: d' rule: rev_induct)
  case Nil
  then show ?case by (simp add: apply_ordinals_def)
next
  case (snoc x xs)
  from snoc.prems(1) obtain d1 where d1: "apply_ordinals op tripID xs d = Inr d1"
    and u: "update_ordinals (\<lambda>a. a_trip_id a = tripID \<and> a_id a = x) (\<lambda>_. int (length xs)) d1 = Some d'"
    by (auto simp: apply_ordinals_snoc bindr_eq_Inr exec_sql_eq_Inr)
  have "d1 = d\<lparr>trip_activities := map (place tripID xs) (trip_activities d)\<rparr>"
    using snoc.IH [OF d1] snoc.prems(2) by simp
  then show ?case using update_ordinals_SomeD [OF u] snoc.prems(2) by (simp add: sql_update_def place_snoc)
qed

text \<open>
  The two-phase renumbering cannot fail: staging moves every ordinal of the trip above the range that
  is assigned afterwards.
\<close>

definition staged :: "uuid \<Rightarrow> nat \<Rightarrow> db \<Rightarrow> bool" where
  "staged tripID n d \<longleftrightarrow> (\<forall>a\<in>set (trip_activities d). a_trip_id a = tripID \<longrightarrow> int n \<le> a_ordinal a)"

lemma stage_ordinals_succeeds:
  assumes "schema_ok d" "\<forall>a\<in>set (trip_activities d). a_trip_id a = tripID \<longrightarrow> a_ordinal a < int m" "m \<le> n"
    "m + n \<le> 2147483648"
  obtains d' where "stage_ordinals tripID n d = Some d'" "staged tripID n d'"
proof -
  let ?f = "\<lambda>a. a\<lparr>a_ordinal := a_ordinal a + int n\<rparr>"
  have ok: "activities_ok (trip_activities d)" using assms(1) by (simp add: schema_ok_def)
  then have pos: "\<forall>a\<in>set (trip_activities d). 0 \<le> a_ordinal a"
    by (auto simp: activities_ok_def list_all_iff activity_check_def)
  have "\<exists>rows. rowwise_update activity_ordinal_key (\<lambda>a. a_trip_id a = tripID) ?f [] (trip_activities d) = Some rows"
  proof (rule rowwise_update_succeeds)
    show "\<forall>r\<in>set (trip_activities d). a_trip_id r = tripID \<longrightarrow>
      activity_ordinal_key (?f r) \<notin> activity_ordinal_key ` (set [] \<union> set (trip_activities d))"
      using assms(2,3) pos by fastforce
    have "distinct (map activity_ordinal_key (filter (\<lambda>a. a_trip_id a = tripID) (trip_activities d)))"
      using ok by (simp add: activities_ok_def distinct_map_filter)
    then show "distinct (map (activity_ordinal_key \<circ> ?f) (filter (\<lambda>a. a_trip_id a = tripID) (trip_activities d)))"
      by (auto simp: distinct_map inj_on_def)
  qed
  moreover have "list_all (\<lambda>a. a_trip_id a = tripID \<longrightarrow> activity_check (?f a)) (trip_activities d)"
    unfolding list_all_iff
  proof (intro ballI impI)
    fix a assume a: "a \<in> set (trip_activities d)" "a_trip_id a = tripID"
    have "activity_check a" using ok a(1) by (simp add: activities_ok_def list_all_iff)
    moreover have "0 \<le> a_ordinal a + int n" using pos a(1) by simp
    moreover have "a_ordinal a < int m" using assms(2) a by simp
    then have "a_ordinal a + int n < 2147483648" using assms(4) by linarith
    ultimately show "activity_check (?f a)" by (rule activity_check_ordinal)
  qed
  ultimately have "\<exists>d'. stage_ordinals tripID n d = Some d'"
    by (elim exE) (simp add: stage_ordinals_def update_ordinals_def)
  then obtain d' where d': "stage_ordinals tripID n d = Some d'" ..
  moreover have "staged tripID n d'"
    unfolding staged_def stage_ordinals_SomeD [OF d'] using pos by (simp add: sql_update_def ball_Un)
  ultimately show thesis by (rule that)
qed

lemma apply_ordinals_succeeds:
  assumes "schema_ok d" "staged tripID n d" "distinct ids" "length ids \<le> n" "n < 2147483648"
  obtains d' where "apply_ordinals op tripID ids d = Inr d'"
proof -
  have "\<exists>d'. apply_ordinals op tripID ids d = Inr d'"
    using assms(3,4)
  proof (induction ids rule: rev_induct)
    case Nil
    then show ?case by (simp add: apply_ordinals_def)
  next
    case (snoc x xs)
    then obtain d1 where d1: "apply_ordinals op tripID xs d = Inr d1" by auto
    have rows: "d1 = d\<lparr>trip_activities := map (place tripID xs) (trip_activities d)\<rparr>"
      using apply_ordinals_InrD [OF d1] snoc.prems(1) by simp
    let ?P = "\<lambda>a. a_trip_id a = tripID \<and> a_id a = x" and ?f = "\<lambda>a. a\<lparr>a_ordinal := int (length xs)\<rparr>"
    have ok: "activities_ok (trip_activities d1)" using schema_apply_ordinals [OF d1 assms(1)] by (simp add: schema_ok_def)
    have "\<exists>rows. rowwise_update activity_ordinal_key ?P ?f [] (trip_activities d1) = Some rows"
    proof (rule rowwise_update_succeeds)
      have "a_ordinal (place tripID xs a) \<noteq> int (length xs)" if "a \<in> set (trip_activities d)" "a_trip_id a = tripID" for a
        using that assms(2) snoc.prems(2) position_less [of "a_id a" xs] by (simp add: place_def staged_def) force
      then have "\<forall>a\<in>set (trip_activities d1). a_trip_id a = tripID \<longrightarrow> a_ordinal a \<noteq> int (length xs)"
        unfolding rows by simp
      then show "\<forall>r\<in>set (trip_activities d1). ?P r \<longrightarrow>
        activity_ordinal_key (?f r) \<notin> activity_ordinal_key ` (set [] \<union> set (trip_activities d1))"
        by fastforce
      have "distinct (map a_id (filter ?P (trip_activities d1)))"
        using ok by (simp add: activities_ok_def distinct_map_filter)
      then show "distinct (map (activity_ordinal_key \<circ> ?f) (filter ?P (trip_activities d1)))"
        by (auto simp: distinct_map inj_on_def)
    qed
    moreover have "list_all (\<lambda>a. ?P a \<longrightarrow> activity_check (?f a)) (trip_activities d1)"
      using ok snoc.prems(2) assms(5) by (simp add: activities_ok_def list_all_iff activity_check_ordinal)
    ultimately have "\<exists>d2. update_ordinals ?P (\<lambda>_. int (length xs)) d1 = Some d2"
      by (elim exE) (simp add: update_ordinals_def)
    then show ?case by (auto simp: apply_ordinals_snoc d1)
  qed
  then show thesis using that by blast
qed

lemma mset_trip_rows: "mset (trip_rows tripID d) = mset (sql_select (\<lambda>a. a_trip_id a = tripID) (trip_activities d))"
  by (simp add: trip_rows_def)

lemma set_trip_rows [simp]: "set (trip_rows tripID d) = {a \<in> set (trip_activities d). a_trip_id a = tripID}"
  by (simp add: trip_rows_def sql_select_def)

lemma distinct_trip_order: "schema_ok d \<Longrightarrow> distinct (trip_order tripID d)"
proof -
  assume "schema_ok d"
  then have "distinct (map a_id (sql_select (\<lambda>a. a_trip_id a = tripID) (trip_activities d)))"
    by (simp add: schema_ok_def activities_ok_def sql_select_def distinct_map_filter)
  moreover have "mset (map a_id (trip_rows tripID d)) = mset (map a_id (sql_select (\<lambda>a. a_trip_id a = tripID) (trip_activities d)))"
    by (simp add: mset_trip_rows)
  ultimately show ?thesis unfolding trip_order_def by (metis mset_eq_imp_distinct_iff)
qed

lemma set_trip_order: "set (trip_order tripID d) = a_id ` {a \<in> set (trip_activities d). a_trip_id a = tripID}"
  by (simp add: trip_order_def)

text \<open>A trip whose activities carry their position in a list stands in the order of that list.\<close>

lemma trip_order_placed:
  assumes "schema_ok d" "distinct ids" "set (trip_order tripID d) = set ids"
    and pos: "\<forall>a\<in>set (trip_activities d). a_trip_id a = tripID \<longrightarrow> a_ordinal a = int (position ids (a_id a))"
  shows "trip_order tripID d = ids" "ordinals_dense tripID d"
proof -
  let ?rows = "trip_rows tripID d"
  have eq: "map a_ordinal ?rows = map int (map (position ids) (trip_order tripID d))"
    using pos by (simp add: trip_order_def)
  have "sorted (map a_ordinal ?rows)" by (simp add: trip_rows_def)
  then have s: "sorted (map (position ids) (trip_order tripID d))"
    unfolding eq by (simp add: sorted_map)
  have "mset (trip_order tripID d) = mset ids"
    using assms(2,3) distinct_trip_order [OF assms(1)] by (simp add: set_eq_iff_mset_eq_distinct [symmetric])
  then have "sort_key (position ids) (trip_order tripID d) = ids"
    using position_inj [OF assms(2)] assms(2,3) by (intro sort_key_inj_key_eq) (simp_all add: map_position)
  moreover have "sort_key (position ids) (trip_order tripID d) = trip_order tripID d"
    using s by (rule sort_key_id_if_sorted)
  ultimately show o: "trip_order tripID d = ids" by simp
  have "length ?rows = length ids" using arg_cong [OF o, of length] by (simp add: trip_order_def)
  then show "ordinals_dense tripID d" unfolding ordinals_dense_def eq o by (simp add: map_position assms(2))
qed

text \<open>Loading the activities of a trip checks that the ordinals count up from zero.\<close>

lemma activity_state_step_Inr:
  "activity_state_step a (ids, states) = Inr st \<longleftrightarrow> a_ordinal a = int (length ids) \<and> validCanonicalUUID (a_id a) \<and>
     ActivityState_valid (a_activity_state a) \<and> st = (ids @ [a_id a], AList.update (a_id a) (a_activity_state a) states)"
  by (auto simp: activity_state_step_def)

lemma load_activities_loop:
  assumes "for_each activity_state_step rows (ids, states) = Inr (ids', states')"
  shows "ids' = ids @ map a_id rows \<and> map a_ordinal rows = map int [length ids..<length ids'] \<and>
    map_of states' = map_of states ++ map_of (rev (map (\<lambda>a. (a_id a, a_activity_state a)) rows)) \<and>
    (\<forall>a\<in>set rows. validCanonicalUUID (a_id a))"
  using assms
proof (induction rows arbitrary: ids states)
  case (Cons a rows)
  from Cons.prems have st: "a_ordinal a = int (length ids)" "validCanonicalUUID (a_id a)"
    and rest: "for_each activity_state_step rows (ids @ [a_id a], AList.update (a_id a) (a_activity_state a) states) =
      Inr (ids', states')"
    by (auto simp: bindr_eq_Inr activity_state_step_Inr)
  note IH = Cons.IH [OF rest]
  have "[length ids..<length ids'] = length ids # [Suc (length ids)..<length ids']" using IH by (intro upt_conv_Cons) simp
  then have "map a_ordinal (a # rows) = map int [length ids..<length ids']" using IH st by (simp del: upt_Suc)
  moreover have "map_of states' = map_of states ++ map_of (rev (map (\<lambda>a. (a_id a, a_activity_state a)) (a # rows)))"
  proof -
    let ?m = "map_of (rev (map (\<lambda>a. (a_id a, a_activity_state a)) rows))"
    from IH have "map_of states' = map_of (AList.update (a_id a) (a_activity_state a) states) ++ ?m" by blast
    also have "\<dots> = (map_of states)(a_id a \<mapsto> a_activity_state a) ++ ?m" unfolding update_conv' ..
    finally show ?thesis by simp
  qed
  ultimately show ?case using IH st by simp
qed simp

lemma load_activities_InrD:
  assumes "load_activities tripID d = Inr (ids, states)"
  shows "ids = trip_order tripID d" "ordinals_dense tripID d" "dom (map_of states) = set ids"
    "\<forall>x\<in>set ids. validCanonicalUUID x"
proof -
  note L = load_activities_loop [OF assms [unfolded load_activities_def, folded trip_rows_def]]
  show ids: "ids = trip_order tripID d" using L by (simp add: trip_order_def)
  then show "ordinals_dense tripID d" using L by (simp add: ordinals_dense_def trip_order_def)
  show "\<forall>x\<in>set ids. validCanonicalUUID x" using L by (auto simp: ids trip_order_def)
  have "map_of states = map_of (rev (map (\<lambda>a. (a_id a, a_activity_state a)) (trip_rows tripID d)))"
    using L by simp
  then have "dom (map_of states) = fst ` set (map (\<lambda>a. (a_id a, a_activity_state a)) (trip_rows tripID d))"
    by (simp only: dom_map_of_conv_image_fst set_rev)
  then show "dom (map_of states) = set ids" by (simp add: ids trip_order_def image_image)
qed

lemma load_activities_loop_succeeds:
  assumes "map a_ordinal rows = map int [length ids..<length ids + length rows]"
    "\<forall>a\<in>set rows. validCanonicalUUID (a_id a) \<and> ActivityState_valid (a_activity_state a)"
  shows "\<exists>states'. for_each activity_state_step rows (ids, states) = Inr (ids @ map a_id rows, states')"
  using assms
proof (induction rows arbitrary: ids states)
  case (Cons a rows)
  from Cons.prems(1) have "a_ordinal a = int (length ids)" "map a_ordinal rows = map int [Suc (length ids)..<Suc (length ids) + length rows]"
    by (simp_all add: upt_conv_Cons del: upt_Suc)
  then show ?case
    using Cons.IH [of "ids @ [a_id a]" "AList.update (a_id a) (a_activity_state a) states"] Cons.prems(2)
    by (simp add: activity_state_step_def)
qed simp

lemma activity_check_state: "activity_check a \<Longrightarrow> ActivityState_valid (a_activity_state a)"
  by (simp add: activity_check_def ActivityState_valid_def)

lemma load_activities_succeeds:
  assumes "schema_ok d" "ordinals_dense tripID d" "\<forall>x\<in>set (trip_order tripID d). validCanonicalUUID x"
  shows "\<exists>states. load_activities tripID d = Inr (trip_order tripID d, states)"
proof -
  have "\<forall>a\<in>set (trip_rows tripID d). validCanonicalUUID (a_id a) \<and> ActivityState_valid (a_activity_state a)"
    using assms(1,3) by (simp add: trip_order_def schema_ok_def activities_ok_def list_all_iff activity_check_state)
  then show ?thesis
    using load_activities_loop_succeeds [of "trip_rows tripID d" "[]" "[]"] assms(2)
    by (simp add: load_activities_def ordinals_dense_def trip_order_def flip: trip_rows_def)
qed

section \<open>The statements of the edits\<close>

lemma schema_delete_activity: "schema_ok d \<Longrightarrow> schema_ok (delete_activity tripID aid d)"
  by (simp add: delete_activity_def schema_ok_def activities_ok_def windows_ok_def delays_ok_def distinct_sql_delete
      list_all_iff sql_delete_def distinct_map_filter)

lemma schema_delete_activity_windows: "schema_ok d \<Longrightarrow> schema_ok (delete_windows tripID aid d)"
  by (simp add: delete_windows_def schema_ok_def windows_ok_def list_all_iff sql_delete_def distinct_map_filter)

lemma replace_activity_row_SomeD:
  assumes "replace_activity_row tripID a d = Some d'"
  shows "d' = d\<lparr>trip_activities := sql_update (\<lambda>r. a_trip_id r = tripID \<and> a_id r = ca_ID a)
      (\<lambda>r. activity_row_of tripID (a_ordinal r) a) (trip_activities d)\<rparr>"
    "\<forall>r\<in>set (trip_activities d). a_trip_id r = tripID \<and> a_id r = ca_ID a \<longrightarrow> activity_check (activity_row_of tripID (a_ordinal r) a)"
  using assms by (auto simp: replace_activity_row_def Let_def list_all_iff split: if_splits)

lemma activity_row_of_keys [simp]:
  "a_id (activity_row_of tripID k a) = ca_ID a" "a_trip_id (activity_row_of tripID k a) = tripID"
  "a_ordinal (activity_row_of tripID k a) = k" "a_activity_state (activity_row_of tripID k a) = ca_ActivityState a"
  by (simp_all add: activity_row_of_def)

lemma sql_update_same_key:
  assumes "\<And>r. P r \<Longrightarrow> key (f r) = key r"
  shows "map key (sql_update P f t) = map key t"
  using assms by (induction t) (auto simp: sql_update_def)

lemma list_all_sql_update: "list_all Q (sql_update P f t) \<longleftrightarrow> (\<forall>r\<in>set t. if P r then Q (f r) else Q r)"
  by (induction t) (auto simp: sql_update_def)

lemma schema_replace_activity_row:
  assumes "replace_activity_row tripID a d = Some d'" "schema_ok d"
  shows "schema_ok d'"
proof -
  let ?P = "\<lambda>r. a_trip_id r = tripID \<and> a_id r = ca_ID a" and ?f = "\<lambda>r. activity_row_of tripID (a_ordinal r) a"
  note R = replace_activity_row_SomeD [OF assms(1)]
  have "list_all activity_check (sql_update ?P ?f (trip_activities d))"
    using R(2) assms(2) by (simp add: list_all_sql_update schema_ok_def activities_ok_def) (simp add: list_all_iff)
  moreover have "map a_id (sql_update ?P ?f (trip_activities d)) = map a_id (trip_activities d)"
    "map activity_ordinal_key (sql_update ?P ?f (trip_activities d)) = map activity_ordinal_key (trip_activities d)"
    by (rule sql_update_same_key, simp)+
  ultimately show ?thesis using assms(2) by (simp add: R(1) schema_ok_def activities_ok_def)
qed

lemma insert_open_windows_frame:
  assumes "insert_open_windows op tripID a d = Inr d'"
  shows "edit_frame d d' \<and> trip_activities d' = trip_activities d \<and> trip_travel_delays d' = trip_travel_delays d \<and> (schema_ok d \<longrightarrow> schema_ok d')"
  using assms unfolding insert_open_windows_def
proof (rule for_each_invariant [where P = "\<lambda>s. edit_frame d s \<and> trip_activities s = trip_activities d \<and>
    trip_travel_delays s = trip_travel_delays d \<and> (schema_ok d \<longrightarrow> schema_ok s)"])
  fix x s t
  assume s: "edit_frame d s \<and> trip_activities s = trip_activities d \<and> trip_travel_delays s = trip_travel_delays d \<and> (schema_ok d \<longrightarrow> schema_ok s)"
    and "(case x of (index, w) \<Rightarrow> \<lambda>d. exec_sql (''insert '' @ op @ '' window'')
        (insert_window (open_window_row tripID (ca_ID a) index w) d)) s = Inr t"
  then obtain w where w: "insert_window w s = Some t" by (cases x) (auto simp: exec_sql_eq_Inr)
  then have "t = s\<lparr>activity_open_windows := activity_open_windows s @ [w]\<rparr>"
    by (simp add: insert_window_def split: if_splits)
  then show "edit_frame d t \<and> trip_activities t = trip_activities d \<and> trip_travel_delays t = trip_travel_delays d \<and> (schema_ok d \<longrightarrow> schema_ok t)"
    using s schema_insert_window [OF w] by (simp add: edit_frame_def)
qed simp

lemma insert_activity_draft_frame:
  assumes "insert_activity_draft op tripID k a d = Inr d'"
  shows "edit_frame d d'" "trip_activities d' = trip_activities d @ [activity_row_of tripID k a]" "schema_ok d \<Longrightarrow> schema_ok d'"
    "fresh_in a_id (activity_row_of tripID k a) (trip_activities d)" "trip_travel_delays d' = trip_travel_delays d"
proof -
  from assms obtain d1 where d1: "insert_activity (activity_row_of tripID k a) d = Some d1"
    and w: "insert_open_windows op tripID a d1 = Inr d'"
    by (auto simp: insert_activity_draft_def bindr_eq_Inr exec_sql_eq_Inr)
  have eq: "d1 = d\<lparr>trip_activities := trip_activities d @ [activity_row_of tripID k a]\<rparr>"
    and "fresh_in a_id (activity_row_of tripID k a) (trip_activities d)"
    using d1 by (simp_all add: insert_activity_def split: if_splits)
  then show "edit_frame d d'" "trip_activities d' = trip_activities d @ [activity_row_of tripID k a]" "schema_ok d \<Longrightarrow> schema_ok d'"
    "fresh_in a_id (activity_row_of tripID k a) (trip_activities d)" "trip_travel_delays d' = trip_travel_delays d"
    using insert_open_windows_frame [OF w] schema_insert_activity [OF d1] by (simp_all add: edit_frame_def)
qed

lemma stage_ordinals_frame: "stage_ordinals tripID n d = Some d' \<Longrightarrow> edit_frame d d'"
  by (drule stage_ordinals_SomeD) (simp add: edit_frame_def)

lemma apply_ordinals_frame: "apply_ordinals op tripID ids d = Inr d' \<Longrightarrow> edit_frame d d'"
  unfolding apply_ordinals_def
  by (erule for_each_invariant [where P = "edit_frame d"])
    (auto simp: exec_sql_eq_Inr edit_frame_def dest!: update_ordinals_SomeD)

lemma delete_activity_frame [simp]: "edit_frame d (delete_activity tripID aid d)"
  by (simp add: edit_frame_def delete_activity_def)

lemma delete_windows_frame [simp]: "edit_frame d (delete_windows tripID aid d)"
  by (simp add: edit_frame_def delete_windows_def)

lemma replace_activity_row_frame: "replace_activity_row tripID a d = Some d' \<Longrightarrow> edit_frame d d'"
  by (drule replace_activity_row_SomeD(1)) (simp add: edit_frame_def)

lemmas edit_frames = stage_ordinals_frame apply_ordinals_frame insert_activity_draft_frame(1) replace_activity_row_frame
  insert_open_windows_frame [THEN conjunct1]
lemmas schema_edits = schema_supersede_pending schema_stage_ordinals schema_apply_ordinals schema_delete_activity schema_delete_activity_windows
  schema_replace_activity_row insert_activity_draft_frame(3)

section \<open>The edits implement the contract\<close>

lemma validate_edit_plan: "validate_edit e ids what shape rq = Inr u \<Longrightarrow> validCanonicalUUID (ce_PlanID rq)"
  by (simp add: validate_edit_def split: if_splits)

text \<open>What each edit does between the guard and the publication.\<close>

lemma ReplaceCurrentPlan_edit_cases:
  assumes "ReplaceCurrentPlan_edit e clk rq t c d = Inr (r, d')"
  obtains ids states payloads where "load_activities (ce_TripID rq) d = Inr (ids, states)"
    "validateReplacementPlan (ce_PlanSegments rq) states = Inr ()" "edit_payloads e clk rq t = Inr payloads"
    "publish_edit e clk ''replacement'' CommandReplaceCurrentPlan rq t payloads (supersede_pending (ce_TripID rq) (clk 1) d) = Inr (r, d')"
  using assms by (auto simp: ReplaceCurrentPlan_edit_def bindr_eq_Inr)

lemma ReorderActivities_edit_cases:
  assumes "ReorderActivities_edit e clk rq t c d = Inr (r, d')"
  obtains ids states payloads d1 d2 x where "load_activities (ce_TripID rq) d = Inr (ids, states)"
    "length ids = length (ro_ActivityIDs rq)" "for_each (reorder_step states) (ro_ActivityIDs rq) None = Inr x"
    "validateReplacementPlan (ce_PlanSegments rq) states = Inr ()" "edit_payloads e clk rq t = Inr payloads"
    "stage_ordinals (ce_TripID rq) (length ids) (supersede_pending (ce_TripID rq) (clk 1) d) = Some d1"
    "apply_ordinals ''trip-edit'' (ce_TripID rq) (ro_ActivityIDs rq) d1 = Inr d2"
    "publish_edit e clk ''trip-edit'' CommandTripEdited rq t payloads d2 = Inr (r, d')"
  using assms by (auto simp: ReorderActivities_edit_def bindr_eq_Inr exec_sql_eq_Inr split: if_splits)

lemma RemoveActivity_edit_cases:
  assumes "RemoveActivity_edit e clk rq t c d = Inr (r, d')"
  obtains ids states payloads d1 d2 where "load_activities (ce_TripID rq) d = Inr (ids, states)"
    "map_of states (rm_ActivityID rq) \<noteq> None" "edit_payloads e clk rq t = Inr payloads"
    "stage_ordinals (ce_TripID rq) (length ids) (supersede_pending (ce_TripID rq) (clk 1) d) = Some d1"
    "apply_ordinals ''remove-activity'' (ce_TripID rq) (filter (\<lambda>aid. aid \<noteq> rm_ActivityID rq) ids)
       (delete_activity (ce_TripID rq) (rm_ActivityID rq) d1) = Inr d2"
    "publish_edit e clk ''remove-activity'' CommandTripEdited rq t payloads d2 = Inr (r, d')"
  using assms unfolding RemoveActivity_edit_def Let_def bindr_eq_Inr by (auto simp: bindr_eq_Inr exec_sql_eq_Inr split: if_splits)

lemma ReplaceActivity_edit_cases:
  assumes "ReplaceActivity_edit e clk rq t c d = Inr (r, d')"
  obtains ids states payloads d1 d2 where "load_activities (ce_TripID rq) d = Inr (ids, states)"
    "map_of states (ca_ID (ra_Activity rq)) \<noteq> None" "edit_payloads e clk rq t = Inr payloads"
    "replace_activity_row (ce_TripID rq) (ra_Activity rq) (supersede_pending (ce_TripID rq) (clk 1) d) = Some d1"
    "insert_open_windows ''replace-activity'' (ce_TripID rq) (ra_Activity rq)
       (delete_windows (ce_TripID rq) (ca_ID (ra_Activity rq)) d1) = Inr d2"
    "publish_edit e clk ''replace-activity'' CommandTripEdited rq t payloads d2 = Inr (r, d')"
  using assms unfolding ReplaceActivity_edit_def Let_def bindr_eq_Inr by (auto simp: bindr_eq_Inr exec_sql_eq_Inr split: if_splits)

lemma AddActivity_edit_cases:
  assumes "AddActivity_edit e clk rq t c d = Inr (r, d')"
  obtains ids states payloads d1 d2 d3 where "load_activities (ce_TripID rq) d = Inr (ids, states)"
    "length ids < 64" "aa_Ordinal rq \<le> length ids" "map_of states (ca_ID (aa_Activity rq)) = None" "edit_payloads e clk rq t = Inr payloads"
    "stage_ordinals (ce_TripID rq) (length ids + 1) (supersede_pending (ce_TripID rq) (clk 1) d) = Some d1"
    "insert_activity_draft ''add-activity'' (ce_TripID rq) (int (2 * length ids + 1)) (aa_Activity rq) d1 = Inr d2"
    "apply_ordinals ''add-activity'' (ce_TripID rq)
       (take (aa_Ordinal rq) ids @ [ca_ID (aa_Activity rq)] @ drop (aa_Ordinal rq) ids) d2 = Inr d3"
    "publish_edit e clk ''add-activity'' CommandTripEdited rq t payloads d3 = Inr (r, d')"
  using assms unfolding AddActivity_edit_def Let_def bindr_eq_Inr by (auto simp: bindr_eq_Inr exec_sql_eq_Inr split: if_splits)

interpretation replace_plan: canonical_edit "''replacement''" CommandReplaceCurrentPlan validateReplaceCurrentPlanRequest
  ReplaceCurrentPlan_edit ReplaceCurrentPlan
proof unfold_locales
  fix e clk rq t c d r d'
  assume "ReplaceCurrentPlan_edit e clk rq t c d = Inr (r, d')"
  then show "\<exists>d1 payloads. edit_frame (supersede_pending (ce_TripID rq) (clk 1) d) d1 \<and> (schema_ok d \<longrightarrow> schema_ok d1) \<and>
      edit_payloads e clk rq t = Inr payloads \<and>
      publish_edit e clk ''replacement'' CommandReplaceCurrentPlan rq t payloads d1 = Inr (r, d')"
    by (elim ReplaceCurrentPlan_edit_cases) (meson edit_frame_refl schema_supersede_pending)
qed (auto simp: ReplaceCurrentPlan_def validateReplaceCurrentPlanRequest_def dest: validate_edit_plan)

interpretation reorder: canonical_edit "''trip-edit''" CommandTripEdited validateReorderActivitiesRequest
  ReorderActivities_edit ReorderActivities
proof unfold_locales
  fix e clk rq t c d r d'
  assume "ReorderActivities_edit e clk rq t c d = Inr (r, d')"
  then show "\<exists>d1 payloads. edit_frame (supersede_pending (ce_TripID rq) (clk 1) d) d1 \<and> (schema_ok d \<longrightarrow> schema_ok d1) \<and>
      edit_payloads e clk rq t = Inr payloads \<and>
      publish_edit e clk ''trip-edit'' CommandTripEdited rq t payloads d1 = Inr (r, d')"
    by (elim ReorderActivities_edit_cases) (meson edit_frame_trans edit_frames schema_edits)
qed (auto simp: ReorderActivities_def validateReorderActivitiesRequest_def bindr_eq_Inr dest: validate_edit_plan)

interpretation remove: canonical_edit "''remove-activity''" CommandTripEdited validateRemoveActivityRequest
  RemoveActivity_edit RemoveActivity
proof unfold_locales
  fix e clk rq t c d r d'
  assume "RemoveActivity_edit e clk rq t c d = Inr (r, d')"
  then show "\<exists>d1 payloads. edit_frame (supersede_pending (ce_TripID rq) (clk 1) d) d1 \<and> (schema_ok d \<longrightarrow> schema_ok d1) \<and>
      edit_payloads e clk rq t = Inr payloads \<and>
      publish_edit e clk ''remove-activity'' CommandTripEdited rq t payloads d1 = Inr (r, d')"
    by (elim RemoveActivity_edit_cases) (meson edit_frame_trans edit_frames delete_activity_frame schema_edits)
qed (auto simp: RemoveActivity_def validateRemoveActivityRequest_def dest: validate_edit_plan)

interpretation replace_activity: canonical_edit "''replace-activity''" CommandTripEdited validateReplaceActivityRequest
  ReplaceActivity_edit ReplaceActivity
proof unfold_locales
  fix e clk rq t c d r d'
  assume "ReplaceActivity_edit e clk rq t c d = Inr (r, d')"
  then show "\<exists>d1 payloads. edit_frame (supersede_pending (ce_TripID rq) (clk 1) d) d1 \<and> (schema_ok d \<longrightarrow> schema_ok d1) \<and>
      edit_payloads e clk rq t = Inr payloads \<and>
      publish_edit e clk ''replace-activity'' CommandTripEdited rq t payloads d1 = Inr (r, d')"
    by (elim ReplaceActivity_edit_cases) (meson edit_frame_trans edit_frames delete_windows_frame insert_open_windows_frame schema_edits)
qed (auto simp: ReplaceActivity_def validateReplaceActivityRequest_def bindr_eq_Inr dest: validate_edit_plan)

interpretation add: canonical_edit "''add-activity''" CommandTripEdited validateAddActivityRequest AddActivity_edit AddActivity
proof unfold_locales
  fix e clk rq t c d r d'
  assume "AddActivity_edit e clk rq t c d = Inr (r, d')"
  then show "\<exists>d1 payloads. edit_frame (supersede_pending (ce_TripID rq) (clk 1) d) d1 \<and> (schema_ok d \<longrightarrow> schema_ok d1) \<and>
      edit_payloads e clk rq t = Inr payloads \<and>
      publish_edit e clk ''add-activity'' CommandTripEdited rq t payloads d1 = Inr (r, d')"
    by (elim AddActivity_edit_cases) (meson edit_frame_trans edit_frames schema_edits)
qed (auto simp: AddActivity_def validateAddActivityRequest_def bindr_eq_Inr dest: validate_edit_plan)

section \<open>What the edits do to the order of the activities\<close>

text \<open>Two databases that agree on the activities of a trip agree on its order.\<close>

definition activities_of :: "uuid \<Rightarrow> db \<Rightarrow> activity_row list" where
  "activities_of tripID d = sql_select (\<lambda>a. a_trip_id a = tripID) (trip_activities d)"

lemma trip_rows_of: "trip_rows tripID d = sort_key a_ordinal (activities_of tripID d)"
  by (simp add: trip_rows_def activities_of_def)

lemma trip_order_cong:
  "activities_of tripID d = activities_of tripID d' \<Longrightarrow> trip_order tripID d = trip_order tripID d'"
  "activities_of tripID d = activities_of tripID d' \<Longrightarrow> ordinals_dense tripID d = ordinals_dense tripID d'"
  by (simp_all add: trip_order_def ordinals_dense_def trip_rows_of)

lemma set_trip_order_of: "set (trip_order tripID d) = a_id ` set (activities_of tripID d)"
  by (simp add: trip_order_def trip_rows_of)

lemma activities_of_same: "trip_activities d = trip_activities d' \<Longrightarrow> activities_of tripID d = activities_of tripID d'"
  by (simp add: activities_of_def)

lemma activities_of_supersede [simp]: "activities_of u (supersede_pending tripID now d) = activities_of u d"
  by (rule activities_of_same) (simp add: supersede_pending_def update_proposals_def)

lemma activities_of_publish: "publish_edit e clk op kind rq t payloads d = Inr (r, d') \<Longrightarrow> activities_of u d' = activities_of u d"
  by (erule publish_edit_db) (simp add: activities_of_def published_db_def)

lemma activities_of_stage:
  assumes "stage_ordinals tripID n d = Some d'"
  shows "activities_of u d' = (if u = tripID then map (\<lambda>a. a\<lparr>a_ordinal := a_ordinal a + int n\<rparr>) (activities_of u d) else activities_of u d)"
proof -
  have "filter (\<lambda>a. a_trip_id a = u) (sql_update (\<lambda>a. a_trip_id a = tripID) (\<lambda>a. a\<lparr>a_ordinal := a_ordinal a + int n\<rparr>) t) =
    (if u = tripID then map (\<lambda>a. a\<lparr>a_ordinal := a_ordinal a + int n\<rparr>) (filter (\<lambda>a. a_trip_id a = u) t) else filter (\<lambda>a. a_trip_id a = u) t)" for t
    by (induction t) (auto simp: sql_update_def)
  from this [of "trip_activities d"] show ?thesis by (simp add: stage_ordinals_SomeD [OF assms] activities_of_def sql_select_def)
qed

lemma activities_of_apply:
  assumes "apply_ordinals op tripID ids d = Inr d'" "distinct ids"
  shows "activities_of u d' = (if u = tripID then map (place tripID ids) (activities_of u d) else activities_of u d)"
proof -
  have "filter (\<lambda>a. a_trip_id a = u) (map (place tripID ids) t) =
    (if u = tripID then map (place tripID ids) (filter (\<lambda>a. a_trip_id a = u) t) else filter (\<lambda>a. a_trip_id a = u) t)" for t
    by (induction t) (auto simp: place_def)
  from this [of "trip_activities d"] show ?thesis by (simp add: apply_ordinals_InrD [OF assms] activities_of_def sql_select_def)
qed

lemma activities_of_delete:
  "activities_of u (delete_activity tripID aid d) =
    (if u = tripID then filter (\<lambda>a. a_id a \<noteq> aid) (activities_of u d) else activities_of u d)"
proof -
  have "filter (\<lambda>a. a_trip_id a = u) (sql_delete (\<lambda>a. a_trip_id a = tripID \<and> a_id a = aid) t) =
    (if u = tripID then filter (\<lambda>a. a_id a \<noteq> aid) (filter (\<lambda>a. a_trip_id a = u) t) else filter (\<lambda>a. a_trip_id a = u) t)" for t
    by (induction t) (auto simp: sql_delete_def)
  from this [of "trip_activities d"] show ?thesis by (simp add: delete_activity_def activities_of_def sql_select_def)
qed

lemma activities_of_insert:
  "insert_activity_draft op tripID k a d = Inr d' \<Longrightarrow>
     activities_of u d' = (if u = tripID then activities_of u d @ [activity_row_of tripID k a] else activities_of u d)"
  by (drule insert_activity_draft_frame(2)) (simp add: activities_of_def sql_select_def)

lemma activities_of_replace:
  assumes "replace_activity_row tripID a d = Some d'"
  shows "activities_of u d' = (if u = tripID then map (\<lambda>r. if a_id r = ca_ID a then activity_row_of tripID (a_ordinal r) a else r) (activities_of u d)
    else activities_of u d)"
proof -
  have "filter (\<lambda>a. a_trip_id a = u) (sql_update (\<lambda>r. a_trip_id r = tripID \<and> a_id r = ca_ID a) (\<lambda>r. activity_row_of tripID (a_ordinal r) a) t) =
    (if u = tripID then map (\<lambda>r. if a_id r = ca_ID a then activity_row_of tripID (a_ordinal r) a else r) (filter (\<lambda>a. a_trip_id a = u) t)
     else filter (\<lambda>a. a_trip_id a = u) t)" for t
    by (induction t) (auto simp: sql_update_def)
  from this [of "trip_activities d"] show ?thesis by (simp add: replace_activity_row_SomeD(1) [OF assms] activities_of_def sql_select_def)
qed

lemma trip_order_apply:
  assumes "apply_ordinals op tripID ids d = Inr d'" "schema_ok d" "distinct ids" "set (trip_order tripID d) = set ids"
  shows "trip_order tripID d' = ids" "ordinals_dense tripID d'"
proof -
  note A = activities_of_apply [OF assms(1,3), of tripID]
  have s: "set (trip_order tripID d') = set ids"
    using assms(4) by (simp add: set_trip_order_of A image_image)
  have "a_ordinal a = int (position ids (a_id a))" if "a \<in> set (trip_activities d')" "a_trip_id a = tripID" for a
  proof -
    have "a \<in> set (activities_of tripID d')" using that by (simp add: activities_of_def sql_select_def)
    then obtain b where b: "a = place tripID ids b" "b \<in> set (activities_of tripID d)" by (auto simp: A)
    then have "a_id b \<in> set ids" "a_trip_id b = tripID"
      using assms(4) by (auto simp: set_trip_order_of activities_of_def sql_select_def)
    then show ?thesis by (simp add: b place_def)
  qed
  then show "trip_order tripID d' = ids" "ordinals_dense tripID d'"
    using trip_order_placed [OF schema_apply_ordinals [OF assms(1,2)] assms(3) s] by simp_all
qed

lemma set_trip_order_stage:
  "stage_ordinals tripID n d = Some d' \<Longrightarrow> set (trip_order tripID d') = set (trip_order tripID d)"
  by (simp add: set_trip_order_of activities_of_stage image_image)

lemma reorder_step_Inr: "reorder_step states i x = Inr y \<Longrightarrow> i \<in> dom (map_of states)"
  by (auto simp: reorder_step_def split: if_splits)

lemma reorder_loop:
  assumes "for_each (reorder_step states) ids x = Inr y"
  shows "set ids \<subseteq> dom (map_of states)"
  using assms
proof (induction ids arbitrary: x)
  case (Cons i ids)
  then obtain z where "reorder_step states i x = Inr z" "for_each (reorder_step states) ids z = Inr y"
    by (auto simp: bindr_eq_Inr)
  then show ?case using Cons.IH reorder_step_Inr by auto
qed simp

lemma unique_id_step_Inr:
  "unique_id_step i seen = Inr seen' \<longleftrightarrow> validCanonicalUUID i \<and> i \<notin> set seen \<and> seen' = i # seen"
  by (auto simp: unique_id_step_def)

lemma unique_ids_loop:
  assumes "for_each unique_id_step ids seen = Inr seen'"
  shows "distinct ids \<and> set ids \<inter> set seen = {} \<and> (\<forall>x\<in>set ids. validCanonicalUUID x)"
  using assms
proof (induction ids arbitrary: seen)
  case (Cons i ids)
  then have "validCanonicalUUID i" "i \<notin> set seen" "for_each unique_id_step ids (i # seen) = Inr seen'"
    by (auto simp: bindr_eq_Inr unique_id_step_Inr)
  then show ?case using Cons.IH [of "i # seen"] by auto
qed simp

lemma replacement_order:
  assumes "ReplaceCurrentPlan_edit e clk rq t c d = Inr (r, d')"
  shows "activities_of u d' = activities_of u d" "ordinals_dense (ce_TripID rq) d"
  using assms by (auto elim!: ReplaceCurrentPlan_edit_cases simp: activities_of_publish load_activities_InrD)

lemma reorder_order:
  assumes "ReorderActivities_edit e clk rq t c d = Inr (r, d')" "schema_ok d" "distinct (ro_ActivityIDs rq)"
  shows "trip_order (ce_TripID rq) d' = ro_ActivityIDs rq" "ordinals_dense (ce_TripID rq) d'"
    "mset (ro_ActivityIDs rq) = mset (trip_order (ce_TripID rq) d)"
    "u \<noteq> ce_TripID rq \<Longrightarrow> activities_of u d' = activities_of u d"
proof -
  from assms(1) obtain ids states payloads d1 d2 x where l: "load_activities (ce_TripID rq) d = Inr (ids, states)"
    and len: "length ids = length (ro_ActivityIDs rq)" and x: "for_each (reorder_step states) (ro_ActivityIDs rq) None = Inr x"
    and d1: "stage_ordinals (ce_TripID rq) (length ids) (supersede_pending (ce_TripID rq) (clk 1) d) = Some d1"
    and d2: "apply_ordinals ''trip-edit'' (ce_TripID rq) (ro_ActivityIDs rq) d1 = Inr d2"
    and p: "publish_edit e clk ''trip-edit'' CommandTripEdited rq t payloads d2 = Inr (r, d')"
    by (rule ReorderActivities_edit_cases)
  note L = load_activities_InrD [OF l]
  have "set (ro_ActivityIDs rq) \<subseteq> set ids" using reorder_loop [OF x] L(3) by simp
  then have s: "set (ro_ActivityIDs rq) = set ids"
    using len assms(3) distinct_trip_order [OF assms(2), of "ce_TripID rq"] L(1)
    by (intro card_subset_eq) (simp_all add: distinct_card)
  then show "mset (ro_ActivityIDs rq) = mset (trip_order (ce_TripID rq) d)"
    using assms(3) distinct_trip_order [OF assms(2), of "ce_TripID rq"] L(1) by (simp add: set_eq_iff_mset_eq_distinct [symmetric])
  have "set (trip_order (ce_TripID rq) d1) = set (ro_ActivityIDs rq)"
    unfolding set_trip_order_stage [OF d1] by (simp add: set_trip_order_of s L(1))
  note A = trip_order_apply [OF d2 schema_stage_ordinals [OF d1 schema_supersede_pending [OF assms(2)]] assms(3) this]
  show "trip_order (ce_TripID rq) d' = ro_ActivityIDs rq" "ordinals_dense (ce_TripID rq) d'"
    using A trip_order_cong [OF activities_of_publish [OF p], of "ce_TripID rq"] by simp_all
  show "u \<noteq> ce_TripID rq \<Longrightarrow> activities_of u d' = activities_of u d"
    using activities_of_publish [OF p] activities_of_apply [OF d2 assms(3)] activities_of_stage [OF d1] by simp
qed

lemma remove_order:
  assumes "RemoveActivity_edit e clk rq t c d = Inr (r, d')" "schema_ok d"
  shows "trip_order (ce_TripID rq) d' = filter (\<lambda>a. a \<noteq> rm_ActivityID rq) (trip_order (ce_TripID rq) d)"
    "ordinals_dense (ce_TripID rq) d'" "rm_ActivityID rq \<in> set (trip_order (ce_TripID rq) d)"
    "u \<noteq> ce_TripID rq \<Longrightarrow> activities_of u d' = activities_of u d"
proof -
  from assms(1) obtain ids states payloads d1 d2 where l: "load_activities (ce_TripID rq) d = Inr (ids, states)"
    and known: "map_of states (rm_ActivityID rq) \<noteq> None"
    and d1: "stage_ordinals (ce_TripID rq) (length ids) (supersede_pending (ce_TripID rq) (clk 1) d) = Some d1"
    and d2: "apply_ordinals ''remove-activity'' (ce_TripID rq) (filter (\<lambda>aid. aid \<noteq> rm_ActivityID rq) ids)
       (delete_activity (ce_TripID rq) (rm_ActivityID rq) d1) = Inr d2"
    and p: "publish_edit e clk ''remove-activity'' CommandTripEdited rq t payloads d2 = Inr (r, d')"
    by (rule RemoveActivity_edit_cases)
  note L = load_activities_InrD [OF l]
  let ?d = "delete_activity (ce_TripID rq) (rm_ActivityID rq) d1" and ?ids = "filter (\<lambda>aid. aid \<noteq> rm_ActivityID rq) ids"
  show "rm_ActivityID rq \<in> set (trip_order (ce_TripID rq) d)" using known L(1,3) by auto
  have dis: "distinct ?ids" using distinct_trip_order [OF assms(2), of "ce_TripID rq"] L(1) by simp
  have ok: "schema_ok ?d" by (intro schema_delete_activity schema_stage_ordinals [OF d1] schema_supersede_pending assms(2))
  have "set (trip_order (ce_TripID rq) ?d) = set (trip_order (ce_TripID rq) d1) - {rm_ActivityID rq}"
    by (auto simp: set_trip_order_of activities_of_delete)
  also have "\<dots> = set ?ids" unfolding set_trip_order_stage [OF d1] by (auto simp: set_trip_order_of L(1))
  finally have s: "set (trip_order (ce_TripID rq) ?d) = set ?ids" .
  show "trip_order (ce_TripID rq) d' = filter (\<lambda>a. a \<noteq> rm_ActivityID rq) (trip_order (ce_TripID rq) d)"
    "ordinals_dense (ce_TripID rq) d'"
    using trip_order_apply [OF d2 ok dis s] trip_order_cong [OF activities_of_publish [OF p], of "ce_TripID rq"] L(1) by simp_all
  show "u \<noteq> ce_TripID rq \<Longrightarrow> activities_of u d' = activities_of u d"
    using activities_of_publish [OF p] activities_of_apply [OF d2 dis] activities_of_stage [OF d1] by (simp add: activities_of_delete)
qed

lemma insort_key_map_key: "(\<And>x. k (f x) = k x) \<Longrightarrow> insort_key k (f x) (map f xs) = map f (insort_key k x xs)"
  by (induction xs) simp_all

lemma sort_key_map_key: "(\<And>x. k (f x) = k x) \<Longrightarrow> sort_key k (map f xs) = map f (sort_key k xs)"
  by (induction xs) (simp_all add: insort_key_map_key)

lemma replace_order:
  assumes "ReplaceActivity_edit e clk rq t c d = Inr (r, d')"
  shows "trip_order (ce_TripID rq) d' = trip_order (ce_TripID rq) d" "ordinals_dense (ce_TripID rq) d'"
    "u \<noteq> ce_TripID rq \<Longrightarrow> activities_of u d' = activities_of u d"
proof -
  from assms obtain ids states payloads d1 d2 where l: "load_activities (ce_TripID rq) d = Inr (ids, states)"
    and d1: "replace_activity_row (ce_TripID rq) (ra_Activity rq) (supersede_pending (ce_TripID rq) (clk 1) d) = Some d1"
    and d2: "insert_open_windows ''replace-activity'' (ce_TripID rq) (ra_Activity rq)
       (delete_windows (ce_TripID rq) (ca_ID (ra_Activity rq)) d1) = Inr d2"
    and p: "publish_edit e clk ''replace-activity'' CommandTripEdited rq t payloads d2 = Inr (r, d')"
    by (rule ReplaceActivity_edit_cases)
  let ?f = "\<lambda>r. if a_id r = ca_ID (ra_Activity rq) then activity_row_of (ce_TripID rq) (a_ordinal r) (ra_Activity rq) else r"
  have "trip_activities d2 = trip_activities d1"
    using insert_open_windows_frame [OF d2] by (simp add: delete_windows_def)
  from activities_of_same [OF this]
  have A: "activities_of u d' = (if u = ce_TripID rq then map ?f (activities_of u d) else activities_of u d)" for u
    using activities_of_publish [OF p, of u] activities_of_replace [OF d1, of u] by simp
  then show "u \<noteq> ce_TripID rq \<Longrightarrow> activities_of u d' = activities_of u d" by simp
  have rows: "trip_rows (ce_TripID rq) d' = map ?f (trip_rows (ce_TripID rq) d)"
    unfolding trip_rows_of A by (simp add: sort_key_map_key [where k = a_ordinal and f = ?f])
  have "a_id \<circ> ?f = a_id" "a_ordinal \<circ> ?f = a_ordinal" by (auto simp: fun_eq_iff)
  then show "trip_order (ce_TripID rq) d' = trip_order (ce_TripID rq) d" "ordinals_dense (ce_TripID rq) d'"
    using load_activities_InrD(2) [OF l] by (simp_all add: trip_order_def ordinals_dense_def rows)
qed

lemma add_order:
  assumes "AddActivity_edit e clk rq t c d = Inr (r, d')" "schema_ok d"
  shows "trip_order (ce_TripID rq) d' = take (aa_Ordinal rq) (trip_order (ce_TripID rq) d) @ [ca_ID (aa_Activity rq)] @
      drop (aa_Ordinal rq) (trip_order (ce_TripID rq) d)"
    "ordinals_dense (ce_TripID rq) d'" "aa_Ordinal rq \<le> length (trip_order (ce_TripID rq) d)"
    "length (trip_order (ce_TripID rq) d) < 64"
    "u \<noteq> ce_TripID rq \<Longrightarrow> activities_of u d' = activities_of u d"
proof -
  from assms(1) obtain ids states payloads d1 d2 d3 where l: "load_activities (ce_TripID rq) d = Inr (ids, states)"
    and b: "length ids < 64" "aa_Ordinal rq \<le> length ids" and new: "map_of states (ca_ID (aa_Activity rq)) = None"
    and d1: "stage_ordinals (ce_TripID rq) (length ids + 1) (supersede_pending (ce_TripID rq) (clk 1) d) = Some d1"
    and d2: "insert_activity_draft ''add-activity'' (ce_TripID rq) (int (2 * length ids + 1)) (aa_Activity rq) d1 = Inr d2"
    and d3: "apply_ordinals ''add-activity'' (ce_TripID rq)
       (take (aa_Ordinal rq) ids @ [ca_ID (aa_Activity rq)] @ drop (aa_Ordinal rq) ids) d2 = Inr d3"
    and p: "publish_edit e clk ''add-activity'' CommandTripEdited rq t payloads d3 = Inr (r, d')"
    by (rule AddActivity_edit_cases)
  note L = load_activities_InrD [OF l]
  let ?ids = "take (aa_Ordinal rq) ids @ [ca_ID (aa_Activity rq)] @ drop (aa_Ordinal rq) ids"
  show "aa_Ordinal rq \<le> length (trip_order (ce_TripID rq) d)" "length (trip_order (ce_TripID rq) d) < 64" using b L(1) by simp_all
  have fr: "ca_ID (aa_Activity rq) \<notin> set ids" using new L(3) by auto
  have "distinct ids" using distinct_trip_order [OF assms(2), of "ce_TripID rq"] L(1) by simp
  then have dis: "distinct ?ids"
    using fr set_take_disj_set_drop_if_distinct [of ids "aa_Ordinal rq" "aa_Ordinal rq"] by (auto dest: in_set_takeD in_set_dropD)
  have ok: "schema_ok d2" by (intro insert_activity_draft_frame(3) [OF d2] schema_stage_ordinals [OF d1] schema_supersede_pending assms(2))
  have "set (trip_order (ce_TripID rq) d2) = insert (ca_ID (aa_Activity rq)) (set (trip_order (ce_TripID rq) d1))"
    by (simp add: set_trip_order_of activities_of_insert [OF d2])
  also have "\<dots> = insert (ca_ID (aa_Activity rq)) (set ids)" unfolding set_trip_order_stage [OF d1] by (simp add: set_trip_order_of L(1))
  also have "\<dots> = set ?ids" using set_append [of "take (aa_Ordinal rq) ids" "drop (aa_Ordinal rq) ids"] by auto
  finally have s: "set (trip_order (ce_TripID rq) d2) = set ?ids" .
  show "trip_order (ce_TripID rq) d' = take (aa_Ordinal rq) (trip_order (ce_TripID rq) d) @ [ca_ID (aa_Activity rq)] @
      drop (aa_Ordinal rq) (trip_order (ce_TripID rq) d)" "ordinals_dense (ce_TripID rq) d'"
    using trip_order_apply [OF d3 ok dis s] trip_order_cong [OF activities_of_publish [OF p], of "ce_TripID rq"] L(1) by simp_all
  show "u \<noteq> ce_TripID rq \<Longrightarrow> activities_of u d' = activities_of u d"
    using activities_of_publish [OF p] activities_of_apply [OF d3 dis] activities_of_insert [OF d2] activities_of_stage [OF d1] by simp
qed

end
