(* ===== verification/LR_Edit_Theorems.thy ===== *)
theory LR_Edit_Theorems
  imports LR_Edits
begin

text \<open>
  The properties of the canonical edits, stated over one operation \<open>run_edit\<close> that stands for the five
  methods of \<open>CanonicalStateStore\<close>, and the abstract effect \<open>edit_order\<close> of an edit on the order of a
  trip's activities.
\<close>

section \<open>What the contract of an edit gives\<close>

text \<open>The effect of the first delivery of an edit, as one statement.\<close>

definition edit_published :: "'a ReplaceCurrentPlanRequest_scheme \<Rightarrow> trip_row \<Rightarrow> db \<Rightarrow> db \<Rightarrow> bool" where
  "edit_published rq t d d' \<longleftrightarrow> (\<exists>t' p i b.
     find_trip (ce_TripID rq) d' = Some t' \<and> t_current_plan_id t' = Some (ce_PlanID rq) \<and>
     t_trip_revision t' = t_trip_revision t + 1 \<and> t_finalized_mutation_sequence t' = t_next_mutation_sequence t \<and>
     t_next_mutation_sequence t' = t_next_mutation_sequence t + 1 \<and>
     itinerary_plans d' = itinerary_plans d @ [p] \<and> p_id p = ce_PlanID rq \<and> p_trip_id p = ce_TripID rq \<and>
     p_plan_revision p = t_trip_revision t' \<and>
     userCurrentPlanPayload (ce_PlanID rq) (uint64 (t_trip_revision t')) (UnixMilli (p_created_at p)) (ce_PlanSegments rq) =
       Some (p_payload p) \<and>
     command_intents d' = command_intents d @ [i] \<and> i_id i = ce_IntentID rq \<and> i_state i = IntentApplied \<and>
     i_runtime_sync_state i = SyncPending \<and> i_mutation_sequence i = t_next_mutation_sequence t \<and>
     planner_outbox d' = planner_outbox d @ [b] \<and> o_command_intent_id b = i_id i \<and> o_delivery_state b = DeliveryPending \<and>
     o_mutation_sequence b = i_mutation_sequence i \<and>
     list_all (\<lambda>r. \<not> pending_of (ce_TripID rq) r) (plan_proposals d'))"

context canonical_edit
begin

lemma run_publishes:
  assumes "run e clk rq d = (Inr r, d')" "schema_ok d" "\<not> rc_Duplicate r" "find_trip (ce_TripID rq) d = Some t"
  shows "edit_published rq t d d'"
  using assms
proof (rule run_advances)
  fix d1 payload event i b
  let ?t = "publish_edit_row (ce_PlanID rq) (uint64 (t_trip_revision t + 1)) (uint64 (t_next_mutation_sequence t)) (clk 2) t"
  let ?p = "user_plan_row e (ce_PlanID rq) (ce_TripID rq) (uint64 (t_trip_revision t + 1)) (ce_OwnerUserID rq) payload
    (trunc_millis (clk 0))"
  assume fr: "edit_frame (supersede_pending (ce_TripID rq) (clk 1) d) d1"
    and pl: "edit_payloads e clk rq t = Inr (payload, event)" and d': "d' = published_db e clk rq t payload i b d1"
    and t': "find_trip (ce_TripID rq) d' = Some ?t"
    and n: "int64 (uint64 (t_trip_revision t + 1)) = t_trip_revision t + 1"
      "int64 (uint64 (t_next_mutation_sequence t)) = t_next_mutation_sequence t"
      "int64 (add_u64 (uint64 (t_next_mutation_sequence t)) 1) = t_next_mutation_sequence t + 1"
    and i: "i_state i = IntentApplied" "i_runtime_sync_state i = SyncPending" "i_id i = ce_IntentID rq"
      "i_mutation_sequence i = t_next_mutation_sequence t" "o_delivery_state b = DeliveryPending" "o_command_intent_id b = i_id i"
      "o_mutation_sequence b = i_mutation_sequence i"
  have tabs: "itinerary_plans d' = itinerary_plans d @ [?p]" "command_intents d' = command_intents d @ [i]"
    "planner_outbox d' = planner_outbox d @ [b]" "plan_proposals d' = plan_proposals (supersede_pending (ce_TripID rq) (clk 1) d)"
    using fr by (simp_all add: d' published_db_def edit_frame_def) (simp_all add: supersede_pending_def update_proposals_def)
  have pend: "list_all (\<lambda>r. \<not> pending_of (ce_TripID rq) r) (plan_proposals d')"
    unfolding tabs list_all_iff using no_pending_after_supersede by blast
  have u: "userCurrentPlanPayload (ce_PlanID rq) (uint64 (t_trip_revision t + 1)) (UnixMilli (trunc_millis (clk 0))) (ce_PlanSegments rq) =
      Some payload"
    using pl by (simp add: edit_payloads_def Let_def deref_def bindr_eq_Inr split: option.splits)
  show ?thesis
    unfolding edit_published_def
    by (rule exI [of _ ?t], rule exI [of _ ?p], rule exI [of _ i], rule exI [of _ b])
      (use t' n tabs pend u i in simp)
qed

text \<open>A trip that is executing is never edited.\<close>

lemma run_inactive:
  assumes "run e clk rq d = (Inr r, d')" "schema_ok d" "recordedCommandSelect (ce_TripID rq) (ce_MessageID rq) d = None"
    "find_trip (ce_TripID rq) d = Some t" "\<exists>q\<in>set (itinerary_plans d). t_current_plan_id t = Some (p_id q)"
  shows "t_execution_state t = ExecInactive"
  using assms(1)
proof (cases rule: run_cases)
  case existing
  then show ?thesis using assms(3) by simp
next
  case (fresh u c d1 payloads)
  have eq: "u = t" using fresh(2) assms(4) by simp
  let ?f = "publish_edit_row (ce_PlanID rq) (uint64 (t_trip_revision t + 1)) (uint64 (t_next_mutation_sequence t)) (clk 2)"
  have tabs: "trips d1 = trips d" "itinerary_plans d1 = itinerary_plans d"
    using fresh(12) by (simp_all add: edit_frame_def supersede_pending_def update_proposals_def)
  obtain "\<forall>u\<in>set (trips d1). t_id u = ce_TripID rq \<longrightarrow> trip_check (?f u)"
    and "\<forall>q\<in>set (itinerary_plans d1). p_id q \<noteq> ce_PlanID rq"
    by (rule publish_edit_db [OF fresh(15) [unfolded eq]]) (simp add: fresh_in_iff)
  then have chk: "trip_check (?f t)" and new: "t_current_plan_id t \<noteq> Some (ce_PlanID rq)"
    using find_trip_SomeD [OF assms(4)] assms(5) tabs by auto
  have "trip_check t" using find_trip_SomeD [OF assms(4)] assms(2) by (simp add: schema_ok_def trips_ok_def list_all_iff)
  then show ?thesis
    using chk new by (auto simp: trip_check_def trips_execution_lifecycle_check_def trips_name_check_def publish_edit_row_def split: execution_state.splits)
qed

end

section \<open>The edits as one operation\<close>

datatype trip_edit =
    EditReplacePlan ReplaceCurrentPlanRequest
  | EditReorder ReorderActivitiesRequest
  | EditRemove RemoveActivityRequest
  | EditReplaceActivity ReplaceActivityRequest
  | EditAdd AddActivityRequest

fun run_edit :: "ext \<Rightarrow> clock \<Rightarrow> trip_edit \<Rightarrow> db \<Rightarrow> RecordedCommand result \<times> db" where
  "run_edit e clk (EditReplacePlan rq) d = ReplaceCurrentPlan e clk rq d"
| "run_edit e clk (EditReorder rq) d = ReorderActivities e clk rq d"
| "run_edit e clk (EditRemove rq) d = RemoveActivity e clk rq d"
| "run_edit e clk (EditReplaceActivity rq) d = ReplaceActivity e clk rq d"
| "run_edit e clk (EditAdd rq) d = AddActivity e clk rq d"

fun edit_base :: "trip_edit \<Rightarrow> ReplaceCurrentPlanRequest" where
  "edit_base (EditReplacePlan rq) = rq"
| "edit_base (EditReorder rq) = ReplaceCurrentPlanRequest.truncate rq"
| "edit_base (EditRemove rq) = ReplaceCurrentPlanRequest.truncate rq"
| "edit_base (EditReplaceActivity rq) = ReplaceCurrentPlanRequest.truncate rq"
| "edit_base (EditAdd rq) = ReplaceCurrentPlanRequest.truncate rq"

text \<open>The abstract effect of an edit on the order of a trip's activities.\<close>

fun edit_order :: "trip_edit \<Rightarrow> uuid list \<Rightarrow> uuid list" where
  "edit_order (EditReplacePlan rq) ids = ids"
| "edit_order (EditReorder rq) ids = ro_ActivityIDs rq"
| "edit_order (EditRemove rq) ids = filter (\<lambda>a. a \<noteq> rm_ActivityID rq) ids"
| "edit_order (EditReplaceActivity rq) ids = ids"
| "edit_order (EditAdd rq) ids = take (aa_Ordinal rq) ids @ [ca_ID (aa_Activity rq)] @ drop (aa_Ordinal rq) ids"

lemma edit_base_fields [simp]:
  "ce_TripID (ReplaceCurrentPlanRequest.truncate rq) = ce_TripID rq"
  "ce_OwnerUserID (ReplaceCurrentPlanRequest.truncate rq) = ce_OwnerUserID rq"
  "ce_MessageID (ReplaceCurrentPlanRequest.truncate rq) = ce_MessageID rq"
  "ce_IntentID (ReplaceCurrentPlanRequest.truncate rq) = ce_IntentID rq"
  "ce_PlanID (ReplaceCurrentPlanRequest.truncate rq) = ce_PlanID rq"
  "ce_PlanSegments (ReplaceCurrentPlanRequest.truncate rq) = ce_PlanSegments rq"
  by (simp_all add: ReplaceCurrentPlanRequest.truncate_def)

lemmas schema_runs = replace_plan.schema_run reorder.schema_run remove.schema_run replace_activity.schema_run add.schema_run
lemmas error_keeps_runs = replace_plan.run_error_keeps reorder.run_error_keeps remove.run_error_keeps
  replace_activity.run_error_keeps add.run_error_keeps
lemmas repeat_runs = replace_plan.run_repeat reorder.run_repeat remove.run_repeat replace_activity.run_repeat add.run_repeat

lemma run_edit_repeat:
  assumes "run_edit e clk ed d = (Inr r, d')" "schema_ok d" "jsonb_valid e"
  shows "\<exists>y. run_edit e clk' ed d' = (Inr y, d') \<and> rc_Duplicate y \<and> rc_MutationSequence y = rc_MutationSequence r \<and>
    rc_ResultingCurrentPlanID y = rc_ResultingCurrentPlanID r \<and> rc_ResultingTripRevision y = rc_ResultingTripRevision r"
  using assms repeat_runs by (cases ed) simp_all

interpretation edit: atomic_store_op "run_edit e" for e
proof unfold_locales
  fix d clk rq
  assume "schema_ok d"
  then show "schema_ok (snd (run_edit e clk rq d))" by (cases rq) (simp_all add: schema_runs)
next
  fix clk rq d x d'
  assume "run_edit e clk rq d = (Inl x, d')"
  then show "d' = d" using error_keeps_runs by (cases rq) auto
qed

interpretation edit_once: idempotent_store_op "run_edit e" "\<lambda>_ _. jsonb_valid e" for e
  by unfold_locales (use run_edit_repeat in blast)

section \<open>Properties\<close>

definition second_activity :: activity_row where
  "second_activity = sample_activity\<lparr>a_id := sample_uuid CHR ''7'', a_ordinal := 1\<rparr>"

definition editing_db :: db where
  "editing_db = sample_db\<lparr>trip_activities := [sample_activity, second_activity], itinerary_plans := [sample_base_plan]\<rparr>"

definition sample_segment :: "char \<Rightarrow> CanonicalPlanSegmentDraft" where
  "sample_segment c = \<lparr>dr_ActivityID = sample_uuid c, dr_Scheduled = False, dr_Start = None, dr_End = None\<rparr>"

definition sample_reorder :: ReorderActivitiesRequest where
  "sample_reorder = \<lparr>ce_TripID = sample_uuid CHR ''1'', ce_OwnerUserID = sample_uuid CHR ''a'',
     ce_IntentID = sample_uuid CHR ''3'', ce_OutboxID = sample_uuid CHR ''4'', ce_MessageID = sample_uuid CHR ''5'',
     ce_EventID = sample_uuid CHR ''5'', ce_PlanID = sample_uuid CHR ''9'', ce_ExpectedTripRevision = 1,
     ce_CommandExpiresAt = None, ce_MaxPendingCanonicalMirror = 1,
     ce_PlanSegments = [sample_segment CHR ''7'', sample_segment CHR ''8''],
     ce_CommandPayload = [123, 125], ce_EventPayload = [123, 125],
     ce_EventPayloadBuilder = None, ce_PayloadDigest = replicate 32 0, ce_OutcomePayload = [123, 125],
     ro_ActivityIDs = [sample_uuid CHR ''7'', sample_uuid CHR ''8'']\<rparr>"

lemma sample_reorder_valid: "validateReorderActivitiesRequest sample_ext sample_reorder = Inr ()"
  by (simp add: validateReorderActivitiesRequest_def validate_edit_def sample_reorder_def validCanonicalEventPayload_def unique_id_step_def)

lemma sample_reorder_load: "load_activities (sample_uuid CHR ''1'') editing_db = Inr ([sample_uuid CHR ''8'', sample_uuid CHR ''7''],
   [(sample_uuid CHR ''8'', ActivityStatePlanned), (sample_uuid CHR ''7'', ActivityStatePlanned)])"
  by (simp add: load_activities_def editing_db_def sql_select_def second_activity_def sample_activity_def activity_state_step_def
    ActivityState_valid_def)

lemma sample_reorder_plan: "validateReplacementPlan (ce_PlanSegments sample_reorder)
   [(sample_uuid CHR ''8'', ActivityStatePlanned), (sample_uuid CHR ''7'', ActivityStatePlanned)] = Inr ()"
  by (simp add: validateReplacementPlan_def plan_segments_loop_def plan_segment_step_def segment_times_def segment_order_def sample_reorder_def sample_segment_def terminal_state_def)

lemma sample_uuid_length [simp]: "length (sample_uuid c) = 36"
  by (simp add: sample_uuid_def)

lemma sample_reorder_payload: "\<exists>p. userCurrentPlanPayload (sample_uuid CHR ''9'') 2 0 (ce_PlanSegments sample_reorder) = Some p \<and> length p < 1000"
  by (simp add: userCurrentPlanPayload_def sample_reorder_def sample_segment_def encodeSegmentDraft_def appendBytesField_def
      appendVarintField_def appendVarint.simps sample_uuid_length)

lemma supersede_none: "plan_proposals d = [] \<Longrightarrow> supersede_pending tid now d = d"
  by (simp add: supersede_pending_def update_proposals_def sql_update_def)

lemma editing_db_tables [simp]:
  "trips editing_db = [sample_trip]" "plan_proposals editing_db = []" "command_intents editing_db = []"
  "planner_outbox editing_db = []" "itinerary_plans editing_db = [sample_base_plan]" "users editing_db = [sample_uuid CHR ''a'']"
  "trip_activities editing_db = [sample_activity, second_activity]"
  by (simp_all add: editing_db_def sample_db_def empty_db_def)

lemma sample_reorder_guard:
  "canonical_edit_guard sample_ext ''trip-edit'' CommandTripEdited sample_reorder editing_db =
     Inr (Fresh sample_trip (sample_uuid CHR ''2''))"
  by (simp add: canonical_edit_guard_def find_trip_def query_row_def sample_reorder_def sample_trip_def recordedCommandSelect_def
      uint64_def MaxInt64_def sql_count_def)

definition renumbered_db :: db where
  "renumbered_db = editing_db\<lparr>trip_activities := [sample_activity\<lparr>a_ordinal := 1\<rparr>, second_activity\<lparr>a_ordinal := 0\<rparr>]\<rparr>"

lemma sample_renumbering:
  "stage_ordinals (sample_uuid CHR ''1'') 2 editing_db =
     Some (editing_db\<lparr>trip_activities := [sample_activity\<lparr>a_ordinal := 2\<rparr>, second_activity\<lparr>a_ordinal := 3\<rparr>]\<rparr>)"
  "apply_ordinals ''trip-edit'' (sample_uuid CHR ''1'') [sample_uuid CHR ''7'', sample_uuid CHR ''8'']
     (editing_db\<lparr>trip_activities := [sample_activity\<lparr>a_ordinal := 2\<rparr>, second_activity\<lparr>a_ordinal := 3\<rparr>]\<rparr>) = Inr renumbered_db"
  by (simp_all add: stage_ordinals_def apply_ordinals_def update_ordinals_def second_activity_def sample_activity_def activity_check_def
      i32_ok_def MaxInt32_def renumbered_db_def)

lemma sample_reorder_publishes:
  assumes "length payload < 1000"
  shows "\<exists>r d'. publish_edit sample_ext (\<lambda>_. 5) ''trip-edit'' CommandTripEdited sample_reorder sample_trip (payload, event) renumbered_db =
    Inr (r, d') \<and> \<not> rc_Duplicate r"
  using assms
  by (simp add: publish_edit_def insert_plan_def plan_check_def user_plan_row_def sample_reorder_def trip_exists_def sql_simps
      renumbered_db_def sample_trip_def fresh_in_def sample_base_plan_def uint64_def int64_def i64_ok_def i32_ok_def MaxInt32_def MaxInt64_def
      update_trip_def publish_edit_row_def trip_check_def trips_execution_lifecycle_check_def trips_name_check_def add_u64_def
      insert_intent_def intent_check_def canonical_intent_row_def known_kind_def canonical_kind_def plan_exists_def
      insert_outbox_def outbox_check_def new_outbox_row_def canonical_result_def sql_update_def Let_def)

lemma sample_reorder_runs:
  "\<exists>r d'. ReorderActivities sample_ext (\<lambda>_. 5) sample_reorder editing_db = (Inr r, d') \<and> \<not> rc_Duplicate r"
proof -
  obtain payload where p: "userCurrentPlanPayload (sample_uuid CHR ''9'') 2 0 (ce_PlanSegments sample_reorder) = Some payload"
    "length payload < 1000" using sample_reorder_payload by blast
  obtain r d' where pub: "publish_edit sample_ext (\<lambda>_. 5) ''trip-edit'' CommandTripEdited sample_reorder sample_trip
      (payload, [123, 125]) renumbered_db = Inr (r, d')" "\<not> rc_Duplicate r" using sample_reorder_publishes [OF p(2)] by blast
  have f: "ce_TripID sample_reorder = sample_uuid CHR ''1''" "ro_ActivityIDs sample_reorder = [sample_uuid CHR ''7'', sample_uuid CHR ''8'']"
    "ce_PlanID sample_reorder = sample_uuid CHR ''9''" "ce_EventPayload sample_reorder = [123, 125]"
    "ce_EventPayloadBuilder sample_reorder = None"
    by (simp_all add: sample_reorder_def)
  have "edit_payloads sample_ext (\<lambda>_. 5) sample_reorder sample_trip = Inr (payload, [123, 125])"
    using p(1) by (simp add: edit_payloads_def f deref_def buildCanonicalEventPayload_def sample_trip_def uint64_def
        trunc_millis_def UnixMilli_def)
  moreover have "lock_current_plan ''lock trip-edit current plan'' (sample_uuid CHR ''1'') (sample_uuid CHR ''2'') editing_db = Inr ()"
    by (simp add: lock_current_plan_def query_row_def sample_base_plan_def)
  ultimately have "ReorderActivities_edit sample_ext (\<lambda>_. 5) sample_reorder sample_trip (sample_uuid CHR ''2'') editing_db = Inr (r, d')"
    using pub sample_renumbering
    by (simp add: ReorderActivities_edit_def f sample_reorder_load sample_reorder_plan reorder_step_def supersede_none numeral_2_eq_2)
  then have "ReorderActivities sample_ext (\<lambda>_. 5) sample_reorder editing_db = (Inr r, d')"
    by (simp add: ReorderActivities_def sample_reorder_valid canonical_edit_tx_def sample_reorder_guard run_tx_def)
  then show ?thesis using pub(2) by blast
qed

lemma schema_editing: "schema_ok editing_db"
  using schema_sample
  by (simp add: schema_ok_def editing_db_def activities_ok_def plans_ok_def plan_check_def sample_base_plan_def second_activity_def
      i64_ok_def i32_ok_def MaxInt64_def MaxInt32_def sample_db_def empty_db_def sample_activity_def activity_check_def)

text \<open>
  C26. Refinement: a first delivery of an edit changes the order of the trip's activities exactly as the
  abstract operation does (a reordering installs the requested permutation, a removal drops one activity, an
  addition inserts one, the two replacements keep the order), the stored ordinals count up from zero
  again, and the activities of all other trips are untouched.
\<close>

theorem edits_refine_order:
  assumes "run_edit e clk ed d = (Inr r, d')" "schema_ok d" "\<not> rc_Duplicate r" "tid = ce_TripID (edit_base ed)"
  shows "trip_order tid d' = edit_order ed (trip_order tid d) \<and> ordinals_dense tid d' \<and>
    (u \<noteq> tid \<longrightarrow> activities_of u d' = activities_of u d)"
proof -
  have pre: "\<exists>t. find_trip tid d = Some t"
    using assms(1,4) by (cases ed) (auto elim: replace_plan.run_cases reorder.run_cases remove.run_cases replace_activity.run_cases add.run_cases)
  then obtain t where t: "find_trip tid d = Some t" ..
  show ?thesis
  proof (cases ed)
    case (EditReplacePlan rq)
    then obtain c where "ReplaceCurrentPlan_edit e clk rq t c d = Inr (r, d')"
      using assms t by (auto elim: replace_plan.run_advances)
    from replacement_order [OF this] show ?thesis
      using trip_order_cong [of tid d d'] assms(4) EditReplacePlan by simp
  next
    case (EditReorder rq)
    then obtain c where "ReorderActivities_edit e clk rq t c d = Inr (r, d')"
      using assms t by (auto elim: reorder.run_advances)
    moreover have "distinct (ro_ActivityIDs rq)"
      using assms(1) EditReorder unique_ids_loop
      by (auto simp: ReorderActivities_def validateReorderActivitiesRequest_def bindr_eq_Inr split: sum.splits)
    ultimately show ?thesis using reorder_order assms(2,4) EditReorder by simp
  next
    case (EditRemove rq)
    then obtain c where "RemoveActivity_edit e clk rq t c d = Inr (r, d')"
      using assms t by (auto elim: remove.run_advances)
    from remove_order [OF this assms(2)] show ?thesis using assms(4) EditRemove by simp
  next
    case (EditReplaceActivity rq)
    then obtain c where "ReplaceActivity_edit e clk rq t c d = Inr (r, d')"
      using assms t by (auto elim: replace_activity.run_advances)
    from replace_order [OF this] show ?thesis using assms(4) EditReplaceActivity by simp
  next
    case (EditAdd rq)
    then obtain c where "AddActivity_edit e clk rq t c d = Inr (r, d')"
      using assms t by (auto elim: add.run_advances)
    from add_order [OF this assms(2)] show ?thesis using assms(4) EditAdd by simp
  qed
qed

theorem edits_refine_order_witness:
  "\<exists>r d'. run_edit sample_ext (\<lambda>_. 5) (EditReorder sample_reorder) editing_db = (Inr r, d') \<and>
     trip_order (sample_uuid CHR ''1'') editing_db = [sample_uuid CHR ''8'', sample_uuid CHR ''7''] \<and>
     trip_order (sample_uuid CHR ''1'') d' = [sample_uuid CHR ''7'', sample_uuid CHR ''8'']"
proof -
  obtain r d' where s: "run_edit sample_ext (\<lambda>_. 5) (EditReorder sample_reorder) editing_db = (Inr r, d')" "\<not> rc_Duplicate r"
    using sample_reorder_runs by auto
  have "trip_order (sample_uuid CHR ''1'') d' = [sample_uuid CHR ''7'', sample_uuid CHR ''8'']"
    using edits_refine_order [OF s(1) schema_editing s(2) refl] by (simp add: sample_reorder_def)
  then show ?thesis using s load_activities_InrD(1) [OF sample_reorder_load] by auto
qed

text \<open>
  C27. The first delivery of an edit publishes it as a whole: the trip moves to the next revision and
  sequence number and to the new plan, which is stored with the encoding of the requested segments; the
  applied intent and a pending outbox row with the same sequence number are appended; and no proposal of the trip
  stays pending.
\<close>

theorem canonical_edit_publishes:
  assumes "run_edit e clk ed d = (Inr r, d')" "schema_ok d" "\<not> rc_Duplicate r" "find_trip (ce_TripID (edit_base ed)) d = Some t"
  shows "edit_published (edit_base ed) t d d'"
  using assms replace_plan.run_publishes reorder.run_publishes remove.run_publishes replace_activity.run_publishes add.run_publishes
  by (cases ed) (auto simp: edit_published_def)

theorem canonical_edit_publishes_witness:
  "\<exists>d'. edit_published (edit_base (EditReorder sample_reorder)) sample_trip editing_db d'"
proof -
  obtain r d' where s: "run_edit sample_ext (\<lambda>_. 5) (EditReorder sample_reorder) editing_db = (Inr r, d')" "\<not> rc_Duplicate r"
    using sample_reorder_runs by auto
  have "find_trip (ce_TripID (edit_base (EditReorder sample_reorder))) editing_db = Some sample_trip"
    by (simp add: find_trip_def query_row_def sample_reorder_def sample_trip_def)
  from canonical_edit_publishes [OF s(1) schema_editing s(2) this] show ?thesis ..
qed

text \<open>
  C28. An edit happens once: however often its message is delivered again after it succeeded, nothing changes
  and the answer carries the sequence number, plan and revision of the first delivery.
\<close>

theorem canonical_edit_once:
  assumes "run_edit e clk ed d = (Inr r, d')" "schema_ok d" "jsonb_valid e"
  shows "fold (\<lambda>clk d. snd (run_edit e clk ed d)) clks d' = d' \<and>
    (\<exists>y. run_edit e clk' ed d' = (Inr y, d') \<and> rc_Duplicate y \<and> rc_MutationSequence y = rc_MutationSequence r \<and>
      rc_ResultingCurrentPlanID y = rc_ResultingCurrentPlanID r \<and> rc_ResultingTripRevision y = rc_ResultingTripRevision r)"
  using edit_once.redelivery [OF assms(2,3,1)] run_edit_repeat [OF assms] by blast

theorem canonical_edit_once_witness:
  "\<exists>r d' y. run_edit sample_ext (\<lambda>_. 5) (EditReorder sample_reorder) editing_db = (Inr r, d') \<and> \<not> rc_Duplicate r \<and>
     run_edit sample_ext (\<lambda>_. 9) (EditReorder sample_reorder) d' = (Inr y, d') \<and> rc_Duplicate y"
proof -
  obtain r d' where s: "run_edit sample_ext (\<lambda>_. 5) (EditReorder sample_reorder) editing_db = (Inr r, d')" "\<not> rc_Duplicate r"
    using sample_reorder_runs by auto
  have "jsonb_valid sample_ext" by (simp add: jsonb_valid_def)
  from canonical_edit_once [OF s(1) schema_editing this, of "[]" "\<lambda>_. 9"] s show ?thesis by blast
qed

text \<open>
  C29. While a trip is executing it cannot be edited: the update that publishes the plan leaves
  \<open>active_execution_plan_id\<close> at the previous plan and violates the lifecycle check of \<open>trips\<close>, so every edit that was
  not recorded before fails and changes nothing.
\<close>

theorem edit_impossible_while_executing:
  assumes "find_trip (ce_TripID (edit_base ed)) d = Some t" "t_execution_state t \<noteq> ExecInactive" "schema_ok d"
    "\<exists>q\<in>set (itinerary_plans d). t_current_plan_id t = Some (p_id q)"
    "recordedCommandSelect (ce_TripID (edit_base ed)) (ce_MessageID (edit_base ed)) d = None"
  shows "isl (fst (run_edit e clk ed d)) \<and> snd (run_edit e clk ed d) = d"
proof (rule edit.fails_without_effect, rule notI)
  fix r d' assume s: "run_edit e clk ed d = (Inr r, d')"
  have "t_execution_state t = ExecInactive"
  proof (cases ed)
    case (EditReplacePlan rq)
    then show ?thesis using replace_plan.run_inactive [of e clk rq d r d' t] s assms by simp
  next
    case (EditReorder rq)
    then show ?thesis using reorder.run_inactive [of e clk rq d r d' t] s assms by simp
  next
    case (EditRemove rq)
    then show ?thesis using remove.run_inactive [of e clk rq d r d' t] s assms by simp
  next
    case (EditReplaceActivity rq)
    then show ?thesis using replace_activity.run_inactive [of e clk rq d r d' t] s assms by simp
  next
    case (EditAdd rq)
    then show ?thesis using add.run_inactive [of e clk rq d r d' t] s assms by simp
  qed
  then show False using assms(2) by simp
qed

definition running_trip :: trip_row where
  "running_trip = sample_trip\<lparr>t_execution_state := ExecActive, t_active_execution_plan_id := Some (sample_uuid CHR ''2''),
     t_activated_at := Some 0\<rparr>"

theorem edit_impossible_while_executing_witness:
  "isl (fst (run_edit sample_ext (\<lambda>_. 5) (EditReorder sample_reorder) (editing_db\<lparr>trips := [running_trip]\<rparr>))) \<and>
   snd (run_edit sample_ext (\<lambda>_. 5) (EditReorder sample_reorder) (editing_db\<lparr>trips := [running_trip]\<rparr>)) = editing_db\<lparr>trips := [running_trip]\<rparr>"
proof (rule edit_impossible_while_executing)
  show "schema_ok (editing_db\<lparr>trips := [running_trip]\<rparr>)"
    using schema_editing
    by (simp add: schema_ok_def trips_ok_def running_trip_def trip_check_def sample_trip_def trips_execution_lifecycle_check_def trips_name_check_def)
  show "find_trip (ce_TripID (edit_base (EditReorder sample_reorder))) (editing_db\<lparr>trips := [running_trip]\<rparr>) = Some running_trip"
    by (simp add: find_trip_def query_row_def sample_reorder_def running_trip_def sample_trip_def)
qed (simp_all add: running_trip_def sample_trip_def sample_base_plan_def recordedCommandSelect_def query_row_def)

text \<open>
  C30. The two-phase renumbering never fails on a trip whose activities can be loaded: no intermediate
  statement violates \<open>UNIQUE (trip_id, ordinal)\<close> or the range of the column, for every permutation of the activities, which
  is the order afterwards.
\<close>

theorem renumbering_total:
  assumes "schema_ok d" "load_activities tid d = Inr (ids, states)" "length ids \<le> 1073741823" "mset new = mset ids"
  shows "\<exists>d1 d2. stage_ordinals tid (length ids) d = Some d1 \<and> apply_ordinals op tid new d1 = Inr d2 \<and>
    trip_order tid d2 = new \<and> ordinals_dense tid d2 \<and> (\<exists>st. load_activities tid d2 = Inr (new, st))"
proof -
  note L = load_activities_InrD [OF assms(2)]
  have "distinct ids" unfolding L(1) by (rule distinct_trip_order [OF assms(1)])
  then have dis: "distinct new" using mset_eq_imp_distinct_iff [OF assms(4)] by simp
  have s: "set new = set ids" and len: "length new = length ids"
    using assms(4) by (auto dest: mset_eq_setD mset_eq_length)
  have n: "length (trip_rows tid d) = length ids" using L(1) by (simp add: trip_order_def)
  have "a_ordinal a < int (length ids)" if "a \<in> set (trip_activities d)" "a_trip_id a = tid" for a
  proof -
    have "a_ordinal a \<in> set (map a_ordinal (trip_rows tid d))" using that by simp
    also have "\<dots> = int ` {0..<length ids}" using L(2) n unfolding ordinals_dense_def by simp
    finally show ?thesis by auto
  qed
  then obtain d1 where d1: "stage_ordinals tid (length ids) d = Some d1" "staged tid (length ids) d1"
    using stage_ordinals_succeeds [OF assms(1), of tid "length ids" "length ids"] assms(3) by auto
  note ok = schema_stage_ordinals [OF d1(1) assms(1)]
  obtain d2 where d2: "apply_ordinals op tid new d1 = Inr d2"
    using apply_ordinals_succeeds [OF ok d1(2) dis] len assms(3) by auto
  have "set (trip_order tid d1) = set new" using set_trip_order_stage [OF d1(1)] L(1) s by simp
  note A = trip_order_apply [OF d2 ok dis this]
  have "\<forall>x\<in>set (trip_order tid d2). validCanonicalUUID x" using A(1) s L(4) by simp
  from load_activities_succeeds [OF schema_apply_ordinals [OF d2 ok] A(2) this] A(1) d1(1) d2 A show ?thesis by auto
qed

theorem renumbering_total_witness:
  "\<exists>d1 d2. stage_ordinals (sample_uuid CHR ''1'') 2 editing_db = Some d1 \<and>
     apply_ordinals ''trip-edit'' (sample_uuid CHR ''1'') [sample_uuid CHR ''7'', sample_uuid CHR ''8''] d1 = Inr d2 \<and>
     trip_order (sample_uuid CHR ''1'') d2 = [sample_uuid CHR ''7'', sample_uuid CHR ''8'']"
  using renumbering_total [OF schema_editing sample_reorder_load, of "[sample_uuid CHR ''7'', sample_uuid CHR ''8'']" "''trip-edit''"]
  by (auto simp: numeral_2_eq_2)

end
