(* ===== verification/LR_Load.thy ===== *)
theory LR_Load
  imports LR_Edit_Theorems
begin

text \<open>
  Reading the canonical state of a trip: \<open>CanonicalStateStore.Load\<close> and \<open>RuntimeSyncState\<close> of
  \<open>persistence/canonical_state.go\<close>. \<open>Load\<close> trusts nothing it reads: it checks the trip, the activities, their
  windows, the delays, the plan row and its payload against each other. The column \<open>origin\<close> has a type with
  two values here, so that the branch for another origin is not there.
\<close>

section \<open>The state\<close>

record CanonicalCurrentPlan =
  cp_ID :: uuid
  cp_Revision :: u64
  cp_Origin :: plan_origin
  cp_AuthoredByUserID :: uuid
  cp_SourceProposalID :: "uuid option"
  cp_SchemaVersion :: int
  cp_Payload :: bytes
  cp_Checksum :: bytes
  cp_CreatedAt :: time

record CanonicalTripState =
  cs_TripID :: uuid
  cs_OwnerUserID :: uuid
  cs_DefaultTimeZoneName :: string
  cs_TripRevision :: u64
  cs_FinalizedMutationSequence :: u64
  cs_CurrentPlanID :: uuid
  cs_CompletedPrefixCount :: nat
  cs_CurrentActivityID :: "uuid option"
  cs_Activities :: "CanonicalActivity list"
  cs_TravelDelays :: "CanonicalTravelDelay list"
  cs_CurrentPlan :: CanonicalCurrentPlan

section \<open>Loading\<close>

definition trip_metadata_ok :: "trip_row \<Rightarrow> uuid \<Rightarrow> bool" where
  "trip_metadata_ok t currentPlanID \<longleftrightarrow> 0 < t_trip_revision t \<and> 0 < t_finalized_mutation_sequence t \<and>
     validCanonicalUUID (t_owner_user_id t) \<and> t_default_time_zone_name t \<noteq> [] \<and> validCanonicalUUID currentPlanID"

definition activity_of_row :: "activity_row \<Rightarrow> CanonicalActivity" where
  "activity_of_row a =
     \<lparr>ca_ID = a_id a, ca_Ordinal = nat (a_ordinal a), ca_PlaceID = a_place_id a, ca_DisplayName = a_display_name a,
      ca_Latitude = a_latitude a, ca_Longitude = a_longitude a, ca_TimeZoneName = a_time_zone_name a,
      ca_InboundTravelMode = a_inbound_travel_mode a, ca_ActivityClass = a_activity_class a,
      ca_ActivityState = a_activity_state a, ca_ActivityDelaySeconds = nat (a_activity_delay_seconds a),
      ca_FoundClosedAt = a_found_closed_at a, ca_PriorityRank = a_priority_rank a, ca_UtilityScore = a_utility_score a,
      ca_ReservationStart = a_reservation_start a, ca_ReservationGraceSeconds = nat (a_reservation_grace_seconds a),
      ca_MandatoryDeadline = a_mandatory_deadline a, ca_MinDurationSeconds = nat (a_min_duration_seconds a),
      ca_PreferredDurationSeconds = nat (a_preferred_duration_seconds a),
      ca_MaxDurationSeconds = nat (a_max_duration_seconds a), ca_Mandatory = a_mandatory a,
      ca_CanShorten = a_can_shorten a, ca_CanMove = a_can_move a, ca_CanSkip = a_can_skip a, ca_OpenWindows = []\<rparr>"

definition load_activity_step :: "activity_row \<Rightarrow> CanonicalActivity list \<Rightarrow> CanonicalActivity list result" where
  "load_activity_step a acts =
     (if a_ordinal a < 0 \<or> a_ordinal a \<noteq> int (length acts) \<or> a_activity_delay_seconds a < 0 \<or>
         a_reservation_grace_seconds a < 0 \<or> a_min_duration_seconds a < 0 \<or>
         a_preferred_duration_seconds a < a_min_duration_seconds a \<or>
         a_max_duration_seconds a < a_preferred_duration_seconds a \<or> \<not> validCanonicalUUID (a_id a) \<or>
         a_place_id a = [] \<or> a_display_name a = [] \<or> a_time_zone_name a = [] \<or>
         \<not> coordinate_ok 90 (a_latitude a) \<or> \<not> coordinate_ok 180 (a_longitude a) \<or>
         a_inbound_travel_mode a \<notin> {''walking'', ''driving''} \<or> a_activity_class a \<notin> {''fixed'', ''flexible''} \<or>
         \<not> ActivityState_valid (a_activity_state a)
      then Inl ErrCanonicalStateCorrupt
      else Inr (acts @ [activity_of_row a]))"

text \<open>\<open>activityIndex\<close>: a later activity with the same identifier would replace an earlier one.\<close>

definition activityIndex :: "CanonicalActivity list \<Rightarrow> uuid \<Rightarrow> nat option" where
  "activityIndex acts aid = map_of (rev (zip (map ca_ID acts) [0..<length acts])) aid"

text \<open>The loop over the windows; the state is the activities and \<open>windowCounts\<close>.\<close>

definition load_window_step ::
  "(uuid \<Rightarrow> nat option) \<Rightarrow> window_row \<Rightarrow> CanonicalActivity list \<times> (uuid \<Rightarrow> nat) \<Rightarrow>
     (CanonicalActivity list \<times> (uuid \<Rightarrow> nat)) result" where
  "load_window_step index w st = (case st of (acts, counts) \<Rightarrow>
     (case index (w_activity_id w) of
        None \<Rightarrow> Inl ErrCanonicalStateCorrupt
      | Some k \<Rightarrow>
          if w_window_index w \<noteq> int (counts (w_activity_id w)) \<or> \<not> w_opens_at w < w_closes_at w
            then Inl ErrCanonicalStateCorrupt
          else
            let windows = ca_OpenWindows (acts ! k) in
            if windows \<noteq> [] \<and> w_opens_at w < cw_ClosesAt (last windows) then Inl ErrCanonicalStateCorrupt
            else Inr (acts[k := (acts ! k)\<lparr>ca_OpenWindows := windows @
                 [\<lparr>cw_OpensAt = w_opens_at w, cw_ClosesAt = w_closes_at w\<rparr>]\<rparr>],
               counts(w_activity_id w := counts (w_activity_id w) + 1))))"

definition load_delay_step ::
  "(uuid \<Rightarrow> nat option) \<Rightarrow> delay_row \<Rightarrow> CanonicalTravelDelay list \<Rightarrow> CanonicalTravelDelay list result" where
  "load_delay_step index y delays =
     (if index (y_from_activity_id y) = None then Inl ErrCanonicalStateCorrupt
      else if index (y_to_activity_id y) = None \<or> y_additional_seconds y < 0 then Inl ErrCanonicalStateCorrupt
      else Inr (delays @ [\<lparr>cd_FromActivityID = y_from_activity_id y, cd_ToActivityID = y_to_activity_id y,
         cd_AdditionalSeconds = nat (y_additional_seconds y), cd_ObservedAt = y_observed_at y\<rparr>]))"

definition optionalStringEqual :: "string option \<Rightarrow> string \<Rightarrow> bool" where
  "optionalStringEqual value encoded = (case value of None \<Rightarrow> encoded = [] | Some v \<Rightarrow> v = encoded)"

definition current_plan_of :: "plan_row \<Rightarrow> CanonicalCurrentPlan" where
  "current_plan_of p =
     \<lparr>cp_ID = p_id p, cp_Revision = uint64 (p_plan_revision p), cp_Origin = p_origin p,
      cp_AuthoredByUserID = p_authored_by_user_id p, cp_SourceProposalID = p_source_proposal_id p,
      cp_SchemaVersion = p_schema_version p, cp_Payload = p_payload p, cp_Checksum = p_checksum_sha256 p,
      cp_CreatedAt = p_created_at p\<rparr>"

definition load_current_plan ::
  "ext \<Rightarrow> uuid \<Rightarrow> uuid \<Rightarrow> uuid \<Rightarrow> db \<Rightarrow> (CanonicalCurrentPlan \<times> storedCurrentPlanMetadata) result" where
  "load_current_plan e tripID ownerUserID currentPlanID d =
     (case query_row (\<lambda>p. p_trip_id p = tripID \<and> p_id p = currentPlanID) (itinerary_plans d) of
        None \<Rightarrow> Inl ErrCanonicalStateCorrupt
      | Some p \<Rightarrow>
          if p_plan_revision p \<le> 0 \<or> p_schema_version p \<noteq> 1 \<or> p_payload_size_bytes p \<noteq> int (length (p_payload p)) \<or>
             length (p_checksum_sha256 p) \<noteq> 32 \<or> p_id p \<noteq> currentPlanID \<or> p_authored_by_user_id p \<noteq> ownerUserID
            then Inl ErrCanonicalStateCorrupt
          else if sha256 e (p_payload p) \<noteq> p_checksum_sha256 p then Inl ErrCanonicalStateCorrupt
          else (case parseSnapshotCurrentPlan (p_payload p) of
              Inl _ \<Rightarrow> Inl ErrCanonicalStateCorrupt
            | Inr plan \<Rightarrow>
                if sm_planID plan \<noteq> p_id p \<or> sm_revision plan \<noteq> uint64 (p_plan_revision p) \<or>
                   sm_createdAtUnixMS plan \<noteq> UnixMilli (p_created_at p) \<or> p_created_at p mod 1000 \<noteq> 0
                  then Inl ErrCanonicalStateCorrupt
                else if sm_origin plan \<noteq> (case p_origin p of AcceptedEngineProposal \<Rightarrow> 2 | UserAuthored \<Rightarrow> 1) \<or>
                   \<not> optionalStringEqual (p_source_proposal_id p) (sm_sourceProposalID plan)
                  then Inl ErrCanonicalStateCorrupt
                else Inr (current_plan_of p, plan)))"

text \<open>
  The loop over the segments of the plan; the state is the activities seen, whether the terminal prefix is
  open, its length and the started activity.
\<close>

definition load_segment_step ::
  "CanonicalActivity list \<Rightarrow> nat \<times> uuid \<Rightarrow> uuid list \<times> bool \<times> nat \<times> uuid option \<Rightarrow>
     (uuid list \<times> bool \<times> nat \<times> uuid option) result" where
  "load_segment_step acts m st = (case (m, st) of ((planIndex, aid), (seen, prefixOpen, completed, current)) \<Rightarrow>
     (case activityIndex acts aid of
        None \<Rightarrow> Inl ErrCanonicalStateCorrupt
      | Some k \<Rightarrow>
          if aid \<in> set seen then Inl ErrCanonicalStateCorrupt
          else
            let seen' = seen @ [aid]; state = ca_ActivityState (acts ! k) in
            if prefixOpen \<and> terminal_state state then Inr (seen', True, completed + 1, current)
            else if terminal_state state then Inl ErrCanonicalStateCorrupt
            else if state = ActivityStateStarted then
              (if current \<noteq> None \<or> planIndex \<noteq> completed then Inl ErrCanonicalStateCorrupt
               else Inr (seen', False, completed, Some aid))
            else Inr (seen', False, completed, current)))"

definition load_canonical_activities :: "uuid \<Rightarrow> db \<Rightarrow> CanonicalActivity list result" where
  "load_canonical_activities tripID d =
     bindr (for_each load_activity_step
         (sort_key a_ordinal (sql_select (\<lambda>a. a_trip_id a = tripID) (trip_activities d))) []) (\<lambda>acts.
       if length acts > 64 then Inl ErrCanonicalStateCorrupt else Inr acts)"

definition load_windows :: "uuid \<Rightarrow> CanonicalActivity list \<Rightarrow> db \<Rightarrow> CanonicalActivity list result" where
  "load_windows tripID acts d =
     bindr (for_each (load_window_step (activityIndex acts))
         (sort_key w_activity_id (sort_key w_window_index
           (sql_select (\<lambda>w. w_trip_id w = tripID) (activity_open_windows d)))) (acts, \<lambda>_. 0)) (\<lambda>(acts', _). Inr acts')"

definition load_delays :: "uuid \<Rightarrow> CanonicalActivity list \<Rightarrow> db \<Rightarrow> CanonicalTravelDelay list result" where
  "load_delays tripID acts d =
     for_each (load_delay_step (activityIndex acts))
       (sort_key y_from_activity_id (sort_key y_to_activity_id
         (sql_select (\<lambda>y. y_trip_id y = tripID) (trip_travel_delays d)))) []"

definition load_segments ::
  "CanonicalActivity list \<Rightarrow> uuid list \<Rightarrow> (nat \<times> uuid option) result" where
  "load_segments acts ids =
     (if length ids \<noteq> length acts then Inl ErrCanonicalStateCorrupt
      else bindr (for_each (load_segment_step acts) (enumerate 0 ids) ([], True, 0, None))
        (\<lambda>(_, _, completed, current). Inr (completed, current)))"

definition Load :: "ext \<Rightarrow> uuid \<Rightarrow> db \<Rightarrow> CanonicalTripState result" where
  "Load e tripID d =
     (if \<not> validCanonicalUUID tripID then Inl (ErrText ''trip id is invalid'')
      else case find_trip tripID d of
        None \<Rightarrow> Inl ErrTripNotFound
      | Some t \<Rightarrow> (case t_current_plan_id t of
          None \<Rightarrow> Inl (ErrSQL ''lock canonical trip'')
        | Some currentPlanID \<Rightarrow>
            if \<not> trip_metadata_ok t currentPlanID then Inl ErrCanonicalStateCorrupt
            else
              bindr (load_canonical_activities tripID d) (\<lambda>acts.
              bindr (load_windows tripID acts d) (\<lambda>acts'.
              bindr (load_delays tripID acts d) (\<lambda>delays.
              bindr (load_current_plan e tripID (t_owner_user_id t) currentPlanID d) (\<lambda>(plan, metadata).
              bindr (load_segments acts' (map seg_activityID (sm_segments metadata))) (\<lambda>(completed, current).
              Inr \<lparr>cs_TripID = t_id t, cs_OwnerUserID = t_owner_user_id t,
                cs_DefaultTimeZoneName = t_default_time_zone_name t, cs_TripRevision = uint64 (t_trip_revision t),
                cs_FinalizedMutationSequence = uint64 (t_finalized_mutation_sequence t),
                cs_CurrentPlanID = currentPlanID, cs_CompletedPrefixCount = completed, cs_CurrentActivityID = current,
                cs_Activities = acts', cs_TravelDelays = delays, cs_CurrentPlan = plan\<rparr>)))))))"

definition RuntimeSyncState :: "uuid \<Rightarrow> db \<Rightarrow> runtime_sync_state result" where
  "RuntimeSyncState tripID d =
     (if \<not> validCanonicalUUID tripID then Inl (ErrText ''trip id is invalid'')
      else Inr (if sql_exists (\<lambda>i. i_trip_id i = tripID \<and> i_runtime_sync_state i = SyncPausedInternal) (command_intents d)
          then SyncPausedInternal
        else if sql_exists (\<lambda>i. i_trip_id i = tripID \<and> i_runtime_sync_state i = SyncPending) (command_intents d)
          then SyncPending
        else NotRequired))"

section \<open>What a valid plan of drafts is\<close>

definition draft_times :: "CanonicalPlanSegmentDraft \<Rightarrow> bool" where
  "draft_times s \<longleftrightarrow> (if dr_Scheduled s then (case (dr_Start s, dr_End s) of (Some a, Some b) \<Rightarrow> a < b | _ \<Rightarrow> False)
     else dr_Start s = None \<and> dr_End s = None)"

definition draft_state :: "(uuid \<times> ActivityState) list \<Rightarrow> CanonicalPlanSegmentDraft \<Rightarrow> ActivityState" where
  "draft_state states s = the (map_of states (dr_ActivityID s))"

lemma segment_times_InrD:
  assumes "segment_times op sch s pe = Inr pe'"
  shows "draft_times s" "pe' = (if dr_Scheduled s then dr_End s else pe)"
    "dr_Scheduled s \<Longrightarrow> pe = None \<or> the pe \<le> the (dr_Start s)"
  using assms by (auto simp: segment_times_def draft_times_def split: if_splits option.splits)

lemma segment_order_InrD:
  assumes "segment_order op x n seen po st = Inr (po', st')"
  shows "po' \<longleftrightarrow> po \<and> terminal_state x" "terminal_state x \<Longrightarrow> po" "st' \<longleftrightarrow> st \<or> x = ActivityStateStarted"
    "x = ActivityStateStarted \<Longrightarrow> \<not> st"
  using assms by (auto simp: segment_order_def terminal_state_def split: if_splits)

lemma plan_segment_step_InrD:
  assumes "plan_segment_step op sch states (n, s) (seen, po, st, pe) = Inr st'"
  obtains po' started' pe' where "st' = (seen @ [dr_ActivityID s], po', started', pe')"
    "validCanonicalUUID (dr_ActivityID s)" "map_of states (dr_ActivityID s) \<noteq> None" "dr_ActivityID s \<notin> set seen"
    "segment_times op sch s pe = Inr pe'"
    "segment_order op (draft_state states s) n (seen @ [dr_ActivityID s]) po st = Inr (po', started')"
  using assms
  by (auto simp: plan_segment_step_def draft_state_def bindr_eq_Inr split: if_splits option.splits)

lemma plan_loop_InrD:
  assumes "for_each (plan_segment_step op sch states) (enumerate n ds) (seen, po, st, pe) = Inr st'"
  shows "(\<forall>s\<in>set ds. validCanonicalUUID (dr_ActivityID s) \<and> map_of states (dr_ActivityID s) \<noteq> None \<and> draft_times s) \<and>
    distinct (map dr_ActivityID ds) \<and> dr_ActivityID ` set ds \<inter> set seen = {} \<and>
    (pe \<noteq> None \<longrightarrow> (\<forall>s\<in>set ds. dr_Scheduled s \<longrightarrow> the pe \<le> the (dr_Start s))) \<and>
    sorted_wrt (\<lambda>s t. the (dr_End s) \<le> the (dr_Start t)) (filter dr_Scheduled ds) \<and>
    fst st' = seen @ map dr_ActivityID ds \<and>
    (\<forall>s\<in>set (if po then dropWhile (\<lambda>s. terminal_state (draft_state states s)) ds else ds). \<not> terminal_state (draft_state states s))"
  using assms
proof (induction ds arbitrary: n seen po st pe)
  case (Cons s ds)
  then obtain st1 where s1: "plan_segment_step op sch states (n, s) (seen, po, st, pe) = Inr st1"
    and rest: "for_each (plan_segment_step op sch states) (enumerate (Suc n) ds) st1 = Inr st'"
    by (auto simp: bindr_eq_Inr)
  from s1 obtain po' started' pe' where st1: "st1 = (seen @ [dr_ActivityID s], po', started', pe')"
    and v: "validCanonicalUUID (dr_ActivityID s)" "map_of states (dr_ActivityID s) \<noteq> None" "dr_ActivityID s \<notin> set seen"
    and t: "segment_times op sch s pe = Inr pe'"
    and o: "segment_order op (draft_state states s) n (seen @ [dr_ActivityID s]) po st = Inr (po', started')"
    by (rule plan_segment_step_InrD)
  note f = v segment_times_InrD(1) [OF t] segment_order_InrD(1,2) [OF o] segment_times_InrD(2,3) [OF t]
  note IH = Cons.IH [OF rest [unfolded st1]]
  have last: "\<forall>s\<in>set (if po' then dropWhile (\<lambda>s. terminal_state (draft_state states s)) ds else ds). \<not> terminal_state (draft_state states s)"
    using IH by (elim conjE)
  have later: "pe' \<noteq> None \<Longrightarrow> t \<in> set ds \<Longrightarrow> dr_Scheduled t \<Longrightarrow> the pe' \<le> the (dr_Start t)" for t
    using IH by blast
  have tm: "pe' \<noteq> None \<and> pe' = dr_End s \<and> the (dr_Start s) < the (dr_End s)" if "dr_Scheduled s"
    using f(4,7) that by (auto simp: draft_times_def split: option.splits)
  have pe: "pe \<noteq> None \<longrightarrow> (\<forall>t\<in>set (s # ds). dr_Scheduled t \<longrightarrow> the pe \<le> the (dr_Start t))"
  proof (cases "dr_Scheduled s")
    case True
    then show ?thesis using later tm f(8) by fastforce
  next
    case False
    then have "pe' = pe" using f(7) by simp
    then show ?thesis using later False by auto
  qed
  have so: "sorted_wrt (\<lambda>s t. the (dr_End s) \<le> the (dr_Start t)) (filter dr_Scheduled (s # ds))"
  proof -
    have "sorted_wrt (\<lambda>s t. the (dr_End s) \<le> the (dr_Start t)) (filter dr_Scheduled ds)" using IH by (elim conjE)
    moreover have "the (dr_End s) \<le> the (dr_Start t)" if "dr_Scheduled s" "t \<in> set ds" "dr_Scheduled t" for t
      using later [of t] tm that by metis
    ultimately show ?thesis by simp
  qed
  have pre: "\<forall>t\<in>set (if po then dropWhile (\<lambda>s. terminal_state (draft_state states s)) (s # ds) else s # ds).
      \<not> terminal_state (draft_state states t)"
  proof (cases "terminal_state (draft_state states s)")
    case True
    then have p: "po" "po'" using f(5,6) by simp_all
    have "dropWhile (\<lambda>s. terminal_state (draft_state states s)) (s # ds) = dropWhile (\<lambda>s. terminal_state (draft_state states s)) ds"
      using True by simp
    then show ?thesis using last p by (simp only: if_True)
  next
    case False
    then have p: "\<not> po'" using f(5) by simp
    have d: "dropWhile (\<lambda>s. terminal_state (draft_state states s)) (s # ds) = s # ds" using False by simp
    have "\<forall>t\<in>set (s # ds). \<not> terminal_state (draft_state states t)" using last False p by (simp only: if_False) simp
    then show ?thesis unfolding d by (simp only: if_cancel)
  qed
  have ids: "distinct (map dr_ActivityID ds)" "dr_ActivityID ` set ds \<inter> set (seen @ [dr_ActivityID s]) = {}"
      "fst st' = (seen @ [dr_ActivityID s]) @ map dr_ActivityID ds"
      "\<forall>s\<in>set ds. validCanonicalUUID (dr_ActivityID s) \<and> map_of states (dr_ActivityID s) \<noteq> None \<and> draft_times s"
    using IH by blast+
  have "distinct (map dr_ActivityID (s # ds))" "dr_ActivityID ` set (s # ds) \<inter> set seen = {}"
    using ids(1,2) f(3) by auto
  moreover have "\<forall>s\<in>set (s # ds). validCanonicalUUID (dr_ActivityID s) \<and> map_of states (dr_ActivityID s) \<noteq> None \<and> draft_times s"
    using ids(4) f(1,2,4) by simp
  ultimately show ?case using pe so ids(3) pre by (intro conjI) simp_all
qed auto

section \<open>The loops of the loader\<close>

lemma map_of_positions:
  "map_of (rev (zip (map fst xs) [0..<length xs])) a = Some k \<Longrightarrow> k < length xs"
  by (drule map_of_SomeD) (auto simp: set_zip)

lemma map_of_by_position:
  "map_option (\<lambda>k. snd (xs ! k)) (map_of (rev (zip (map fst xs) [0..<length xs])) a) = map_of (rev xs) a"
proof (induction xs rule: rev_induct)
  case (snoc x xs)
  show ?case
  proof (cases "a = fst x")
    case False
    have "map_option (\<lambda>k. snd ((xs @ [x]) ! k)) (map_of (rev (zip (map fst xs) [0..<length xs])) a) =
      map_option (\<lambda>k. snd (xs ! k)) (map_of (rev (zip (map fst xs) [0..<length xs])) a)"
      by (rule option.map_cong0) (auto dest!: map_of_positions simp: nth_append)
    then show ?thesis using snoc.IH False by (cases x) simp
  qed (cases x, simp)
qed simp

definition states_of :: "CanonicalActivity list \<Rightarrow> (uuid \<times> ActivityState) list" where
  "states_of acts = map (\<lambda>a. (ca_ID a, ca_ActivityState a)) acts"

lemma activityIndex_state:
  "map_option (\<lambda>k. ca_ActivityState (acts ! k)) (activityIndex acts a) = map_of (rev (states_of acts)) a"
proof -
  have "map_option (\<lambda>k. ca_ActivityState (acts ! k)) (activityIndex acts a) =
    map_option (\<lambda>k. snd (states_of acts ! k)) (activityIndex acts a)"
    by (rule option.map_cong0) (auto simp: activityIndex_def states_of_def dest!: map_of_SomeD simp: set_zip)
  also have "\<dots> = map_of (rev (states_of acts)) a"
    using map_of_by_position [of "states_of acts" a] by (simp add: activityIndex_def states_of_def o_def)
  finally show ?thesis .
qed

lemma activityIndex_cong: "map ca_ID acts = map ca_ID acts' \<Longrightarrow> activityIndex acts = activityIndex acts'"
  by (metis activityIndex_def ext length_map)

lemma load_activity_step_Inr: "load_activity_step a acts = Inr acts' \<Longrightarrow> acts' = acts @ [activity_of_row a]"
  by (simp add: load_activity_step_def split: if_splits)

lemma load_activities_rows:
  assumes "for_each load_activity_step rows acts = Inr acts'"
  shows "acts' = acts @ map activity_of_row rows"
  using assms
proof (induction rows arbitrary: acts)
  case (Cons a rows)
  then obtain acts1 where "load_activity_step a acts = Inr acts1" "for_each load_activity_step rows acts1 = Inr acts'"
    by (auto simp: bindr_eq_Inr)
  then show ?case using Cons.IH [of acts1] load_activity_step_Inr by simp
qed simp

lemma load_canonical_activities_InrD:
  "load_canonical_activities tripID d = Inr acts \<Longrightarrow> acts = map activity_of_row (trip_rows tripID d) \<and> length acts \<le> 64"
  unfolding load_canonical_activities_def bindr_eq_Inr trip_rows_def [symmetric]
  by (auto dest: load_activities_rows split: if_splits)

lemma map_list_update_same: "f x = f (xs ! k) \<Longrightarrow> map f (xs[k := x]) = map f xs"
  by (cases "k < length xs") (simp_all add: map_update list_update_same_conv list_update_beyond)

lemma load_windows_keeps:
  assumes "load_windows tripID acts d = Inr acts'"
  shows "map ca_ID acts' = map ca_ID acts" "map ca_ActivityState acts' = map ca_ActivityState acts" "states_of acts' = states_of acts"
proof -
  let ?P = "\<lambda>st :: CanonicalActivity list \<times> (uuid \<Rightarrow> nat). map ca_ID (fst st) = map ca_ID acts \<and> map ca_ActivityState (fst st) = map ca_ActivityState acts"
  from assms obtain counts where l: "for_each (load_window_step (activityIndex acts))
         (sort_key w_activity_id (sort_key w_window_index
           (sql_select (\<lambda>w. w_trip_id w = tripID) (activity_open_windows d)))) (acts, \<lambda>_. 0) = Inr (acts', counts)"
    by (auto simp: load_windows_def bindr_eq_Inr)
  have "?P (acts', counts)"
    by (rule for_each_invariant [where P = ?P, OF l])
      (auto simp: load_window_step_def Let_def map_list_update_same split: option.splits if_splits)
  then show ids: "map ca_ID acts' = map ca_ID acts" and sts: "map ca_ActivityState acts' = map ca_ActivityState acts" by simp_all
  have "states_of xs = zip (map ca_ID xs) (map ca_ActivityState xs)" for xs by (simp add: states_of_def zip_map_map zip_same_conv_map)
  then show "states_of acts' = states_of acts" by (simp add: ids sts)
qed

text \<open>
  The segment loop in closed form: behind the terminal prefix no activity may be terminal, and only the
  first one may be started.
\<close>

lemma load_segment_step_eq:
  assumes "activityIndex acts a = Some k" "ca_ActivityState (acts ! k) = s" "a \<notin> set seen"
  shows "load_segment_step acts (n, a) (seen, prefixOpen, completed, current) =
    (if prefixOpen \<and> terminal_state s then Inr (seen @ [a], True, completed + 1, current)
     else if terminal_state s then Inl ErrCanonicalStateCorrupt
     else if s = ActivityStateStarted then
       (if current \<noteq> None \<or> n \<noteq> completed then Inl ErrCanonicalStateCorrupt else Inr (seen @ [a], False, completed, Some a))
     else Inr (seen @ [a], False, completed, current))"
  using assms by (simp add: load_segment_step_def)

lemma load_segments_closed:
  assumes "distinct ids" "set ids \<inter> set seen = {}" "completed < n"
    "\<forall>a\<in>set ids. \<exists>s. map_of (rev (states_of acts)) a = Some s \<and> \<not> terminal_state s"
  shows "for_each (load_segment_step acts) (enumerate n ids) (seen, False, completed, current) =
    (if \<exists>a\<in>set ids. map_of (rev (states_of acts)) a = Some ActivityStateStarted then Inl ErrCanonicalStateCorrupt
     else Inr (seen @ ids, False, completed, current))"
  using assms
proof (induction ids arbitrary: n seen)
  case (Cons a ids)
  from Cons.prems(4) obtain s where s: "map_of (rev (states_of acts)) a = Some s" "\<not> terminal_state s" by auto
  then obtain k where k: "activityIndex acts a = Some k" "ca_ActivityState (acts ! k) = s"
    using activityIndex_state [of acts a] by auto
  have IH: "for_each (load_segment_step acts) (enumerate (Suc n) ids) (seen @ [a], False, completed, current) =
    (if \<exists>a\<in>set ids. map_of (rev (states_of acts)) a = Some ActivityStateStarted then Inl ErrCanonicalStateCorrupt
     else Inr ((seen @ [a]) @ ids, False, completed, current))"
    using Cons.prems by (intro Cons.IH) auto
  have "load_segment_step acts (n, a) (seen, False, completed, current) =
      (if s = ActivityStateStarted then Inl ErrCanonicalStateCorrupt else Inr (seen @ [a], False, completed, current))"
    using load_segment_step_eq [OF k] Cons.prems(2,3) s(2) by simp
  then show ?case using s(1) IH by simp
qed simp

definition started_in_place :: "ActivityState list \<Rightarrow> bool" where
  "started_in_place sts \<longleftrightarrow> ActivityStateStarted \<notin> set (tl (dropWhile terminal_state sts))"

definition state_in :: "(uuid \<times> ActivityState) list \<Rightarrow> uuid \<Rightarrow> ActivityState" where
  "state_in states a = the (map_of states a)"

definition current_in :: "(uuid \<times> ActivityState) list \<Rightarrow> uuid list \<Rightarrow> uuid option" where
  "current_in states ids = (case dropWhile (\<lambda>a. terminal_state (state_in states a)) ids of
     [] \<Rightarrow> None | a # _ \<Rightarrow> if state_in states a = ActivityStateStarted then Some a else None)"

lemma load_segments_open:
  assumes "distinct ids" "set ids \<inter> set seen = {}" "states = rev (states_of acts)"
    "\<forall>a\<in>set ids. map_of states a \<noteq> None"
    "\<forall>a\<in>set (dropWhile (\<lambda>a. terminal_state (state_in states a)) ids). \<not> terminal_state (state_in states a)"
  shows "bindr (for_each (load_segment_step acts) (enumerate n ids) (seen, True, n, None)) (\<lambda>(_, _, c, cur). Inr (c, cur)) =
    (if started_in_place (map (state_in states) ids)
     then Inr (n + length (takeWhile (\<lambda>a. terminal_state (state_in states a)) ids), current_in states ids)
     else Inl ErrCanonicalStateCorrupt)"
  using assms
proof (induction ids arbitrary: n seen)
  case Nil
  then show ?case by (simp add: started_in_place_def current_in_def)
next
  case (Cons a ids)
  from Cons.prems(4) obtain s where s: "map_of states a = Some s" by auto
  then have st: "state_in states a = s" by (simp add: state_in_def)
  obtain k where k: "activityIndex acts a = Some k" "ca_ActivityState (acts ! k) = s"
    using activityIndex_state [of acts a] s [unfolded Cons.prems(3)] by auto
  show ?case
  proof (cases "terminal_state s")
    case True
    then have dw: "dropWhile (\<lambda>a. terminal_state (state_in states a)) (a # ids) = dropWhile (\<lambda>a. terminal_state (state_in states a)) ids"
      using st by simp
    have "bindr (for_each (load_segment_step acts) (enumerate (Suc n) ids) (seen @ [a], True, Suc n, None)) (\<lambda>(_, _, c, cur). Inr (c, cur)) =
      (if started_in_place (map (state_in states) ids)
       then Inr (Suc n + length (takeWhile (\<lambda>a. terminal_state (state_in states a)) ids), current_in states ids)
       else Inl ErrCanonicalStateCorrupt)"
    proof (rule Cons.IH)
      show "\<forall>a\<in>set (dropWhile (\<lambda>a. terminal_state (state_in states a)) ids). \<not> terminal_state (state_in states a)"
        using Cons.prems(5) unfolding dw .
    qed (use Cons.prems(1-4) in auto)
    moreover have "load_segment_step acts (n, a) (seen, True, n, None) = Inr (seen @ [a], True, Suc n, None)"
      using load_segment_step_eq [OF k] Cons.prems(2) True by simp
    ultimately show ?thesis using True st by (simp add: started_in_place_def current_in_def)
  next
    case False
    have nt: "\<forall>b\<in>set ids. \<exists>s. map_of (rev (states_of acts)) b = Some s \<and> \<not> terminal_state s"
    proof
      fix b assume b: "b \<in> set ids"
      have "dropWhile (\<lambda>a. terminal_state (state_in states a)) (a # ids) = a # ids" using False st by simp
      then have "\<not> terminal_state (state_in states b)" using Cons.prems(5) b by (metis list.set_intros(2))
      moreover have "map_of states b = Some (state_in states b)" using Cons.prems(4) b by (auto simp: state_in_def)
      ultimately show "\<exists>s. map_of (rev (states_of acts)) b = Some s \<and> \<not> terminal_state s" unfolding Cons.prems(3) by blast
    qed
    have closed: "for_each (load_segment_step acts) (enumerate (Suc n) ids) (seen @ [a], False, n, cur) =
      (if \<exists>a\<in>set ids. map_of states a = Some ActivityStateStarted then Inl ErrCanonicalStateCorrupt
       else Inr ((seen @ [a]) @ ids, False, n, cur))" for cur
      unfolding Cons.prems(3) using Cons.prems(1,2) nt by (intro load_segments_closed) auto
    have "(\<exists>b\<in>set ids. map_of states b = Some ActivityStateStarted) \<longleftrightarrow> \<not> started_in_place (map (state_in states) (a # ids))"
    proof -
      have "map_of states b = Some ActivityStateStarted \<longleftrightarrow> state_in states b = ActivityStateStarted" if "b \<in> set ids" for b
        using Cons.prems(4) that by (auto simp: state_in_def)
      then have "(\<exists>b\<in>set ids. map_of states b = Some ActivityStateStarted) \<longleftrightarrow> ActivityStateStarted \<in> state_in states ` set ids"
        by (metis image_iff)
      then show ?thesis using False st by (simp add: started_in_place_def)
    qed
    moreover have "load_segment_step acts (n, a) (seen, True, n, None) =
        Inr (seen @ [a], False, n, if s = ActivityStateStarted then Some a else None)"
      using load_segment_step_eq [OF k] Cons.prems(2) False by simp
    ultimately show ?thesis using False st closed by (simp add: current_in_def)
  qed
qed

lemma map_of_rev_distinct: "distinct (map fst xs) \<Longrightarrow> map_of (rev xs) = map_of xs"
  by (rule map_of_eqI) (auto simp: rev_map [symmetric])

lemma update_new: "k \<notin> fst ` set al \<Longrightarrow> AList.update k v al = al @ [(k, v)]"
  by (induction al) auto

lemma load_activities_pairs:
  assumes "for_each activity_state_step rows (ids, states) = Inr (ids', states')"
    "distinct (map a_id rows)" "a_id ` set rows \<inter> fst ` set states = {}"
  shows "states' = states @ map (\<lambda>a. (a_id a, a_activity_state a)) rows"
  using assms
proof (induction rows arbitrary: ids states)
  case (Cons a rows)
  then have "for_each activity_state_step rows (ids @ [a_id a], states @ [(a_id a, a_activity_state a)]) = Inr (ids', states')"
    by (auto simp: bindr_eq_Inr activity_state_step_Inr update_new)
  from Cons.IH [OF this] Cons.prems(2,3) show ?case by auto
qed simp

lemma load_activities_states:
  assumes "load_activities tripID d = Inr (ids, states)" "schema_ok d"
  shows "states = map (\<lambda>a. (a_id a, a_activity_state a)) (trip_rows tripID d)"
  using load_activities_pairs [OF assms(1) [unfolded load_activities_def, folded trip_rows_def]]
    distinct_trip_order [OF assms(2), of tripID] by (simp add: trip_order_def)

lemma states_of_rows: "states_of (map activity_of_row rows) = map (\<lambda>a. (a_id a, a_activity_state a)) rows"
  by (simp add: states_of_def activity_of_row_def)

text \<open>The parts of a successful load.\<close>

lemma Load_InrD:
  assumes "Load e tripID d = Inr s"
  obtains t c acts plan metadata where "find_trip tripID d = Some t" "t_current_plan_id t = Some c" "validCanonicalUUID tripID"
    "trip_metadata_ok t c" "load_canonical_activities tripID d = Inr acts" "load_windows tripID acts d = Inr (cs_Activities s)"
    "load_delays tripID acts d = Inr (cs_TravelDelays s)"
    "load_current_plan e tripID (t_owner_user_id t) c d = Inr (plan, metadata)"
    "load_segments (cs_Activities s) (map seg_activityID (sm_segments metadata)) = Inr (cs_CompletedPrefixCount s, cs_CurrentActivityID s)"
    "cs_TripID s = tripID" "cs_OwnerUserID s = t_owner_user_id t" "cs_DefaultTimeZoneName s = t_default_time_zone_name t"
    "cs_TripRevision s = uint64 (t_trip_revision t)" "cs_FinalizedMutationSequence s = uint64 (t_finalized_mutation_sequence t)"
    "cs_CurrentPlanID s = c" "cs_CurrentPlan s = plan"
proof -
  from assms obtain t c where t: "find_trip tripID d = Some t" "t_current_plan_id t = Some c" "validCanonicalUUID tripID" "trip_metadata_ok t c"
    by (auto simp: Load_def split: if_splits option.splits)
  then show thesis
    using assms that [OF t] find_trip_SomeD [OF t(1)] by (auto simp: Load_def bindr_eq_Inr)
qed

lemma states_of_loaded:
  assumes "load_canonical_activities tripID d = Inr acts" "load_windows tripID acts d = Inr acts'"
  shows "states_of acts' = map (\<lambda>a. (a_id a, a_activity_state a)) (trip_rows tripID d)" "length acts' = length (trip_rows tripID d)"
proof -
  show s: "states_of acts' = map (\<lambda>a. (a_id a, a_activity_state a)) (trip_rows tripID d)"
    using load_windows_keeps(3) [OF assms(2)] load_canonical_activities_InrD [OF assms(1)] by (simp add: states_of_rows)
  show "length acts' = length (trip_rows tripID d)" using arg_cong [OF s, of length] by (simp add: states_of_def)
qed

text \<open>Drafts that pass the validation encode to a plan that the readers accept.\<close>

definition drafts_fit :: "CanonicalPlanSegmentDraft list \<Rightarrow> bool" where
  "drafts_fit ds \<longleftrightarrow> (\<forall>g\<in>set ds. pred_option fits_i64 (dr_Start g) \<and> pred_option fits_i64 (dr_End g))"

lemma validated_drafts_ok:
  assumes "validateReplacementPlan ds states = Inr ()" "drafts_fit ds"
  shows "\<forall>g\<in>set ds. draft_ok g" "segments_ordered (map segment_of_draft ds)" "length ds = length states"
    "distinct (map dr_ActivityID ds)" "\<forall>a\<in>set (map dr_ActivityID ds). map_of states a \<noteq> None"
    "\<forall>a\<in>set (dropWhile (\<lambda>a. terminal_state (state_in states a)) (map dr_ActivityID ds)). \<not> terminal_state (state_in states a)"
proof -
  from assms(1) obtain st' where l: "for_each (plan_segment_step ''replacement'' [] states) (enumerate 0 ds) ([], True, False, None) = Inr st'"
    and len: "length ds = length states"
    by (auto simp: validateReplacementPlan_def plan_segments_loop_def bindr_eq_Inr split: if_splits)
  note D = plan_loop_InrD [OF l]
  show "length ds = length states" by (rule len)
  show dis: "distinct (map dr_ActivityID ds)" using D by blast
  show "\<forall>a\<in>set (map dr_ActivityID ds). map_of states a \<noteq> None" using D by auto
  show "\<forall>g\<in>set ds. draft_ok g"
  proof
    fix g assume g: "g \<in> set ds"
    then have "validCanonicalUUID (dr_ActivityID g)" "draft_times g" using D by blast+
    then show "draft_ok g" using assms(2) g
      by (auto simp: draft_ok_def drafts_fit_def draft_times_def split: option.splits)
  qed
  have so: "sorted_wrt (\<lambda>s t. the (dr_End s) \<le> the (dr_Start t)) (filter dr_Scheduled ds)" using D by (elim conjE)
  have "filter (\<lambda>s. seg_state s = 1) (map segment_of_draft ds) = map segment_of_draft (filter dr_Scheduled ds)"
    by (induction ds) (auto simp: segment_of_draft_def)
  moreover have "sorted_wrt (\<lambda>s t. the (seg_end s) \<le> the (seg_start t)) (map segment_of_draft (filter dr_Scheduled ds))"
    using so by (auto simp: sorted_wrt_map segment_of_draft_def elim!: sorted_wrt_mono_rel [rotated])
  moreover have "map seg_activityID (map segment_of_draft ds) = map dr_ActivityID ds" by (simp add: segment_of_draft_def)
  ultimately show "segments_ordered (map segment_of_draft ds)" using dis by (simp only: segments_ordered_def simp_thms)
  let ?Q = "\<lambda>s. terminal_state (draft_state states s)"
  have H: "\<forall>s\<in>set (if True then dropWhile ?Q ds else ds). \<not> ?Q s" using D by (elim conjE)
  have eq: "(\<lambda>a. terminal_state (state_in states a)) \<circ> dr_ActivityID = ?Q" by (simp add: fun_eq_iff state_in_def draft_state_def)
  show "\<forall>a\<in>set (dropWhile (\<lambda>a. terminal_state (state_in states a)) (map dr_ActivityID ds)). \<not> terminal_state (state_in states a)"
    unfolding dropWhile_map eq
  proof
    fix a assume "a \<in> set (map dr_ActivityID (dropWhile ?Q ds))"
    then obtain g where g: "g \<in> set (dropWhile ?Q ds)" "a = dr_ActivityID g" by auto
    then have "\<not> ?Q g" using bspec [OF H, of g] by simp
    then show "\<not> terminal_state (state_in states a)" by (simp add: g state_in_def draft_state_def)
  qed
qed

lemma int64_le: "int64 m \<le> int MaxInt64"
proof -
  have "int m mod 18446744073709551616 < 18446744073709551616" by simp
  then show ?thesis unfolding int64_def MaxInt64_def Let_def by (simp split: if_split) linarith
qed

lemma state_in_rev: "distinct (map fst xs) \<Longrightarrow> state_in (rev xs) = state_in xs"
  by (simp add: fun_eq_iff state_in_def map_of_rev_distinct)

text \<open>The segment loop on a plan that covers the activities of a trip.\<close>

lemma load_segments_eq:
  assumes "distinct (map ca_ID acts)" "length ids = length acts" "states = states_of acts" "distinct ids"
    "\<forall>a\<in>set ids. map_of states a \<noteq> None"
    "\<forall>a\<in>set (dropWhile (\<lambda>a. terminal_state (state_in states a)) ids). \<not> terminal_state (state_in states a)"
  shows "load_segments acts ids = (if started_in_place (map (state_in states) ids)
    then Inr (length (takeWhile (\<lambda>a. terminal_state (state_in states a)) ids), current_in states ids)
    else Inl ErrCanonicalStateCorrupt)"
proof -
  have d: "distinct (map fst states)" using assms(1,3) by (simp add: states_of_def o_def)
  note eqs = state_in_rev [OF d] map_of_rev_distinct [OF d]
  have "current_in (rev states) ids = current_in states ids" unfolding current_in_def eqs ..
  then show ?thesis
    using load_segments_open [of ids "[]" "rev states" acts 0, unfolded eqs, OF assms(4) _ _ assms(5,6)] assms(2,3)
    by (simp add: load_segments_def)
qed

text \<open>The plan row of a user edit passes every check of the loader.\<close>

lemma load_user_plan:
  assumes "userCurrentPlanPayload pid rv (UnixMilli (trunc_millis now)) ds = Some payload" "validCanonicalUUID pid"
    "0 < rv" "rv \<le> MaxInt64" "fits_i64 (UnixMilli (trunc_millis now))" "\<forall>g\<in>set ds. draft_ok g" "segments_ordered (map segment_of_draft ds)"
    "plan_check (user_plan_row e pid tripID rv owner payload (trunc_millis now))"
    "query_row (\<lambda>p. p_trip_id p = tripID \<and> p_id p = pid) (itinerary_plans d) =
       Some (user_plan_row e pid tripID rv owner payload (trunc_millis now))"
  shows "\<exists>m. load_current_plan e tripID owner pid d =
      Inr (current_plan_of (user_plan_row e pid tripID rv owner payload (trunc_millis now)), m) \<and>
    map seg_activityID (sm_segments m) = map dr_ActivityID ds"
proof -
  let ?m = "\<lparr>sm_planID = pid, sm_revision = rv, sm_origin = 1, sm_sourceProposalID = [],
       sm_createdAtUnixMS = UnixMilli (trunc_millis now), sm_segments = map segment_of_draft ds\<rparr>"
  have "rv < 2 ^ 64" using assms(4) by (simp add: MaxInt64_def)
  then have "parseSnapshotCurrentPlan payload = Inr ?m"
    using userCurrentPlanPayload_parse [OF assms(2,3) _ assms(5-7)] assms(1) by (metis option.inject)
  moreover have "uint64 (int64 rv) = rv" using assms(4) by (simp add: uint64_int64 MaxInt64_def)
  moreover have "0 < int64 rv" using assms(3,4) by (simp add: int64_small)
  moreover have "trunc_millis now mod 1000 = 0" by (simp add: trunc_millis_def)
  moreover have "length (sha256 e payload) = 32" using assms(8) by (simp add: plan_check_def user_plan_row_def)
  ultimately have "load_current_plan e tripID owner pid d =
      Inr (current_plan_of (user_plan_row e pid tripID rv owner payload (trunc_millis now)), ?m)"
    using assms(9) by (simp add: load_current_plan_def user_plan_row_def optionalStringEqual_def)
  then show ?thesis by (auto simp: segment_of_draft_def)
qed

lemma Load_after_replacement:
  assumes "ReplaceCurrentPlan e clk rq d = (Inr r, d')" "\<not> rc_Duplicate r" "schema_ok d" "Load e (ce_TripID rq) d = Inr s"
    "drafts_fit (ce_PlanSegments rq)" "fits_i64 (UnixMilli (trunc_millis (clk 0)))"
  defines "states \<equiv> states_of (cs_Activities s)" and "ids \<equiv> map dr_ActivityID (ce_PlanSegments rq)"
  obtains p where "p_id p = ce_PlanID rq" "itinerary_plans d' = itinerary_plans d @ [p]" "p_plan_revision p = int (cs_TripRevision s) + 1"
    "Load e (ce_TripID rq) d' = (if started_in_place (map (state_in states) ids)
       then Inr (s\<lparr>cs_TripRevision := cs_TripRevision s + 1, cs_FinalizedMutationSequence := rc_MutationSequence r,
         cs_CurrentPlanID := ce_PlanID rq, cs_CompletedPrefixCount := length (takeWhile (\<lambda>a. terminal_state (state_in states a)) ids),
         cs_CurrentActivityID := current_in states ids, cs_CurrentPlan := current_plan_of p\<rparr>)
       else Inl ErrCanonicalStateCorrupt)"
proof -
  let ?tid = "ce_TripID rq"
  from assms(4) obtain t c acts where t: "find_trip ?tid d = Some t" and c: "t_current_plan_id t = Some c" and v: "validCanonicalUUID ?tid"
    and meta: "trip_metadata_ok t c" and acts: "load_canonical_activities ?tid d = Inr acts"
    and wins: "load_windows ?tid acts d = Inr (cs_Activities s)" and dels: "load_delays ?tid acts d = Inr (cs_TravelDelays s)"
    and s: "cs_TripID s = ?tid" "cs_OwnerUserID s = t_owner_user_id t" "cs_DefaultTimeZoneName s = t_default_time_zone_name t"
      "cs_TripRevision s = uint64 (t_trip_revision t)"
    by (rule Load_InrD)
  from assms(1,3,2) t obtain d1 payload event i b where
    pl: "edit_payloads e clk rq t = Inr (payload, event)"
    and owner: "t_owner_user_id t = ce_OwnerUserID rq"
    and t': "find_trip ?tid d' = Some (publish_edit_row (ce_PlanID rq) (uint64 (t_trip_revision t + 1))
       (uint64 (t_next_mutation_sequence t)) (clk 2) t)"
    and n: "int64 (uint64 (t_trip_revision t + 1)) = t_trip_revision t + 1"
      "int64 (uint64 (t_next_mutation_sequence t)) = t_next_mutation_sequence t"
      "0 \<le> t_trip_revision t" "0 < t_next_mutation_sequence t"
    and pid: "validCanonicalUUID (ce_PlanID rq)"
    and fr: "fresh_in p_id (user_plan_row e (ce_PlanID rq) ?tid (uint64 (t_trip_revision t + 1)) (ce_OwnerUserID rq) payload
       (trunc_millis (clk 0))) (itinerary_plans d)"
    and ed: "ReplaceCurrentPlan_edit e clk rq t (the (t_current_plan_id t)) d = Inr (r, d')"
    by (rule replace_plan.run_advances)
  let ?rv = "uint64 (t_trip_revision t + 1)"
  let ?p = "user_plan_row e (ce_PlanID rq) ?tid ?rv (ce_OwnerUserID rq) payload (trunc_millis (clk 0))"
  from ed obtain ids' states' payloads where l: "load_activities ?tid d = Inr (ids', states')"
    and val: "validateReplacementPlan (ce_PlanSegments rq) states' = Inr ()" and pls: "edit_payloads e clk rq t = Inr payloads"
    and pub: "publish_edit e clk ''replacement'' CommandReplaceCurrentPlan rq t payloads (supersede_pending ?tid (clk 1) d) = Inr (r, d')"
    by (rule ReplaceCurrentPlan_edit_cases)
  have fst: "fst payloads = payload" using pl pls by simp
  from pub obtain i' b' where d': "d' = published_db e clk rq t payload i' b' (supersede_pending ?tid (clk 1) d)"
    and seqr: "rc_MutationSequence r = uint64 (t_next_mutation_sequence t)" and chk: "plan_check ?p"
    by (rule publish_edit_db) (use fst in blast)
  have tabs: "trip_activities d' = trip_activities d" "activity_open_windows d' = activity_open_windows d"
    "trip_travel_delays d' = trip_travel_delays d" "itinerary_plans d' = itinerary_plans d @ [?p]"
    by (simp_all add: d' published_db_def supersede_pending_def update_proposals_def)
  have loads: "load_canonical_activities ?tid d' = Inr acts" "load_windows ?tid acts d' = Inr (cs_Activities s)"
    "load_delays ?tid acts d' = Inr (cs_TravelDelays s)"
    using acts wins dels unfolding load_canonical_activities_def load_windows_def load_delays_def tabs .
  have st: "states' = states"
    using load_activities_states [OF l assms(3)] states_of_loaded(1) [OF acts wins] by (simp add: states_def)
  note V = validated_drafts_ok [OF val assms(5), unfolded st, folded ids_def]
  have rv: "?rv = cs_TripRevision s + 1" "0 < ?rv" "?rv \<le> MaxInt64" "int64 ?rv = int (cs_TripRevision s) + 1"
    using n(1,3) int64_le [of ?rv] s(4) by (simp_all add: uint64_small)
  have u: "uint64 (int (uint64 (t_trip_revision t)) + 1) = Suc (uint64 (t_trip_revision t))"
    using rv(3,4) int64_le [of ?rv] s(4) by (simp add: uint64_small nat_add_distrib)
  have "userCurrentPlanPayload (ce_PlanID rq) ?rv (UnixMilli (trunc_millis (clk 0))) (ce_PlanSegments rq) = Some payload"
    using pl by (simp add: edit_payloads_def Let_def deref_def bindr_eq_Inr split: option.splits)
  moreover have "query_row (\<lambda>p. p_trip_id p = ?tid \<and> p_id p = ce_PlanID rq) (itinerary_plans d') = Some ?p"
  proof -
    have "query_row (\<lambda>p. p_trip_id p = ?tid \<and> p_id p = ce_PlanID rq) (itinerary_plans d) = None"
      using fr by (auto simp: query_row_None fresh_in_iff)
    then show ?thesis unfolding tabs by (simp add: query_row_snoc)
  qed
  ultimately obtain m where m: "load_current_plan e ?tid (ce_OwnerUserID rq) (ce_PlanID rq) d' = Inr (current_plan_of ?p, m)"
    "map seg_activityID (sm_segments m) = ids"
    using load_user_plan [OF _ pid rv(2,3) assms(6) V(1,2) chk, of d'] unfolding ids_def by blast
  have "load_segments (cs_Activities s) ids = (if started_in_place (map (state_in states) ids)
       then Inr (length (takeWhile (\<lambda>a. terminal_state (state_in states a)) ids), current_in states ids)
       else Inl ErrCanonicalStateCorrupt)"
  proof (rule load_segments_eq)
    show "distinct (map ca_ID (cs_Activities s))"
      using distinct_trip_order [OF assms(3), of ?tid] arg_cong [OF states_of_loaded(1) [OF acts wins], of "map fst"]
      by (simp add: trip_order_def states_of_def o_def)
    show "length ids = length (cs_Activities s)" using V(3) by (simp add: ids_def states_def states_of_def)
  qed (use V(4,5,6) states_def in \<open>simp_all only:\<close>)
  moreover have "trip_metadata_ok (publish_edit_row (ce_PlanID rq) ?rv (uint64 (t_next_mutation_sequence t)) (clk 2) t) (ce_PlanID rq)"
    using meta n pid by (simp add: trip_metadata_ok_def)
  ultimately have L: "Load e ?tid d' = (if started_in_place (map (state_in states) ids)
       then Inr (s\<lparr>cs_TripRevision := cs_TripRevision s + 1, cs_FinalizedMutationSequence := rc_MutationSequence r,
         cs_CurrentPlanID := ce_PlanID rq, cs_CompletedPrefixCount := length (takeWhile (\<lambda>a. terminal_state (state_in states a)) ids),
         cs_CurrentActivityID := current_in states ids, cs_CurrentPlan := current_plan_of ?p\<rparr>)
       else Inl ErrCanonicalStateCorrupt)"
    using v t' loads m owner rv s seqr find_trip_SomeD [OF t] u by (simp add: Load_def)
  show thesis by (rule that [OF _ tabs(4) _ L]) (use rv in simp_all)
qed

section \<open>What a loaded state satisfies\<close>

definition windows_normalized :: "CanonicalOpenWindow list \<Rightarrow> bool" where
  "windows_normalized ws \<longleftrightarrow> (\<forall>w\<in>set ws. cw_OpensAt w < cw_ClosesAt w) \<and>
     sorted_wrt (\<lambda>v w. cw_ClosesAt v \<le> cw_OpensAt w) ws"

lemma windows_normalized_Nil [simp]: "windows_normalized []"
  by (simp add: windows_normalized_def)

lemma windows_normalized_snoc:
  assumes "windows_normalized ws" "cw_OpensAt w < cw_ClosesAt w" "ws \<noteq> [] \<Longrightarrow> cw_ClosesAt (last ws) \<le> cw_OpensAt w"
  shows "windows_normalized (ws @ [w])"
proof -
  have "cw_ClosesAt v \<le> cw_OpensAt w" if "v \<in> set ws" for v
  proof (cases ws rule: rev_cases)
    case (snoc us u)
    have "cw_ClosesAt u \<le> cw_OpensAt w" using assms(3) snoc by simp
    moreover have "v = u \<or> cw_ClosesAt v \<le> cw_OpensAt u" "cw_OpensAt u < cw_ClosesAt u"
      using assms(1) that snoc by (auto simp: windows_normalized_def sorted_wrt_append)
    ultimately show ?thesis by auto
  qed (use that in simp)
  then show ?thesis using assms(1,2) by (auto simp: windows_normalized_def sorted_wrt_append)
qed

lemma load_window_step_normalized:
  assumes "load_window_step index w (acts, counts) = Inr (acts', counts')" "\<forall>a\<in>set acts. windows_normalized (ca_OpenWindows a)"
  shows "\<forall>a\<in>set acts'. windows_normalized (ca_OpenWindows a)"
proof -
  from assms(1) obtain k where k: "acts' = acts[k := (acts ! k)\<lparr>ca_OpenWindows := ca_OpenWindows (acts ! k) @
        [\<lparr>cw_OpensAt = w_opens_at w, cw_ClosesAt = w_closes_at w\<rparr>]\<rparr>]" "w_opens_at w < w_closes_at w"
    "ca_OpenWindows (acts ! k) \<noteq> [] \<Longrightarrow> cw_ClosesAt (last (ca_OpenWindows (acts ! k))) \<le> w_opens_at w"
    by (auto simp: load_window_step_def Let_def split: option.splits if_splits)
  show ?thesis
  proof (cases "k < length acts")
    case True
    then have "windows_normalized (ca_OpenWindows (acts ! k))" using assms(2) by simp
    then have "windows_normalized (ca_OpenWindows (acts ! k) @ [\<lparr>cw_OpensAt = w_opens_at w, cw_ClosesAt = w_closes_at w\<rparr>])"
      using k(2,3) by (intro windows_normalized_snoc) simp_all
    then show ?thesis using assms(2) set_update_subset_insert [of acts k] unfolding k(1) by fastforce
  qed (use k(1) assms(2) in \<open>simp add: list_update_beyond\<close>)
qed

lemma load_windows_normalized:
  assumes "load_windows tripID acts d = Inr acts'" "\<forall>a\<in>set acts. ca_OpenWindows a = []"
  shows "\<forall>a\<in>set acts'. windows_normalized (ca_OpenWindows a)"
proof -
  let ?P = "\<lambda>st :: CanonicalActivity list \<times> (uuid \<Rightarrow> nat). \<forall>a\<in>set (fst st). windows_normalized (ca_OpenWindows a)"
  from assms(1) obtain counts where l: "for_each (load_window_step (activityIndex acts))
         (sort_key w_activity_id (sort_key w_window_index
           (sql_select (\<lambda>w. w_trip_id w = tripID) (activity_open_windows d)))) (acts, \<lambda>_. 0) = Inr (acts', counts)"
    by (auto simp: load_windows_def bindr_eq_Inr)
  have "?P (acts', counts)"
  proof (rule for_each_invariant [where P = ?P, OF l])
    show "?P (acts, \<lambda>_. 0)" using assms(2) by simp
    show "?P st'" if "?P st" "load_window_step (activityIndex acts) w st = Inr st'" for w st st'
      using that load_window_step_normalized [of _ w "fst st" "snd st" "fst st'" "snd st'"] by simp
  qed
  then show ?thesis by simp
qed

lemma load_segment_step_InrD:
  assumes "load_segment_step acts (n, a) (seen, po, c, cur) = Inr st'"
  obtains po' c' cur' where "st' = (seen @ [a], po', c', cur')" "a \<notin> set seen" "map_of (rev (states_of acts)) a \<noteq> None"
    "po' \<longleftrightarrow> po \<and> terminal_state (state_in (rev (states_of acts)) a)" "terminal_state (state_in (rev (states_of acts)) a) \<longrightarrow> po"
proof -
  from assms obtain k where k: "activityIndex acts a = Some k" "a \<notin> set seen"
    by (auto simp: load_segment_step_def split: option.splits if_splits)
  then have m: "map_of (rev (states_of acts)) a = Some (ca_ActivityState (acts ! k))" using activityIndex_state [of acts a] by simp
  show thesis
    using assms [unfolded load_segment_step_eq [OF k(1) refl k(2)]] that k(2) m
    by (auto simp: state_in_def split: if_splits)
qed

lemma load_loop_InrD:
  assumes "for_each (load_segment_step acts) (enumerate n ids) (seen, po, c, cur) = Inr st'"
  shows "distinct ids" "set ids \<inter> set seen = {}" "\<forall>a\<in>set ids. map_of (rev (states_of acts)) a \<noteq> None"
    "\<forall>a\<in>set (if po then dropWhile (\<lambda>a. terminal_state (state_in (rev (states_of acts)) a)) ids else ids).
       \<not> terminal_state (state_in (rev (states_of acts)) a)"
proof -
  let ?T = "\<lambda>a. terminal_state (state_in (rev (states_of acts)) a)"
  have "distinct ids \<and> set ids \<inter> set seen = {} \<and> (\<forall>a\<in>set ids. map_of (rev (states_of acts)) a \<noteq> None) \<and>
    (\<forall>a\<in>set (if po then dropWhile ?T ids else ids). \<not> ?T a)"
    using assms
  proof (induction ids arbitrary: n seen po c cur)
    case (Cons a ids)
    then obtain st1 where s1: "load_segment_step acts (n, a) (seen, po, c, cur) = Inr st1"
      and rest: "for_each (load_segment_step acts) (enumerate (Suc n) ids) st1 = Inr st'" by (auto simp: bindr_eq_Inr)
    from s1 obtain po' c' cur' where st1: "st1 = (seen @ [a], po', c', cur')" and f: "a \<notin> set seen" "map_of (rev (states_of acts)) a \<noteq> None"
      and po: "po' \<longleftrightarrow> po \<and> ?T a" "?T a \<longrightarrow> po"
      by (rule load_segment_step_InrD)
    note IH = Cons.IH [OF rest [unfolded st1]]
    have last: "\<forall>a\<in>set (if po' then dropWhile ?T ids else ids). \<not> ?T a" using IH by (elim conjE)
    have "\<forall>b\<in>set (if po then dropWhile ?T (a # ids) else a # ids). \<not> ?T b"
    proof (cases "?T a")
      case True
      then have "dropWhile ?T (a # ids) = dropWhile ?T ids" by simp
      then show ?thesis using last po True by (simp only: if_True simp_thms)
    next
      case False
      then have d: "dropWhile ?T (a # ids) = a # ids" by simp
      have "\<forall>b\<in>set (a # ids). \<not> ?T b" using last False po by (simp only: simp_thms if_False) simp
      then show ?thesis unfolding d by (simp only: if_cancel)
    qed
    moreover have "distinct (a # ids)" "set (a # ids) \<inter> set seen = {}" using IH f by auto
    moreover have "\<forall>a\<in>set (a # ids). map_of (rev (states_of acts)) a \<noteq> None" using IH f(2) by simp
    ultimately show ?case by blast
  qed simp
  then show "distinct ids" "set ids \<inter> set seen = {}" "\<forall>a\<in>set ids. map_of (rev (states_of acts)) a \<noteq> None"
    "\<forall>a\<in>set (if po then dropWhile ?T ids else ids). \<not> ?T a"
    by blast+
qed

lemma load_delays_known:
  assumes "load_delays tripID acts d = Inr delays"
  shows "\<forall>y\<in>set delays. activityIndex acts (cd_FromActivityID y) \<noteq> None \<and> activityIndex acts (cd_ToActivityID y) \<noteq> None"
proof (rule for_each_invariant [where P = "\<lambda>ys. \<forall>y\<in>set ys. activityIndex acts (cd_FromActivityID y) \<noteq> None \<and>
    activityIndex acts (cd_ToActivityID y) \<noteq> None", OF assms [unfolded load_delays_def]])
  fix y ys zs
  assume "\<forall>y\<in>set ys. activityIndex acts (cd_FromActivityID y) \<noteq> None \<and> activityIndex acts (cd_ToActivityID y) \<noteq> None"
    "load_delay_step (activityIndex acts) y ys = Inr zs"
  then show "\<forall>y\<in>set zs. activityIndex acts (cd_FromActivityID y) \<noteq> None \<and> activityIndex acts (cd_ToActivityID y) \<noteq> None"
    by (auto simp: load_delay_step_def split: if_splits)
qed simp

lemma activityIndex_known: "activityIndex acts a \<noteq> None \<longleftrightarrow> a \<in> ca_ID ` set acts"
proof -
  have "activityIndex acts a \<noteq> None \<longleftrightarrow> a \<in> dom (map_of (rev (zip (map ca_ID acts) [0..<length acts])))"
    by (simp add: activityIndex_def domIff)
  also have "\<dots> \<longleftrightarrow> a \<in> set (map fst (zip (map ca_ID acts) [0..<length acts]))"
    unfolding dom_map_of_conv_image_fst set_rev set_map ..
  also have "map fst (zip (map ca_ID acts) [0..<length acts]) = map ca_ID acts" by simp
  also have "a \<in> set (map ca_ID acts) \<longleftrightarrow> a \<in> ca_ID ` set acts" by simp
  finally show ?thesis .
qed

lemma load_activity_loop_ordinals:
  assumes "for_each load_activity_step rows acts = Inr acts'"
  shows "map a_ordinal rows = map int [length acts..<length acts']"
  using assms
proof (induction rows arbitrary: acts)
  case (Cons a rows)
  then obtain acts1 where s: "load_activity_step a acts = Inr acts1" and rest: "for_each load_activity_step rows acts1 = Inr acts'"
    by (auto simp: bindr_eq_Inr)
  have "acts1 = acts @ [activity_of_row a]" "a_ordinal a = int (length acts)"
    using s by (simp_all add: load_activity_step_def split: if_splits)
  moreover have "length acts < length acts'" using load_activities_rows [OF Cons.prems] by simp
  ultimately show ?case using Cons.IH [OF rest] by (simp add: upt_conv_Cons del: upt_Suc)
qed simp

lemma terminal_prefix:
  fixes st :: "uuid \<Rightarrow> ActivityState"
  defines "T \<equiv> \<lambda>a. terminal_state (st a)"
  assumes "\<forall>a\<in>set (dropWhile T ids). \<not> T a" "i < length ids"
  shows "T (ids ! i) \<longleftrightarrow> i < length (takeWhile T ids)"
proof
  assume "i < length (takeWhile T ids)"
  then show "T (ids ! i)" by (metis nth_mem set_takeWhileD takeWhile_nth)
next
  assume t: "T (ids ! i)"
  show "i < length (takeWhile T ids)"
  proof (rule ccontr)
    assume "\<not> i < length (takeWhile T ids)"
    then have "ids ! i = dropWhile T ids ! (i - length (takeWhile T ids))" "i - length (takeWhile T ids) < length (dropWhile T ids)"
      using assms(3) by (simp_all add: dropWhile_eq_drop)
    then show False using assms(2) t by (metis nth_mem)
  qed
qed

lemma started_position:
  assumes "\<forall>a\<in>set (dropWhile (\<lambda>a. terminal_state (state_in states a)) ids). \<not> terminal_state (state_in states a)"
    "started_in_place (map (state_in states) ids)" "i < length ids" "distinct ids"
  shows "state_in states (ids ! i) = ActivityStateStarted \<longleftrightarrow> current_in states ids = Some (ids ! i)"
    "state_in states (ids ! i) = ActivityStateStarted \<Longrightarrow> i = length (takeWhile (\<lambda>a. terminal_state (state_in states a)) ids)"
proof -
  let ?T = "\<lambda>a. terminal_state (state_in states a)" and ?p = "length (takeWhile (\<lambda>a. terminal_state (state_in states a)) ids)"
  have d: "dropWhile ?T ids = drop ?p ids" by (simp add: dropWhile_eq_drop)
  have "tl (dropWhile terminal_state (map (state_in states) ids)) = map (state_in states) (drop (Suc ?p) ids)"
    by (simp add: dropWhile_map o_def d drop_Suc tl_drop flip: map_tl)
  then have ns: "ActivityStateStarted \<notin> state_in states ` set (drop (Suc ?p) ids)"
    using assms(2) by (simp add: started_in_place_def)
  have at: "i = ?p" if "state_in states (ids ! i) = ActivityStateStarted"
  proof -
    have "\<not> ?T (ids ! i)" using that by (simp add: terminal_state_def)
    then have "?p \<le> i" using terminal_prefix [OF assms(1,3)] by simp
    moreover have "\<not> ?p < i"
    proof
      assume "?p < i"
      then have "ids ! i \<in> set (drop (Suc ?p) ids)" using assms(3) by (auto simp: in_set_conv_nth intro!: exI [of _ "i - Suc ?p"])
      then show False using ns that by (metis image_eqI)
    qed
    ultimately show ?thesis by simp
  qed
  show "state_in states (ids ! i) = ActivityStateStarted \<Longrightarrow> i = ?p" by (rule at)
  have cur: "current_in states ids = (if ?p < length ids \<and> state_in states (ids ! ?p) = ActivityStateStarted then Some (ids ! ?p) else None)"
    unfolding current_in_def d by (cases "?p < length ids") (simp_all add: Cons_nth_drop_Suc [symmetric])
  show "state_in states (ids ! i) = ActivityStateStarted \<longleftrightarrow> current_in states ids = Some (ids ! i)"
    unfolding cur using at assms(3,4) by (auto simp: nth_eq_iff_index_eq split: if_splits)
qed

lemma loaded_ordinals:
  assumes "load_canonical_activities tid d = Inr acts0" "load_windows tid acts0 d = Inr acts"
  shows "map ca_Ordinal acts = [0..<length acts]"
proof -
  let ?P = "\<lambda>st :: CanonicalActivity list \<times> (uuid \<Rightarrow> nat). map ca_Ordinal (fst st) = map ca_Ordinal acts0"
  from assms(2) obtain counts where l: "for_each (load_window_step (activityIndex acts0))
         (sort_key w_activity_id (sort_key w_window_index
           (sql_select (\<lambda>w. w_trip_id w = tid) (activity_open_windows d)))) (acts0, \<lambda>_. 0) = Inr (acts, counts)"
    by (auto simp: load_windows_def bindr_eq_Inr)
  have "?P (acts, counts)"
    by (rule for_each_invariant [where P = ?P, OF l])
      (auto simp: load_window_step_def Let_def map_list_update_same split: option.splits if_splits)
  then have o: "map ca_Ordinal acts = map ca_Ordinal acts0" by simp
  then have len: "length acts = length acts0" using map_eq_imp_length_eq by blast
  from assms(1) have loop: "for_each load_activity_step (trip_rows tid d) [] = Inr acts0"
    by (auto simp: load_canonical_activities_def trip_rows_def bindr_eq_Inr split: if_splits)
  have "map ca_Ordinal acts0 = map nat (map a_ordinal (trip_rows tid d))"
    using load_activities_rows [OF loop] by (simp add: activity_of_row_def)
  also have "\<dots> = [0..<length acts0]" unfolding load_activity_loop_ordinals [OF loop] by (simp add: o_def)
  finally show ?thesis using o len by simp
qed

section \<open>Properties\<close>

text \<open>
  C31. A state that \<open>Load\<close> returns is well formed: at most 64 activities with distinct identifiers, numbered by their
  position, whose opening windows are sorted and disjoint; delays between known activities; a plan whose payload
  parses and lists every activity exactly once; the completed prefix counts the terminal activities, all of which
  stand at the head of the plan; and the current activity is the one that is started, directly behind the prefix.
\<close>

theorem loaded_state_well_formed:
  assumes "Load e tid d = Inr s" "schema_ok d"
  defines "acts \<equiv> cs_Activities s"
  shows "length acts \<le> 64 \<and> distinct (map ca_ID acts) \<and> map ca_Ordinal acts = [0..<length acts] \<and>
    (\<forall>a\<in>set acts. windows_normalized (ca_OpenWindows a)) \<and>
    (\<forall>y\<in>set (cs_TravelDelays s). {cd_FromActivityID y, cd_ToActivityID y} \<subseteq> set (map ca_ID acts)) \<and>
    (\<exists>m. parseSnapshotCurrentPlan (cp_Payload (cs_CurrentPlan s)) = Inr m \<and>
       mset (map seg_activityID (sm_segments m)) = mset (map ca_ID acts) \<and>
       (\<forall>i<length acts. let st = state_in (states_of acts) (seg_activityID (sm_segments m ! i)) in
          (terminal_state st \<longleftrightarrow> i < cs_CompletedPrefixCount s) \<and>
          (st = ActivityStateStarted \<longleftrightarrow> cs_CurrentActivityID s = Some (seg_activityID (sm_segments m ! i))) \<and>
          (st = ActivityStateStarted \<longrightarrow> i = cs_CompletedPrefixCount s)))"
proof -
  from assms(1) obtain t c acts0 plan m where "find_trip tid d = Some t" and a0: "load_canonical_activities tid d = Inr acts0"
    and w: "load_windows tid acts0 d = Inr acts" and y: "load_delays tid acts0 d = Inr (cs_TravelDelays s)"
    and p: "load_current_plan e tid (t_owner_user_id t) c d = Inr (plan, m)"
    and sg: "load_segments acts (map seg_activityID (sm_segments m)) = Inr (cs_CompletedPrefixCount s, cs_CurrentActivityID s)"
    and plan: "cs_CurrentPlan s = plan"
    unfolding acts_def by (rule Load_InrD) blast
  let ?ids = "map seg_activityID (sm_segments m)" and ?st = "states_of acts"
  note A0 = load_canonical_activities_InrD [OF a0] and ids = load_windows_keeps(1) [OF w]
  have len: "length acts = length acts0" using arg_cong [OF ids, of length] by simp
  have dis: "distinct (map ca_ID acts)"
    using distinct_trip_order [OF assms(2), of tid] A0 by (simp add: ids trip_order_def activity_of_row_def o_def)
  have ord: "map ca_Ordinal acts = [0..<length acts]"
    using loaded_ordinals [OF a0 w] .
  have win: "\<forall>a\<in>set acts. windows_normalized (ca_OpenWindows a)"
    by (rule load_windows_normalized [OF w]) (simp add: A0 activity_of_row_def)
  have del: "\<forall>y\<in>set (cs_TravelDelays s). {cd_FromActivityID y, cd_ToActivityID y} \<subseteq> set (map ca_ID acts)"
    using load_delays_known [OF y] unfolding ids activityIndex_known by auto
  have pm: "parseSnapshotCurrentPlan (cp_Payload plan) = Inr m"
    using p by (auto simp: load_current_plan_def current_plan_of_def split: option.splits if_splits sum.splits)
  from sg obtain st' where l: "for_each (load_segment_step acts) (enumerate 0 ?ids) ([], True, 0, None) = Inr st'"
    and n: "length ?ids = length acts"
    by (auto simp: load_segments_def bindr_eq_Inr split: if_splits)
  have rv: "state_in (rev ?st) = state_in ?st" "map_of (rev ?st) = map_of ?st"
    using dis by (simp_all add: state_in_rev map_of_rev_distinct states_of_def o_def)
  note D = load_loop_InrD [OF l, unfolded if_True rv]
  have E: "started_in_place (map (state_in ?st) ?ids)"
      "cs_CompletedPrefixCount s = length (takeWhile (\<lambda>a. terminal_state (state_in ?st a)) ?ids)" "cs_CurrentActivityID s = current_in ?st ?ids"
    using sg [unfolded load_segments_eq [OF dis n refl D(1,3,4)]] by (auto split: if_splits)
  have "set ?ids \<subseteq> set (map ca_ID acts)"
  proof
    fix a assume "a \<in> set ?ids"
    then have "map_of ?st a \<noteq> None" using D(3) by blast
    then show "a \<in> set (map ca_ID acts)" by (auto simp: states_of_def dest!: map_of_SomeD)
  qed
  then have "set ?ids = set (map ca_ID acts)"
    using n D(1) dis by (intro card_subset_eq) (simp_all only: distinct_card finite_set length_map)
  then have ms: "mset ?ids = mset (map ca_ID acts)" using D(1) dis by (simp only: set_eq_iff_mset_eq_distinct)
  have "let st = state_in ?st (seg_activityID (sm_segments m ! i)) in
      (terminal_state st \<longleftrightarrow> i < cs_CompletedPrefixCount s) \<and>
      (st = ActivityStateStarted \<longleftrightarrow> cs_CurrentActivityID s = Some (seg_activityID (sm_segments m ! i))) \<and>
      (st = ActivityStateStarted \<longrightarrow> i = cs_CompletedPrefixCount s)" if "i < length acts" for i
  proof -
    have i: "i < length ?ids" "seg_activityID (sm_segments m ! i) = ?ids ! i" using that n by simp_all
    show ?thesis
      unfolding i(2) Let_def E(2,3)
      using terminal_prefix [OF D(4) i(1)] started_position [OF D(4) E(1) i(1) D(1)] by blast
  qed
  then show ?thesis using A0 len dis ord win del pm ms plan by auto
qed

text \<open>A trip with one started and one planned activity, whose plan lists the started one first.\<close>

definition started_activity :: activity_row where
  "started_activity = second_activity\<lparr>a_activity_state := ActivityStateStarted\<rparr>"

definition loading_plan :: plan_row where
  "loading_plan = user_plan_row sample_ext (sample_uuid CHR ''2'') (sample_uuid CHR ''1'') 1 (sample_uuid CHR ''a'')
     (the (userCurrentPlanPayload (sample_uuid CHR ''2'') 1 0 [sample_segment CHR ''7'', sample_segment CHR ''8''])) (trunc_millis 5)"

definition loading_db :: db where
  "loading_db = sample_db\<lparr>trip_activities := [sample_activity, started_activity], itinerary_plans := [loading_plan]\<rparr>"

definition sample_swap :: ReplaceCurrentPlanRequest where
  "sample_swap = (ReplaceCurrentPlanRequest.truncate sample_reorder)\<lparr>
     ce_PlanSegments := [sample_segment CHR ''8'', sample_segment CHR ''7'']\<rparr>"

lemma loading_db_tables [simp]:
  "trips loading_db = [sample_trip]" "plan_proposals loading_db = []" "command_intents loading_db = []"
  "planner_outbox loading_db = []" "itinerary_plans loading_db = [loading_plan]" "users loading_db = [sample_uuid CHR ''a'']"
  "trip_activities loading_db = [sample_activity, started_activity]" "activity_open_windows loading_db = []"
  "trip_travel_delays loading_db = []"
  by (simp_all add: loading_db_def sample_db_def empty_db_def)

lemma sample_payload_length:
  "\<exists>p. userCurrentPlanPayload (sample_uuid c) 1 0 [sample_segment x, sample_segment y] = Some p \<and> length p < 1000"
  "\<exists>p. userCurrentPlanPayload (sample_uuid c) 2 0 [sample_segment x, sample_segment y] = Some p \<and> length p < 1000"
  by (simp_all add: userCurrentPlanPayload_def sample_segment_def encodeSegmentDraft_def appendBytesField_def
      appendVarintField_def appendVarint.simps)

lemma loading_plan_check: "plan_check loading_plan"
proof -
  obtain p where "userCurrentPlanPayload (sample_uuid CHR ''2'') 1 0 [sample_segment CHR ''7'', sample_segment CHR ''8''] = Some p" "length p < 1000"
    using sample_payload_length(1) by blast
  then show ?thesis
    by (simp add: loading_plan_def plan_check_def user_plan_row_def int64_def i64_ok_def i32_ok_def MaxInt32_def MaxInt64_def)
qed

lemma schema_loading: "schema_ok loading_db"
  using schema_sample loading_plan_check
  by (simp add: schema_ok_def loading_db_def activities_ok_def plans_ok_def started_activity_def second_activity_def
      i32_ok_def MaxInt32_def sample_db_def empty_db_def sample_activity_def activity_check_def)

lemma loading_plan_loads:
  "\<exists>m. load_current_plan sample_ext (sample_uuid CHR ''1'') (sample_uuid CHR ''a'') (sample_uuid CHR ''2'') loading_db =
      Inr (current_plan_of loading_plan, m) \<and> map seg_activityID (sm_segments m) = [sample_uuid CHR ''7'', sample_uuid CHR ''8'']"
proof -
  obtain p where p: "userCurrentPlanPayload (sample_uuid CHR ''2'') 1 0 [sample_segment CHR ''7'', sample_segment CHR ''8''] = Some p"
    using sample_payload_length(1) by blast
  have eq: "loading_plan = user_plan_row sample_ext (sample_uuid CHR ''2'') (sample_uuid CHR ''1'') 1 (sample_uuid CHR ''a'') p (trunc_millis 5)"
    unfolding loading_plan_def p by simp
  have "\<exists>m. load_current_plan sample_ext (sample_uuid CHR ''1'') (sample_uuid CHR ''a'') (sample_uuid CHR ''2'') loading_db =
      Inr (current_plan_of (user_plan_row sample_ext (sample_uuid CHR ''2'') (sample_uuid CHR ''1'') 1 (sample_uuid CHR ''a'') p (trunc_millis 5)), m) \<and>
    map seg_activityID (sm_segments m) = map dr_ActivityID [sample_segment CHR ''7'', sample_segment CHR ''8'']"
  proof (rule load_user_plan)
    show "userCurrentPlanPayload (sample_uuid CHR ''2'') 1 (UnixMilli (trunc_millis 5)) [sample_segment CHR ''7'', sample_segment CHR ''8''] = Some p"
      using p by (simp add: UnixMilli_def trunc_millis_def)
    show "\<forall>g\<in>set [sample_segment CHR ''7'', sample_segment CHR ''8'']. draft_ok g"
      by (simp add: draft_ok_def sample_segment_def)
    show "segments_ordered (map segment_of_draft [sample_segment CHR ''7'', sample_segment CHR ''8''])"
      by (simp add: segments_ordered_def segment_of_draft_def sample_segment_def)
    show "plan_check (user_plan_row sample_ext (sample_uuid CHR ''2'') (sample_uuid CHR ''1'') 1 (sample_uuid CHR ''a'') p (trunc_millis 5))"
      using loading_plan_check unfolding eq .
    show "query_row (\<lambda>p. p_trip_id p = sample_uuid CHR ''1'' \<and> p_id p = sample_uuid CHR ''2'') (itinerary_plans loading_db) =
        Some (user_plan_row sample_ext (sample_uuid CHR ''2'') (sample_uuid CHR ''1'') 1 (sample_uuid CHR ''a'') p (trunc_millis 5))"
      unfolding loading_db_tables eq by (simp add: query_row_def)
  qed (simp_all add: MaxInt64_def fits_i64_def UnixMilli_def trunc_millis_def)
  moreover have "map dr_ActivityID [sample_segment CHR ''7'', sample_segment CHR ''8''] = [sample_uuid CHR ''7'', sample_uuid CHR ''8'']"
    by (simp add: sample_segment_def)
  ultimately show ?thesis unfolding eq by (simp only:)
qed

lemma loading_db_loads: "\<exists>s. Load sample_ext (sample_uuid CHR ''1'') loading_db = Inr s \<and>
    states_of (cs_Activities s) = [(sample_uuid CHR ''8'', ActivityStatePlanned), (sample_uuid CHR ''7'', ActivityStateStarted)]"
proof -
  from loading_plan_loads obtain m where m: "load_current_plan sample_ext (sample_uuid CHR ''1'') (sample_uuid CHR ''a'') (sample_uuid CHR ''2'') loading_db =
      Inr (current_plan_of loading_plan, m)" "map seg_activityID (sm_segments m) = [sample_uuid CHR ''7'', sample_uuid CHR ''8'']"
    by (elim exE conjE)
  let ?acts = "[activity_of_row sample_activity, activity_of_row started_activity]"
  have a: "load_canonical_activities (sample_uuid CHR ''1'') loading_db = Inr ?acts"
    by (simp add: load_canonical_activities_def sql_select_def started_activity_def second_activity_def sample_activity_def
        load_activity_step_def ActivityState_valid_def coordinate_ok_def)
  have st: "states_of ?acts = [(sample_uuid CHR ''8'', ActivityStatePlanned), (sample_uuid CHR ''7'', ActivityStateStarted)]"
    by (simp add: states_of_def activity_of_row_def started_activity_def second_activity_def sample_activity_def)
  have "load_segments ?acts [sample_uuid CHR ''7'', sample_uuid CHR ''8''] = Inr (0, Some (sample_uuid CHR ''7''))"
    by (subst load_segments_eq [OF _ _ st [symmetric]])
      (simp_all add: activity_of_row_def started_activity_def second_activity_def sample_activity_def state_in_def terminal_state_def
        started_in_place_def current_in_def)
  moreover have "find_trip (sample_uuid CHR ''1'') loading_db = Some sample_trip"
    by (simp add: find_trip_def query_row_def sample_trip_def)
  ultimately show ?thesis using m a st
    by (simp add: Load_def trip_metadata_ok_def sample_trip_def load_windows_def load_delays_def sql_select_def)
qed

theorem loaded_state_well_formed_witness:
  "\<exists>s. Load sample_ext (sample_uuid CHR ''1'') loading_db = Inr s \<and> distinct (map ca_ID (cs_Activities s)) \<and> length (cs_Activities s) = 2"
proof -
  obtain s where s: "Load sample_ext (sample_uuid CHR ''1'') loading_db = Inr s"
    "states_of (cs_Activities s) = [(sample_uuid CHR ''8'', ActivityStatePlanned), (sample_uuid CHR ''7'', ActivityStateStarted)]"
    using loading_db_loads by blast
  then show ?thesis using loaded_state_well_formed [OF s(1) schema_loading] arg_cong [OF s(2), of length] by (auto simp: states_of_def)
qed

text \<open>
  C32. After a plan replacement that succeeded, the trip loads as before with the next revision, the new plan, and the prefix
  and current activity that the new order gives, if the started activity stands directly behind the completed prefix. If the request
  puts another activity before it, the replacement succeeds all the same, and from then on the trip cannot be loaded any more.
\<close>

theorem replacement_then_load:
  assumes "ReplaceCurrentPlan e clk rq d = (Inr r, d')" "\<not> rc_Duplicate r" "schema_ok d" "Load e (ce_TripID rq) d = Inr s"
    "drafts_fit (ce_PlanSegments rq)" "fits_i64 (UnixMilli (trunc_millis (clk 0)))"
  shows "let states = states_of (cs_Activities s); ids = map dr_ActivityID (ce_PlanSegments rq) in
    if started_in_place (map (state_in states) ids)
    then \<exists>p\<in>set (itinerary_plans d'). p_id p = ce_PlanID rq \<and>
      Load e (ce_TripID rq) d' = Inr (s\<lparr>cs_TripRevision := cs_TripRevision s + 1, cs_FinalizedMutationSequence := rc_MutationSequence r,
         cs_CurrentPlanID := ce_PlanID rq, cs_CompletedPrefixCount := length (takeWhile (\<lambda>a. terminal_state (state_in states a)) ids),
         cs_CurrentActivityID := current_in states ids, cs_CurrentPlan := current_plan_of p\<rparr>)
    else Load e (ce_TripID rq) d' = Inl ErrCanonicalStateCorrupt"
  by (rule Load_after_replacement [OF assms]) (simp add: Let_def)

lemma swap_fields:
  "ce_TripID sample_swap = sample_uuid CHR ''1''" "ce_PlanSegments sample_swap = [sample_segment CHR ''8'', sample_segment CHR ''7'']"
  "ce_PlanID sample_swap = sample_uuid CHR ''9''" "ce_EventPayload sample_swap = [123, 125]" "ce_EventPayloadBuilder sample_swap = None"
  by (simp_all add: sample_swap_def ReplaceCurrentPlanRequest.truncate_def sample_reorder_def)

lemma swap_valid: "validateReplaceCurrentPlanRequest sample_ext sample_swap = Inr ()"
  by (simp add: validateReplaceCurrentPlanRequest_def validate_edit_def sample_swap_def ReplaceCurrentPlanRequest.truncate_def
      sample_reorder_def validCanonicalEventPayload_def)

lemma swap_guard:
  "canonical_edit_guard sample_ext ''replacement'' CommandReplaceCurrentPlan sample_swap loading_db = Inr (Fresh sample_trip (sample_uuid CHR ''2''))"
  by (simp add: canonical_edit_guard_def find_trip_def query_row_def sample_swap_def ReplaceCurrentPlanRequest.truncate_def sample_reorder_def
      sample_trip_def recordedCommandSelect_def uint64_def MaxInt64_def sql_count_def)

lemma swap_load: "load_activities (sample_uuid CHR ''1'') loading_db = Inr ([sample_uuid CHR ''8'', sample_uuid CHR ''7''],
   [(sample_uuid CHR ''8'', ActivityStatePlanned), (sample_uuid CHR ''7'', ActivityStateStarted)])"
  by (simp add: load_activities_def sql_select_def started_activity_def second_activity_def sample_activity_def activity_state_step_def
    ActivityState_valid_def)

lemma swap_plan: "validateReplacementPlan [sample_segment CHR ''8'', sample_segment CHR ''7'']
   [(sample_uuid CHR ''8'', ActivityStatePlanned), (sample_uuid CHR ''7'', ActivityStateStarted)] = Inr ()"
  by (simp add: validateReplacementPlan_def plan_segments_loop_def plan_segment_step_def segment_times_def segment_order_def
      sample_segment_def terminal_state_def)

lemma swap_publishes:
  assumes "length payload < 1000"
  shows "\<exists>r d'. publish_edit sample_ext (\<lambda>_. 5) ''replacement'' CommandReplaceCurrentPlan sample_swap sample_trip (payload, event) loading_db =
    Inr (r, d') \<and> \<not> rc_Duplicate r"
  using assms
  by (simp add: publish_edit_def insert_plan_def plan_check_def user_plan_row_def sample_swap_def ReplaceCurrentPlanRequest.truncate_def
      sample_reorder_def trip_exists_def sql_simps loading_plan_def
      sample_trip_def fresh_in_def uint64_def int64_def i64_ok_def i32_ok_def MaxInt32_def MaxInt64_def
      update_trip_def publish_edit_row_def trip_check_def trips_execution_lifecycle_check_def trips_name_check_def add_u64_def
      insert_intent_def intent_check_def canonical_intent_row_def known_kind_def canonical_kind_def plan_exists_def
      insert_outbox_def outbox_check_def new_outbox_row_def canonical_result_def sql_update_def Let_def)

lemma swap_runs:
  "\<exists>r d'. ReplaceCurrentPlan sample_ext (\<lambda>_. 5) sample_swap loading_db = (Inr r, d') \<and> \<not> rc_Duplicate r"
proof -
  from sample_payload_length(2) [of "CHR ''9''" "CHR ''8''" "CHR ''7''"] obtain payload where
    p: "userCurrentPlanPayload (sample_uuid CHR ''9'') 2 0 [sample_segment CHR ''8'', sample_segment CHR ''7''] = Some payload"
    "length payload < 1000" by (elim exE conjE)
  from swap_publishes [OF p(2), of "[123, 125]"] obtain r d' where
    pub: "publish_edit sample_ext (\<lambda>_. 5) ''replacement'' CommandReplaceCurrentPlan sample_swap sample_trip (payload, [123, 125]) loading_db =
      Inr (r, d')" "\<not> rc_Duplicate r" by (elim exE conjE)
  have "edit_payloads sample_ext (\<lambda>_. 5) sample_swap sample_trip = Inr (payload, [123, 125])"
    using p(1) by (simp add: edit_payloads_def swap_fields deref_def buildCanonicalEventPayload_def sample_trip_def uint64_def
        trunc_millis_def UnixMilli_def)
  moreover have "lock_current_plan ''lock current replacement plan'' (sample_uuid CHR ''1'') (sample_uuid CHR ''2'') loading_db = Inr ()"
    by (simp add: lock_current_plan_def query_row_def loading_plan_def)
  ultimately have "ReplaceCurrentPlan_edit sample_ext (\<lambda>_. 5) sample_swap sample_trip (sample_uuid CHR ''2'') loading_db = Inr (r, d')"
    using pub(1) by (simp add: ReplaceCurrentPlan_edit_def swap_fields swap_load swap_plan supersede_none)
  then have "ReplaceCurrentPlan sample_ext (\<lambda>_. 5) sample_swap loading_db = (Inr r, d')"
    by (simp add: ReplaceCurrentPlan_def swap_valid canonical_edit_tx_def swap_guard run_tx_def)
  then show ?thesis using pub(2) by blast
qed

theorem replacement_then_load_witness:
  "\<exists>s r d'. Load sample_ext (sample_uuid CHR ''1'') loading_db = Inr s \<and>
     ReplaceCurrentPlan sample_ext (\<lambda>_. 5) sample_swap loading_db = (Inr r, d') \<and>
     Load sample_ext (sample_uuid CHR ''1'') d' = Inl ErrCanonicalStateCorrupt"
proof -
  from swap_runs obtain r d' where r: "ReplaceCurrentPlan sample_ext (\<lambda>_. 5) sample_swap loading_db = (Inr r, d')" "\<not> rc_Duplicate r"
    by (elim exE conjE)
  from loading_db_loads obtain s where s: "Load sample_ext (sample_uuid CHR ''1'') loading_db = Inr s"
    "states_of (cs_Activities s) = [(sample_uuid CHR ''8'', ActivityStatePlanned), (sample_uuid CHR ''7'', ActivityStateStarted)]"
    by (elim exE conjE)
  have "Load sample_ext (sample_uuid CHR ''1'') d' = Inl ErrCanonicalStateCorrupt"
    using replacement_then_load [OF r schema_loading, unfolded swap_fields, OF s(1)]
    by (simp add: s(2) drafts_fit_def sample_segment_def fits_i64_def UnixMilli_def trunc_millis_def started_in_place_def state_in_def
        terminal_state_def)
  then show ?thesis using r s by blast
qed

end
