(* ===== verification/LR_Web.thy ===== *)
theory LR_Web
  imports LR_Canonical
begin

text \<open>
  What the stores behind the HTTP interface share: the tables of \<open>migrations/00004\<close> beside the canonical
  ones, the identifiers of \<open>newAuthUUID\<close>, time zone names, the day of an instant in a time zone, and the
  reservation of an idempotency key (\<open>reserveTripMutation\<close> of \<open>persistence/saved_trip_mutations.go\<close>).

  The random bytes are the argument \<open>entropy\<close>: what the n-th \<open>rand.Read\<close> of an operation yields,
  \<open>None\<close> when it fails. The time zone database is an argument as well: a location is the function
  \<open>Location.lookup\<close> of Go, from Unix seconds to the offset in force and the bounds of its period.
\<close>

section \<open>Identifiers\<close>

type_synonym entropy = "nat \<Rightarrow> bytes option"

definition hex_of_byte :: "byte \<Rightarrow> string" where
  "hex_of_byte b = [''0123456789abcdef'' ! (unat b div 16), ''0123456789abcdef'' ! (unat b mod 16)]"

definition hex_of_bytes :: "bytes \<Rightarrow> string" where
  "hex_of_bytes bs = concat (map hex_of_byte bs)"

definition version4 :: "bytes \<Rightarrow> bytes" where
  "version4 raw = (let raw = raw[6 := or (and (raw ! 6) 0x0f) 0x40] in raw[8 := or (and (raw ! 8) 0x3f) 0x80])"

definition newAuthUUID :: "bytes option \<Rightarrow> uuid result" where
  "newAuthUUID rnd = (case rnd of
     None \<Rightarrow> Inl (ErrText ''generate auth id'')
   | Some bs \<Rightarrow> let raw = version4 bs in
       Inr (hex_of_bytes (take 4 raw) @ ''-'' @ hex_of_bytes (take 2 (drop 4 raw)) @ ''-'' @
         hex_of_bytes (take 2 (drop 6 raw)) @ ''-'' @ hex_of_bytes (take 2 (drop 8 raw)) @ ''-'' @
         hex_of_bytes (take 6 (drop 10 raw))))"

section \<open>Numbers and strings\<close>

fun decimal :: "nat \<Rightarrow> string" where
  "decimal n = (if n < 10 then [''0123456789'' ! n] else decimal (n div 10) @ [''0123456789'' ! (n mod 10)])"

declare decimal.simps [simp del]

text \<open>\<open>strconv.FormatInt(i, 10)\<close>.\<close>

definition FormatInt :: "int \<Rightarrow> string" where
  "FormatInt i = (if i < 0 then ''-'' @ decimal (nat (- i)) else decimal (nat i))"

text \<open>\<open>strings.TrimSpace\<close>: the white space of Unicode in its UTF-8 encodings.\<close>

definition bytes_string :: "nat list \<Rightarrow> string" where "bytes_string ns = map char_of ns"

definition unicode_spaces :: "string list" where
  "unicode_spaces = map bytes_string
     ([[9], [10], [11], [12], [13], [32], [0xC2, 0x85], [0xC2, 0xA0], [0xE1, 0x9A, 0x80]] @
      map (\<lambda>k. [0xE2, 0x80, k]) ([0x80..<0x8B] @ [0xA8, 0xA9, 0xAF]) @ [[0xE2, 0x81, 0x9F], [0xE3, 0x80, 0x80]])"

definition starts_with :: "string \<Rightarrow> string \<Rightarrow> bool" where
  "starts_with p s \<longleftrightarrow> take (length p) s = p"

function drop_any :: "string list \<Rightarrow> string \<Rightarrow> string" where
  "drop_any ps s = (case List.find (\<lambda>p. p \<noteq> [] \<and> starts_with p s) ps of
     None \<Rightarrow> s | Some p \<Rightarrow> drop_any ps (drop (length p) s))"
  by pat_completeness auto

termination
proof (relation "measure (\<lambda>(ps, s). length s)")
  fix ps s p
  assume "List.find (\<lambda>p. p \<noteq> [] \<and> starts_with p s) ps = Some p"
  then have "p \<noteq> []" "take (length p) s = p" by (auto simp: find_Some_iff starts_with_def)
  then have "0 < length p" "0 < length s" by (cases s; auto)+
  then show "((ps, drop (length p) s), ps, s) \<in> measure (\<lambda>(ps, s). length s)" by simp
qed simp

declare drop_any.simps [simp del]

definition TrimSpace :: "string \<Rightarrow> string" where
  "TrimSpace s = rev (drop_any (map rev unicode_spaces) (rev (drop_any unicode_spaces s)))"

section \<open>Dates and times of day\<close>

definition digit_value :: "char \<Rightarrow> nat option" where
  "digit_value c = (if CHR ''0'' \<le> c \<and> c \<le> CHR ''9'' then Some (of_char c - 48) else None)"

text \<open>\<open>getnum\<close> of Go's \<open>time\<close>: two digits, or one where the layout allows it.\<close>

fun getnum :: "bool \<Rightarrow> string \<Rightarrow> (nat \<times> string) option" where
  "getnum fixed [] = None"
| "getnum fixed [a] = (if fixed then None else map_option (\<lambda>x. (x, [])) (digit_value a))"
| "getnum fixed (a # b # s) = (case (digit_value a, digit_value b) of
     (None, _) \<Rightarrow> None
   | (Some x, None) \<Rightarrow> if fixed then None else Some (x, b # s)
   | (Some x, Some y) \<Rightarrow> Some (10 * x + y, s))"

definition expect :: "char \<Rightarrow> string \<Rightarrow> string option" where
  "expect c s = (case s of [] \<Rightarrow> None | x # xs \<Rightarrow> if x = c then Some xs else None)"

definition leap_year :: "nat \<Rightarrow> bool" where
  "leap_year y \<longleftrightarrow> y mod 4 = 0 \<and> (y mod 100 \<noteq> 0 \<or> y mod 400 = 0)"

definition days_in :: "nat \<Rightarrow> nat \<Rightarrow> nat" where
  "days_in y m = (if m = 2 then (if leap_year y then 29 else 28) else if m \<in> {4, 6, 9, 11} then 30 else 31)"

text \<open>\<open>time.Parse("2006-01-02", s)\<close> succeeds.\<close>

definition valid_date :: "string \<Rightarrow> bool" where
  "valid_date s = (case getnum True s of None \<Rightarrow> False | Some (y1, s) \<Rightarrow>
     case getnum True s of None \<Rightarrow> False | Some (y2, s) \<Rightarrow>
     case Option.bind (expect CHR ''-'' s) (getnum True) of None \<Rightarrow> False | Some (mo, s) \<Rightarrow>
     case Option.bind (expect CHR ''-'' s) (getnum True) of None \<Rightarrow> False | Some (da, s) \<Rightarrow>
       1 \<le> mo \<and> mo \<le> 12 \<and> 1 \<le> da \<and> da \<le> days_in (100 * y1 + y2) mo \<and> s = [])"

text \<open>The rest after the seconds may be a fraction, which the layout does not mention.\<close>

definition valid_fraction :: "string \<Rightarrow> bool" where
  "valid_fraction s = (case s of [] \<Rightarrow> True
   | c # ds \<Rightarrow> (c = CHR ''.'' \<or> c = CHR '','') \<and> ds \<noteq> [] \<and> list_all (\<lambda>d. digit_value d \<noteq> None) ds)"

text \<open>\<open>time.Parse("15:04:05", s)\<close> succeeds.\<close>

definition valid_time :: "string \<Rightarrow> bool" where
  "valid_time s = (case getnum False s of None \<Rightarrow> False | Some (h, s) \<Rightarrow>
     case Option.bind (expect CHR '':'' s) (getnum True) of None \<Rightarrow> False | Some (mi, s) \<Rightarrow>
     case Option.bind (expect CHR '':'' s) (getnum True) of None \<Rightarrow> False | Some (se, s) \<Rightarrow>
       h < 24 \<and> mi < 60 \<and> se < 60 \<and> valid_fraction s)"

section \<open>Time zones\<close>

type_synonym location = "int \<Rightarrow> int \<times> int \<times> int"

definition zone_char :: "char \<Rightarrow> bool" where
  "zone_char c \<longleftrightarrow> (CHR ''A'' \<le> c \<and> c \<le> CHR ''Z'') \<or> (CHR ''a'' \<le> c \<and> c \<le> CHR ''z'') \<or>
     c \<in> {CHR ''_'', CHR ''+'', CHR ''-''}"

definition zone_part_char :: "char \<Rightarrow> bool" where
  "zone_part_char c \<longleftrightarrow> zone_char c \<or> (CHR ''0'' \<le> c \<and> c \<le> CHR ''9'') \<or> c = CHR ''.''"

fun split_slash :: "string \<Rightarrow> string list" where
  "split_slash [] = [[]]"
| "split_slash (c # s) = (if c = CHR ''/'' then [] # split_slash s
     else case split_slash s of [] \<Rightarrow> [[c]] | p # ps \<Rightarrow> (c # p) # ps)"

text \<open>The regular expression \<open>^[A-Za-z_+-]+(?:/[A-Za-z0-9_+.-]+)+$\<close>.\<close>

definition ianaZonePattern :: "string \<Rightarrow> bool" where
  "ianaZonePattern s = (case split_slash s of [] \<Rightarrow> False
   | p # ps \<Rightarrow> p \<noteq> [] \<and> list_all zone_char p \<and> ps \<noteq> [] \<and> list_all (\<lambda>q. q \<noteq> [] \<and> list_all zone_part_char q) ps)"

definition validTimeZoneName :: "(string \<Rightarrow> location option) \<Rightarrow> string \<Rightarrow> bool" where
  "validTimeZoneName zones v \<longleftrightarrow>
     1 \<le> length v \<and> length v \<le> 64 \<and> ianaZonePattern v \<and> zones v \<noteq> None"

text \<open>\<open>time.Date\<close> of Go in a location, from the seconds of the civil time, and the civil time of an instant.\<close>

definition date_in :: "location \<Rightarrow> int \<Rightarrow> int" where
  "date_in loc civil = (case loc civil of (offset, start, stop) \<Rightarrow>
     if offset = 0 then civil
     else let utc = civil - offset in
       if start \<le> utc \<and> utc < stop then utc else civil - fst (loc utc))"

definition civil_of :: "location \<Rightarrow> int \<Rightarrow> int" where
  "civil_of loc s = s + fst (loc s)"

definition activationDay :: "time \<Rightarrow> location \<Rightarrow> time \<times> time" where
  "activationDay instant loc =
     (let civil = civil_of loc (instant div 1000000);
          startLocal = date_in loc (civil - civil mod 86400);
          endLocal = date_in loc (civil_of loc startLocal + 86400)
      in (startLocal * 1000000, endLocal * 1000000))"

section \<open>Rows\<close>

datatype http_state = InProgress | Completed

record http_row =
  h_id :: uuid
  h_user_id :: uuid
  h_trip_id :: "uuid option"
  h_idempotency_key :: uuid
  h_http_method :: string
  h_normalized_path :: string
  h_operation_kind :: string
  h_digest_algorithm :: string
  h_digest_key_id :: "string option"
  h_request_digest :: bytes
  h_state :: http_state
  h_response_status :: "int option"
  h_content_type :: "string option"
  h_response_body :: "bytes option"
  h_response_etag :: "string option"
  h_resource_id :: "uuid option"
  h_created_at :: time
  h_completed_at :: "time option"
  h_retain_until :: time

record place_row =
  pl_id :: uuid
  pl_owner_user_id :: uuid
  pl_source_resolution_id :: uuid
  pl_latitude :: float64
  pl_longitude :: float64
  pl_formatted_address :: "string option"
  pl_display_name :: string
  pl_time_zone_name :: string
  pl_created_at :: time

datatype attempt_state = AttemptPending | AttemptResolved | AttemptFailed | AttemptConsumed

record attempt_row =
  q_id :: uuid
  q_user_id :: uuid
  q_idempotency_record_id :: uuid
  q_state :: attempt_state
  q_provider_request_started_at :: "time option"
  q_resolution_token_sha256 :: "bytes option"
  q_latitude :: "float64 option"
  q_longitude :: "float64 option"
  q_formatted_address :: "string option"
  q_display_name :: "string option"
  q_time_zone_name :: "string option"
  q_failure_code :: "string option"
  q_created_at :: time
  q_expires_at :: time
  q_consumed_at :: "time option"

record saved_plan_row =
  v_id :: uuid
  v_trip_id :: uuid
  v_owner_user_id :: uuid
  v_revision :: i64
  v_authored_by_user_id :: uuid
  v_display_date :: "string option"
  v_display_time :: "string option"
  v_display_zone :: "string option"
  v_created_at :: time

datatype schedule_state = Scheduled | Unscheduled

record saved_activity_row =
  sa_plan_id :: uuid
  sa_trip_id :: uuid
  sa_owner_user_id :: uuid
  sa_activity_id :: uuid
  sa_place_id :: uuid
  sa_ordinal :: int
  sa_schedule_state :: schedule_state
  sa_start_offset :: "i64 option"
  sa_end_offset :: "i64 option"
  sa_inbound_travel_mode :: string
  sa_activity_class :: string
  sa_priority_rank :: int
  sa_utility_score :: int
  sa_reservation_start_offset :: "i64 option"
  sa_reservation_grace_seconds :: i64
  sa_deadline_offset :: "i64 option"
  sa_min_duration_seconds :: int
  sa_preferred_duration_seconds :: int
  sa_max_duration_seconds :: int
  sa_mandatory :: bool
  sa_can_shorten :: bool
  sa_can_move :: bool
  sa_can_skip :: bool

record saved_window_row =
  sw_plan_id :: uuid
  sw_activity_id :: uuid
  sw_window_index :: int
  sw_opens_offset :: i64
  sw_closes_offset :: i64

datatype operation_kind = OpActivate | OpDeactivate
datatype operation_state = OpPending | OpSucceeded | OpFailed

record operation_row =
  x_id :: uuid
  x_trip_id :: uuid
  x_owner_user_id :: uuid
  x_idempotency_record_id :: uuid
  x_kind :: operation_kind
  x_state :: operation_state
  x_last_step :: string
  x_source_trip_revision :: i64
  x_target_execution_plan_id :: "uuid option"
  x_resulting_trip_revision :: "i64 option"
  x_safe_error_code :: "string option"
  x_created_at :: time
  x_updated_at :: time
  x_completed_at :: "time option"

record web_db =
  core :: db
  http_idempotency_records :: "http_row list"
  place_resolution_attempts :: "attempt_row list"
  places :: "place_row list"
  saved_trip_plans :: "saved_plan_row list"
  saved_trip_activities :: "saved_activity_row list"
  saved_activity_open_windows :: "saved_window_row list"
  trip_execution_operations :: "operation_row list"

section \<open>Constraints\<close>

definition option_all :: "('a \<Rightarrow> bool) \<Rightarrow> 'a option \<Rightarrow> bool" where
  "option_all P m = (case m of None \<Rightarrow> True | Some x \<Rightarrow> P x)"

text \<open>
  The SQL function \<open>length\<close> of a text counts characters. Strings are their UTF-8 bytes, so it counts the bytes that
  are not continuation bytes.
\<close>

definition char_length :: "string \<Rightarrow> nat" where
  "char_length s = length (filter (\<lambda>c. \<not> (128 \<le> (of_char c :: nat) \<and> (of_char c :: nat) < 192)) s)"

definition http_operation_kinds :: "string list" where
  "http_operation_kinds = [''create_trip'', ''update_trip'', ''delete_trip'', ''add_activity'', ''replace_activity'',
     ''delete_activity'', ''resolve_place'', ''create_place'', ''activate_trip'', ''deactivate_trip'']"

definition http_check :: "http_row \<Rightarrow> bool" where
  "http_check h \<longleftrightarrow> h_http_method h \<in> {''POST'', ''PATCH'', ''DELETE''} \<and>
     1 \<le> char_length (h_normalized_path h) \<and> char_length (h_normalized_path h) \<le> 500 \<and>
     starts_with ''/api/v1/'' (h_normalized_path h) \<and>
     h_operation_kind h \<in> set http_operation_kinds \<and>
     h_digest_algorithm h \<in> {''rfc8785-sha256-v1'', ''rfc8785-hmac-sha256-v1''} \<and>
     option_all (\<lambda>k. 1 \<le> char_length k \<and> char_length k \<le> 64) (h_digest_key_id h) \<and>
     length (h_request_digest h) = 32 \<and>
     option_all (\<lambda>s. 200 \<le> s \<and> s \<le> 599) (h_response_status h) \<and>
     option_all (\<lambda>c. c \<in> {''application/json'', ''application/problem+json''}) (h_content_type h) \<and>
     h_created_at h < h_retain_until h \<and>
     (h_state h = Completed \<longleftrightarrow> h_response_status h \<noteq> None \<and> h_completed_at h \<noteq> None) \<and>
     option_all (\<lambda>t. h_created_at h \<le> t) (h_completed_at h) \<and>
     (h_operation_kind h = ''resolve_place'' \<longleftrightarrow>
        h_digest_algorithm h = ''rfc8785-hmac-sha256-v1'' \<and> h_digest_key_id h \<noteq> None) \<and>
     (h_digest_algorithm h = ''rfc8785-hmac-sha256-v1'' \<or> h_digest_key_id h = None)"

definition saved_plan_check :: "saved_plan_row \<Rightarrow> bool" where
  "saved_plan_check v \<longleftrightarrow> 0 < v_revision v \<and> i64_ok (v_revision v) \<and>
     option_all (\<lambda>z. 1 \<le> char_length z \<and> char_length z \<le> 64) (v_display_zone v) \<and>
     v_authored_by_user_id v = v_owner_user_id v \<and>
     (v_display_date v = None \<and> v_display_time v = None \<and> v_display_zone v = None \<or>
      v_display_date v \<noteq> None \<and> v_display_time v \<noteq> None \<and> v_display_zone v \<noteq> None)"

definition saved_activity_check :: "saved_activity_row \<Rightarrow> bool" where
  "saved_activity_check a \<longleftrightarrow> 0 \<le> sa_ordinal a \<and> sa_ordinal a \<le> 63 \<and>
     option_all (\<lambda>s. 0 \<le> s \<and> s \<le> 86399999) (sa_start_offset a) \<and>
     option_all (\<lambda>s. 1 \<le> s \<and> s \<le> 86400000) (sa_end_offset a) \<and>
     sa_inbound_travel_mode a \<in> {''walking'', ''driving''} \<and> sa_activity_class a \<in> {''fixed'', ''flexible''} \<and>
     i32_ok (sa_priority_rank a) \<and> i32_ok (sa_utility_score a) \<and>
     option_all (\<lambda>s. 0 \<le> s \<and> s \<le> 86400000) (sa_reservation_start_offset a) \<and>
     0 \<le> sa_reservation_grace_seconds a \<and> sa_reservation_grace_seconds a \<le> 4294967295 \<and>
     option_all (\<lambda>s. 0 \<le> s \<and> s \<le> 86400000) (sa_deadline_offset a) \<and>
     0 \<le> sa_min_duration_seconds a \<and> sa_min_duration_seconds a \<le> sa_preferred_duration_seconds a \<and>
     sa_preferred_duration_seconds a \<le> sa_max_duration_seconds a \<and> sa_max_duration_seconds a \<le> 86400 \<and>
     \<not> sa_can_shorten a \<and>
     (case (sa_schedule_state a, sa_start_offset a, sa_end_offset a) of
        (Scheduled, Some s, Some t) \<Rightarrow> s < t
      | (Unscheduled, None, None) \<Rightarrow> True
      | _ \<Rightarrow> False)"

definition saved_window_check :: "saved_window_row \<Rightarrow> bool" where
  "saved_window_check w \<longleftrightarrow> 0 \<le> sw_window_index w \<and> sw_window_index w \<le> 31 \<and>
     0 \<le> sw_opens_offset w \<and> sw_opens_offset w \<le> 86399999 \<and>
     1 \<le> sw_closes_offset w \<and> sw_closes_offset w \<le> 86400000 \<and> sw_opens_offset w < sw_closes_offset w"

definition operation_check :: "operation_row \<Rightarrow> bool" where
  "operation_check x \<longleftrightarrow>
     x_last_step x \<in> {''recorded'', ''lease_acquired'', ''planner_bootstrapped'', ''runtime_fenced'', ''lease_released'',
       ''completed'', ''failed''} \<and>
     0 \<le> x_source_trip_revision x \<and> i64_ok (x_source_trip_revision x) \<and>
     option_all (\<lambda>r. 0 \<le> r \<and> i64_ok r) (x_resulting_trip_revision x) \<and>
     option_all (\<lambda>c. 1 \<le> char_length c \<and> char_length c \<le> 64) (x_safe_error_code x) \<and>
     (x_kind x = OpActivate \<longleftrightarrow> x_target_execution_plan_id x \<noteq> None) \<and>
     (x_state x = OpPending \<longleftrightarrow> x_completed_at x = None) \<and>
     (x_state x = OpFailed \<longleftrightarrow> x_safe_error_code x \<noteq> None) \<and>
     option_all (\<lambda>t. x_created_at x \<le> t) (x_completed_at x)"

definition place_check :: "place_row \<Rightarrow> bool" where
  "place_check p \<longleftrightarrow> coordinate_ok 90 (pl_latitude p) \<and> coordinate_ok 180 (pl_longitude p) \<and>
     option_all (\<lambda>s. 1 \<le> char_length s \<and> char_length s \<le> 500) (pl_formatted_address p) \<and>
     1 \<le> char_length (pl_display_name p) \<and> char_length (pl_display_name p) \<le> 500 \<and>
     1 \<le> char_length (pl_time_zone_name p) \<and> char_length (pl_time_zone_name p) \<le> 64"

definition attempt_check :: "attempt_row \<Rightarrow> bool" where
  "attempt_check q \<longleftrightarrow> option_all (\<lambda>h. length h = 32) (q_resolution_token_sha256 q) \<and>
     option_all (coordinate_ok 90) (q_latitude q) \<and> option_all (coordinate_ok 180) (q_longitude q) \<and>
     option_all (\<lambda>s. 1 \<le> char_length s \<and> char_length s \<le> 500) (q_formatted_address q) \<and>
     option_all (\<lambda>s. 1 \<le> char_length s \<and> char_length s \<le> 500) (q_display_name q) \<and>
     option_all (\<lambda>s. 1 \<le> char_length s \<and> char_length s \<le> 64) (q_time_zone_name q) \<and>
     option_all (\<lambda>c. c \<in> {''PROVIDER_UNAVAILABLE'', ''RESOURCE_EXHAUSTED'', ''PLACE_NOT_RESOLVED'', ''INVALID_ARGUMENT'', ''INTERNAL''})
       (q_failure_code q) \<and>
     q_created_at q < q_expires_at q \<and>
     (let found = q_resolution_token_sha256 q \<noteq> None \<and> q_latitude q \<noteq> None \<and> q_longitude q \<noteq> None \<and>
            q_display_name q \<noteq> None \<and> q_time_zone_name q \<noteq> None;
          blank = q_resolution_token_sha256 q = None \<and> q_latitude q = None \<and> q_longitude q = None \<and>
            q_display_name q = None \<and> q_time_zone_name q = None in
      case q_state q of
        AttemptPending \<Rightarrow> blank \<and> q_failure_code q = None \<and> q_consumed_at q = None
      | AttemptResolved \<Rightarrow> found \<and> q_failure_code q = None \<and> q_consumed_at q = None
      | AttemptFailed \<Rightarrow> blank \<and> q_failure_code q \<noteq> None \<and> q_consumed_at q = None
      | AttemptConsumed \<Rightarrow> found \<and> q_failure_code q = None \<and> q_consumed_at q \<noteq> None)"

abbreviation http_key :: "http_row \<Rightarrow> uuid \<times> string \<times> string \<times> uuid" where
  "http_key h \<equiv> (h_user_id h, h_http_method h, h_normalized_path h, h_idempotency_key h)"

abbreviation saved_plan_revision_key :: "saved_plan_row \<Rightarrow> uuid \<times> i64" where
  "saved_plan_revision_key v \<equiv> (v_trip_id v, v_revision v)"

abbreviation saved_activity_key :: "saved_activity_row \<Rightarrow> uuid \<times> uuid" where
  "saved_activity_key a \<equiv> (sa_plan_id a, sa_activity_id a)"

abbreviation saved_ordinal_key :: "saved_activity_row \<Rightarrow> uuid \<times> int" where
  "saved_ordinal_key a \<equiv> (sa_plan_id a, sa_ordinal a)"

abbreviation saved_window_key :: "saved_window_row \<Rightarrow> uuid \<times> uuid \<times> int" where
  "saved_window_key w \<equiv> (sw_plan_id w, sw_activity_id w, sw_window_index w)"

definition executing :: "trip_row \<Rightarrow> bool" where
  "executing t \<longleftrightarrow> t_execution_state t \<in> {ExecActivating, ExecActive, ExecDeactivating}"

section \<open>Statements\<close>

text \<open>
  \<open>INSERT ... ON CONFLICT (user_id, http_method, normalized_path, idempotency_key) DO NOTHING\<close>: the
  number of rows inserted, or a violation of another constraint.
\<close>

definition insert_http :: "http_row \<Rightarrow> web_db \<Rightarrow> (bool \<times> web_db) option" where
  "insert_http h d =
     (if \<not> http_check h then None
      else if \<not> fresh_in http_key h (http_idempotency_records d) then Some (False, d)
      else if fresh_in h_id h (http_idempotency_records d) \<and> h_user_id h \<in> set (users (core d))
        then Some (True, d\<lparr>http_idempotency_records := http_idempotency_records d @ [h]\<rparr>)
      else None)"

definition update_http :: "(http_row \<Rightarrow> bool) \<Rightarrow> (http_row \<Rightarrow> http_row) \<Rightarrow> web_db \<Rightarrow> web_db option" where
  "update_http P f d =
     (if list_all (\<lambda>h. P h \<longrightarrow> http_check (f h)) (http_idempotency_records d)
      then Some (d\<lparr>http_idempotency_records := sql_update P f (http_idempotency_records d)\<rparr>) else None)"

definition insert_saved_plan :: "saved_plan_row \<Rightarrow> web_db \<Rightarrow> web_db option" where
  "insert_saved_plan v d =
     (if saved_plan_check v \<and>
         sql_exists (\<lambda>t. t_id t = v_trip_id v \<and> t_owner_user_id t = v_owner_user_id v) (trips (core d)) \<and>
         v_owner_user_id v \<in> set (users (core d)) \<and>
         fresh_in v_id v (saved_trip_plans d) \<and> fresh_in saved_plan_revision_key v (saved_trip_plans d)
      then Some (d\<lparr>saved_trip_plans := saved_trip_plans d @ [v]\<rparr>) else None)"

definition insert_saved_activity :: "saved_activity_row \<Rightarrow> web_db \<Rightarrow> web_db option" where
  "insert_saved_activity a d =
     (if saved_activity_check a \<and>
         sql_exists (\<lambda>v. v_id v = sa_plan_id a \<and> v_trip_id v = sa_trip_id a \<and>
           v_owner_user_id v = sa_owner_user_id a) (saved_trip_plans d) \<and>
         sql_exists (\<lambda>p. pl_id p = sa_place_id a \<and> pl_owner_user_id p = sa_owner_user_id a) (places d) \<and>
         fresh_in saved_activity_key a (saved_trip_activities d) \<and> fresh_in saved_ordinal_key a (saved_trip_activities d)
      then Some (d\<lparr>saved_trip_activities := saved_trip_activities d @ [a]\<rparr>) else None)"

definition insert_saved_window :: "saved_window_row \<Rightarrow> web_db \<Rightarrow> web_db option" where
  "insert_saved_window w d =
     (if saved_window_check w \<and>
         sql_exists (\<lambda>a. sa_plan_id a = sw_plan_id w \<and> sa_activity_id a = sw_activity_id w) (saved_trip_activities d) \<and>
         fresh_in saved_window_key w (saved_activity_open_windows d)
      then Some (d\<lparr>saved_activity_open_windows := saved_activity_open_windows d @ [w]\<rparr>) else None)"

definition insert_operation :: "operation_row \<Rightarrow> web_db \<Rightarrow> web_db option" where
  "insert_operation x d =
     (if operation_check x \<and>
         sql_exists (\<lambda>t. t_id t = x_trip_id x \<and> t_owner_user_id t = x_owner_user_id x) (trips (core d)) \<and>
         sql_exists (\<lambda>h. h_id h = x_idempotency_record_id x \<and> h_user_id h = x_owner_user_id x \<and>
           h_trip_id h = Some (x_trip_id x)) (http_idempotency_records d) \<and>
         option_all (\<lambda>pid. plan_exists (x_trip_id x) pid (core d)) (x_target_execution_plan_id x) \<and>
         fresh_in x_id x (trip_execution_operations d) \<and>
         fresh_in x_idempotency_record_id x (trip_execution_operations d) \<and>
         (x_state x = OpPending \<longrightarrow>
           \<not> sql_exists (\<lambda>y. x_trip_id y = x_trip_id x \<and> x_state y = OpPending) (trip_execution_operations d))
      then Some (d\<lparr>trip_execution_operations := trip_execution_operations d @ [x]\<rparr>) else None)"

definition update_operation ::
  "(operation_row \<Rightarrow> bool) \<Rightarrow> (operation_row \<Rightarrow> operation_row) \<Rightarrow> web_db \<Rightarrow> web_db option" where
  "update_operation P f d =
     (if list_all (\<lambda>x. P x \<longrightarrow> operation_check (f x)) (trip_execution_operations d)
      then Some (d\<lparr>trip_execution_operations := sql_update P f (trip_execution_operations d)\<rparr>) else None)"

text \<open>
  An \<open>UPDATE\<close> of \<open>trips\<close> from the stores here may change the execution state, so that it also meets the
  unique index \<open>trips_one_executing_per_user_idx\<close>.
\<close>

definition one_executing :: "trip_row list \<Rightarrow> bool" where
  "one_executing ts \<longleftrightarrow> distinct (map t_owner_user_id (filter executing ts))"

definition update_trips :: "(trip_row \<Rightarrow> bool) \<Rightarrow> (trip_row \<Rightarrow> trip_row) \<Rightarrow> web_db \<Rightarrow> web_db option" where
  "update_trips P f d =
     (let ts = sql_update P f (trips (core d)) in
      if list_all (\<lambda>t. P t \<longrightarrow> trip_check (f t)) (trips (core d)) \<and> one_executing ts
      then Some (d\<lparr>core := (core d)\<lparr>trips := ts\<rparr>\<rparr>) else None)"

text \<open>A statement on the canonical tables.\<close>

definition on_core :: "(db \<Rightarrow> db option) \<Rightarrow> web_db \<Rightarrow> web_db option" where
  "on_core f d = map_option (\<lambda>c. d\<lparr>core := c\<rparr>) (f (core d))"

text \<open>\<open>INSERT ... SELECT\<close> of the rows of a query.\<close>

definition insert_rows :: "('r \<Rightarrow> 'd \<Rightarrow> 'd option) \<Rightarrow> 'r list \<Rightarrow> 'd \<Rightarrow> 'd option" where
  "insert_rows ins rows d = fold (\<lambda>r m. Option.bind m (ins r)) rows (Some d)"

text \<open>
  The deferred trigger \<open>liveroute_assert_saved_plan_nonempty\<close> at the commit of a transaction that has
  written the saved plan: it has activities, with the ordinals from 0 on.
\<close>

definition plan_activities :: "uuid \<Rightarrow> web_db \<Rightarrow> saved_activity_row list" where
  "plan_activities pid d = sort_key sa_ordinal (sql_select (\<lambda>a. sa_plan_id a = pid) (saved_trip_activities d))"

definition saved_plan_contiguous :: "uuid \<Rightarrow> web_db \<Rightarrow> bool" where
  "saved_plan_contiguous pid d \<longleftrightarrow>
     (let os = map sa_ordinal (plan_activities pid d) in
      os \<noteq> [] \<and> hd os = 0 \<and> last os = int (length os) - 1)"

section \<open>Reserving an idempotency key\<close>

definition httpIdempotencyRetention :: time where "httpIdempotencyRetention = 30 * 24 * 3600 * 1000000"

record tripMutationReplay =
  mr_Status :: int
  mr_Body :: bytes
  mr_ETag :: string

definition new_http_row ::
  "uuid \<Rightarrow> uuid \<Rightarrow> uuid \<Rightarrow> string \<Rightarrow> string \<Rightarrow> string \<Rightarrow> bytes \<Rightarrow> time \<Rightarrow> time \<Rightarrow> http_row" where
  "new_http_row rid userID key method path operation digest created now =
     \<lparr>h_id = rid, h_user_id = userID, h_trip_id = None, h_idempotency_key = key, h_http_method = method,
      h_normalized_path = path, h_operation_kind = operation, h_digest_algorithm = ''rfc8785-sha256-v1'',
      h_digest_key_id = None, h_request_digest = digest, h_state = InProgress, h_response_status = None,
      h_content_type = None, h_response_body = None, h_response_etag = None, h_resource_id = None,
      h_created_at = created, h_completed_at = None, h_retain_until = now + httpIdempotencyRetention\<rparr>"

definition find_http :: "uuid \<Rightarrow> string \<Rightarrow> string \<Rightarrow> uuid \<Rightarrow> web_db \<Rightarrow> http_row option" where
  "find_http userID method path key d =
     query_row (\<lambda>h. http_key h = (userID, method, path, key)) (http_idempotency_records d)"

text \<open>The replay of a stored record.\<close>

definition load_replay :: "bytes \<Rightarrow> http_row \<Rightarrow> tripMutationReplay result" where
  "load_replay digest h =
     (if h_request_digest h \<noteq> digest then Inl ErrHTTPIdempotencyReused
      else case (h_state h, h_response_status h) of
        (Completed, Some status) \<Rightarrow>
          Inr \<lparr>mr_Status = status, mr_Body = (case h_response_body h of None \<Rightarrow> [] | Some b \<Rightarrow> b),
               mr_ETag = (case h_response_etag h of None \<Rightarrow> [] | Some t \<Rightarrow> t)\<rparr>
      | _ \<Rightarrow> Inl ErrHTTPMutationPending)"

definition reserveTripMutation ::
  "entropy \<Rightarrow> clock \<Rightarrow> uuid \<Rightarrow> uuid \<Rightarrow> string \<Rightarrow> string \<Rightarrow> string \<Rightarrow> bytes \<Rightarrow> web_db \<Rightarrow>
     (uuid \<times> tripMutationReplay option \<times> web_db) result" where
  "reserveTripMutation rnd clk userID key method path operation digest d =
     bindr (newAuthUUID (rnd 0)) (\<lambda>recordID.
     bindr (exec_sql ''reserve saved-trip mutation''
         (insert_http (new_http_row recordID userID key method path operation digest (clk 0) (clk 1)) d)) (\<lambda>(inserted, d1).
     if inserted then Inr (recordID, None, d1)
     else case find_http userID method path key d1 of
       None \<Rightarrow> Inl (ErrSQL ''load saved-trip mutation replay'')
     | Some h \<Rightarrow> bindr (load_replay digest h) (\<lambda>replay. Inr (recordID, Some replay, d1))))"

section \<open>The invariant of the tables\<close>

definition https_ok :: "http_row list \<Rightarrow> bool" where
  "https_ok hs \<longleftrightarrow> distinct (map h_id hs) \<and> distinct (map http_key hs) \<and> list_all http_check hs"

definition saved_plans_ok :: "saved_plan_row list \<Rightarrow> bool" where
  "saved_plans_ok vs \<longleftrightarrow> distinct (map v_id vs) \<and> distinct (map saved_plan_revision_key vs) \<and> list_all saved_plan_check vs"

definition saved_activities_ok :: "saved_activity_row list \<Rightarrow> bool" where
  "saved_activities_ok as \<longleftrightarrow> distinct (map saved_activity_key as) \<and> distinct (map saved_ordinal_key as) \<and>
     list_all saved_activity_check as"

definition saved_windows_ok :: "saved_window_row list \<Rightarrow> bool" where
  "saved_windows_ok ws \<longleftrightarrow> distinct (map saved_window_key ws) \<and> list_all saved_window_check ws"

definition operations_ok :: "operation_row list \<Rightarrow> bool" where
  "operations_ok xs \<longleftrightarrow> distinct (map x_id xs) \<and> distinct (map x_idempotency_record_id xs) \<and> list_all operation_check xs \<and>
     distinct (map x_trip_id (filter (\<lambda>x. x_state x = OpPending) xs))"

definition places_ok :: "place_row list \<Rightarrow> bool" where
  "places_ok ps \<longleftrightarrow> distinct (map pl_id ps) \<and> distinct (map pl_source_resolution_id ps) \<and> list_all place_check ps"

definition attempt_tokens :: "attempt_row list \<Rightarrow> bytes list" where
  "attempt_tokens qs = List.map_filter q_resolution_token_sha256 qs"

definition attempts_ok :: "attempt_row list \<Rightarrow> bool" where
  "attempts_ok qs \<longleftrightarrow> distinct (map q_id qs) \<and> distinct (map q_idempotency_record_id qs) \<and> distinct (attempt_tokens qs) \<and>
     list_all attempt_check qs"

text \<open>A place comes from a resolution of its owner that is consumed.\<close>

definition place_sources_ok :: "attempt_row list \<Rightarrow> place_row list \<Rightarrow> bool" where
  "place_sources_ok qs ps \<longleftrightarrow> (\<forall>p\<in>set ps. \<exists>q\<in>set qs. q_id q = pl_source_resolution_id p \<and> q_user_id q = pl_owner_user_id p \<and>
     q_state q = AttemptConsumed)"

text \<open>The foreign keys of a saved activity: its plan, of the same trip and owner, and its place, of the same owner.\<close>

definition saved_refs_ok :: "web_db \<Rightarrow> bool" where
  "saved_refs_ok d \<longleftrightarrow> (\<forall>a\<in>set (saved_trip_activities d).
     (\<exists>p\<in>set (places d). pl_id p = sa_place_id a \<and> pl_owner_user_id p = sa_owner_user_id a) \<and>
     (\<exists>v\<in>set (saved_trip_plans d). v_id v = sa_plan_id a \<and> v_trip_id v = sa_trip_id a \<and> v_owner_user_id v = sa_owner_user_id a))"

definition web_ok :: "web_db \<Rightarrow> bool" where
  "web_ok d \<longleftrightarrow> schema_ok (core d) \<and> one_executing (trips (core d)) \<and> https_ok (http_idempotency_records d) \<and>
     attempts_ok (place_resolution_attempts d) \<and> place_sources_ok (place_resolution_attempts d) (places d) \<and>
     places_ok (places d) \<and> saved_refs_ok d \<and>
     saved_plans_ok (saved_trip_plans d) \<and> saved_activities_ok (saved_trip_activities d) \<and>
     saved_windows_ok (saved_activity_open_windows d) \<and> operations_ok (trip_execution_operations d)"

definition empty_web :: "uuid list \<Rightarrow> web_db" where
  "empty_web us = \<lparr>core = empty_db us, http_idempotency_records = [], place_resolution_attempts = [], places = [], saved_trip_plans = [],
     saved_trip_activities = [], saved_activity_open_windows = [], trip_execution_operations = []\<rparr>"

lemma char_length_simps [simp]:
  "char_length [] = 0"
  "char_length (c # s) = (if 128 \<le> (of_char c :: nat) \<and> (of_char c :: nat) < 192 then 0 else 1) + char_length s"
  "char_length (s @ t) = char_length s + char_length t"
  by (simp_all add: char_length_def)

lemma web_empty: "web_ok (empty_web us)"
  using schema_empty [of us]
  by (simp add: web_ok_def empty_web_def https_ok_def saved_plans_ok_def saved_activities_ok_def saved_windows_ok_def
      operations_ok_def one_executing_def empty_db_def places_ok_def saved_refs_ok_def
      attempts_ok_def attempt_tokens_def place_sources_ok_def map_filter_simps)

lemma option_all_simps [simp]: "option_all P None" "option_all P (Some x) = P x"
  by (simp_all add: option_all_def)

lemma insert_http_SomeD:
  "insert_http h d = Some (True, d') \<Longrightarrow> d' = d\<lparr>http_idempotency_records := http_idempotency_records d @ [h]\<rparr> \<and> http_check h \<and>
     fresh_in h_id h (http_idempotency_records d) \<and> fresh_in http_key h (http_idempotency_records d)"
  by (simp add: insert_http_def split: if_splits)

lemma insert_http_FalseD:
  "insert_http h d = Some (False, d') \<Longrightarrow> d' = d \<and> \<not> fresh_in http_key h (http_idempotency_records d)"
  by (simp add: insert_http_def split: if_splits)

text \<open>The foreign keys of the saved activities depend on three tables only.\<close>

lemma saved_refs_frame [simp]:
  "saved_refs_ok (d\<lparr>core := c\<rparr>) = saved_refs_ok d" "saved_refs_ok (d\<lparr>http_idempotency_records := hs\<rparr>) = saved_refs_ok d"
  "saved_refs_ok (d\<lparr>saved_activity_open_windows := ws\<rparr>) = saved_refs_ok d"
  "saved_refs_ok (d\<lparr>trip_execution_operations := xs\<rparr>) = saved_refs_ok d"
  "saved_refs_ok (d\<lparr>place_resolution_attempts := qs\<rparr>) = saved_refs_ok d"
  by (simp_all add: saved_refs_ok_def)

lemma saved_refs_insert_plan: "saved_refs_ok d \<Longrightarrow> saved_refs_ok (d\<lparr>saved_trip_plans := saved_trip_plans d @ [v]\<rparr>)"
  by (fastforce simp: saved_refs_ok_def)

lemma web_insert_http: "insert_http h d = Some (b, d') \<Longrightarrow> web_ok d \<Longrightarrow> web_ok d'"
  by (cases b) (auto dest!: insert_http_SomeD insert_http_FalseD simp: web_ok_def https_ok_def fresh_in_def)

lemma update_http_SomeD:
  "update_http P f d = Some d' \<Longrightarrow> d' = d\<lparr>http_idempotency_records := sql_update P f (http_idempotency_records d)\<rparr> \<and>
     (\<forall>h\<in>set (http_idempotency_records d). P h \<longrightarrow> http_check (f h))"
  by (simp add: update_http_def list_all_iff split: if_splits)

lemma web_update_http:
  assumes "update_http P f d = Some d'" "\<And>h. h_id (f h) = h_id h" "\<And>h. http_key (f h) = http_key h" "web_ok d"
  shows "web_ok d'"
proof -
  from update_http_SomeD [OF assms(1)] have d': "d' = d\<lparr>http_idempotency_records := sql_update P f (http_idempotency_records d)\<rparr>"
    and chk: "\<forall>h\<in>set (http_idempotency_records d). P h \<longrightarrow> http_check (f h)" by blast+
  have "https_ok (sql_update P f (http_idempotency_records d))"
    unfolding https_ok_def
    by (intro conjI LR_Database.distinct_update list_all_update) (use assms(2-4) chk in \<open>auto simp: web_ok_def https_ok_def\<close>)
  then show ?thesis using assms(4) by (simp add: d' web_ok_def)
qed

lemma insert_saved_plan_SomeD:
  "insert_saved_plan v d = Some d' \<Longrightarrow> d' = d\<lparr>saved_trip_plans := saved_trip_plans d @ [v]\<rparr> \<and> saved_plan_check v \<and>
     fresh_in v_id v (saved_trip_plans d) \<and> fresh_in saved_plan_revision_key v (saved_trip_plans d)"
  by (simp add: insert_saved_plan_def split: if_splits)

lemma web_insert_saved_plan: "insert_saved_plan v d = Some d' \<Longrightarrow> web_ok d \<Longrightarrow> web_ok d'"
  by (auto dest!: insert_saved_plan_SomeD simp: web_ok_def saved_plans_ok_def fresh_in_def saved_refs_insert_plan)

lemma insert_saved_activity_SomeD:
  "insert_saved_activity a d = Some d' \<Longrightarrow> d' = d\<lparr>saved_trip_activities := saved_trip_activities d @ [a]\<rparr> \<and>
     saved_activity_check a \<and> fresh_in saved_activity_key a (saved_trip_activities d) \<and>
     fresh_in saved_ordinal_key a (saved_trip_activities d) \<and>
     sql_exists (\<lambda>p. pl_id p = sa_place_id a \<and> pl_owner_user_id p = sa_owner_user_id a) (places d) \<and>
     sql_exists (\<lambda>v. v_id v = sa_plan_id a \<and> v_trip_id v = sa_trip_id a \<and> v_owner_user_id v = sa_owner_user_id a)
       (saved_trip_plans d)"
  by (simp add: insert_saved_activity_def split: if_splits)

lemma web_insert_saved_activity: "insert_saved_activity a d = Some d' \<Longrightarrow> web_ok d \<Longrightarrow> web_ok d'"
  by (auto dest!: insert_saved_activity_SomeD simp: web_ok_def saved_activities_ok_def fresh_in_def saved_refs_ok_def sql_exists_iff)

lemma insert_saved_window_SomeD:
  "insert_saved_window u d = Some d' \<Longrightarrow> d' = d\<lparr>saved_activity_open_windows := saved_activity_open_windows d @ [u]\<rparr> \<and>
     saved_window_check u \<and> fresh_in saved_window_key u (saved_activity_open_windows d)"
  by (simp add: insert_saved_window_def split: if_splits)

lemma web_insert_saved_window: "insert_saved_window u d = Some d' \<Longrightarrow> web_ok d \<Longrightarrow> web_ok d'"
  by (auto dest!: insert_saved_window_SomeD simp: web_ok_def saved_windows_ok_def fresh_in_def)

lemma insert_operation_SomeD:
  "insert_operation x d = Some d' \<Longrightarrow> d' = d\<lparr>trip_execution_operations := trip_execution_operations d @ [x]\<rparr> \<and>
     operation_check x \<and> fresh_in x_id x (trip_execution_operations d) \<and>
     fresh_in x_idempotency_record_id x (trip_execution_operations d) \<and>
     (x_state x = OpPending \<longrightarrow> (\<forall>y\<in>set (trip_execution_operations d). x_trip_id y = x_trip_id x \<longrightarrow> x_state y \<noteq> OpPending))"
  by (auto simp: insert_operation_def sql_exists_iff split: if_splits)

lemma web_insert_operation: "insert_operation x d = Some d' \<Longrightarrow> web_ok d \<Longrightarrow> web_ok d'"
  by (drule insert_operation_SomeD) (auto simp: web_ok_def operations_ok_def fresh_in_def)

lemma update_operation_SomeD:
  "update_operation P f d = Some d' \<Longrightarrow>
     d' = d\<lparr>trip_execution_operations := sql_update P f (trip_execution_operations d)\<rparr> \<and>
     (\<forall>x\<in>set (trip_execution_operations d). P x \<longrightarrow> operation_check (f x))"
  by (simp add: update_operation_def list_all_iff split: if_splits)

lemma web_update_operation:
  assumes "update_operation P f d = Some d'" "\<And>x. x_id (f x) = x_id x"
    "\<And>x. x_idempotency_record_id (f x) = x_idempotency_record_id x" "\<And>x. x_trip_id (f x) = x_trip_id x"
    "\<And>x. x_state (f x) \<noteq> OpPending" "web_ok d"
  shows "web_ok d'"
proof -
  from update_operation_SomeD [OF assms(1)]
  have d': "d' = d\<lparr>trip_execution_operations := sql_update P f (trip_execution_operations d)\<rparr>"
    and chk: "\<forall>x\<in>set (trip_execution_operations d). P x \<longrightarrow> operation_check (f x)" by blast+
  have "operations_ok (sql_update P f (trip_execution_operations d))"
    unfolding operations_ok_def
    by (intro conjI LR_Database.distinct_update list_all_update distinct_filter_update)
      (use assms(2-6) chk in \<open>auto simp: web_ok_def operations_ok_def\<close>)
  then show ?thesis using assms(6) by (simp add: d' web_ok_def)
qed

lemma update_trips_SomeD:
  "update_trips P f d = Some d' \<Longrightarrow> d' = d\<lparr>core := (core d)\<lparr>trips := sql_update P f (trips (core d))\<rparr>\<rparr> \<and>
     (\<forall>t\<in>set (trips (core d)). P t \<longrightarrow> trip_check (f t)) \<and> one_executing (sql_update P f (trips (core d)))"
  by (auto simp: update_trips_def Let_def list_all_iff split: if_splits)

lemma web_update_trips:
  assumes "update_trips P f d = Some d'" "\<And>t. t_id (f t) = t_id t" "web_ok d"
  shows "web_ok d'"
proof -
  from update_trips_SomeD [OF assms(1)]
  have d': "d' = d\<lparr>core := (core d)\<lparr>trips := sql_update P f (trips (core d))\<rparr>\<rparr>"
    and chk: "\<forall>t\<in>set (trips (core d)). P t \<longrightarrow> trip_check (f t)"
    and one: "one_executing (sql_update P f (trips (core d)))" by blast+
  have "trips_ok (sql_update P f (trips (core d)))"
    unfolding trips_ok_def
    by (intro conjI LR_Database.distinct_update list_all_update)
      (use assms(2,3) chk in \<open>auto simp: web_ok_def schema_ok_def trips_ok_def\<close>)
  then show ?thesis using assms(3) one by (simp add: d' web_ok_def schema_ok_def)
qed

text \<open>A statement on the canonical tables keeps the invariant if it keeps the one of the canonical tables.\<close>

lemma on_core_SomeD: "on_core f d = Some d' \<Longrightarrow> \<exists>c. f (core d) = Some c \<and> d' = d\<lparr>core := c\<rparr>"
  by (auto simp: on_core_def)

lemma web_core:
  "web_ok d \<Longrightarrow> schema_ok c \<Longrightarrow> one_executing (trips c) \<Longrightarrow> web_ok (d\<lparr>core := c\<rparr>)"
  by (simp add: web_ok_def)

lemma insert_rows_simps [simp]:
  "insert_rows ins [] d = Some d"
  "insert_rows ins (r # rs) d = Option.bind (ins r d) (insert_rows ins rs)"
proof -
  have "fold (\<lambda>r m. Option.bind m (ins r)) rs None = None" for rs by (induction rs) auto
  then show "insert_rows ins (r # rs) d = Option.bind (ins r d) (insert_rows ins rs)"
    by (cases "ins r d") (simp_all add: insert_rows_def)
qed (simp add: insert_rows_def)

lemma insert_rows_invariant:
  assumes "insert_rows ins rs d = Some d'" "I d" "\<And>r d d'. ins r d = Some d' \<Longrightarrow> I d \<Longrightarrow> I d'"
  shows "I d'"
  using assms by (induction rs arbitrary: d) (auto split: Option.bind_splits)

section \<open>Replays\<close>

lemma reserve_cases:
  assumes "reserveTripMutation rnd clk userID key method path operation digest d = Inr (rid, replay, d1)"
  obtains (fresh) "replay = None" "newAuthUUID (rnd 0) = Inr rid"
      "insert_http (new_http_row rid userID key method path operation digest (clk 0) (clk 1)) d = Some (True, d1)"
    | (replayed) h rp where "replay = Some rp" "d1 = d" "find_http userID method path key d = Some h"
      "load_replay digest h = Inr rp"
  using assms unfolding reserveTripMutation_def
  by (auto simp: bindr_eq_Inr split: if_splits option.splits dest!: insert_http_FalseD)

lemma web_reserve:
  "reserveTripMutation rnd clk userID key method path operation digest d = Inr (rid, replay, d1) \<Longrightarrow> web_ok d \<Longrightarrow> web_ok d1"
  by (erule reserve_cases) (auto intro: web_insert_http)

end
