(* ===== verification/LR_Saved.thy ===== *)
theory LR_Saved
  imports LR_Web
begin

text \<open>
  The saved trips: \<open>persistence/saved_trips.go\<close>, \<open>saved_trip_creation.go\<close>, \<open>saved_trip_mutations.go\<close> and
  \<open>saved_trip_activity_mutations.go\<close>. A saved trip is a sequence of immutable plan versions with times
  relative to the activation; every change of an inactive trip inserts a new version and selects it.

  Code outside the repository is the record \<open>web\<close>: the time zone database, PostgreSQL's casts of a text to
  \<open>date\<close> and \<open>time\<close> (with the text they are read back as), and the JSON encoding of the views. The state of
  an \<open>enum\<close>-like column is a datatype; the map \<open>Schedule\<close> of the view is its state with the two offsets.
\<close>

section \<open>Views\<close>

record TripSummary =
  ts_TripID :: uuid
  ts_TripName :: string
  ts_TripRevision :: u64
  ts_ExecutionState :: execution_state

record TripList =
  tl_InactiveTrips :: "TripSummary list"
  tl_CurrentExecutionTrip :: "TripSummary option"

record PlaceView =
  pv_PlaceID :: uuid
  pv_Latitude :: float64
  pv_Longitude :: float64
  pv_FormattedAddress :: string
  pv_DisplayName :: string
  pv_TimeZoneName :: string
  pv_CreatedAtUnixMS :: i64

record RelativeWindowInput =
  rw_OpensOffsetMS :: i64
  rw_ClosesOffsetMS :: i64

record ActivityTimingView =
  tv_OpenWindows :: "RelativeWindowInput list"
  tv_ReservationStartOffset :: "i64 option"
  tv_ReservationGraceSeconds :: i64
  tv_MandatoryDeadlineOffset :: "i64 option"
  tv_MinDurationSeconds :: int
  tv_PreferredDurationSeconds :: int
  tv_MaxDurationSeconds :: int
  tv_Mandatory :: bool
  tv_CanShorten :: bool
  tv_CanMove :: bool
  tv_CanSkip :: bool

datatype schedule_view = ScheduleView schedule_state "(i64 \<times> i64) option"

record SavedActivityView =
  av_ActivityID :: uuid
  av_Place :: PlaceView
  av_Ordinal :: int
  av_Schedule :: schedule_view
  av_InboundTravelMode :: string
  av_ActivityClass :: string
  av_PriorityRank :: int
  av_UtilityScore :: int
  av_Timing :: ActivityTimingView

record SavedPlanView =
  sv_SavedPlanID :: uuid
  sv_SavedPlanRevision :: string
  sv_Activities :: "SavedActivityView list"
  sv_CreatedAtUnixMS :: i64

record DisplayScheduleInput =
  ds_LocalDate :: string
  ds_LocalTime :: string
  ds_TimeZoneName :: string

record ExecutionOperationView =
  ov_OperationID :: uuid
  ov_Kind :: operation_kind
  ov_State :: operation_state
  ov_LastStep :: string
  ov_TargetExecutionPlanID :: string
  ov_SafeErrorCode :: string
  ov_CreatedAtUnixMS :: i64
  ov_UpdatedAtUnixMS :: i64
  ov_CompletedAtUnixMS :: "i64 option"

record ActiveExecutionView =
  ev_ExecutionPlanID :: uuid
  ev_ActivatedAtUnixMS :: i64

record TripView =
  vw_TripID :: uuid
  vw_TripName :: string
  vw_DefaultTimeZoneName :: string
  vw_TripRevision :: string
  vw_ExecutionState :: execution_state
  vw_DisplaySchedule :: "DisplayScheduleInput option"
  vw_SavedPlan :: SavedPlanView
  vw_TransitionOperation :: "ExecutionOperationView option"
  vw_ActiveExecution :: "ActiveExecutionView option"
  vw_CreatedAtUnixMS :: i64
  vw_UpdatedAtUnixMS :: i64

record ExecutionTransitionView =
  xt_Trip :: TripView
  xt_Operation :: ExecutionOperationView

record web =
  zones :: "string \<Rightarrow> location option"
  pg_date :: "string \<Rightarrow> string option"
  pg_time :: "string \<Rightarrow> string option"
  marshal_trip :: "TripView \<Rightarrow> bytes"
  unmarshal_trip :: "bytes \<Rightarrow> TripView option"
  marshal_transition :: "ExecutionTransitionView \<Rightarrow> bytes"
  unmarshal_transition :: "bytes \<Rightarrow> ExecutionTransitionView option"

section \<open>Reading\<close>

text \<open>\<open>(EXTRACT(EPOCH FROM t) * 1000)::bigint\<close> rounds to the nearest integer.\<close>

definition epoch_millis :: "time \<Rightarrow> i64" where
  "epoch_millis t = (if 0 \<le> t then (t + 500) div 1000 else - ((- t + 500) div 1000))"

definition summary_of :: "trip_row \<Rightarrow> TripSummary" where
  "summary_of t = \<lparr>ts_TripID = t_id t, ts_TripName = t_trip_name t, ts_TripRevision = uint64 (t_trip_revision t),
     ts_ExecutionState = t_execution_state t\<rparr>"

text \<open>\<open>ORDER BY updated_at DESC, id\<close>.\<close>

definition by_update :: "trip_row list \<Rightarrow> trip_row list" where
  "by_update ts = sort_key (\<lambda>t. - t_updated_at t) (sort_key t_id ts)"

definition summary_step :: "trip_row \<Rightarrow> TripSummary list \<Rightarrow> TripSummary list result" where
  "summary_step t acc = (if t_trip_revision t < 0 then Inl (ErrText ''trip revision is invalid'')
     else Inr (acc @ [summary_of t]))"

definition List_trips :: "uuid \<Rightarrow> web_db \<Rightarrow> TripList result" where
  "List_trips userID d =
     (if \<not> validCanonicalUUID userID then Inl (ErrText ''user id is invalid'')
      else bindr (for_each summary_step (by_update (sql_select (\<lambda>t. t_owner_user_id t = userID \<and>
          t_execution_state t = ExecInactive) (trips (core d)))) []) (\<lambda>inactive.
        case by_update (sql_select (\<lambda>t. t_owner_user_id t = userID \<and> t_execution_state t \<noteq> ExecInactive)
            (trips (core d))) of
          [] \<Rightarrow> Inr \<lparr>tl_InactiveTrips = inactive, tl_CurrentExecutionTrip = None\<rparr>
        | t # _ \<Rightarrow> if t_trip_revision t < 0 then Inl (ErrText ''trip revision is invalid'')
            else Inr \<lparr>tl_InactiveTrips = inactive, tl_CurrentExecutionTrip = Some (summary_of t)\<rparr>))"

definition place_view :: "place_row \<Rightarrow> PlaceView" where
  "place_view p = \<lparr>pv_PlaceID = pl_id p, pv_Latitude = pl_latitude p, pv_Longitude = pl_longitude p,
     pv_FormattedAddress = (case pl_formatted_address p of None \<Rightarrow> [] | Some s \<Rightarrow> s),
     pv_DisplayName = pl_display_name p, pv_TimeZoneName = pl_time_zone_name p,
     pv_CreatedAtUnixMS = UnixMilli (pl_created_at p)\<rparr>"

definition plan_windows :: "uuid \<Rightarrow> uuid \<Rightarrow> web_db \<Rightarrow> RelativeWindowInput list" where
  "plan_windows pid aid d = map (\<lambda>w. \<lparr>rw_OpensOffsetMS = sw_opens_offset w, rw_ClosesOffsetMS = sw_closes_offset w\<rparr>)
     (sort_key sw_window_index (sql_select (\<lambda>w. sw_plan_id w = pid \<and> sw_activity_id w = aid)
        (saved_activity_open_windows d)))"

definition schedule_of :: "saved_activity_row \<Rightarrow> schedule_view result" where
  "schedule_of a = (case sa_schedule_state a of
     Unscheduled \<Rightarrow> Inr (ScheduleView Unscheduled None)
   | Scheduled \<Rightarrow> deref (sa_start_offset a) (\<lambda>s. deref (sa_end_offset a) (\<lambda>t.
       Inr (ScheduleView Scheduled (Some (s, t))))))"

text \<open>An activity of the view; its place is found by the join, and its windows by a query of their own.\<close>

definition activity_view :: "web_db \<Rightarrow> uuid \<Rightarrow> saved_activity_row \<times> place_row \<Rightarrow> SavedActivityView result" where
  "activity_view d pid ap = (case ap of (a, p) \<Rightarrow>
     bindr (schedule_of a) (\<lambda>schedule.
     Inr \<lparr>av_ActivityID = sa_activity_id a, av_Place = place_view p, av_Ordinal = sa_ordinal a, av_Schedule = schedule,
       av_InboundTravelMode = sa_inbound_travel_mode a, av_ActivityClass = sa_activity_class a,
       av_PriorityRank = sa_priority_rank a, av_UtilityScore = sa_utility_score a,
       av_Timing = \<lparr>tv_OpenWindows = plan_windows pid (sa_activity_id a) d,
         tv_ReservationStartOffset = sa_reservation_start_offset a,
         tv_ReservationGraceSeconds = sa_reservation_grace_seconds a,
         tv_MandatoryDeadlineOffset = sa_deadline_offset a, tv_MinDurationSeconds = sa_min_duration_seconds a,
         tv_PreferredDurationSeconds = sa_preferred_duration_seconds a,
         tv_MaxDurationSeconds = sa_max_duration_seconds a, tv_Mandatory = sa_mandatory a,
         tv_CanShorten = sa_can_shorten a, tv_CanMove = sa_can_move a, tv_CanSkip = sa_can_skip a\<rparr>\<rparr>))"

definition join_places :: "(place_row \<Rightarrow> saved_activity_row \<Rightarrow> bool) \<Rightarrow> web_db \<Rightarrow> saved_activity_row list \<Rightarrow>
    (saved_activity_row \<times> place_row) list" where
  "join_places on d as = concat (map (\<lambda>a. map (\<lambda>p. (a, p)) (sql_select (\<lambda>p. on p a) (places d))) as)"

definition loadExecutionOperation :: "uuid \<Rightarrow> uuid \<Rightarrow> web_db \<Rightarrow> ExecutionOperationView result" where
  "loadExecutionOperation userID tripID d =
     (case sort_key (\<lambda>x. - x_updated_at x) (sql_select (\<lambda>x. x_owner_user_id x = userID \<and> x_trip_id x = tripID)
         (trip_execution_operations d)) of
        [] \<Rightarrow> Inl (ErrText ''trip transition operation is missing'')
      | x # _ \<Rightarrow> Inr \<lparr>ov_OperationID = x_id x, ov_Kind = x_kind x, ov_State = x_state x, ov_LastStep = x_last_step x,
          ov_TargetExecutionPlanID = (case x_target_execution_plan_id x of None \<Rightarrow> [] | Some p \<Rightarrow> p),
          ov_SafeErrorCode = (case x_safe_error_code x of None \<Rightarrow> [] | Some c \<Rightarrow> c),
          ov_CreatedAtUnixMS = UnixMilli (x_created_at x), ov_UpdatedAtUnixMS = UnixMilli (x_updated_at x),
          ov_CompletedAtUnixMS = map_option UnixMilli (x_completed_at x)\<rparr>)"

definition display_of :: "saved_plan_row option \<Rightarrow> DisplayScheduleInput option" where
  "display_of v = (case v of None \<Rightarrow> None
   | Some v \<Rightarrow> (case (v_display_date v, v_display_time v, v_display_zone v) of
       (Some da, Some ti, Some z) \<Rightarrow> Some \<lparr>ds_LocalDate = da, ds_LocalTime = ti, ds_TimeZoneName = z\<rparr>
     | _ \<Rightarrow> None))"

definition load_saved_plan :: "uuid \<Rightarrow> uuid \<Rightarrow> uuid \<Rightarrow> web_db \<Rightarrow> SavedPlanView result" where
  "load_saved_plan userID tripID pid d =
     (case query_row (\<lambda>v. v_id v = pid \<and> v_trip_id v = tripID \<and> v_owner_user_id v = userID) (saved_trip_plans d) of
        None \<Rightarrow> Inl (ErrSQL ''load saved plan'')
      | Some v \<Rightarrow>
        bindr (for_each (\<lambda>ap acc. bindr (activity_view d pid ap) (\<lambda>x. Inr (acc @ [x])))
          (join_places (\<lambda>p a. pl_id p = sa_place_id a) d (plan_activities pid d)) []) (\<lambda>activities.
        if activities = [] then Inl (ErrText ''saved trip plan has no activities'')
        else Inr \<lparr>sv_SavedPlanID = pid, sv_SavedPlanRevision = FormatInt (v_revision v), sv_Activities = activities,
          sv_CreatedAtUnixMS = UnixMilli (v_created_at v)\<rparr>))"

definition get :: "uuid \<Rightarrow> uuid \<Rightarrow> web_db \<Rightarrow> TripView result" where
  "get userID tripID d =
     (case query_row (\<lambda>t. t_owner_user_id t = userID \<and> t_id t = tripID) (trips (core d)) of
        None \<Rightarrow> Inl ErrTripNotFound
      | Some t \<Rightarrow> (case t_saved_plan_id t of
        None \<Rightarrow> Inl (ErrText ''saved trip metadata is invalid'')
      | Some pid \<Rightarrow>
        if t_trip_revision t < 0 \<or> pid = [] then Inl (ErrText ''saved trip metadata is invalid'')
        else
        bindr (load_saved_plan userID tripID pid d) (\<lambda>plan.
        bindr (if t_execution_state t = ExecActivating \<or> t_execution_state t = ExecDeactivating
               then bindr (loadExecutionOperation userID tripID d) (\<lambda>x. Inr (Some x)) else Inr None) (\<lambda>operation.
        Inr \<lparr>vw_TripID = t_id t, vw_TripName = t_trip_name t, vw_DefaultTimeZoneName = t_default_time_zone_name t,
          vw_TripRevision = FormatInt (t_trip_revision t), vw_ExecutionState = t_execution_state t,
          vw_DisplaySchedule = display_of (query_row (\<lambda>v. v_id v = pid) (saved_trip_plans d)),
          vw_SavedPlan = plan, vw_TransitionOperation = operation,
          vw_ActiveExecution = (case (t_active_execution_plan_id t, t_activated_at t) of
              (Some p, Some now) \<Rightarrow> Some \<lparr>ev_ExecutionPlanID = p, ev_ActivatedAtUnixMS = epoch_millis now\<rparr>
            | _ \<Rightarrow> None),
          vw_CreatedAtUnixMS = UnixMilli (t_created_at t), vw_UpdatedAtUnixMS = UnixMilli (t_updated_at t)\<rparr>))))"

definition Get :: "uuid \<Rightarrow> uuid \<Rightarrow> web_db \<Rightarrow> TripView result" where
  "Get userID tripID d =
     (if \<not> validCanonicalUUID userID \<or> \<not> validCanonicalUUID tripID
      then Inl (ErrText ''trip or user id is invalid'') else get userID tripID d)"

section \<open>Requests and their validation\<close>

record SavedScheduleInput =
  ss_State :: string
  ss_StartOffsetMS :: "i64 option"
  ss_EndOffsetMS :: "i64 option"

record SavedActivityTimingInput =
  ti_OpenWindows :: "RelativeWindowInput list option"
  ti_ReservationStartOffsetMS :: "i64 option"
  ti_ReservationGraceSeconds :: i64
  ti_MandatoryDeadlineOffset :: "i64 option"
  ti_MinDurationSeconds :: int
  ti_PreferredDurationSeconds :: int
  ti_MaxDurationSeconds :: int
  ti_Mandatory :: bool
  ti_CanShorten :: bool
  ti_CanMove :: bool
  ti_CanSkip :: bool

record SavedActivityInput =
  si_PlaceID :: uuid
  si_Ordinal :: int
  si_Schedule :: SavedScheduleInput
  si_InboundTravelMode :: string
  si_ActivityClass :: string
  si_PriorityRank :: int
  si_UtilityScore :: int
  si_Timing :: SavedActivityTimingInput

record CreateSavedTripRequest =
  cr_UserID :: uuid
  cr_IdempotencyKey :: uuid
  cr_RequestDigest :: bytes
  cr_TripName :: string
  cr_DefaultTimeZoneName :: string
  cr_DisplaySchedule :: "DisplayScheduleInput option"
  cr_Activities :: "SavedActivityInput list"

record UpdateSavedTripRequest =
  ur_TripName :: "string option"
  ur_DefaultTimeZoneName :: "string option"
  ur_DisplaySchedule :: "DisplayScheduleInput option"
  ur_RemoveDisplaySchedule :: "bool option"
  ur_UserID :: uuid
  ur_TripID :: uuid
  ur_IdempotencyKey :: uuid
  ur_ExpectedRevision :: u64
  ur_RequestDigest :: bytes

record DeleteSavedTripRequest =
  dr_UserID :: uuid
  dr_TripID :: uuid
  dr_IdempotencyKey :: uuid
  dr_ExpectedRevision :: u64
  dr_RequestDigest :: bytes

record SavedActivityMutationRequest =
  mu_UserID :: uuid
  mu_TripID :: uuid
  mu_ActivityID :: uuid
  mu_IdempotencyKey :: uuid
  mu_ExpectedRevision :: u64
  mu_RequestDigest :: bytes
  mu_Activity :: "SavedActivityInput option"

record MutatedSavedTrip =
  mt_Trip :: TripView
  mt_Duplicate :: bool

datatype saved_mutation = MutationAdd | MutationReplace | MutationDelete

definition validDurationRange :: "int \<Rightarrow> int \<Rightarrow> int \<Rightarrow> bool" where
  "validDurationRange lo preferred hi \<longleftrightarrow> 0 \<le> lo \<and> lo \<le> preferred \<and> preferred \<le> hi \<and> hi \<le> 86400"

definition validOptionalDayOffset :: "i64 option \<Rightarrow> bool" where
  "validOptionalDayOffset v = option_all (\<lambda>x. 0 \<le> x \<and> x \<le> 86400000) v"

definition validSavedSchedule :: "SavedScheduleInput \<Rightarrow> bool" where
  "validSavedSchedule s \<longleftrightarrow>
     (if ss_State s = ''unscheduled'' then ss_StartOffsetMS s = None \<and> ss_EndOffsetMS s = None
      else if ss_State s = ''scheduled'' then
        (case (ss_StartOffsetMS s, ss_EndOffsetMS s) of
           (Some a, Some b) \<Rightarrow> 0 \<le> a \<and> a < b \<and> b \<le> 86400000 | _ \<Rightarrow> False)
      else False)"

definition validRelativeWindow :: "RelativeWindowInput \<Rightarrow> bool" where
  "validRelativeWindow w \<longleftrightarrow> 0 \<le> rw_OpensOffsetMS w \<and> rw_OpensOffsetMS w < rw_ClosesOffsetMS w \<and>
     rw_ClosesOffsetMS w \<le> 86400000"

text \<open>The checks that \<open>validateCreateSavedTrip\<close> and \<open>validSavedActivityInput\<close> both make of an activity.\<close>

definition valid_activity_fields :: "SavedActivityInput \<Rightarrow> bool" where
  "valid_activity_fields a \<longleftrightarrow> validCanonicalUUID (si_PlaceID a) \<and>
     si_InboundTravelMode a \<in> {''walking'', ''driving''} \<and> si_ActivityClass a \<in> {''fixed'', ''flexible''} \<and>
     - 2147483648 \<le> si_PriorityRank a \<and> si_PriorityRank a \<le> 2147483647 \<and>
     - 2147483648 \<le> si_UtilityScore a \<and> si_UtilityScore a \<le> 2147483647 \<and>
     \<not> ti_CanShorten (si_Timing a) \<and>
     (case ti_OpenWindows (si_Timing a) of None \<Rightarrow> False
      | Some ws \<Rightarrow> length ws \<le> 32 \<and> list_all validRelativeWindow ws) \<and>
     0 \<le> ti_ReservationGraceSeconds (si_Timing a) \<and> ti_ReservationGraceSeconds (si_Timing a) \<le> 4294967295 \<and>
     validDurationRange (ti_MinDurationSeconds (si_Timing a)) (ti_PreferredDurationSeconds (si_Timing a))
       (ti_MaxDurationSeconds (si_Timing a)) \<and>
     validOptionalDayOffset (ti_ReservationStartOffsetMS (si_Timing a)) \<and>
     validOptionalDayOffset (ti_MandatoryDeadlineOffset (si_Timing a)) \<and> validSavedSchedule (si_Schedule a)"

definition validSavedActivityInput :: "SavedActivityInput \<Rightarrow> int \<Rightarrow> bool" where
  "validSavedActivityInput a maximumOrdinal \<longleftrightarrow>
     0 \<le> si_Ordinal a \<and> si_Ordinal a \<le> maximumOrdinal \<and> valid_activity_fields a"

definition valid_display :: "web \<Rightarrow> DisplayScheduleInput \<Rightarrow> bool" where
  "valid_display w ds \<longleftrightarrow> valid_date (ds_LocalDate ds) \<and> valid_time (ds_LocalTime ds) \<and>
     validTimeZoneName (zones w) (ds_TimeZoneName ds)"

definition valid_trip_name :: "string \<Rightarrow> bool" where
  "valid_trip_name n \<longleftrightarrow> n = TrimSpace n \<and> n \<noteq> [] \<and> length n \<le> 120"

definition validateCreateSavedTrip :: "web \<Rightarrow> CreateSavedTripRequest \<Rightarrow> unit result" where
  "validateCreateSavedTrip w rq =
     (if \<not> validCanonicalUUID (cr_UserID rq) \<or> \<not> validCanonicalUUID (cr_IdempotencyKey rq) \<or>
         \<not> valid_trip_name (cr_TripName rq) \<or> \<not> validTimeZoneName (zones w) (cr_DefaultTimeZoneName rq) \<or>
         cr_Activities rq = [] \<or> 64 < length (cr_Activities rq) \<or>
         \<not> option_all (valid_display w) (cr_DisplaySchedule rq) \<or>
         \<not> list_all (\<lambda>(index, a). si_Ordinal a = int index \<and> valid_activity_fields a) (enumerate 0 (cr_Activities rq))
      then Inl ErrSavedTripInput else Inr ())"

definition validateUpdateSavedTrip :: "web \<Rightarrow> UpdateSavedTripRequest \<Rightarrow> unit result" where
  "validateUpdateSavedTrip w rq =
     (if \<not> validCanonicalUUID (ur_UserID rq) \<or> \<not> validCanonicalUUID (ur_TripID rq) \<or>
         \<not> validCanonicalUUID (ur_IdempotencyKey rq) \<or>
         (ur_TripName rq = None \<and> ur_DefaultTimeZoneName rq = None \<and> ur_DisplaySchedule rq = None \<and>
          ur_RemoveDisplaySchedule rq = None) \<or>
         (ur_DisplaySchedule rq \<noteq> None \<and> ur_RemoveDisplaySchedule rq \<noteq> None) \<or>
         \<not> option_all valid_trip_name (ur_TripName rq) \<or>
         \<not> option_all (validTimeZoneName (zones w)) (ur_DefaultTimeZoneName rq) \<or>
         ur_RemoveDisplaySchedule rq = Some False \<or>
         \<not> option_all (valid_display w) (ur_DisplaySchedule rq)
      then Inl ErrSavedTripInput else Inr ())"

section \<open>Parts of the transactions\<close>

definition bind_row :: "uuid \<Rightarrow> http_row \<Rightarrow> http_row" where
  "bind_row tripID h = h\<lparr>h_trip_id := Some tripID, h_resource_id := Some tripID\<rparr>"

definition answer_row :: "int \<Rightarrow> string option \<Rightarrow> bytes option \<Rightarrow> string option \<Rightarrow> time \<Rightarrow> http_row \<Rightarrow> http_row" where
  "answer_row status ctype body etag now h = h\<lparr>h_state := Completed, h_response_status := Some status,
     h_content_type := ctype, h_response_body := body, h_response_etag := etag, h_completed_at := Some now\<rparr>"

definition in_progress :: "uuid \<Rightarrow> http_row \<Rightarrow> bool" where
  "in_progress recordID h \<longleftrightarrow> h_id h = recordID \<and> h_state h = InProgress"

definition trip_etag :: "TripView \<Rightarrow> string" where
  "trip_etag v = CHR 0x22 # ''trip-revision-'' @ vw_TripRevision v @ [CHR 0x22]"

text \<open>The end of a mutation: the record gets the trip, the status and the view as its response.\<close>

definition complete_mutation :: "ext \<Rightarrow> web \<Rightarrow> string \<Rightarrow> uuid \<Rightarrow> uuid \<Rightarrow> int \<Rightarrow> TripView \<Rightarrow> time \<Rightarrow> web_db \<Rightarrow> web_db result" where
  "complete_mutation e w label recordID tripID status v now d =
     bindr (exec_sql label (to_jsonb e (marshal_trip w v))) (\<lambda>body.
     exec_sql label (update_http (in_progress recordID)
       (\<lambda>h. answer_row status (Some ''application/json'') (Some body) (Some (trip_etag v)) now (bind_row tripID h)) d))"

definition commit_plan :: "string \<Rightarrow> uuid \<Rightarrow> web_db \<Rightarrow> web_db result" where
  "commit_plan label pid d = (if saved_plan_contiguous pid d then Inr d else Inl (ErrSQL label))"

definition replay_trip :: "web \<Rightarrow> string \<Rightarrow> int \<Rightarrow> tripMutationReplay \<Rightarrow> MutatedSavedTrip result" where
  "replay_trip w label status rp =
     (if mr_Status rp \<noteq> status \<or> mr_Body rp = [] then Inl (ErrText label)
      else case unmarshal_trip w (mr_Body rp) of
        None \<Rightarrow> Inl (ErrText label) | Some v \<Rightarrow> Inr \<lparr>mt_Trip = v, mt_Duplicate = True\<rparr>)"

record lockedSavedTrip =
  lk_Revision :: i64
  lk_PlanID :: uuid
  lk_TripName :: string
  lk_TimeZoneName :: string
  lk_DisplayDate :: "string option"
  lk_DisplayTime :: "string option"
  lk_DisplayZone :: "string option"

definition lockInactiveSavedTrip :: "uuid \<Rightarrow> uuid \<Rightarrow> u64 \<Rightarrow> web_db \<Rightarrow> lockedSavedTrip result" where
  "lockInactiveSavedTrip userID tripID expected d =
     (case query_row (\<lambda>t. t_id t = tripID \<and> t_owner_user_id t = userID) (trips (core d)) of
        None \<Rightarrow> Inl ErrTripNotFound
      | Some t \<Rightarrow> (case query_row (\<lambda>v. t_saved_plan_id t = Some (v_id v)) (saved_trip_plans d) of
          None \<Rightarrow> Inl ErrTripNotFound
        | Some v \<Rightarrow>
          if t_execution_state t \<noteq> ExecInactive then Inl ErrSavedTripNotInactive
          else if expected > MaxInt64 \<or> t_trip_revision t \<noteq> int64 expected then Inl ErrTripRevisionStale
          else Inr \<lparr>lk_Revision = t_trip_revision t, lk_PlanID = v_id v, lk_TripName = t_trip_name t,
            lk_TimeZoneName = t_default_time_zone_name t, lk_DisplayDate = v_display_date v,
            lk_DisplayTime = v_display_time v, lk_DisplayZone = v_display_zone v\<rparr>))"

text \<open>\<open>INSERT INTO saved_trip_plans\<close>; the display date and time are cast.\<close>

definition cast_optional :: "('a \<Rightarrow> 'a option) \<Rightarrow> 'a option \<Rightarrow> 'a option option" where
  "cast_optional f m = (case m of None \<Rightarrow> Some None | Some x \<Rightarrow> map_option Some (f x))"

definition add_saved_plan ::
  "web \<Rightarrow> string \<Rightarrow> uuid \<Rightarrow> uuid \<Rightarrow> uuid \<Rightarrow> i64 \<Rightarrow> string option \<Rightarrow> string option \<Rightarrow> string option \<Rightarrow> time \<Rightarrow> web_db \<Rightarrow>
     web_db result" where
  "add_saved_plan w label pid tripID userID revision da ti z now d =
     bindr (exec_sql label (cast_optional (pg_date w) da)) (\<lambda>da.
     bindr (exec_sql label (cast_optional (pg_time w) ti)) (\<lambda>ti.
     exec_sql label (insert_saved_plan \<lparr>v_id = pid, v_trip_id = tripID, v_owner_user_id = userID, v_revision = revision,
       v_authored_by_user_id = userID, v_display_date = da, v_display_time = ti, v_display_zone = z,
       v_created_at = now\<rparr> d)))"

definition schedule_state_of :: "string \<Rightarrow> schedule_state option" where
  "schedule_state_of s = (if s = ''scheduled'' then Some Scheduled else if s = ''unscheduled'' then Some Unscheduled else None)"

definition saved_row ::
  "uuid \<Rightarrow> uuid \<Rightarrow> uuid \<Rightarrow> uuid \<Rightarrow> uuid \<Rightarrow> SavedActivityInput \<Rightarrow> schedule_state \<Rightarrow> saved_activity_row" where
  "saved_row pid tripID userID aid placeID a st =
     \<lparr>sa_plan_id = pid, sa_trip_id = tripID, sa_owner_user_id = userID, sa_activity_id = aid, sa_place_id = placeID,
      sa_ordinal = si_Ordinal a, sa_schedule_state = st, sa_start_offset = ss_StartOffsetMS (si_Schedule a),
      sa_end_offset = ss_EndOffsetMS (si_Schedule a), sa_inbound_travel_mode = si_InboundTravelMode a,
      sa_activity_class = si_ActivityClass a, sa_priority_rank = si_PriorityRank a, sa_utility_score = si_UtilityScore a,
      sa_reservation_start_offset = ti_ReservationStartOffsetMS (si_Timing a),
      sa_reservation_grace_seconds = ti_ReservationGraceSeconds (si_Timing a),
      sa_deadline_offset = ti_MandatoryDeadlineOffset (si_Timing a),
      sa_min_duration_seconds = ti_MinDurationSeconds (si_Timing a),
      sa_preferred_duration_seconds = ti_PreferredDurationSeconds (si_Timing a),
      sa_max_duration_seconds = ti_MaxDurationSeconds (si_Timing a), sa_mandatory = ti_Mandatory (si_Timing a),
      sa_can_shorten = ti_CanShorten (si_Timing a), sa_can_move = ti_CanMove (si_Timing a),
      sa_can_skip = ti_CanSkip (si_Timing a)\<rparr>"

definition input_windows :: "SavedActivityInput \<Rightarrow> RelativeWindowInput list" where
  "input_windows a = (case ti_OpenWindows (si_Timing a) of None \<Rightarrow> [] | Some ws \<Rightarrow> ws)"

definition insertSavedActivity ::
  "string \<Rightarrow> string \<Rightarrow> uuid \<Rightarrow> uuid \<Rightarrow> uuid \<Rightarrow> uuid \<Rightarrow> SavedActivityInput \<Rightarrow> web_db \<Rightarrow> web_db result" where
  "insertSavedActivity label windowLabel pid tripID userID aid a d =
     (case query_row (\<lambda>p. pl_id p = si_PlaceID a \<and> pl_owner_user_id p = userID) (places d) of
        None \<Rightarrow> Inl ErrSavedTripInput
      | Some p \<Rightarrow>
        bindr (exec_sql label (Option.bind (schedule_state_of (ss_State (si_Schedule a))) (\<lambda>st.
          insert_saved_activity (saved_row pid tripID userID aid (pl_id p) a st) d))) (\<lambda>d1.
        for_each (\<lambda>(index, win) d. exec_sql windowLabel (insert_saved_window
            \<lparr>sw_plan_id = pid, sw_activity_id = aid, sw_window_index = int index,
             sw_opens_offset = rw_OpensOffsetMS win, sw_closes_offset = rw_ClosesOffsetMS win\<rparr> d))
          (enumerate 0 (input_windows a)) d1))"

section \<open>Creating\<close>

definition replayCreatedTrip :: "web \<Rightarrow> CreateSavedTripRequest \<Rightarrow> web_db \<Rightarrow> MutatedSavedTrip result" where
  "replayCreatedTrip w rq d =
     (case find_http (cr_UserID rq) ''POST'' ''/api/v1/trips'' (cr_IdempotencyKey rq) d of
        None \<Rightarrow> Inl (ErrSQL ''load trip idempotency replay'')
      | Some h \<Rightarrow>
        if h_request_digest h \<noteq> cr_RequestDigest rq then Inl ErrHTTPIdempotencyReused
        else if h_state h \<noteq> Completed \<or> h_response_status h \<noteq> Some 201 then Inl ErrHTTPMutationPending
        else case h_response_body h of
          None \<Rightarrow> Inl ErrHTTPMutationPending
        | Some body \<Rightarrow> (case unmarshal_trip w body of
            None \<Rightarrow> Inl (ErrText ''decode trip idempotency replay'')
          | Some v \<Rightarrow> Inr \<lparr>mt_Trip = v, mt_Duplicate = True\<rparr>))"

definition saved_trip_row :: "CreateSavedTripRequest \<Rightarrow> uuid \<Rightarrow> uuid \<Rightarrow> time \<Rightarrow> time \<Rightarrow> trip_row" where
  "saved_trip_row rq tripID pid created updated =
     \<lparr>t_id = tripID, t_owner_user_id = cr_UserID rq, t_default_time_zone_name = cr_DefaultTimeZoneName rq,
      t_trip_revision = 1, t_next_mutation_sequence = 1, t_finalized_mutation_sequence = 0, t_current_plan_id = None,
      t_updated_at = updated, t_saved_plan_id = Some pid, t_execution_state = ExecInactive,
      t_active_execution_plan_id = None, t_activated_at = None, t_transition_operation_id = None,
      t_trip_name = cr_TripName rq, t_created_at = created\<rparr>"

definition create_saved_activity_step ::
  "entropy \<Rightarrow> uuid \<Rightarrow> uuid \<Rightarrow> uuid \<Rightarrow> nat \<times> SavedActivityInput \<Rightarrow> web_db \<Rightarrow> web_db result" where
  "create_saved_activity_step rnd pid tripID userID ia d = (case ia of (index, a) \<Rightarrow>
     bindr (newAuthUUID (rnd (3 + index))) (\<lambda>aid.
     insertSavedActivity ''insert saved activity'' ''insert saved activity window'' pid tripID userID aid a d))"

definition Create_tx ::
  "ext \<Rightarrow> web \<Rightarrow> entropy \<Rightarrow> clock \<Rightarrow> CreateSavedTripRequest \<Rightarrow> web_db \<Rightarrow> err + (MutatedSavedTrip \<times> web_db)" where
  "Create_tx e w rnd clk rq d =
     bindr (newAuthUUID (rnd 0)) (\<lambda>recordID.
     bindr (exec_sql ''record trip idempotency'' (insert_http (new_http_row recordID (cr_UserID rq) (cr_IdempotencyKey rq)
         ''POST'' ''/api/v1/trips'' ''create_trip'' (cr_RequestDigest rq) (clk 0) (clk 1)) d)) (\<lambda>(inserted, d1).
     if \<not> inserted then bindr (replayCreatedTrip w rq d1) (\<lambda>r. Inr (r, d1))
     else
     bindr (newAuthUUID (rnd 1)) (\<lambda>tripID.
     bindr (newAuthUUID (rnd 2)) (\<lambda>pid.
     bindr (exec_sql ''insert inactive trip'' (on_core (insert_trip (saved_trip_row rq tripID pid (clk 2) (clk 3))) d1)) (\<lambda>d2.
     bindr (add_saved_plan w ''insert initial saved plan'' pid tripID (cr_UserID rq) 1
         (map_option ds_LocalDate (cr_DisplaySchedule rq)) (map_option ds_LocalTime (cr_DisplaySchedule rq))
         (map_option ds_TimeZoneName (cr_DisplaySchedule rq)) (clk 4) d2) (\<lambda>d3.
     bindr (for_each (create_saved_activity_step rnd pid tripID (cr_UserID rq)) (enumerate 0 (cr_Activities rq)) d3) (\<lambda>d4.
     bindr (get (cr_UserID rq) tripID d4) (\<lambda>v.
     bindr (complete_mutation e w ''complete trip idempotency'' recordID tripID 201 v (clk 5) d4) (\<lambda>d5.
     bindr (commit_plan ''commit saved-trip creation'' pid d5) (\<lambda>d6.
     Inr (\<lparr>mt_Trip = v, mt_Duplicate = False\<rparr>, d6)))))))))))"

definition Create ::
  "ext \<Rightarrow> web \<Rightarrow> entropy \<Rightarrow> clock \<Rightarrow> CreateSavedTripRequest \<Rightarrow> web_db \<Rightarrow> MutatedSavedTrip result \<times> web_db" where
  "Create e w rnd clk rq d =
     (case validateCreateSavedTrip w rq of
        Inl x \<Rightarrow> (Inl x, d)
      | Inr _ \<Rightarrow> run_tx (Create_tx e w rnd clk rq) d)"

section \<open>Changing an inactive trip\<close>

text \<open>
  The mutations of a trip reserve the idempotency key, answer a replay from the stored response, and else
  go on with the record they have inserted.
\<close>

definition http_mutation ::
  "entropy \<Rightarrow> clock \<Rightarrow> uuid \<Rightarrow> uuid \<Rightarrow> string \<Rightarrow> string \<Rightarrow> string \<Rightarrow> bytes \<Rightarrow> (tripMutationReplay \<Rightarrow> 'a result) \<Rightarrow>
     (uuid \<Rightarrow> web_db \<Rightarrow> err + ('a \<times> web_db)) \<Rightarrow> web_db \<Rightarrow> err + ('a \<times> web_db)" where
  "http_mutation rnd clk userID key method path operation digest answer body d =
     bindr (reserveTripMutation rnd clk userID key method path operation digest d) (\<lambda>(recordID, replay, d1).
     case replay of
       Some rp \<Rightarrow> bindr (answer rp) (\<lambda>x. Inr (x, d1))
     | None \<Rightarrow> body recordID d1)"

definition trips_path :: "uuid \<Rightarrow> string" where
  "trips_path tripID = ''/api/v1/trips/'' @ tripID"

text \<open>\<open>INSERT INTO saved_trip_activities ... SELECT $1, ...\<close> with the ordinals mapped, and the same for the windows.\<close>

definition copy_activities ::
  "string \<Rightarrow> uuid \<Rightarrow> uuid \<Rightarrow> (saved_activity_row \<Rightarrow> bool) \<Rightarrow> (int \<Rightarrow> int) \<Rightarrow> web_db \<Rightarrow> web_db result" where
  "copy_activities label oldPlanID newPlanID P f d =
     exec_sql label (insert_rows insert_saved_activity
       (map (\<lambda>a. a\<lparr>sa_plan_id := newPlanID, sa_ordinal := f (sa_ordinal a)\<rparr>)
         (sql_select (\<lambda>a. sa_plan_id a = oldPlanID \<and> P a) (saved_trip_activities d))) d)"

definition copy_windows :: "string \<Rightarrow> uuid \<Rightarrow> uuid \<Rightarrow> (uuid \<Rightarrow> bool) \<Rightarrow> web_db \<Rightarrow> web_db result" where
  "copy_windows label oldPlanID newPlanID P d =
     exec_sql label (insert_rows insert_saved_window (map (\<lambda>win. win\<lparr>sw_plan_id := newPlanID\<rparr>)
       (sql_select (\<lambda>win. sw_plan_id win = oldPlanID \<and> P (sw_activity_id win)) (saved_activity_open_windows d))) d)"

definition Update_body ::
  "ext \<Rightarrow> web \<Rightarrow> entropy \<Rightarrow> clock \<Rightarrow> UpdateSavedTripRequest \<Rightarrow> uuid \<Rightarrow> web_db \<Rightarrow> err + (MutatedSavedTrip \<times> web_db)" where
  "Update_body e w rnd clk rq recordID d =
     bindr (lockInactiveSavedTrip (ur_UserID rq) (ur_TripID rq) (ur_ExpectedRevision rq) d) (\<lambda>current.
     bindr (newAuthUUID (rnd 1)) (\<lambda>pid.
     let display = (\<lambda>old new. if ur_RemoveDisplaySchedule rq \<noteq> None then None
           else case ur_DisplaySchedule rq of None \<Rightarrow> old | Some ds \<Rightarrow> Some (new ds));
         name = (case ur_TripName rq of None \<Rightarrow> lk_TripName current | Some n \<Rightarrow> n);
         zone = (case ur_DefaultTimeZoneName rq of None \<Rightarrow> lk_TimeZoneName current | Some z \<Rightarrow> z) in
     bindr (add_saved_plan w ''insert updated saved plan'' pid (ur_TripID rq) (ur_UserID rq) (add_i64 (lk_Revision current) 1)
         (display (lk_DisplayDate current) ds_LocalDate) (display (lk_DisplayTime current) ds_LocalTime)
         (display (lk_DisplayZone current) ds_TimeZoneName) (clk 2) d) (\<lambda>d1.
     bindr (copy_activities ''copy updated saved activities'' (lk_PlanID current) pid (\<lambda>_. True) (\<lambda>k. k) d1) (\<lambda>d2.
     bindr (copy_windows ''copy updated saved windows'' (lk_PlanID current) pid (\<lambda>_. True) d2) (\<lambda>d3.
     bindr (exec_sql ''select updated saved plan'' (update_trips (\<lambda>t. t_id t = ur_TripID rq)
         (\<lambda>t. t\<lparr>t_trip_name := name, t_default_time_zone_name := zone, t_saved_plan_id := Some pid,
           t_trip_revision := t_trip_revision t + 1, t_updated_at := clk 3\<rparr>) d3)) (\<lambda>d4.
     bindr (get (ur_UserID rq) (ur_TripID rq) d4) (\<lambda>v.
     bindr (complete_mutation e w ''complete saved-trip update'' recordID (ur_TripID rq) 200 v (clk 4) d4) (\<lambda>d5.
     bindr (commit_plan ''commit saved-trip update'' pid d5) (\<lambda>d6.
     Inr (\<lparr>mt_Trip = v, mt_Duplicate = False\<rparr>, d6))))))))))"

definition Update ::
  "ext \<Rightarrow> web \<Rightarrow> entropy \<Rightarrow> clock \<Rightarrow> UpdateSavedTripRequest \<Rightarrow> web_db \<Rightarrow> MutatedSavedTrip result \<times> web_db" where
  "Update e w rnd clk rq d =
     (case validateUpdateSavedTrip w rq of
        Inl x \<Rightarrow> (Inl x, d)
      | Inr _ \<Rightarrow> run_tx (http_mutation rnd clk (ur_UserID rq) (ur_IdempotencyKey rq) ''PATCH'' (trips_path (ur_TripID rq))
          ''update_trip'' (ur_RequestDigest rq) (replay_trip w ''saved-trip update replay is invalid'' 200)
          (Update_body e w rnd clk rq)) d)"

text \<open>\<open>DELETE FROM trips\<close> with what the foreign keys cascade to.\<close>

definition delete_trip_core :: "uuid \<Rightarrow> db \<Rightarrow> db" where
  "delete_trip_core tid c =
     c\<lparr>trips := sql_delete (\<lambda>t. t_id t = tid) (trips c),
       trip_activities := sql_delete (\<lambda>a. a_trip_id a = tid) (trip_activities c),
       activity_open_windows := sql_delete (\<lambda>win. w_trip_id win = tid) (activity_open_windows c),
       trip_travel_delays := sql_delete (\<lambda>y. y_trip_id y = tid) (trip_travel_delays c),
       itinerary_plans := sql_delete (\<lambda>p. p_trip_id p = tid) (itinerary_plans c),
       plan_proposals := sql_delete (\<lambda>r. r_trip_id r = tid) (plan_proposals c),
       command_intents := sql_delete (\<lambda>i. i_trip_id i = tid) (command_intents c),
       planner_outbox := sql_delete (\<lambda>b. o_trip_id b = tid) (planner_outbox c),
       planner_snapshots := sql_delete (\<lambda>s. s_trip_id s = tid) (planner_snapshots c),
       trip_runtime_leases := sql_delete (\<lambda>l. l_trip_id l = tid) (trip_runtime_leases c)\<rparr>"

definition delete_trip :: "uuid \<Rightarrow> web_db \<Rightarrow> web_db" where
  "delete_trip tid d =
     d\<lparr>core := delete_trip_core tid (core d),
       http_idempotency_records := sql_update (\<lambda>h. h_trip_id h = Some tid) (\<lambda>h. h\<lparr>h_trip_id := None\<rparr>)
         (http_idempotency_records d),
       saved_trip_plans := sql_delete (\<lambda>v. v_trip_id v = tid) (saved_trip_plans d),
       saved_trip_activities := sql_delete (\<lambda>a. sa_trip_id a = tid) (saved_trip_activities d),
       saved_activity_open_windows := sql_delete (\<lambda>win. sql_exists (\<lambda>a. sa_trip_id a = tid \<and>
         sa_plan_id a = sw_plan_id win \<and> sa_activity_id a = sw_activity_id win) (saved_trip_activities d))
         (saved_activity_open_windows d),
       trip_execution_operations := sql_delete (\<lambda>x. x_trip_id x = tid) (trip_execution_operations d)\<rparr>"

definition Delete_body :: "clock \<Rightarrow> DeleteSavedTripRequest \<Rightarrow> uuid \<Rightarrow> web_db \<Rightarrow> err + (bool \<times> web_db)" where
  "Delete_body clk rq recordID d =
     bindr (lockInactiveSavedTrip (dr_UserID rq) (dr_TripID rq) (dr_ExpectedRevision rq) d) (\<lambda>_.
     bindr (exec_sql ''complete saved-trip delete'' (update_http (in_progress recordID)
         (\<lambda>h. answer_row 204 None None None (clk 2) (bind_row (dr_TripID rq) h)) d)) (\<lambda>d1.
     Inr (False, delete_trip (dr_TripID rq) d1)))"

definition replay_deleted :: "tripMutationReplay \<Rightarrow> bool result" where
  "replay_deleted rp = (if mr_Status rp \<noteq> 204 then Inl (ErrText ''saved-trip delete replay is invalid'') else Inr True)"

definition Delete :: "entropy \<Rightarrow> clock \<Rightarrow> DeleteSavedTripRequest \<Rightarrow> web_db \<Rightarrow> bool result \<times> web_db" where
  "Delete rnd clk rq d =
     (if \<not> validCanonicalUUID (dr_UserID rq) \<or> \<not> validCanonicalUUID (dr_TripID rq) \<or>
         \<not> validCanonicalUUID (dr_IdempotencyKey rq)
      then (Inl ErrSavedTripInput, d)
      else run_tx (http_mutation rnd clk (dr_UserID rq) (dr_IdempotencyKey rq) ''DELETE'' (trips_path (dr_TripID rq))
        ''delete_trip'' (dr_RequestDigest rq) replay_deleted (Delete_body clk rq)) d)"

section \<open>Changing the activities\<close>

text \<open>The \<open>CASE\<close> that renumbers the other activities.\<close>

definition shifted_ordinal :: "saved_mutation \<Rightarrow> int \<Rightarrow> int \<Rightarrow> int \<Rightarrow> int" where
  "shifted_ordinal kind old target k =
     (if kind = MutationAdd \<and> target \<le> k then k + 1
      else if kind = MutationDelete \<and> old < k then k - 1
      else if kind = MutationReplace \<and> target < old \<and> target \<le> k \<and> k < old then k + 1
      else if kind = MutationReplace \<and> old < target \<and> old < k \<and> k \<le> target then k - 1
      else k)"

definition copySavedActivitiesForMutation ::
  "uuid \<Rightarrow> uuid \<Rightarrow> saved_mutation \<Rightarrow> uuid \<Rightarrow> int \<Rightarrow> SavedActivityInput option \<Rightarrow> web_db \<Rightarrow> web_db result" where
  "copySavedActivitiesForMutation oldPlanID newPlanID kind oldActivityID oldOrdinal activity d =
     (let target = (case activity of None \<Rightarrow> 0 | Some a \<Rightarrow> si_Ordinal a);
          keep = (\<lambda>aid. kind = MutationAdd \<or> aid \<noteq> oldActivityID) in
      bindr (copy_activities ''copy activity mutation rows'' oldPlanID newPlanID (\<lambda>a. keep (sa_activity_id a))
        (shifted_ordinal kind oldOrdinal target) d) (\<lambda>d1.
      copy_windows ''copy activity mutation windows'' oldPlanID newPlanID keep d1))"

definition mutation_route :: "saved_mutation \<Rightarrow> uuid \<Rightarrow> uuid \<Rightarrow> string \<times> string \<times> string \<times> int" where
  "mutation_route kind tripID aid = (let path = trips_path tripID @ ''/activities'' in
     case kind of
       MutationAdd \<Rightarrow> (''POST'', ''add_activity'', path, 201)
     | MutationReplace \<Rightarrow> (''PATCH'', ''replace_activity'', path @ ''/'' @ aid, 200)
     | MutationDelete \<Rightarrow> (''DELETE'', ''delete_activity'', path @ ''/'' @ aid, 200))"

text \<open>The ordinal of the activity that is replaced or deleted, after the checks of the request.\<close>

definition mutation_target :: "saved_mutation \<Rightarrow> SavedActivityMutationRequest \<Rightarrow> uuid \<Rightarrow> web_db \<Rightarrow> int result" where
  "mutation_target kind rq pid d =
     (let activityCount = int (sql_count (\<lambda>a. sa_plan_id a = pid) (saved_trip_activities d)) in
      if kind = MutationAdd then
        (case mu_Activity rq of None \<Rightarrow> Inl (ErrText ''nil pointer dereference'')
         | Some a \<Rightarrow> if 64 \<le> activityCount \<or> \<not> validSavedActivityInput a activityCount then Inl ErrSavedTripInput else Inr 0)
      else case query_row (\<lambda>a. sa_plan_id a = pid \<and> sa_activity_id a = mu_ActivityID rq) (saved_trip_activities d) of
        None \<Rightarrow> Inl ErrSavedActivityNotFound
      | Some old \<Rightarrow>
          if kind = MutationDelete \<and> activityCount = 1 then Inl ErrSavedTripInput
          else if kind = MutationReplace \<and>
            \<not> (case mu_Activity rq of None \<Rightarrow> False | Some a \<Rightarrow> validSavedActivityInput a (activityCount - 1))
            then Inl ErrSavedTripInput
          else Inr (sa_ordinal old))"

definition mutateActivity_body ::
  "ext \<Rightarrow> web \<Rightarrow> entropy \<Rightarrow> clock \<Rightarrow> saved_mutation \<Rightarrow> SavedActivityMutationRequest \<Rightarrow> int \<Rightarrow> uuid \<Rightarrow> web_db \<Rightarrow>
     err + (MutatedSavedTrip \<times> web_db)" where
  "mutateActivity_body e w rnd clk kind rq status recordID d =
     bindr (lockInactiveSavedTrip (mu_UserID rq) (mu_TripID rq) (mu_ExpectedRevision rq) d) (\<lambda>current.
     bindr (mutation_target kind rq (lk_PlanID current) d) (\<lambda>oldOrdinal.
     bindr (newAuthUUID (rnd 1)) (\<lambda>pid.
     bindr (add_saved_plan w ''insert activity saved plan'' pid (mu_TripID rq) (mu_UserID rq) (add_i64 (lk_Revision current) 1)
         (lk_DisplayDate current) (lk_DisplayTime current) (lk_DisplayZone current) (clk 2) d) (\<lambda>d1.
     bindr (copySavedActivitiesForMutation (lk_PlanID current) pid kind (mu_ActivityID rq) oldOrdinal (mu_Activity rq) d1) (\<lambda>d2.
     bindr (if kind = MutationDelete then Inr d2
         else bindr (if kind = MutationAdd then newAuthUUID (rnd 2) else Inr (mu_ActivityID rq)) (\<lambda>aid.
           deref (mu_Activity rq) (\<lambda>a. insertSavedActivity ''insert activity mutation row''
             ''insert activity mutation window'' pid (mu_TripID rq) (mu_UserID rq) aid a d2))) (\<lambda>d3.
     bindr (exec_sql ''select activity saved plan'' (update_trips (\<lambda>t. t_id t = mu_TripID rq)
         (\<lambda>t. t\<lparr>t_saved_plan_id := Some pid, t_trip_revision := t_trip_revision t + 1, t_updated_at := clk 3\<rparr>) d3)) (\<lambda>d4.
     bindr (get (mu_UserID rq) (mu_TripID rq) d4) (\<lambda>v.
     bindr (complete_mutation e w ''complete activity mutation'' recordID (mu_TripID rq) status v (clk 4) d4) (\<lambda>d5.
     bindr (commit_plan ''commit activity mutation'' pid d5) (\<lambda>d6.
     Inr (\<lparr>mt_Trip = v, mt_Duplicate = False\<rparr>, d6)))))))))))"

definition mutateActivity ::
  "ext \<Rightarrow> web \<Rightarrow> entropy \<Rightarrow> clock \<Rightarrow> SavedActivityMutationRequest \<Rightarrow> saved_mutation \<Rightarrow> web_db \<Rightarrow>
     MutatedSavedTrip result \<times> web_db" where
  "mutateActivity e w rnd clk rq kind d =
     (if \<not> validCanonicalUUID (mu_UserID rq) \<or> \<not> validCanonicalUUID (mu_TripID rq) \<or>
         \<not> validCanonicalUUID (mu_IdempotencyKey rq) \<or> (kind \<noteq> MutationAdd \<and> \<not> validCanonicalUUID (mu_ActivityID rq)) \<or>
         (kind \<noteq> MutationDelete \<and> mu_Activity rq = None) \<or> (kind = MutationDelete \<and> mu_Activity rq \<noteq> None)
      then (Inl ErrSavedTripInput, d)
      else case mutation_route kind (mu_TripID rq) (mu_ActivityID rq) of (method, operation, path, status) \<Rightarrow>
        run_tx (http_mutation rnd clk (mu_UserID rq) (mu_IdempotencyKey rq) method path operation (mu_RequestDigest rq)
          (replay_trip w ''saved activity replay is invalid'' status) (mutateActivity_body e w rnd clk kind rq status)) d)"

definition AddActivity_saved :: "ext \<Rightarrow> web \<Rightarrow> entropy \<Rightarrow> clock \<Rightarrow> SavedActivityMutationRequest \<Rightarrow> web_db \<Rightarrow>
     MutatedSavedTrip result \<times> web_db" where
  "AddActivity_saved e w rnd clk rq d = mutateActivity e w rnd clk rq MutationAdd d"

definition ReplaceActivity_saved :: "ext \<Rightarrow> web \<Rightarrow> entropy \<Rightarrow> clock \<Rightarrow> SavedActivityMutationRequest \<Rightarrow> web_db \<Rightarrow>
     MutatedSavedTrip result \<times> web_db" where
  "ReplaceActivity_saved e w rnd clk rq d = mutateActivity e w rnd clk rq MutationReplace d"

definition DeleteActivity_saved :: "ext \<Rightarrow> web \<Rightarrow> entropy \<Rightarrow> clock \<Rightarrow> SavedActivityMutationRequest \<Rightarrow> web_db \<Rightarrow>
     MutatedSavedTrip result \<times> web_db" where
  "DeleteActivity_saved e w rnd clk rq d = mutateActivity e w rnd clk rq MutationDelete d"

section \<open>What the parts of the transactions keep\<close>

text \<open>A statement of a saved-trip transaction leaves the canonical tables, the operations and the places alone.\<close>

definition keeps :: "web_db \<Rightarrow> web_db \<Rightarrow> bool" where
  "keeps d d' \<longleftrightarrow> core d' = core d \<and> trip_execution_operations d' = trip_execution_operations d \<and> places d' = places d \<and>
     (web_ok d \<longrightarrow> web_ok d')"

text \<open>A statement of a saved-trip transaction that leaves the idempotency records alone as well.\<close>

definition keeps_http :: "web_db \<Rightarrow> web_db \<Rightarrow> bool" where
  "keeps_http d d' \<longleftrightarrow> keeps d d' \<and> http_idempotency_records d' = http_idempotency_records d"

lemma keeps_refl [simp]: "keeps d d" by (simp add: keeps_def)

lemma keeps_trans: "keeps d d' \<Longrightarrow> keeps d' d'' \<Longrightarrow> keeps d d''" by (simp add: keeps_def)

lemma keeps_http_refl [simp]: "keeps_http d d" by (simp add: keeps_http_def)

lemma keeps_http_trans: "keeps_http d d' \<Longrightarrow> keeps_http d' d'' \<Longrightarrow> keeps_http d d''"
  by (auto simp: keeps_http_def elim: keeps_trans)

lemma keeps_httpD: "keeps_http d d' \<Longrightarrow> keeps d d'" by (simp add: keeps_http_def)

lemma keeps_insert_http: "insert_http h d = Some (True, d') \<Longrightarrow> keeps d d'"
  using web_insert_http [of h d True d'] insert_http_SomeD [of h d d'] by (auto simp: keeps_def)

lemma keeps_update_http:
  "update_http P f d = Some d' \<Longrightarrow> (\<And>h. h_id (f h) = h_id h) \<Longrightarrow> (\<And>h. http_key (f h) = http_key h) \<Longrightarrow> keeps d d'"
  using web_update_http [of P f d d'] update_http_SomeD [of P f d d'] by (simp add: keeps_def)

lemma keeps_insert_saved_plan: "insert_saved_plan v d = Some d' \<Longrightarrow> keeps_http d d'"
  using web_insert_saved_plan [of v d d'] insert_saved_plan_SomeD [of v d d'] by (auto simp: keeps_def keeps_http_def)

lemma keeps_insert_saved_activity: "insert_saved_activity a d = Some d' \<Longrightarrow> keeps_http d d'"
  using web_insert_saved_activity [of a d d'] insert_saved_activity_SomeD [of a d d'] by (auto simp: keeps_def keeps_http_def)

lemma keeps_insert_saved_window: "insert_saved_window u d = Some d' \<Longrightarrow> keeps_http d d'"
  using web_insert_saved_window [of u d d'] insert_saved_window_SomeD [of u d d'] by (auto simp: keeps_def keeps_http_def)

lemma keeps_add_saved_plan:
  "add_saved_plan w label pid tripID userID revision da ti z now d = Inr d' \<Longrightarrow> keeps_http d d'"
  by (auto simp: add_saved_plan_def bindr_eq_Inr intro: keeps_insert_saved_plan)

lemma keeps_insert_rows:
  assumes "insert_rows ins rs d = Some d'" "\<And>r d d'. ins r d = Some d' \<Longrightarrow> keeps_http d d'"
  shows "keeps_http d d'"
  using insert_rows_invariant [of ins rs d d' "keeps_http d"] assms keeps_http_trans by (metis keeps_http_refl)

lemma keeps_copy_activities: "copy_activities label oldPlan newPlan P f d = Inr d' \<Longrightarrow> keeps_http d d'"
  by (auto simp: copy_activities_def intro: keeps_insert_rows keeps_insert_saved_activity)

lemma keeps_copy_windows: "copy_windows label oldPlan newPlan P d = Inr d' \<Longrightarrow> keeps_http d d'"
  by (auto simp: copy_windows_def intro: keeps_insert_rows keeps_insert_saved_window)

lemma keeps_copySavedActivitiesForMutation:
  "copySavedActivitiesForMutation oldPlan newPlan kind aid k a d = Inr d' \<Longrightarrow> keeps_http d d'"
  unfolding copySavedActivitiesForMutation_def Let_def bindr_eq_Inr
  by (elim exE conjE) (rule keeps_http_trans [OF keeps_copy_activities keeps_copy_windows])

lemma keeps_for_each:
  assumes "for_each step xs d = Inr d'" "\<And>x d d'. step x d = Inr d' \<Longrightarrow> keeps_http d d'"
  shows "keeps_http d d'"
  using for_each_invariant [of step xs d d' "keeps_http d"] assms keeps_http_trans by (metis keeps_http_refl)

lemma keeps_insertSavedActivity:
  assumes "insertSavedActivity label windowLabel pid tripID userID aid a d = Inr d'"
  shows "keeps_http d d'"
proof -
  from assms obtain r d1 where "insert_saved_activity r d = Some d1"
    and loop: "for_each (\<lambda>(index, win) d. exec_sql windowLabel (insert_saved_window
            \<lparr>sw_plan_id = pid, sw_activity_id = aid, sw_window_index = int index,
             sw_opens_offset = rw_OpensOffsetMS win, sw_closes_offset = rw_ClosesOffsetMS win\<rparr> d))
          (enumerate 0 (input_windows a)) d1 = Inr d'"
    unfolding insertSavedActivity_def by (auto simp: bindr_eq_Inr split: option.splits Option.bind_splits)
  from keeps_insert_saved_activity [OF this(1)] keeps_for_each [OF loop] show ?thesis
    by (rule keeps_http_trans) (auto intro: keeps_insert_saved_window)
qed

lemma keeps_create_saved_activity_step: "create_saved_activity_step rnd pid tripID userID ia d = Inr d' \<Longrightarrow> keeps_http d d'"
  unfolding create_saved_activity_step_def by (auto simp: bindr_eq_Inr split: prod.splits intro: keeps_insertSavedActivity)

lemma answer_row_keys [simp]:
  "h_id (answer_row status ctype body etag now h) = h_id h" "http_key (answer_row status ctype body etag now h) = http_key h"
  "h_request_digest (answer_row status ctype body etag now h) = h_request_digest h"
  "h_id (bind_row tripID h) = h_id h" "http_key (bind_row tripID h) = http_key h"
  "h_request_digest (bind_row tripID h) = h_request_digest h" "h_state (bind_row tripID h) = h_state h"
  by (simp_all add: answer_row_def bind_row_def)

lemma keeps_complete_mutation: "complete_mutation e w label rid tripID status v now d = Inr d' \<Longrightarrow> keeps d d'"
  unfolding complete_mutation_def bindr_eq_Inr exec_sql_eq_Inr
  by (elim exE conjE) (erule keeps_update_http, simp_all only: answer_row_keys)

lemma commit_plan_Inr [simp]: "commit_plan label pid d = Inr d' \<longleftrightarrow> saved_plan_contiguous pid d \<and> d' = d"
  by (auto simp: commit_plan_def)

lemma http_mutation_cases:
  assumes "http_mutation rnd clk userID key method path operation digest answer body d = Inr (x, d')"
  obtains (fresh) rid d1 where "newAuthUUID (rnd 0) = Inr rid"
      "insert_http (new_http_row rid userID key method path operation digest (clk 0) (clk 1)) d = Some (True, d1)"
      "body rid d1 = Inr (x, d')"
    | (replayed) h rp where "d' = d" "find_http userID method path key d = Some h" "load_replay digest h = Inr rp"
      "answer rp = Inr x"
  using assms unfolding http_mutation_def bindr_eq_Inr
  by (auto simp: bindr_eq_Inr elim!: reserve_cases)

section \<open>The lifecycle of the trips\<close>

text \<open>
  What the lifecycle of the trips depends on, what the numbering of their mutations depends on, and the link between the state of a trip and its operations:
  a trip in transition has the pending operation it names, and no other trip has a pending operation.
\<close>

definition trip_life :: "trip_row \<Rightarrow> uuid \<times> uuid \<times> execution_state \<times> uuid option" where
  "trip_life t = (t_id t, t_owner_user_id t, t_execution_state t, t_transition_operation_id t)"

definition trip_numbers :: "trip_row \<Rightarrow> uuid \<times> i64 \<times> i64" where
  "trip_numbers t = (t_id t, t_next_mutation_sequence t, t_finalized_mutation_sequence t)"

definition transition_kind :: "execution_state \<Rightarrow> operation_kind option" where
  "transition_kind st = (case st of ExecActivating \<Rightarrow> Some OpActivate | ExecDeactivating \<Rightarrow> Some OpDeactivate | _ \<Rightarrow> None)"

definition trip_linked :: "operation_row list \<Rightarrow> trip_row \<Rightarrow> bool" where
  "trip_linked xs t \<longleftrightarrow> (case transition_kind (t_execution_state t) of
     Some kind \<Rightarrow> (\<exists>x\<in>set xs. t_transition_operation_id t = Some (x_id x) \<and> x_trip_id x = t_id t \<and> x_kind x = kind \<and>
       x_state x = OpPending)
   | None \<Rightarrow> (\<forall>x\<in>set xs. x_trip_id x = t_id t \<longrightarrow> x_state x \<noteq> OpPending))"

definition lifecycle_ok :: "web_db \<Rightarrow> bool" where
  "lifecycle_ok d \<longleftrightarrow> (\<forall>t\<in>set (trips (core d)). trip_linked (trip_execution_operations d) t) \<and>
     (\<forall>x\<in>set (trip_execution_operations d). \<exists>t\<in>set (trips (core d)). t_id t = x_trip_id x)"

definition same_life :: "web_db \<Rightarrow> web_db \<Rightarrow> bool" where
  "same_life d d' \<longleftrightarrow> map trip_life (trips (core d')) = map trip_life (trips (core d)) \<and>
     trip_execution_operations d' = trip_execution_operations d \<and> (web_ok d \<longrightarrow> web_ok d')"

lemma trip_linked_life: "trip_life t = trip_life t' \<Longrightarrow> trip_linked xs t = trip_linked xs t'"
  by (simp add: trip_linked_def trip_life_def split: option.splits)

lemma lifecycle_lifeI:
  assumes "trip_life ` set (trips (core d')) = trip_life ` S" "trip_execution_operations d' = xs"
    "\<And>t. t \<in> S \<Longrightarrow> trip_linked xs t" "\<And>x. x \<in> set xs \<Longrightarrow> \<exists>t\<in>S. t_id t = x_trip_id x"
  shows "lifecycle_ok d'"
  unfolding lifecycle_ok_def assms(2)
proof (intro conjI ballI)
  fix t assume "t \<in> set (trips (core d'))"
  then have "trip_life t \<in> trip_life ` S" unfolding assms(1) [symmetric] by (rule imageI)
  then obtain s where "s \<in> S" "trip_life t = trip_life s" by (rule imageE)
  with assms(3) trip_linked_life show "trip_linked xs t" by metis
next
  fix x assume "x \<in> set xs"
  then obtain s where "s \<in> S" "t_id s = x_trip_id x" using assms(4) by blast
  then have "trip_life s \<in> trip_life ` set (trips (core d'))" unfolding assms(1) by blast
  then obtain t where "t \<in> set (trips (core d'))" "trip_life s = trip_life t" by (rule imageE)
  with \<open>t_id s = _\<close> show "\<exists>t\<in>set (trips (core d')). t_id t = x_trip_id x" by (auto simp: trip_life_def)
qed

lemma lifecycle_same:
  assumes "same_life d d'" "lifecycle_ok d"
  shows "lifecycle_ok d'"
proof (rule lifecycle_lifeI)
  show "trip_life ` set (trips (core d')) = trip_life ` set (trips (core d))"
    using assms(1) unfolding same_life_def by (metis list.set_map)
  show "trip_execution_operations d' = trip_execution_operations d" using assms(1) by (simp add: same_life_def)
qed (use assms(2) in \<open>auto simp: lifecycle_ok_def\<close>)

lemma same_life_refl [simp]: "same_life d d" by (simp add: same_life_def)

lemma same_life_trans: "same_life d d' \<Longrightarrow> same_life d' d'' \<Longrightarrow> same_life d d''"
  by (simp add: same_life_def)

lemma keeps_same_life: "keeps d d' \<Longrightarrow> same_life d d'"
  by (simp add: keeps_def same_life_def)

lemma same_life_update_trips:
  assumes "update_trips P f d = Some d'" "\<And>t. trip_life (f t) = trip_life t"
  shows "same_life d d'"
proof -
  have "t_id (f t) = t_id t" for t using assms(2) [of t] by (simp add: trip_life_def)
  then show ?thesis
    using update_trips_SomeD [OF assms(1)] web_update_trips [OF assms(1)] assms(2)
    by (simp add: same_life_def sql_update_key_map)
qed

section \<open>Changes of an inactive trip\<close>

text \<open>The common shape of the changes of a saved trip: a new plan version is written and then selected.\<close>

definition reselects ::
  "ext \<Rightarrow> web \<Rightarrow> uuid \<Rightarrow> uuid \<Rightarrow> u64 \<Rightarrow> int \<Rightarrow> uuid \<Rightarrow> web_db \<Rightarrow> MutatedSavedTrip \<Rightarrow> web_db \<Rightarrow> bool" where
  "reselects e w userID tripID expected status rid d x d' \<longleftrightarrow>
     (\<exists>current pid d3 f d4 v label now. lockInactiveSavedTrip userID tripID expected d = Inr current \<and> keeps_http d d3 \<and>
       (\<forall>t. trip_life (f t) = trip_life t \<and> trip_numbers (f t) = trip_numbers t \<and> t_saved_plan_id (f t) = Some pid \<and>
         t_trip_revision (f t) = t_trip_revision t + 1) \<and>
       update_trips (\<lambda>t. t_id t = tripID) f d3 = Some d4 \<and> get userID tripID d4 = Inr v \<and>
       complete_mutation e w label rid tripID status v now d4 = Inr d' \<and> saved_plan_contiguous pid d' \<and>
       x = \<lparr>mt_Trip = v, mt_Duplicate = False\<rparr>)"

lemma reselectsI:
  assumes "lockInactiveSavedTrip userID tripID expected d = Inr current" "keeps_http d d3"
    "update_trips (\<lambda>t. t_id t = tripID) f d3 = Some d4"
    "\<And>t. trip_life (f t) = trip_life t \<and> trip_numbers (f t) = trip_numbers t \<and> t_saved_plan_id (f t) = Some pid \<and>
       t_trip_revision (f t) = t_trip_revision t + 1"
    "get userID tripID d4 = Inr v" "complete_mutation e w label rid tripID status v now d4 = Inr d'" "saved_plan_contiguous pid d'"
  shows "reselects e w userID tripID expected status rid d \<lparr>mt_Trip = v, mt_Duplicate = False\<rparr> d'"
  unfolding reselects_def using assms by blast

lemma Update_reselects:
  assumes "Update_body e w rnd clk rq rid d = Inr (x, d')"
  shows "reselects e w (ur_UserID rq) (ur_TripID rq) (ur_ExpectedRevision rq) 200 rid d x d'"
proof -
  let ?upd = "\<lambda>name zone pid t. t\<lparr>t_trip_name := name, t_default_time_zone_name := zone, t_saved_plan_id := Some pid,
           t_trip_revision := t_trip_revision t + 1, t_updated_at := clk 3\<rparr>"
  from assms obtain current pid da ti z d1 d2 d3 name zone d4 v d5 where
    lock: "lockInactiveSavedTrip (ur_UserID rq) (ur_TripID rq) (ur_ExpectedRevision rq) d = Inr current"
    and plan: "add_saved_plan w ''insert updated saved plan'' pid (ur_TripID rq) (ur_UserID rq) (add_i64 (lk_Revision current) 1)
         da ti z (clk 2) d = Inr d1"
    and acts: "copy_activities ''copy updated saved activities'' (lk_PlanID current) pid (\<lambda>_. True) (\<lambda>k. k) d1 = Inr d2"
    and wins: "copy_windows ''copy updated saved windows'' (lk_PlanID current) pid (\<lambda>_. True) d2 = Inr d3"
    and upd: "update_trips (\<lambda>t. t_id t = ur_TripID rq) (?upd name zone pid) d3 = Some d4"
    and g: "get (ur_UserID rq) (ur_TripID rq) d4 = Inr v"
    and comp: "complete_mutation e w ''complete saved-trip update'' rid (ur_TripID rq) 200 v (clk 4) d4 = Inr d5"
    and fin: "saved_plan_contiguous pid d5" "d' = d5" "x = \<lparr>mt_Trip = v, mt_Duplicate = False\<rparr>"
    unfolding Update_body_def Let_def by (simp only: bindr_eq_Inr exec_sql_eq_Inr commit_plan_Inr) blast
  have k: "keeps_http d d3"
    by (intro keeps_http_trans [OF keeps_http_trans [OF keeps_add_saved_plan [OF plan] keeps_copy_activities [OF acts]]
        keeps_copy_windows [OF wins]])
  show ?thesis
    unfolding fin(3) by (rule reselectsI [OF lock k upd _ g]) (use comp fin in \<open>simp_all add: trip_life_def trip_numbers_def\<close>)
qed

lemma mutateActivity_parts:
  assumes "mutateActivity_body e w rnd clk kind rq status rid d = Inr (x, d')"
  obtains current oldOrdinal pid d1 d2 d3 d4 v where
    "lockInactiveSavedTrip (mu_UserID rq) (mu_TripID rq) (mu_ExpectedRevision rq) d = Inr current"
    "mutation_target kind rq (lk_PlanID current) d = Inr oldOrdinal" "newAuthUUID (rnd 1) = Inr pid"
    "add_saved_plan w ''insert activity saved plan'' pid (mu_TripID rq) (mu_UserID rq) (add_i64 (lk_Revision current) 1)
       (lk_DisplayDate current) (lk_DisplayTime current) (lk_DisplayZone current) (clk 2) d = Inr d1"
    "copySavedActivitiesForMutation (lk_PlanID current) pid kind (mu_ActivityID rq) oldOrdinal (mu_Activity rq) d1 = Inr d2"
    "kind = MutationDelete \<and> d3 = d2 \<or> kind \<noteq> MutationDelete \<and> (\<exists>aid a. mu_Activity rq = Some a \<and>
       (if kind = MutationAdd then newAuthUUID (rnd 2) else Inr (mu_ActivityID rq)) = Inr aid \<and>
       insertSavedActivity ''insert activity mutation row'' ''insert activity mutation window'' pid (mu_TripID rq) (mu_UserID rq)
         aid a d2 = Inr d3)"
    "update_trips (\<lambda>t. t_id t = mu_TripID rq)
       (\<lambda>t. t\<lparr>t_saved_plan_id := Some pid, t_trip_revision := t_trip_revision t + 1, t_updated_at := clk 3\<rparr>) d3 = Some d4"
    "get (mu_UserID rq) (mu_TripID rq) d4 = Inr v"
    "complete_mutation e w ''complete activity mutation'' rid (mu_TripID rq) status v (clk 4) d4 = Inr d'"
    "saved_plan_contiguous pid d'" "x = \<lparr>mt_Trip = v, mt_Duplicate = False\<rparr>"
proof -
  have step: "(if k = MutationDelete then Inr d2 else bindr m (\<lambda>aid. deref act (\<lambda>a. g aid a))) = Inr d3 \<Longrightarrow>
      k = MutationDelete \<and> d3 = d2 \<or> k \<noteq> MutationDelete \<and> (\<exists>aid a. act = Some a \<and> m = Inr aid \<and> g aid a = Inr d3)"
    for k :: saved_mutation and d2 d3 :: web_db and m :: "uuid result" and act :: "SavedActivityInput option" and g
    by (auto simp: bindr_eq_Inr deref_def split: if_splits option.splits)
  from assms show thesis
    unfolding mutateActivity_body_def bindr_eq_Inr exec_sql_eq_Inr commit_plan_Inr
    by (elim exE conjE) (rule that, assumption+, erule step, assumption+, simp_all)
qed

lemma mutateActivity_reselects:
  assumes "mutateActivity_body e w rnd clk kind rq status rid d = Inr (x, d')"
  shows "reselects e w (mu_UserID rq) (mu_TripID rq) (mu_ExpectedRevision rq) status rid d x d'"
  using assms
proof (cases rule: mutateActivity_parts)
  case (1 current oldOrdinal pid d1 d2 d3 d4 v)
  have "keeps_http d2 d3" using 1(6) keeps_insertSavedActivity by auto
  then have k: "keeps_http d d3"
    using keeps_http_trans [OF keeps_add_saved_plan [OF 1(4)] keeps_copySavedActivitiesForMutation [OF 1(5)]] by (rule keeps_http_trans [rotated])
  show ?thesis
    unfolding 1(11) by (rule reselectsI [OF 1(1) k 1(7) _ 1(8-10)]) (simp add: trip_life_def trip_numbers_def)
qed

lemma reselects_same_life:
  assumes "reselects e w userID tripID expected status rid d x d'"
  shows "same_life d d'"
proof -
  from assms obtain d3 f d4 v label now where k: "keeps_http d d3" and life: "\<And>t. trip_life (f t) = trip_life t"
    and upd: "update_trips (\<lambda>t. t_id t = tripID) f d3 = Some d4"
    and comp: "complete_mutation e w label rid tripID status v now d4 = Inr d'"
    unfolding reselects_def by blast
  show ?thesis
    by (rule same_life_trans [OF same_life_trans [OF keeps_same_life [OF keeps_httpD [OF k]] same_life_update_trips [OF upd life]]
        keeps_same_life [OF keeps_complete_mutation [OF comp]]])
qed

section \<open>Creating and deleting\<close>

lemma Create_parts:
  assumes "Create_tx e w rnd clk rq d = Inr (x, d')"
  obtains (fresh) rid d1 tripID pid d2 d3 d4 v where
      "newAuthUUID (rnd 0) = Inr rid"
      "insert_http (new_http_row rid (cr_UserID rq) (cr_IdempotencyKey rq) ''POST'' ''/api/v1/trips'' ''create_trip''
         (cr_RequestDigest rq) (clk 0) (clk 1)) d = Some (True, d1)"
      "newAuthUUID (rnd 1) = Inr tripID" "newAuthUUID (rnd 2) = Inr pid"
      "on_core (insert_trip (saved_trip_row rq tripID pid (clk 2) (clk 3))) d1 = Some d2"
      "add_saved_plan w ''insert initial saved plan'' pid tripID (cr_UserID rq) 1
         (map_option ds_LocalDate (cr_DisplaySchedule rq)) (map_option ds_LocalTime (cr_DisplaySchedule rq))
         (map_option ds_TimeZoneName (cr_DisplaySchedule rq)) (clk 4) d2 = Inr d3"
      "for_each (create_saved_activity_step rnd pid tripID (cr_UserID rq)) (enumerate 0 (cr_Activities rq)) d3 = Inr d4"
      "get (cr_UserID rq) tripID d4 = Inr v"
      "complete_mutation e w ''complete trip idempotency'' rid tripID 201 v (clk 5) d4 = Inr d'"
      "saved_plan_contiguous pid d'" "x = \<lparr>mt_Trip = v, mt_Duplicate = False\<rparr>"
    | (replayed) "d' = d" "replayCreatedTrip w rq d = Inr x"
proof -
  from assms obtain rid inserted d1 where rid: "newAuthUUID (rnd 0) = Inr rid"
    and ins: "insert_http (new_http_row rid (cr_UserID rq) (cr_IdempotencyKey rq) ''POST'' ''/api/v1/trips'' ''create_trip''
         (cr_RequestDigest rq) (clk 0) (clk 1)) d = Some (inserted, d1)"
    by (cases "newAuthUUID (rnd 0)"; cases "insert_http (new_http_row (projr (newAuthUUID (rnd 0))) (cr_UserID rq)
         (cr_IdempotencyKey rq) ''POST'' ''/api/v1/trips'' ''create_trip'' (cr_RequestDigest rq) (clk 0) (clk 1)) d")
      (auto simp: Create_tx_def)
  show thesis
  proof (cases inserted)
    case True
    then have eq: "inserted = True" by simp
    from assms show thesis
      unfolding Create_tx_def rid bindr_simps ins [unfolded eq] exec_sql_simps prod.case not_True_eq_False if_False
        bindr_eq_Inr exec_sql_eq_Inr commit_plan_Inr
      by (elim exE conjE) (rule fresh [OF rid ins [unfolded eq]], assumption+, simp_all)
  next
    case False
    then have eq: "inserted = False" by simp
    from insert_http_FalseD [OF ins [unfolded eq]] have "d1 = d" by simp
    with assms False ins rid show thesis
      unfolding Create_tx_def by (intro replayed) (auto simp: bindr_eq_Inr)
  qed
qed

text \<open>A new trip is inactive and has no operation.\<close>

definition adds_inactive :: "web_db \<Rightarrow> web_db \<Rightarrow> bool" where
  "adds_inactive d d' \<longleftrightarrow> (\<exists>t. map trip_life (trips (core d')) = map trip_life (trips (core d)) @ [trip_life t] \<and>
     t_execution_state t = ExecInactive \<and> t_id t \<notin> set (map t_id (trips (core d)))) \<and>
     trip_execution_operations d' = trip_execution_operations d \<and> (web_ok d \<longrightarrow> web_ok d')"

lemma one_executing_snoc: "one_executing ts \<Longrightarrow> t_execution_state t = ExecInactive \<Longrightarrow> one_executing (ts @ [t])"
  by (simp add: one_executing_def executing_def)

lemma adds_inactive_insert_trip:
  assumes "insert_trip t c = Some c'" "t_execution_state t = ExecInactive"
  shows "adds_inactive (d\<lparr>core := c\<rparr>) (d\<lparr>core := c'\<rparr>)"
  using assms schema_insert_trip [OF assms(1)] one_executing_snoc [of "trips c" t]
  by (auto simp: adds_inactive_def insert_trip_def fresh_in_def web_ok_def split: if_splits)

lemma adds_inactive_same:
  assumes "adds_inactive d d'" "same_life d' d''"
  shows "adds_inactive d d''"
  using assms by (auto simp: adds_inactive_def same_life_def)

lemma adds_inactive_after:
  assumes "same_life d d'" "adds_inactive d' d''"
  shows "adds_inactive d d''"
proof -
  have "map t_id ts = map fst (map trip_life ts)" for ts by (simp add: trip_life_def o_def)
  with assms show ?thesis by (auto simp: adds_inactive_def same_life_def)
qed

lemma lifecycle_adds_inactive:
  assumes "adds_inactive d d'" "lifecycle_ok d"
  shows "lifecycle_ok d'"
proof -
  from assms(1) obtain t where ts: "map trip_life (trips (core d')) = map trip_life (trips (core d)) @ [trip_life t]"
    and inact: "t_execution_state t = ExecInactive" and new: "t_id t \<notin> set (map t_id (trips (core d)))"
    and ops: "trip_execution_operations d' = trip_execution_operations d"
    unfolding adds_inactive_def by blast
  have linked: "trip_linked (trip_execution_operations d) t"
  proof -
    have "x_trip_id x \<noteq> t_id t" if x: "x \<in> set (trip_execution_operations d)" for x
    proof -
      from x assms(2) obtain s where "s \<in> set (trips (core d))" "t_id s = x_trip_id x"
        unfolding lifecycle_ok_def by blast
      then have "x_trip_id x \<in> set (map t_id (trips (core d)))" by (metis image_eqI list.set_map)
      with new show ?thesis by metis
    qed
    then show ?thesis by (simp add: trip_linked_def transition_kind_def inact)
  qed
  have img: "trip_life ` set (trips (core d')) = trip_life ` insert t (set (trips (core d)))"
    using arg_cong [OF ts, of set] by simp
  show ?thesis
    by (rule lifecycle_lifeI [OF img ops]) (use assms(2) linked in \<open>auto simp: lifecycle_ok_def\<close>)
qed

lemma Create_adds_inactive:
  assumes "Create_tx e w rnd clk rq d = Inr (x, d')"
  shows "d' = d \<or> adds_inactive d d'"
  using assms
proof (cases rule: Create_parts)
  case (fresh rid d1 tripID pid d2 d3 d4 v)
  from on_core_SomeD [OF fresh(5)] obtain c where c: "insert_trip (saved_trip_row rq tripID pid (clk 2) (clk 3)) (core d1) = Some c"
    and d2: "d2 = d1\<lparr>core := c\<rparr>" by blast
  have "adds_inactive d1 d2"
    using adds_inactive_insert_trip [OF c, of d1] by (simp add: d2 saved_trip_row_def)
  moreover have "same_life d2 d'"
    by (rule same_life_trans [OF keeps_same_life [OF keeps_httpD [OF keeps_http_trans [OF keeps_add_saved_plan [OF fresh(6)]
        keeps_for_each [OF fresh(7) keeps_create_saved_activity_step]]]] keeps_same_life [OF keeps_complete_mutation [OF fresh(9)]]])
  ultimately have "adds_inactive d d'"
    using adds_inactive_after [OF keeps_same_life [OF keeps_insert_http [OF fresh(2)]]] adds_inactive_same by blast
  then show ?thesis ..
qed simp

lemma distinct_delete_filter:
  "distinct (map key (filter Q t)) \<Longrightarrow> distinct (map key (filter Q (sql_delete P t)))"
proof -
  have "filter Q (sql_delete P t) = filter (\<lambda>r. \<not> P r) (filter Q t)" by (simp add: sql_delete_def conj_commute)
  moreover assume "distinct (map key (filter Q t))"
  ultimately show ?thesis by (metis distinct_map_filter)
qed

lemmas delete_rules = distinct_sql_delete list_all_delete distinct_delete_filter

lemma schema_delete_trip: "schema_ok c \<Longrightarrow> schema_ok (delete_trip_core tid c)"
  by (simp add: schema_ok_def delete_trip_core_def trips_ok_def activities_ok_def windows_ok_def delays_ok_def plans_ok_def
      proposals_ok_def intents_ok_def outbox_ok_def snapshots_ok_def leases_ok_def delete_rules)

lemma trips_delete_trip: "trips (delete_trip_core tid c) = sql_delete (\<lambda>t. t_id t = tid) (trips c)"
  by (simp add: delete_trip_core_def)

lemma https_ok_unbind: "https_ok hs \<Longrightarrow> https_ok (sql_update P (\<lambda>h. h\<lparr>h_trip_id := None\<rparr>) hs)"
  unfolding https_ok_def
  by (intro conjI LR_Database.distinct_update list_all_update) (simp_all add: http_check_def)

lemma saved_refs_delete_trip: "saved_refs_ok d \<Longrightarrow> saved_refs_ok (delete_trip tid d)"
  by (fastforce simp: saved_refs_ok_def delete_trip_def set_sql_delete)

lemma places_delete_trip [simp]: "places (delete_trip tid d) = places d" "core (delete_trip tid d) = delete_trip_core tid (core d)"
  by (simp_all add: delete_trip_def)

lemma web_delete_trip: "web_ok d \<Longrightarrow> web_ok (delete_trip tid d)"
  using saved_refs_delete_trip [of d tid]
  by (simp add: web_ok_def delete_trip_def schema_delete_trip https_ok_unbind saved_plans_ok_def saved_activities_ok_def
      saved_windows_ok_def operations_ok_def one_executing_def delete_rules trips_delete_trip)

lemma lifecycle_delete_trip: "lifecycle_ok d \<Longrightarrow> lifecycle_ok (delete_trip tid d)"
  unfolding lifecycle_ok_def
proof (elim conjE, intro conjI ballI)
  fix t assume linked: "\<forall>t\<in>set (trips (core d)). trip_linked (trip_execution_operations d) t"
    and t: "t \<in> set (trips (core (delete_trip tid d)))"
  from t have t: "t \<in> set (trips (core d))" and ne: "t_id t \<noteq> tid"
    by (simp_all add: delete_trip_def delete_trip_core_def set_sql_delete)
  from linked t have "trip_linked (trip_execution_operations d) t" by blast
  with ne show "trip_linked (trip_execution_operations (delete_trip tid d)) t"
    unfolding trip_linked_def by (auto simp: delete_trip_def set_sql_delete split: option.splits)
next
  fix x assume "\<forall>x\<in>set (trip_execution_operations d). \<exists>t\<in>set (trips (core d)). t_id t = x_trip_id x"
    "x \<in> set (trip_execution_operations (delete_trip tid d))"
  then show "\<exists>t\<in>set (trips (core (delete_trip tid d))). t_id t = x_trip_id x"
    by (fastforce simp: delete_trip_def trips_delete_trip set_sql_delete)
qed

lemma Delete_body_parts:
  assumes "Delete_body clk rq rid d = Inr (x, d')"
  obtains current d1 where "lockInactiveSavedTrip (dr_UserID rq) (dr_TripID rq) (dr_ExpectedRevision rq) d = Inr current"
    "update_http (in_progress rid) (\<lambda>h. answer_row 204 None None None (clk 2) (bind_row (dr_TripID rq) h)) d = Some d1"
    "keeps d d1" "d' = delete_trip (dr_TripID rq) d1" "\<not> x"
proof -
  from assms obtain current d1 where *: "lockInactiveSavedTrip (dr_UserID rq) (dr_TripID rq) (dr_ExpectedRevision rq) d = Inr current"
    "update_http (in_progress rid) (\<lambda>h. answer_row 204 None None None (clk 2) (bind_row (dr_TripID rq) h)) d = Some d1"
    "d' = delete_trip (dr_TripID rq) d1" "\<not> x"
    by (auto simp: Delete_body_def bindr_eq_Inr)
  have "keeps d d1" by (rule keeps_update_http [OF *(2)]) (simp_all only: answer_row_keys)
  with * that show thesis by blast
qed

text \<open>What the lifecycle requires, kept by the operations on saved trips.\<close>

definition life_ok :: "web_db \<Rightarrow> bool" where
  "life_ok d \<longleftrightarrow> web_ok d \<and> lifecycle_ok d"

lemma life_same: "same_life d d' \<Longrightarrow> life_ok d \<Longrightarrow> life_ok d'"
  using lifecycle_same [of d d'] by (simp add: life_ok_def same_life_def)

lemma http_mutation_life:
  assumes "http_mutation rnd clk userID key method path operation digest answer body d = Inr (x, d')"
    "\<And>rid d1 x d'. body rid d1 = Inr (x, d') \<Longrightarrow> life_ok d1 \<Longrightarrow> life_ok d'" "life_ok d"
  shows "life_ok d'"
  using assms(1)
proof (cases rule: http_mutation_cases)
  case (fresh rid d1)
  from life_same [OF keeps_same_life [OF keeps_insert_http [OF fresh(2)]] assms(3)] assms(2) [OF fresh(3)] show ?thesis by blast
qed (use assms(3) in simp)

lemma run_tx_life:
  "run_tx body d = (r, d') \<Longrightarrow> (\<And>x. body d = Inr (x, d') \<Longrightarrow> life_ok d') \<Longrightarrow> life_ok d \<Longrightarrow> life_ok d'"
  by (auto simp: run_tx_def split: sum.splits)

lemma Update_life: "Update e w rnd clk rq d = (r, d') \<Longrightarrow> life_ok d \<Longrightarrow> life_ok d'"
  unfolding Update_def
  by (auto split: sum.splits elim!: run_tx_life http_mutation_life intro: life_same reselects_same_life Update_reselects)

lemma mutateActivity_life: "mutateActivity e w rnd clk rq kind d = (r, d') \<Longrightarrow> life_ok d \<Longrightarrow> life_ok d'"
  unfolding mutateActivity_def
  by (auto split: if_splits prod.splits elim!: run_tx_life http_mutation_life
      intro: life_same reselects_same_life mutateActivity_reselects)

lemma Create_life: "Create e w rnd clk rq d = (r, d') \<Longrightarrow> life_ok d \<Longrightarrow> life_ok d'"
  using lifecycle_adds_inactive [of d d'] Create_adds_inactive [of e w rnd clk rq d _ d']
  by (auto simp: Create_def run_tx_def life_ok_def adds_inactive_def split: sum.splits)

lemma Delete_life: "Delete rnd clk rq d = (r, d') \<Longrightarrow> life_ok d \<Longrightarrow> life_ok d'"
proof -
  have "life_ok d'" if "Delete_body clk rq rid d1 = Inr (x, d')" "life_ok d1" for rid d1 x d'
    using that(1)
  proof (cases rule: Delete_body_parts)
    case (1 current d2)
    from life_same [OF keeps_same_life [OF 1(3)] that(2)] show ?thesis
      by (simp add: 1(4) life_ok_def web_delete_trip lifecycle_delete_trip)
  qed
  then show "Delete rnd clk rq d = (r, d') \<Longrightarrow> life_ok d \<Longrightarrow> life_ok d'"
    unfolding Delete_def by (auto split: if_splits elim!: run_tx_life http_mutation_life)
qed

end
