(* ===== verification/LR_Tokens.thy ===== *)
theory LR_Tokens
  imports LR_Database
begin

text \<open>
  The opaque tokens and the key ring of \<open>persistence/http_authentication.go\<close>: tokens are 32 random bytes in
  unpadded base64url, and the keys are found by their identifier.
\<close>

section \<open>Base64\<close>

text \<open>\<open>base64.RawURLEncoding\<close>: the alphabet, the encoding, and the decoding, which skips line ends.\<close>

definition base64_alphabet :: string where
  "base64_alphabet = ''ABCDEFGHIJKLMNOPQRSTUVWXYZabcdefghijklmnopqrstuvwxyz0123456789-_''"

definition base64_char :: "nat \<Rightarrow> char" where
  "base64_char n = base64_alphabet ! n"

definition base64_value :: "char \<Rightarrow> nat option" where
  "base64_value c = List.find (\<lambda>i. base64_char i = c) [0..<64]"

fun base64_encode :: "bytes \<Rightarrow> string" where
  "base64_encode [] = []"
| "base64_encode [a] = (let n = unat a in [base64_char (n div 4), base64_char (n mod 4 * 16)])"
| "base64_encode [a, b] = (let n = unat a * 256 + unat b in
     [base64_char (n div 1024), base64_char (n div 16 mod 64), base64_char (n mod 16 * 4)])"
| "base64_encode (a # b # c # bs) = (let n = (unat a * 256 + unat b) * 256 + unat c in
     [base64_char (n div 262144), base64_char (n div 4096 mod 64), base64_char (n div 64 mod 64), base64_char (n mod 64)] @
     base64_encode bs)"

fun base64_bytes :: "nat list \<Rightarrow> bytes option" where
  "base64_bytes [] = Some []"
| "base64_bytes [a] = None"
| "base64_bytes [a, b] = (let n = a * 64 + b in Some [word_of_nat (n div 16)])"
| "base64_bytes [a, b, c] = (let n = (a * 64 + b) * 64 + c in Some [word_of_nat (n div 1024), word_of_nat (n div 4 mod 256)])"
| "base64_bytes (a # b # c # d # ns) = (let n = ((a * 64 + b) * 64 + c) * 64 + d in
     map_option (\<lambda>bs. [word_of_nat (n div 65536), word_of_nat (n div 256 mod 256), word_of_nat (n mod 256)] @ bs) (base64_bytes ns))"

definition line_end :: "char \<Rightarrow> bool" where
  "line_end c \<longleftrightarrow> c = CHR 0x0A \<or> c = CHR 0x0D"

definition base64_decode :: "string \<Rightarrow> bytes option" where
  "base64_decode s = (let vs = map base64_value (filter (\<lambda>c. \<not> line_end c) s) in
     if None \<in> set vs then None else base64_bytes (map the vs))"

section \<open>Tokens and keys\<close>

definition authTokenBytes :: nat where "authTokenBytes = 32"

definition maximumOpaqueToken :: nat where "maximumOpaqueToken = 43"

definition validOpaqueToken :: "string \<Rightarrow> bool" where
  "validOpaqueToken v \<longleftrightarrow> length v = maximumOpaqueToken \<and>
     (case base64_decode v of None \<Rightarrow> False | Some raw \<Rightarrow> length raw = authTokenBytes \<and> base64_encode raw = v)"

definition newOpaqueToken :: "bytes option \<Rightarrow> string result" where
  "newOpaqueToken rnd = (case rnd of None \<Rightarrow> Inl (ErrText ''generate opaque token'') | Some raw \<Rightarrow> Inr (base64_encode raw))"

definition sha256Bytes :: "ext \<Rightarrow> string \<Rightarrow> bytes" where
  "sha256Bytes e s = sha256 e (bytes_of_string s)"

record HMACKeyRing =
  kr_CurrentID :: string
  kr_CurrentValue :: bytes
  kr_Previous :: "(string \<times> bytes) list"

definition key_of :: "HMACKeyRing \<Rightarrow> string \<Rightarrow> bytes option" where
  "key_of keys kid = (if kid = kr_CurrentID keys then Some (kr_CurrentValue keys) else map_of (kr_Previous keys) kid)"

text \<open>\<open>crypto/hmac\<close> with SHA-256 is the argument \<open>mac\<close>, from the key and the message.\<close>

definition HMAC :: "(bytes \<Rightarrow> bytes \<Rightarrow> bytes) \<Rightarrow> HMACKeyRing \<Rightarrow> string \<Rightarrow> bytes \<Rightarrow> bytes option" where
  "HMAC mac keys kid msg = map_option (\<lambda>key. mac key msg) (key_of keys kid)"

section \<open>Round trip\<close>

lemma base64_value_char [simp]: "n < 64 \<Longrightarrow> base64_value (base64_char n) = Some n"
proof -
  have "list_all (\<lambda>n. base64_value (base64_char n) = Some n) [0..<64]"
    by code_simp
  then show "n < 64 \<Longrightarrow> base64_value (base64_char n) = Some n" by (simp add: list_all_iff)
qed

lemma base64_char_no_line_end [simp]: "n < 64 \<Longrightarrow> \<not> line_end (base64_char n)"
proof -
  have "list_all (\<lambda>n. \<not> line_end (base64_char n)) [0..<64]"
    by code_simp
  then show "n < 64 \<Longrightarrow> \<not> line_end (base64_char n)" by (simp add: list_all_iff)
qed

text \<open>The digits of the encoding.\<close>

fun base64_digits :: "bytes \<Rightarrow> nat list" where
  "base64_digits [] = []"
| "base64_digits [a] = [unat a div 4, unat a mod 4 * 16]"
| "base64_digits [a, b] = (let n = unat a * 256 + unat b in [n div 1024, n div 16 mod 64, n mod 16 * 4])"
| "base64_digits (a # b # c # bs) = (let n = (unat a * 256 + unat b) * 256 + unat c in
     [n div 262144, n div 4096 mod 64, n div 64 mod 64, n mod 64] @ base64_digits bs)"

lemma byte_bound: "unat (b :: byte) < 256" using unsigned_less [of b, where ?'a = nat] by simp

lemma byte_le: "unat (b :: byte) \<le> 255" using byte_bound [of b] by simp

lemma byte_bound_div: "unat (b :: byte) div 4 < 64" using byte_bound [of b] by linarith

lemma base64_digits_bound: "\<forall>n\<in>set (base64_digits bs). n < 64"
proof (induction bs rule: base64_digits.induct)
  case (3 a b)
  have "(unat a * 256 + unat b) div 1024 < 64" using byte_bound [of a] byte_bound [of b] by linarith
  then show ?case by (auto simp: Let_def)
next
  case (4 a b c bs)
  have "((unat a * 256 + unat b) * 256 + unat c) div 262144 < 64"
    by (rule less_mult_imp_div_less) (use byte_le [of a] byte_le [of b] byte_le [of c] in simp)
  with 4 show ?case by (auto simp: Let_def)
qed (auto simp: byte_bound_div)

lemma base64_encode_digits: "base64_encode bs = map base64_char (base64_digits bs)"
  by (induction bs rule: base64_digits.induct) (simp_all add: Let_def)

lemma join_digits: "c = a * b \<Longrightarrow> (n :: nat) div c * a + n div b mod a = n div b"
  by (simp add: mult.commute [of a] div_mult2_eq)

lemma join_last: "(n :: nat) div b * (b * k) + n mod b * k = n * k"
proof -
  have "n div b * (b * k) + n mod b * k = (n div b * b + n mod b) * k" by (simp only: add_mult_distrib mult.assoc)
  then show ?thesis by simp
qed

lemma split_byte: "(n * 256 + unat (b :: byte)) div 256 = n" "(n * 256 + unat b) mod 256 = unat b"
  using byte_bound [of b] by simp_all

lemma base64_bytes_digits: "base64_bytes (base64_digits bs) = Some bs"
proof (induction bs rule: base64_digits.induct)
  case (2 a)
  have "(unat a div 4 * 64 + unat a mod 4 * 16) div 16 = unat a" using join_last [of "unat a" 4 16] by simp
  then show ?case by (simp add: Let_def)
next
  case (3 a b)
  define n where "n = unat a * 256 + unat b"
  have "n div 1024 * 64 + n div 16 mod 64 = n div 16" by (rule join_digits) simp
  then have join: "(n div 1024 * 64 + n div 16 mod 64) * 64 + n mod 16 * 4 = n * 4" using join_last [of n 16 4] by simp
  have "n * 4 div 1024 = n div 256" using div_mult2_eq [of "n * 4" 4 256] by simp
  then have eq: "n * 4 div 1024 = unat a" "n mod 256 = unat b" unfolding n_def by (simp_all add: split_byte)
  show ?case unfolding base64_digits.simps base64_bytes.simps Let_def n_def [symmetric] join by (simp add: eq)
next
  case (4 a b c bs)
  define n where "n = (unat a * 256 + unat b) * 256 + unat c"
  have "n div 262144 * 64 + n div 4096 mod 64 = n div 4096" by (rule join_digits) simp
  moreover have "n div 4096 * 64 + n div 64 mod 64 = n div 64" by (rule join_digits) simp
  ultimately have join: "((n div 262144 * 64 + n div 4096 mod 64) * 64 + n div 64 mod 64) * 64 + n mod 64 = n" by simp
  have "n div 65536 = n div 256 div 256" using div_mult2_eq [of n 256 256] by simp
  then have eq: "n div 65536 = unat a" "n div 256 mod 256 = unat b" "n mod 256 = unat c"
    unfolding n_def by (simp_all only: split_byte)
  show ?case
    unfolding base64_digits.simps append.simps base64_bytes.simps Let_def n_def [symmetric] join eq by (simp add: 4)
qed simp

lemma base64_round_trip: "base64_decode (base64_encode bs) = Some bs"
proof -
  have b: "\<forall>n\<in>set (base64_digits bs). n < 64" by (rule base64_digits_bound)
  then have f: "filter (\<lambda>c. \<not> line_end c) (base64_encode bs) = base64_encode bs"
    by (auto simp: base64_encode_digits filter_id_conv)
  have v: "map base64_value (base64_encode bs) = map Some (base64_digits bs)"
    using b by (simp add: base64_encode_digits)
  show ?thesis
    unfolding base64_decode_def f v by (simp add: Let_def comp_def base64_bytes_digits)
qed

lemma base64_encode_length: "length (base64_encode bs) = (length bs * 4 + 2) div 3"
  unfolding base64_encode_digits by (induction bs rule: base64_digits.induct) (simp_all add: Let_def)

text \<open>A new token is valid, and two tokens are equal only if they come from the same bytes.\<close>

lemma newOpaqueToken_valid: "length raw = 32 \<Longrightarrow> newOpaqueToken (Some raw) = Inr t \<Longrightarrow> validOpaqueToken t"
  by (auto simp: newOpaqueToken_def validOpaqueToken_def base64_round_trip base64_encode_length authTokenBytes_def maximumOpaqueToken_def)

lemma base64_encode_inject: "base64_encode a = base64_encode b \<longleftrightarrow> a = b"
  by (metis base64_round_trip option.inject)

end
