(* ===== verification/LR_Json.thy ===== *)
theory LR_Json
  imports LR_Prelude
begin

text \<open>
  Canonical JSON (\<open>canonicaljson/canonical.go\<close>). \<open>Marshal\<close> reads one JSON value from the tokens of
  \<open>json.Decoder\<close>, rejects an object with a repeated member name and hands the value to the RFC 8785 library.
  The tokens of some bytes, with whether the input ends cleanly after them, and the encoder of the library are
  arguments; the recursive reader in between is the code.

  The reader recurses with fuel, one more than twice the number of tokens: a call on a value and the round of the
  loop it belongs to together consume a token, so that the fuel is enough for whatever the grammar accepts
  (\<open>decode_complete\<close>).
\<close>

section \<open>Tokens and values\<close>

datatype json_token = TDelim char | TString string | TNumber string | TBool bool | TNull

datatype json_value =
    VObject "(string \<times> json_value) list"
  | VArray "json_value list"
  | VString string
  | VNumber string
  | VBool bool
  | VNull

definition unexpected_end :: err where
  "unexpected_end = ErrText ''EOF''"

text \<open>\<open>decoder.More\<close>: the next token exists and closes nothing.\<close>

fun More :: "json_token list \<Rightarrow> bool" where
  "More [] = False"
| "More (TDelim c # ts) = (c \<noteq> CHR ''}'' \<and> c \<noteq> CHR '']'')"
| "More (t # ts) = True"

definition closing :: "char \<Rightarrow> err \<Rightarrow> json_value \<Rightarrow> json_token list \<Rightarrow> (json_value \<times> json_token list) result" where
  "closing c e v ts = (case ts of [] \<Rightarrow> Inl unexpected_end | t # rest \<Rightarrow> if t = TDelim c then Inr (v, rest) else Inl e)"

fun decode :: "nat \<Rightarrow> json_token list \<Rightarrow> (json_value \<times> json_token list) result"
and decode_members :: "nat \<Rightarrow> (string \<times> json_value) list \<Rightarrow> json_token list \<Rightarrow> ((string \<times> json_value) list \<times> json_token list) result"
and decode_elements :: "nat \<Rightarrow> json_value list \<Rightarrow> json_token list \<Rightarrow> (json_value list \<times> json_token list) result"
where
  "decode 0 ts = Inl (ErrText ''fuel'')"
| "decode (Suc n) [] = Inl unexpected_end"
| "decode (Suc n) (TDelim c # ts) =
     (if c = CHR ''{'' then bindr (decode_members n [] ts) (\<lambda>(object, rest).
        closing (CHR ''}'') (ErrText ''invalid object terminator'') (VObject object) rest)
      else if c = CHR ''['' then bindr (decode_elements n [] ts) (\<lambda>(array, rest).
        closing (CHR '']'') (ErrText ''invalid array terminator'') (VArray array) rest)
      else Inl (ErrText ''unexpected JSON delimiter''))"
| "decode (Suc n) (TString s # ts) = Inr (VString s, ts)"
| "decode (Suc n) (TNumber s # ts) = Inr (VNumber s, ts)"
| "decode (Suc n) (TBool b # ts) = Inr (VBool b, ts)"
| "decode (Suc n) (TNull # ts) = Inr (VNull, ts)"
| "decode_members 0 object ts = Inl (ErrText ''fuel'')"
| "decode_members (Suc n) object ts =
     (if More ts then
        case ts of TString key # rest \<Rightarrow>
            if key \<in> set (map fst object) then Inl (ErrText ''duplicate object member'')
            else bindr (decode n rest) (\<lambda>(member, rest'). decode_members n (object @ [(key, member)]) rest')
          | _ \<Rightarrow> Inl (ErrText ''object member name is not a string'')
      else Inr (object, ts))"
| "decode_elements 0 array ts = Inl (ErrText ''fuel'')"
| "decode_elements (Suc n) array ts =
     (if More ts then bindr (decode n ts) (\<lambda>(member, rest). decode_elements n (array @ [member]) rest)
      else Inr (array, ts))"

text \<open>A second value and other data after the value are refused alike.\<close>

definition Marshal ::
  "(bytes \<Rightarrow> json_token list \<times> bool) \<Rightarrow> (json_value \<Rightarrow> bytes option) \<Rightarrow> bytes \<Rightarrow> bytes result" where
  "Marshal tokens rfc8785 raw = (case tokens raw of (ts, clean) \<Rightarrow>
     bindr (decode (Suc (2 * length ts)) ts) (\<lambda>(v, rest).
       if rest \<noteq> [] \<or> \<not> clean then Inl (ErrText ''trailing JSON data'')
       else case rfc8785 v of None \<Rightarrow> Inl (ErrText ''rfc8785'') | Some canonical \<Rightarrow> Inr canonical))"

section \<open>The grammar\<close>

text \<open>The tokens of a value, and the values whose objects name each member once.\<close>

fun value_tokens :: "json_value \<Rightarrow> json_token list" where
  "value_tokens (VObject ms) =
     TDelim (CHR ''{'') # concat (map (\<lambda>(k, v). TString k # value_tokens v) ms) @ [TDelim (CHR ''}'')]"
| "value_tokens (VArray vs) = TDelim (CHR ''['') # concat (map value_tokens vs) @ [TDelim (CHR '']'')]"
| "value_tokens (VString s) = [TString s]"
| "value_tokens (VNumber s) = [TNumber s]"
| "value_tokens (VBool b) = [TBool b]"
| "value_tokens VNull = [TNull]"

fun members_unique :: "json_value \<Rightarrow> bool" where
  "members_unique (VObject ms) \<longleftrightarrow> distinct (map fst ms) \<and> (\<forall>(k, v)\<in>set ms. members_unique v)"
| "members_unique (VArray vs) \<longleftrightarrow> (\<forall>v\<in>set vs. members_unique v)"
| "members_unique _ \<longleftrightarrow> True"

abbreviation member_tokens :: "(string \<times> json_value) list \<Rightarrow> json_token list" where
  "member_tokens ms \<equiv> concat (map (\<lambda>(k, v). TString k # value_tokens v) ms)"

abbreviation element_tokens :: "json_value list \<Rightarrow> json_token list" where
  "element_tokens vs \<equiv> concat (map value_tokens vs)"

lemma closing_Inr [simp]: "closing c e v ts = Inr (x, rest) \<longleftrightarrow> ts = TDelim c # rest \<and> x = v"
  by (auto simp: closing_def split: list.splits)

lemma More_value [simp]: "More (value_tokens v @ rest)"
  by (cases v) simp_all

lemma value_tokens_ne [simp]: "value_tokens v \<noteq> []"
  by (cases v) simp_all

text \<open>What the reader accepts is the tokens of a value with unique members.\<close>

lemma decode_sound:
  "decode n ts = Inr (v, rest) \<Longrightarrow> ts = value_tokens v @ rest \<and> members_unique v"
  "decode_members n object ts = Inr (object', rest) \<Longrightarrow> distinct (map fst object) \<Longrightarrow>
     \<exists>ms. object' = object @ ms \<and> ts = member_tokens ms @ rest \<and> distinct (map fst object') \<and> (\<forall>(k, v)\<in>set ms. members_unique v)"
  "decode_elements n array ts = Inr (array', rest) \<Longrightarrow>
     \<exists>vs. array' = array @ vs \<and> ts = element_tokens vs @ rest \<and> (\<forall>v\<in>set vs. members_unique v)"
proof (induction n ts and n object ts and n array ts arbitrary: v rest and object' rest and array' rest
    rule: decode_decode_members_decode_elements.induct)
  case (3 n c ts)
  then show ?case by (fastforce simp: bindr_eq_Inr split: if_splits)
next
  case (9 n object ts)
  show ?case
  proof (cases "More ts")
    case False
    with 9 show ?thesis by simp
  next
    case True
    with 9(3) obtain key r member r' where ts: "ts = TString key # r" and k: "key \<notin> set (map fst object)"
      and d: "decode n r = Inr (member, r')" and m: "decode_members n (object @ [(key, member)]) r' = Inr (object', rest)"
      by (auto simp: bindr_eq_Inr split: list.splits json_token.splits if_splits)
    have v: "r = value_tokens member @ r' \<and> members_unique member" using 9(1) [OF True ts refl k d] .
    obtain ms where "object' = (object @ [(key, member)]) @ ms" "r' = member_tokens ms @ rest" "distinct (map fst object')"
      "\<forall>(k, v)\<in>set ms. members_unique v"
      using 9(2) [OF True ts refl k m] 9(4) k by auto
    with v ts show ?thesis by (intro exI [of _ "(key, member) # ms"]) simp
  qed
next
  case (11 n array ts)
  show ?case
  proof (cases "More ts")
    case False
    with 11 show ?thesis by simp
  next
    case True
    with 11(3) obtain member r where d: "decode n ts = Inr (member, r)" and m: "decode_elements n (array @ [member]) r = Inr (array', rest)"
      by (auto simp: bindr_eq_Inr)
    have v: "ts = value_tokens member @ r \<and> members_unique member" using 11(1) [OF True d] .
    obtain vs where "array' = (array @ [member]) @ vs" "r = element_tokens vs @ rest" "\<forall>v\<in>set vs. members_unique v"
      using 11(2) [OF True m] by auto
    with v show ?thesis by (intro exI [of _ "member # vs"]) simp
  qed
qed simp_all

text \<open>It accepts all of them, and the fuel is enough.\<close>

lemma decode_complete:
  "members_unique v \<Longrightarrow> 2 * length (value_tokens v @ rest) < n \<Longrightarrow> decode n (value_tokens v @ rest) = Inr (v, rest)"
proof (induction v arbitrary: n rest)
  case (VObject ms)
  then obtain k where n: "n = Suc k" by (cases n) auto
  have "decode_members k object (member_tokens ns @ TDelim (CHR ''}'') # rest) = Inr (object @ ns, TDelim (CHR ''}'') # rest)"
    if "set ns \<subseteq> set ms" "distinct (map fst (object @ ns))" "2 * (length (member_tokens ns) + length rest + 1) < k" for object ns k
    using that
  proof (induction ns arbitrary: object k)
    case Nil
    then show ?case by (cases k) simp_all
  next
    case (Cons m ns)
    obtain key v where m: "m = (key, v)" by (cases m)
    from Cons.prems(3) obtain j where k: "k = Suc j" by (cases k) auto
    have u: "members_unique v" using VObject.prems(1) Cons.prems(1) m by auto
    have "decode j (value_tokens v @ member_tokens ns @ TDelim (CHR ''}'') # rest) = Inr (v, member_tokens ns @ TDelim (CHR ''}'') # rest)"
      by (rule VObject.IH [of m v]) (use u Cons.prems m k in auto)
    moreover have "decode_members j (object @ [(key, v)]) (member_tokens ns @ TDelim (CHR ''}'') # rest) =
        Inr ((object @ [(key, v)]) @ ns, TDelim (CHR ''}'') # rest)"
      by (rule Cons.IH) (use Cons.prems m k in auto)
    ultimately show ?case using Cons.prems(2) by (auto simp: m k)
  qed
  from this [of ms "[]" k] VObject.prems show ?case by (simp add: n closing_def)
next
  case (VArray vs)
  then obtain k where n: "n = Suc k" by (cases n) auto
  have "decode_elements k array (element_tokens ws @ TDelim (CHR '']'') # rest) = Inr (array @ ws, TDelim (CHR '']'') # rest)"
    if "set ws \<subseteq> set vs" "2 * (length (element_tokens ws) + length rest + 1) + 1 < k" for array ws k
    using that
  proof (induction ws arbitrary: array k)
    case Nil
    then show ?case by (cases k) simp_all
  next
    case (Cons w ws)
    from Cons.prems(2) obtain j where k: "k = Suc j" by (cases k) auto
    have ne: "1 \<le> length (value_tokens w)" using value_tokens_ne [of w] by (cases "value_tokens w") simp_all
    have "decode j (value_tokens w @ element_tokens ws @ TDelim (CHR '']'') # rest) = Inr (w, element_tokens ws @ TDelim (CHR '']'') # rest)"
      by (intro VArray.IH) (use VArray.prems(1) Cons.prems k in auto)
    moreover have "decode_elements j (array @ [w]) (element_tokens ws @ TDelim (CHR '']'') # rest) =
        Inr ((array @ [w]) @ ws, TDelim (CHR '']'') # rest)"
      by (rule Cons.IH) (use Cons.prems k ne in auto)
    ultimately show ?case by (simp add: k)
  qed
  from this [of vs k "[]"] VArray.prems show ?case by (simp add: n closing_def)
qed (case_tac n; simp)+

section \<open>Properties\<close>

text \<open>
  C39. Canonicalisation accepts exactly one JSON value whose objects name each member once: \<open>Marshal\<close> succeeds if and
  only if the whole input is the tokens of such a value and the RFC 8785 library encodes it, and then it returns that
  encoding. So a repeated member name, at any depth, trailing data and a truncated value are all refused.
\<close>

theorem marshal_accepts_unique_members:
  "Marshal tokens rfc8785 raw = Inr canonical \<longleftrightarrow>
     (\<exists>v. members_unique v \<and> tokens raw = (value_tokens v, True) \<and> rfc8785 v = Some canonical)"
proof
  assume "Marshal tokens rfc8785 raw = Inr canonical"
  then obtain ts v where t: "tokens raw = (ts, True)" and d: "decode (Suc (2 * length ts)) ts = Inr (v, [])" and "rfc8785 v = Some canonical"
    by (auto simp: Marshal_def bindr_eq_Inr split: prod.splits if_splits option.splits)
  with decode_sound(1) [OF d] show "\<exists>v. members_unique v \<and> tokens raw = (value_tokens v, True) \<and> rfc8785 v = Some canonical" by auto
next
  assume "\<exists>v. members_unique v \<and> tokens raw = (value_tokens v, True) \<and> rfc8785 v = Some canonical"
  then obtain v where v: "members_unique v" "tokens raw = (value_tokens v, True)" "rfc8785 v = Some canonical" by blast
  from decode_complete [OF v(1), of "[]"] have "decode (Suc (2 * length (value_tokens v))) (value_tokens v) = Inr (v, [])" by simp
  with v show "Marshal tokens rfc8785 raw = Inr canonical" by (simp add: Marshal_def bindr_def)
qed

end
