(* ===== verification/LR_Places.thy ===== *)
theory LR_Places
  imports LR_Web LR_Tokens LR_Json
begin

text \<open>
  Places (\<open>persistence/places.go\<close>): a coordinate is resolved by an external provider into a candidate, which
  the store keeps under a token for ten minutes; the token buys one place. \<open>Resolve\<close> is three transactions
  with the call of the provider between them, so its parts are definitions of their own.

  HMAC-SHA256, \<open>json.Marshal\<close>, the tokens of \<open>json.Decoder\<close> and the encoder of the RFC 8785 library are the
  record \<open>place_ext\<close>; the canonical form of JSON bytes is \<open>Marshal\<close> of \<open>LR_Json\<close> over the last two. The provider is an argument: it either answers
  at once, or calls \<open>beforeRequest\<close> and continues with its success.
\<close>

section \<open>JSON bodies\<close>

datatype json = JString string | JInt int | JFloat float64 | JBool bool | JObject "(string \<times> json) list"

record place_ext =
  pe_hmac :: "bytes \<Rightarrow> bytes \<Rightarrow> bytes"
  pe_json :: "json \<Rightarrow> bytes option"
  pe_tokens :: "bytes \<Rightarrow> json_token list \<times> bool"
  pe_rfc8785 :: "json_value \<Rightarrow> bytes option"

text \<open>\<open>canonicaljson.Marshal\<close>, and a body: the canonical form of what \<open>json.Marshal\<close> gives.\<close>

definition pe_canonical :: "place_ext \<Rightarrow> bytes \<Rightarrow> bytes option" where
  "pe_canonical px v = (case Marshal (pe_tokens px) (pe_rfc8785 px) v of Inl _ \<Rightarrow> None | Inr b \<Rightarrow> Some b)"

definition pe_body :: "place_ext \<Rightarrow> json \<Rightarrow> bytes option" where
  "pe_body px j = Option.bind (pe_json px j) (pe_canonical px)"

definition lower_char :: "char \<Rightarrow> char" where
  "lower_char c = (if CHR ''A'' \<le> c \<and> c \<le> CHR ''Z'' then char_of (of_char c + 32 :: nat) else c)"

definition lowerASCII :: "string \<Rightarrow> string" where
  "lowerASCII s = map lower_char s"

definition problem :: "int \<Rightarrow> string \<Rightarrow> bool \<Rightarrow> string \<Rightarrow> uuid \<Rightarrow> json" where
  "problem status code retryable title requestID = JObject
     [(''type'', JString (''https://liveroute.invalid/problems/'' @ lowerASCII code)), (''title'', JString title),
      (''status'', JInt status), (''code'', JString code), (''request_id'', JString requestID), (''retryable'', JBool retryable)]"

definition canonicalHTTPBody :: "place_ext \<Rightarrow> bytes \<Rightarrow> bytes result" where
  "canonicalHTTPBody px v = (case pe_canonical px v of None \<Rightarrow> Inl (ErrText ''canonicalize'') | Some b \<Rightarrow> Inr b)"

definition json_body :: "place_ext \<Rightarrow> json \<Rightarrow> bytes result" where
  "json_body px j = (case pe_body px j of None \<Rightarrow> Inl (ErrText ''encode'') | Some b \<Rightarrow> Inr b)"

definition placeProblemBody :: "place_ext \<Rightarrow> int \<Rightarrow> string \<Rightarrow> bool \<Rightarrow> string \<Rightarrow> uuid \<Rightarrow> bytes result" where
  "placeProblemBody px status code retryable title requestID = json_body px (problem status code retryable title requestID)"

text \<open>The comparison of digests looks at every byte.\<close>

definition equalDigest :: "bytes \<Rightarrow> bytes \<Rightarrow> bool" where
  "equalDigest left right \<longleftrightarrow> length left = length right \<and>
     fold (\<lambda>(a, b) difference. or difference (xor a b)) (zip left right) 0 = (0 :: byte)"

section \<open>Requests and results\<close>

record Coordinate =
  co_Latitude :: float64
  co_Longitude :: float64

record Candidate =
  cd_Latitude :: float64
  cd_Longitude :: float64
  cd_FormattedAddress :: string
  cd_DisplayName :: string
  cd_TimeZoneName :: string

datatype FailureCode = FailureProviderUnavailable | FailureResourceExhausted | FailurePlaceNotResolved | FailureOther string

text \<open>An error of the provider: a \<open>ResolveError\<close> with its code and \<open>Retryable\<close>, or any other.\<close>

datatype provider_error = ResolveError FailureCode bool | ProviderError

datatype provider_run =
    Answer "provider_error + Candidate"
  | Request "bool \<Rightarrow> provider_error + Candidate"

type_synonym provider = "uuid \<Rightarrow> Coordinate \<Rightarrow> provider_run"

record ResolvePlaceInput =
  ri_UserID :: uuid
  ri_IdempotencyKey :: uuid
  ri_RequestIdentity :: bytes
  ri_RequestID :: uuid
  ri_Coordinate :: Coordinate

record CreatePlaceInput =
  ci_UserID :: uuid
  ci_IdempotencyKey :: uuid
  ci_RequestDigest :: bytes
  ci_ResolutionToken :: string
  ci_RequestID :: uuid

record PlaceHTTPResult =
  ph_Status :: int
  ph_ContentType :: string
  ph_Body :: bytes
  ph_ResourceID :: string

definition placeResolutionLifetime :: time where "placeResolutionLifetime = 10 * 60 * 1000000"

definition httpRecordLifetime :: time where "httpRecordLifetime = 30 * 24 * 3600 * 1000000"

definition resolve_path :: string where "resolve_path = ''/api/v1/places/resolve''"

definition places_path :: string where "places_path = ''/api/v1/places''"

section \<open>Statements\<close>

definition insert_attempt :: "attempt_row \<Rightarrow> web_db \<Rightarrow> web_db option" where
  "insert_attempt q d =
     (if attempt_check q \<and> q_user_id q \<in> set (users (core d)) \<and>
         sql_exists (\<lambda>h. h_id h = q_idempotency_record_id q \<and> h_user_id h = q_user_id q) (http_idempotency_records d) \<and>
         fresh_in q_id q (place_resolution_attempts d) \<and> fresh_in q_idempotency_record_id q (place_resolution_attempts d) \<and>
         distinct (attempt_tokens (place_resolution_attempts d @ [q]))
      then Some (d\<lparr>place_resolution_attempts := place_resolution_attempts d @ [q]\<rparr>) else None)"

definition update_attempts :: "(attempt_row \<Rightarrow> bool) \<Rightarrow> (attempt_row \<Rightarrow> attempt_row) \<Rightarrow> web_db \<Rightarrow> web_db option" where
  "update_attempts P f d =
     (let qs = sql_update P f (place_resolution_attempts d) in
      if list_all (\<lambda>q. P q \<longrightarrow> attempt_check (f q)) (place_resolution_attempts d) \<and> distinct (attempt_tokens qs)
      then Some (d\<lparr>place_resolution_attempts := qs\<rparr>) else None)"

definition insert_place :: "place_row \<Rightarrow> web_db \<Rightarrow> web_db option" where
  "insert_place p d =
     (if place_check p \<and> pl_owner_user_id p \<in> set (users (core d)) \<and>
         fresh_in pl_id p (places d) \<and> fresh_in pl_source_resolution_id p (places d) \<and>
         sql_exists (\<lambda>q. q_id q = pl_source_resolution_id p \<and> q_user_id q = pl_owner_user_id p) (place_resolution_attempts d)
      then Some (d\<lparr>places := places d @ [p]\<rparr>) else None)"

section \<open>Resolving a coordinate\<close>

definition candidateJSON :: "Candidate \<Rightarrow> json" where
  "candidateJSON c = JObject
     ([(''latitude'', JFloat (cd_Latitude c)), (''longitude'', JFloat (cd_Longitude c)), (''display_name'', JString (cd_DisplayName c)),
       (''time_zone_name'', JString (cd_TimeZoneName c))] @
      (if cd_FormattedAddress c = [] then [] else [(''formatted_address'', JString (cd_FormattedAddress c))]))"

definition resolution_json :: "string \<Rightarrow> time \<Rightarrow> Candidate \<Rightarrow> json" where
  "resolution_json token expiresAt c = JObject
     [(''resolution_token'', JString token), (''expires_at_unix_ms'', JInt (expiresAt div 1000)), (''candidate'', candidateJSON c)]"

definition placeToken :: "place_ext \<Rightarrow> HMACKeyRing \<Rightarrow> string \<Rightarrow> uuid \<Rightarrow> string result" where
  "placeToken px keys keyID attemptID =
     (case HMAC (pe_hmac px) keys keyID (bytes_of_string (''liveroute.place-resolution-token.v1'' @ [CHR 0x00] @ attemptID)) of
        None \<Rightarrow> Inl (ErrText ''place resolution token key is unavailable'')
      | Some digest \<Rightarrow> Inr (base64_encode digest))"

definition resolve_http_row :: "uuid \<Rightarrow> uuid \<Rightarrow> uuid \<Rightarrow> string \<Rightarrow> bytes \<Rightarrow> time \<Rightarrow> time \<Rightarrow> http_row" where
  "resolve_http_row rid userID key keyID digest created now =
     \<lparr>h_id = rid, h_user_id = userID, h_trip_id = None, h_idempotency_key = key, h_http_method = ''POST'',
      h_normalized_path = resolve_path, h_operation_kind = ''resolve_place'', h_digest_algorithm = ''rfc8785-hmac-sha256-v1'',
      h_digest_key_id = Some keyID, h_request_digest = digest, h_state = InProgress, h_response_status = None,
      h_content_type = None, h_response_body = None, h_response_etag = None, h_resource_id = None,
      h_created_at = created, h_completed_at = None, h_retain_until = now + httpRecordLifetime\<rparr>"

definition pending_attempt :: "uuid \<Rightarrow> uuid \<Rightarrow> uuid \<Rightarrow> time \<Rightarrow> time \<Rightarrow> attempt_row" where
  "pending_attempt attemptID userID recordID created now =
     \<lparr>q_id = attemptID, q_user_id = userID, q_idempotency_record_id = recordID, q_state = AttemptPending,
      q_provider_request_started_at = None, q_resolution_token_sha256 = None, q_latitude = None, q_longitude = None,
      q_formatted_address = None, q_display_name = None, q_time_zone_name = None, q_failure_code = None,
      q_created_at = created, q_expires_at = now + placeResolutionLifetime, q_consumed_at = None\<rparr>"

text \<open>The candidate of a resolved or consumed attempt; a \<open>NULL\<close> in a column without a pointer fails the scan.\<close>

definition attempt_candidate :: "attempt_row \<Rightarrow> Candidate option" where
  "attempt_candidate q = (case (q_latitude q, q_longitude q, q_display_name q, q_time_zone_name q) of
     (Some la, Some lo, Some name, Some zone) \<Rightarrow>
       Some \<lparr>cd_Latitude = la, cd_Longitude = lo,
         cd_FormattedAddress = (case q_formatted_address q of None \<Rightarrow> [] | Some s \<Rightarrow> s), cd_DisplayName = name, cd_TimeZoneName = zone\<rparr>
   | _ \<Rightarrow> None)"

definition resolutionReplayBody :: "place_ext \<Rightarrow> HMACKeyRing \<Rightarrow> uuid \<Rightarrow> string \<Rightarrow> web_db \<Rightarrow> bytes result" where
  "resolutionReplayBody px keys recordID keyID d =
     (case query_row (\<lambda>q. q_idempotency_record_id q = recordID \<and> q_state q \<in> {AttemptResolved, AttemptConsumed})
        (place_resolution_attempts d) of
        None \<Rightarrow> Inl (ErrSQL ''load place resolution replay candidate'')
      | Some q \<Rightarrow> (case attempt_candidate q of
          None \<Rightarrow> Inl (ErrSQL ''load place resolution replay candidate'')
        | Some c \<Rightarrow> bindr (placeToken px keys keyID (q_id q)) (\<lambda>token.
            json_body px (resolution_json token (q_expires_at q) c))))"

definition replay_resolution ::
  "place_ext \<Rightarrow> HMACKeyRing \<Rightarrow> ResolvePlaceInput \<Rightarrow> web_db \<Rightarrow> PlaceHTTPResult result" where
  "replay_resolution px keys rq d =
     (case find_http (ri_UserID rq) ''POST'' resolve_path (ri_IdempotencyKey rq) d of
        None \<Rightarrow> Inl (ErrSQL ''load place resolution replay'')
      | Some h \<Rightarrow> (case h_digest_key_id h of
          None \<Rightarrow> Inl (ErrSQL ''load place resolution replay'')
        | Some storedKeyID \<Rightarrow> (case HMAC (pe_hmac px) keys storedKeyID (ri_RequestIdentity rq) of
            None \<Rightarrow> Inl (ErrText ''place resolution replay HMAC key is unavailable'')
          | Some replayDigest \<Rightarrow>
              if \<not> equalDigest (h_request_digest h) replayDigest then Inl ErrHTTPIdempotencyReused
              else (case (h_state h, h_response_status h, h_content_type h) of
                (Completed, Some status, Some contentType) \<Rightarrow>
                  bindr (if status = 200 then resolutionReplayBody px keys (h_id h) storedKeyID d
                         else Inr (case h_response_body h of None \<Rightarrow> [] | Some b \<Rightarrow> b)) (\<lambda>body.
                  bindr (canonicalHTTPBody px body) (\<lambda>body.
                  Inr \<lparr>ph_Status = status, ph_ContentType = contentType, ph_Body = body, ph_ResourceID = []\<rparr>))
              | _ \<Rightarrow> Inl ErrHTTPMutationPending))))"

text \<open>\<open>reserveResolution\<close>: \<open>None\<close> is a fresh reservation, and a stored answer is replayed.\<close>

definition reserveResolution ::
  "place_ext \<Rightarrow> HMACKeyRing \<Rightarrow> clock \<Rightarrow> ResolvePlaceInput \<Rightarrow> uuid \<Rightarrow> uuid \<Rightarrow> string \<Rightarrow> bytes \<Rightarrow> web_db \<Rightarrow>
     PlaceHTTPResult option result \<times> web_db" where
  "reserveResolution px keys clk rq recordID attemptID keyID digest = run_tx (\<lambda>d.
     bindr (exec_sql ''reserve place resolution''
         (insert_http (resolve_http_row recordID (ri_UserID rq) (ri_IdempotencyKey rq) keyID digest (clk 0) (clk 1)) d)) (\<lambda>(inserted, d1).
     if inserted
     then bindr (exec_sql ''create place resolution attempt''
         (insert_attempt (pending_attempt attemptID (ri_UserID rq) recordID (clk 2) (clk 3)) d1)) (\<lambda>d2. Inr (None, d2))
     else bindr (replay_resolution px keys rq d1) (\<lambda>result. Inr (Some result, d1))))"

text \<open>The callback \<open>beforeRequest\<close>: whether it has marked the attempt.\<close>

definition mark_attempt :: "clock \<Rightarrow> uuid \<Rightarrow> uuid \<Rightarrow> web_db \<Rightarrow> bool \<times> web_db" where
  "mark_attempt clk attemptID userID d =
     (let P = (\<lambda>q. q_id q = attemptID \<and> q_user_id q = userID \<and> q_state q = AttemptPending) in
      case update_attempts P (\<lambda>q. q\<lparr>q_provider_request_started_at := Some (clk 0)\<rparr>) d of
        None \<Rightarrow> (False, d)
      | Some d1 \<Rightarrow> (sql_count P (place_resolution_attempts d) = 1, d1))"

definition resolved_row :: "bytes \<Rightarrow> Candidate \<Rightarrow> time \<Rightarrow> attempt_row \<Rightarrow> attempt_row" where
  "resolved_row token_hash c now q = q\<lparr>q_state := AttemptResolved, q_resolution_token_sha256 := Some token_hash,
     q_latitude := Some (cd_Latitude c), q_longitude := Some (cd_Longitude c),
     q_formatted_address := (if cd_FormattedAddress c = [] then None else Some (cd_FormattedAddress c)),
     q_display_name := Some (cd_DisplayName c), q_time_zone_name := Some (cd_TimeZoneName c),
     q_expires_at := now + placeResolutionLifetime\<rparr>"

definition completed_row :: "int \<Rightarrow> string \<Rightarrow> bytes option \<Rightarrow> uuid option \<Rightarrow> time \<Rightarrow> http_row \<Rightarrow> http_row" where
  "completed_row status contentType body resource now h = h\<lparr>h_state := Completed, h_response_status := Some status,
     h_content_type := Some contentType, h_response_body := body, h_resource_id := resource, h_completed_at := Some now\<rparr>"

definition open_record :: "uuid \<Rightarrow> http_row \<Rightarrow> bool" where
  "open_record rid h \<longleftrightarrow> h_id h = rid \<and> h_state h = InProgress"

definition finalizeResolutionSuccess ::
  "ext \<Rightarrow> place_ext \<Rightarrow> clock \<Rightarrow> uuid \<Rightarrow> uuid \<Rightarrow> string \<Rightarrow> Candidate \<Rightarrow> web_db \<Rightarrow> PlaceHTTPResult result \<times> web_db" where
  "finalizeResolutionSuccess e px clk recordID attemptID token c = run_tx (\<lambda>d.
     let P = (\<lambda>q. q_id q = attemptID \<and> q_state q = AttemptPending) in
     if \<not> sql_exists P (place_resolution_attempts d) then Inl (ErrSQL ''store place candidate'')
     else bindr (exec_sql ''store place candidate'' (update_attempts P (resolved_row (sha256Bytes e token) c (clk 0)) d)) (\<lambda>d1.
     bindr (json_body px (resolution_json token (clk 0 + placeResolutionLifetime) c)) (\<lambda>body.
     bindr (exec_sql ''complete place resolution'' (update_http (open_record recordID)
         (\<lambda>h. completed_row 200 ''application/json'' None (Some attemptID) (clk 1) h) d1)) (\<lambda>d2.
     Inr (\<lparr>ph_Status = 200, ph_ContentType = ''application/json'', ph_Body = body, ph_ResourceID = attemptID\<rparr>, d2)))))"

fun placeFailure :: "provider_error \<Rightarrow> string \<times> int \<times> bool" where
  "placeFailure (ResolveError FailureResourceExhausted retryable) = (''RESOURCE_EXHAUSTED'', 429, True)"
| "placeFailure (ResolveError FailurePlaceNotResolved retryable) = (''PLACE_NOT_RESOLVED'', 422, False)"
| "placeFailure (ResolveError FailureProviderUnavailable retryable) = (''PROVIDER_UNAVAILABLE'', 503, retryable)"
| "placeFailure _ = (''PROVIDER_UNAVAILABLE'', 503, True)"

definition failure_detail :: "string \<Rightarrow> string" where
  "failure_detail code = (case map_of
     [(''RESOURCE_EXHAUSTED'', ''place resolution capacity is exhausted''), (''PLACE_NOT_RESOLVED'', ''place could not be resolved''),
      (''PROVIDER_UNAVAILABLE'', ''place provider is unavailable'')] code of None \<Rightarrow> [] | Some s \<Rightarrow> s)"

text \<open>The error of the encoding is dropped: a body that cannot be encoded is stored as \<open>NULL\<close>.\<close>

definition cast_body :: "ext \<Rightarrow> bytes option \<Rightarrow> bytes option option" where
  "cast_body e body = (case body of None \<Rightarrow> Some None | Some b \<Rightarrow> map_option Some (to_jsonb e b))"

definition finalizeResolutionFailure ::
  "ext \<Rightarrow> place_ext \<Rightarrow> clock \<Rightarrow> uuid \<Rightarrow> uuid \<Rightarrow> uuid \<Rightarrow> provider_error \<Rightarrow> web_db \<Rightarrow> PlaceHTTPResult result \<times> web_db" where
  "finalizeResolutionFailure e px clk recordID attemptID requestID cause = (case placeFailure cause of (code, status, retryable) \<Rightarrow>
     let body = pe_body px (problem status code retryable (failure_detail code) requestID) in
     run_tx (\<lambda>d.
     bindr (exec_sql ''fail place resolution attempt'' (update_attempts (\<lambda>q. q_id q = attemptID \<and> q_state q = AttemptPending)
         (\<lambda>q. q\<lparr>q_state := AttemptFailed, q_failure_code := Some code\<rparr>) d)) (\<lambda>d1.
     bindr (exec_sql ''complete failed place resolution'' (cast_body e body)) (\<lambda>stored.
     bindr (exec_sql ''complete failed place resolution'' (update_http (open_record recordID)
         (\<lambda>h. completed_row status ''application/problem+json'' stored (h_resource_id h) (clk 0) h) d1)) (\<lambda>d2.
     Inr (\<lparr>ph_Status = status, ph_ContentType = ''application/problem+json'',
           ph_Body = (case body of None \<Rightarrow> [] | Some b \<Rightarrow> b), ph_ResourceID = []\<rparr>, d2))))))"

text \<open>The call of the provider with its callback: whether the attempt is marked, the answer, and the tables.\<close>

definition ask_provider ::
  "provider \<Rightarrow> clock \<Rightarrow> uuid \<Rightarrow> ResolvePlaceInput \<Rightarrow> web_db \<Rightarrow> bool \<times> (provider_error + Candidate) \<times> web_db" where
  "ask_provider prov clk attemptID rq d = (case prov (ri_UserID rq) (ri_Coordinate rq) of
     Answer a \<Rightarrow> (False, a, d)
   | Request k \<Rightarrow> (case mark_attempt clk attemptID (ri_UserID rq) d of (marked, d1) \<Rightarrow> (marked, k marked, d1)))"

definition resolve_answer :: "bool \<Rightarrow> provider_error + Candidate \<Rightarrow> provider_error + Candidate" where
  "resolve_answer marked a = (case a of
     Inr c \<Rightarrow> if marked then Inr c else Inl (ResolveError FailureProviderUnavailable True)
   | Inl x \<Rightarrow> Inl x)"

definition valid_resolve_input :: "ResolvePlaceInput \<Rightarrow> bool" where
  "valid_resolve_input rq \<longleftrightarrow> validCanonicalUUID (ri_UserID rq) \<and> validCanonicalUUID (ri_IdempotencyKey rq) \<and>
     ri_RequestIdentity rq \<noteq> [] \<and> validCanonicalUUID (ri_RequestID rq)"

definition Resolve_place ::
  "ext \<Rightarrow> place_ext \<Rightarrow> HMACKeyRing \<Rightarrow> provider \<Rightarrow> entropy \<Rightarrow> clock \<Rightarrow> ResolvePlaceInput \<Rightarrow> web_db \<Rightarrow>
     PlaceHTTPResult result \<times> web_db" where
  "Resolve_place e px keys prov rnd clk rq d =
     (if \<not> valid_resolve_input rq then (Inl ErrPlaceInput, d)
      else let keyID = kr_CurrentID keys in
      case HMAC (pe_hmac px) keys keyID (ri_RequestIdentity rq) of
        None \<Rightarrow> (Inl (ErrText ''current place request HMAC key is unavailable''), d)
      | Some digest \<Rightarrow> (case bindr (newAuthUUID (rnd 0)) (\<lambda>a. bindr (newAuthUUID (rnd 1)) (\<lambda>r. Inr (a, r))) of
          Inl x \<Rightarrow> (Inl x, d)
        | Inr (attemptID, recordID) \<Rightarrow>
            (case reserveResolution px keys clk rq recordID attemptID keyID digest d of
              (Inl x, d1) \<Rightarrow> (Inl x, d1)
            | (Inr (Some replay), d1) \<Rightarrow> (Inr replay, d1)
            | (Inr None, d1) \<Rightarrow>
                (case ask_provider prov (\<lambda>n. clk (4 + n)) attemptID rq d1 of (marked, a, d2) \<Rightarrow>
                  (case resolve_answer marked a of
                    Inl x \<Rightarrow> finalizeResolutionFailure e px (\<lambda>n. clk (5 + n)) recordID attemptID (ri_RequestID rq) x d2
                  | Inr c \<Rightarrow> (case placeToken px keys keyID attemptID of
                      Inl _ \<Rightarrow> finalizeResolutionFailure e px (\<lambda>n. clk (5 + n)) recordID attemptID (ri_RequestID rq)
                        (ResolveError FailureProviderUnavailable True) d2
                    | Inr token \<Rightarrow> finalizeResolutionSuccess e px (\<lambda>n. clk (5 + n)) recordID attemptID token c d2))))))"

section \<open>Creating a place\<close>

definition create_http_row :: "uuid \<Rightarrow> uuid \<Rightarrow> uuid \<Rightarrow> bytes \<Rightarrow> time \<Rightarrow> time \<Rightarrow> http_row" where
  "create_http_row rid userID key digest created now =
     (new_http_row rid userID key ''POST'' places_path ''create_place'' digest created now)\<lparr>h_retain_until := now + httpRecordLifetime\<rparr>"

definition replay_creation :: "place_ext \<Rightarrow> CreatePlaceInput \<Rightarrow> web_db \<Rightarrow> PlaceHTTPResult result" where
  "replay_creation px rq d =
     (case find_http (ci_UserID rq) ''POST'' places_path (ci_IdempotencyKey rq) d of
        None \<Rightarrow> Inl (ErrSQL ''load place creation replay'')
      | Some h \<Rightarrow> (case (h_response_status h, h_content_type h) of
          (Some status, Some contentType) \<Rightarrow>
            if \<not> equalDigest (h_request_digest h) (ci_RequestDigest rq) then Inl ErrHTTPIdempotencyReused
            else if h_state h \<noteq> Completed then Inl ErrHTTPMutationPending
            else bindr (canonicalHTTPBody px (case h_response_body h of None \<Rightarrow> [] | Some b \<Rightarrow> b)) (\<lambda>body.
              Inr \<lparr>ph_Status = status, ph_ContentType = contentType, ph_Body = body, ph_ResourceID = []\<rparr>)
        | _ \<Rightarrow> Inl (ErrSQL ''load place creation replay'')))"

definition place_json :: "place_row \<Rightarrow> json" where
  "place_json p = JObject
     ([(''place_id'', JString (pl_id p)), (''latitude'', JFloat (pl_latitude p)), (''longitude'', JFloat (pl_longitude p)),
       (''display_name'', JString (pl_display_name p)), (''time_zone_name'', JString (pl_time_zone_name p)),
       (''created_at_unix_ms'', JInt (pl_created_at p div 1000))] @
      (case pl_formatted_address p of None \<Rightarrow> [] | Some s \<Rightarrow> [(''formatted_address'', JString s)]))"

text \<open>The place an attempt describes; its columns are scanned without pointers but for the address.\<close>

definition place_of_attempt :: "uuid \<Rightarrow> uuid \<Rightarrow> time \<Rightarrow> attempt_row \<Rightarrow> place_row option" where
  "place_of_attempt placeID userID now q = (case (q_latitude q, q_longitude q, q_display_name q, q_time_zone_name q) of
     (Some la, Some lo, Some name, Some zone) \<Rightarrow>
       Some \<lparr>pl_id = placeID, pl_owner_user_id = userID, pl_source_resolution_id = q_id q, pl_latitude = la, pl_longitude = lo,
         pl_formatted_address = q_formatted_address q, pl_display_name = name, pl_time_zone_name = zone, pl_created_at = now\<rparr>
   | _ \<Rightarrow> None)"

definition redeemable :: "ext \<Rightarrow> CreatePlaceInput \<Rightarrow> time \<Rightarrow> attempt_row \<Rightarrow> bool" where
  "redeemable e rq now q \<longleftrightarrow> q_user_id q = ci_UserID rq \<and>
     q_resolution_token_sha256 q = Some (sha256Bytes e (ci_ResolutionToken rq)) \<and> q_state q = AttemptResolved \<and> now < q_expires_at q"

definition consumed_row :: "time \<Rightarrow> attempt_row \<Rightarrow> attempt_row" where
  "consumed_row now q = q\<lparr>q_state := AttemptConsumed, q_consumed_at := Some now\<rparr>"

definition refuse_place ::
  "ext \<Rightarrow> place_ext \<Rightarrow> clock \<Rightarrow> CreatePlaceInput \<Rightarrow> uuid \<Rightarrow> web_db \<Rightarrow> err + (PlaceHTTPResult \<times> web_db)" where
  "refuse_place e px clk rq recordID d =
     bindr (placeProblemBody px 410 ''NOT_FOUND'' False ''place resolution has expired or was consumed'' (ci_RequestID rq)) (\<lambda>body.
     bindr (exec_sql ''complete unavailable place creation'' (to_jsonb e body)) (\<lambda>stored.
     bindr (exec_sql ''complete unavailable place creation'' (update_http (\<lambda>h. h_id h = recordID)
         (\<lambda>h. completed_row 410 ''application/problem+json'' (Some stored) (h_resource_id h) (clk 3) h) d)) (\<lambda>d1.
     Inr (\<lparr>ph_Status = 410, ph_ContentType = ''application/problem+json'', ph_Body = body, ph_ResourceID = []\<rparr>, d1))))"

definition redeem_place ::
  "ext \<Rightarrow> place_ext \<Rightarrow> clock \<Rightarrow> CreatePlaceInput \<Rightarrow> uuid \<Rightarrow> uuid \<Rightarrow> attempt_row \<Rightarrow> web_db \<Rightarrow> err + (PlaceHTTPResult \<times> web_db)" where
  "redeem_place e px clk rq recordID placeID q d =
     (case place_of_attempt placeID (ci_UserID rq) (clk 3) q of
        None \<Rightarrow> Inl (ErrSQL ''lock place resolution'')
      | Some p \<Rightarrow>
          bindr (exec_sql ''insert place'' (insert_place p d)) (\<lambda>d1.
          bindr (exec_sql ''consume place resolution'' (update_attempts (\<lambda>x. q_id x = q_id q) (consumed_row (clk 4)) d1)) (\<lambda>d2.
          bindr (json_body px (place_json p)) (\<lambda>body.
          bindr (exec_sql ''complete place creation'' (to_jsonb e body)) (\<lambda>stored.
          bindr (exec_sql ''complete place creation'' (update_http (\<lambda>h. h_id h = recordID)
              (\<lambda>h. completed_row 201 ''application/json'' (Some stored) (Some placeID) (clk 5) h) d2)) (\<lambda>d3.
          Inr (\<lparr>ph_Status = 201, ph_ContentType = ''application/json'', ph_Body = body, ph_ResourceID = placeID\<rparr>, d3)))))))"

definition CreatePlace_tx ::
  "ext \<Rightarrow> place_ext \<Rightarrow> entropy \<Rightarrow> clock \<Rightarrow> CreatePlaceInput \<Rightarrow> web_db \<Rightarrow> err + (PlaceHTTPResult \<times> web_db)" where
  "CreatePlace_tx e px rnd clk rq d =
     bindr (newAuthUUID (rnd 0)) (\<lambda>recordID.
     bindr (exec_sql ''reserve place creation''
         (insert_http (create_http_row recordID (ci_UserID rq) (ci_IdempotencyKey rq) (ci_RequestDigest rq) (clk 0) (clk 1)) d)) (\<lambda>(inserted, d1).
     if \<not> inserted then bindr (replay_creation px rq d1) (\<lambda>result. Inr (result, d1))
     else bindr (newAuthUUID (rnd 1)) (\<lambda>placeID.
       case query_row (redeemable e rq (clk 2)) (place_resolution_attempts d1) of
         None \<Rightarrow> refuse_place e px clk rq recordID d1
       | Some q \<Rightarrow> redeem_place e px clk rq recordID placeID q d1)))"

definition CreatePlace ::
  "ext \<Rightarrow> place_ext \<Rightarrow> entropy \<Rightarrow> clock \<Rightarrow> CreatePlaceInput \<Rightarrow> web_db \<Rightarrow> PlaceHTTPResult result \<times> web_db" where
  "CreatePlace e px rnd clk rq d =
     (if \<not> (validCanonicalUUID (ci_UserID rq) \<and> validCanonicalUUID (ci_IdempotencyKey rq) \<and>
            validOpaqueToken (ci_ResolutionToken rq) \<and> validCanonicalUUID (ci_RequestID rq))
      then (Inl ErrPlaceInput, d) else run_tx (CreatePlace_tx e px rnd clk rq) d)"

section \<open>What the statements keep\<close>

lemma digests_fold:
  "fold (\<lambda>(a, b) difference. or difference (xor a b)) zs acc = (0 :: byte) \<longleftrightarrow> acc = 0 \<and> (\<forall>(a, b)\<in>set zs. a = b)"
proof (induction zs arbitrary: acc)
  case (Cons z zs)
  have "or acc (xor a b) = 0 \<longleftrightarrow> acc = 0 \<and> a = b" for a b :: byte by (auto simp: bit_eq_iff bit_simps)
  then show ?case by (cases z) (auto simp: Cons)
qed simp

lemma equalDigest_iff [simp]: "equalDigest left right \<longleftrightarrow> left = right"
proof -
  have "length left = length right \<Longrightarrow> (\<forall>(a, b)\<in>set (zip left right). a = b) \<longleftrightarrow> left = right"
    by (induction left right rule: list_induct2) auto
  then show ?thesis by (auto simp: equalDigest_def digests_fold)
qed

lemma insert_attempt_SomeD:
  "insert_attempt q d = Some d' \<Longrightarrow> d' = d\<lparr>place_resolution_attempts := place_resolution_attempts d @ [q]\<rparr> \<and> attempt_check q \<and>
     fresh_in q_id q (place_resolution_attempts d) \<and> fresh_in q_idempotency_record_id q (place_resolution_attempts d) \<and>
     distinct (attempt_tokens (place_resolution_attempts d @ [q]))"
  by (simp add: insert_attempt_def split: if_splits)

lemma web_insert_attempt: "insert_attempt q d = Some d' \<Longrightarrow> web_ok d \<Longrightarrow> web_ok d'"
  by (drule insert_attempt_SomeD) (fastforce simp: web_ok_def attempts_ok_def fresh_in_def place_sources_ok_def)

lemma update_attempts_SomeD:
  "update_attempts P f d = Some d' \<Longrightarrow> d' = d\<lparr>place_resolution_attempts := sql_update P f (place_resolution_attempts d)\<rparr> \<and>
     (\<forall>q\<in>set (place_resolution_attempts d). P q \<longrightarrow> attempt_check (f q)) \<and>
     distinct (attempt_tokens (sql_update P f (place_resolution_attempts d)))"
  by (auto simp: update_attempts_def Let_def list_all_iff split: if_splits)

text \<open>An update that keeps the keys and leaves a consumed attempt consumed.\<close>

definition attempt_update :: "(attempt_row \<Rightarrow> bool) \<Rightarrow> (attempt_row \<Rightarrow> attempt_row) \<Rightarrow> bool" where
  "attempt_update P f \<longleftrightarrow> (\<forall>q. q_id (f q) = q_id q \<and> q_idempotency_record_id (f q) = q_idempotency_record_id q \<and>
     q_user_id (f q) = q_user_id q \<and> (P q \<longrightarrow> q_state q = AttemptConsumed \<longrightarrow> q_state (f q) = AttemptConsumed))"

lemma attempts_update:
  assumes "update_attempts P f d = Some d'" "attempt_update P f" "attempts_ok (place_resolution_attempts d)"
  shows "attempts_ok (place_resolution_attempts d')"
proof -
  from update_attempts_SomeD [OF assms(1)]
  have d': "place_resolution_attempts d' = sql_update P f (place_resolution_attempts d)"
    and chk: "\<forall>q\<in>set (place_resolution_attempts d). P q \<longrightarrow> attempt_check (f q)"
    and tok: "distinct (attempt_tokens (sql_update P f (place_resolution_attempts d)))" by simp_all
  show ?thesis
    unfolding attempts_ok_def d'
    by (intro conjI LR_Database.distinct_update list_all_update tok)
      (use assms(2,3) chk in \<open>auto simp: attempts_ok_def attempt_update_def\<close>)
qed

lemma sources_update:
  assumes "update_attempts P f d = Some d'" "attempt_update P f" "place_sources_ok (place_resolution_attempts d) ps"
  shows "place_sources_ok (place_resolution_attempts d') ps"
  unfolding place_sources_ok_def
proof
  fix p
  assume "p \<in> set ps"
  with assms(3) obtain q where q: "q \<in> set (place_resolution_attempts d)" "q_id q = pl_source_resolution_id p"
    "q_user_id q = pl_owner_user_id p" "q_state q = AttemptConsumed" unfolding place_sources_ok_def by blast
  have "(if P q then f q else q) \<in> set (place_resolution_attempts d')"
    using update_attempts_SomeD [OF assms(1)] q(1) by (simp add: set_sql_update)
  then show "\<exists>q\<in>set (place_resolution_attempts d'). q_id q = pl_source_resolution_id p \<and> q_user_id q = pl_owner_user_id p \<and> q_state q = AttemptConsumed"
    by (rule rev_bexI) (use q assms(2) in \<open>auto simp: attempt_update_def\<close>)
qed

lemma web_update_attempts:
  assumes "update_attempts P f d = Some d'" "attempt_update P f" "web_ok d"
  shows "web_ok d'"
  using attempts_update [OF assms(1,2)] sources_update [OF assms(1,2), of "places d"] assms(3) update_attempts_SomeD [OF assms(1)]
  by (auto simp: web_ok_def)

lemma insert_place_SomeD:
  "insert_place p d = Some d' \<Longrightarrow> d' = d\<lparr>places := places d @ [p]\<rparr> \<and> place_check p \<and> fresh_in pl_id p (places d) \<and>
     fresh_in pl_source_resolution_id p (places d)"
  by (simp add: insert_place_def split: if_splits)

lemma attempt_updates:
  "attempt_update P (\<lambda>q. q\<lparr>q_provider_request_started_at := t\<rparr>)"
  "attempt_update (\<lambda>q. q_id q = k \<and> q_state q = AttemptPending) (resolved_row b c now)"
  "attempt_update (\<lambda>q. q_id q = k \<and> q_state q = AttemptPending) (\<lambda>q. q\<lparr>q_state := AttemptFailed, q_failure_code := z\<rparr>)"
  "attempt_update P (consumed_row now)"
  by (simp_all add: attempt_update_def resolved_row_def consumed_row_def)

lemma web_redeem:
  assumes "insert_place p d = Some d1" "update_attempts (\<lambda>x. q_id x = q_id q) (consumed_row now) d1 = Some d2"
    "q \<in> set (place_resolution_attempts d)" "pl_source_resolution_id p = q_id q" "pl_owner_user_id p = q_user_id q" "web_ok d"
  shows "web_ok d2"
proof -
  from insert_place_SomeD [OF assms(1)] have d1: "d1 = d\<lparr>places := places d @ [p]\<rparr>" and p: "place_check p" "fresh_in pl_id p (places d)"
    "fresh_in pl_source_resolution_id p (places d)" by simp_all
  have qs: "place_resolution_attempts d2 = sql_update (\<lambda>x. q_id x = q_id q) (consumed_row now) (place_resolution_attempts d)"
    and d2: "d2 = d1\<lparr>place_resolution_attempts := place_resolution_attempts d2\<rparr>"
    using update_attempts_SomeD [OF assms(2)] by (simp_all add: d1)
  have "attempts_ok (place_resolution_attempts d2)"
    by (rule attempts_update [OF assms(2) attempt_updates(4)]) (use assms(6) in \<open>simp add: d1 web_ok_def\<close>)
  moreover have "place_sources_ok (place_resolution_attempts d2) (places d)"
    by (rule sources_update [OF assms(2) attempt_updates(4)]) (use assms(6) in \<open>simp add: d1 web_ok_def\<close>)
  moreover have "consumed_row now q \<in> set (place_resolution_attempts d2)"
    unfolding qs set_sql_update using assms(3) by force
  ultimately have "attempts_ok (place_resolution_attempts d2)" "place_sources_ok (place_resolution_attempts d2) (places d @ [p])"
    using assms(4,5) by (auto simp: place_sources_ok_def consumed_row_def intro: rev_bexI)
  moreover have "places_ok (places d @ [p])" using assms(6) p by (simp add: web_ok_def places_ok_def fresh_in_def)
  moreover have "saved_refs_ok (d\<lparr>places := places d @ [p]\<rparr>)" using assms(6) by (fastforce simp: web_ok_def saved_refs_ok_def)
  ultimately show ?thesis using assms(6) by (subst d2) (simp add: d1 web_ok_def)
qed

section \<open>What the transactions keep\<close>

text \<open>The transactions on places change the attempts, the places and the idempotency records only.\<close>

definition place_frame :: "web_db \<Rightarrow> web_db \<Rightarrow> bool" where
  "place_frame d d' \<longleftrightarrow> core d' = core d \<and> trip_execution_operations d' = trip_execution_operations d \<and>
     saved_trip_plans d' = saved_trip_plans d \<and> saved_trip_activities d' = saved_trip_activities d \<and>
     saved_activity_open_windows d' = saved_activity_open_windows d \<and> (web_ok d \<longrightarrow> web_ok d')"

lemma place_frame_refl [simp]: "place_frame d d" by (simp add: place_frame_def)

lemma place_frame_trans: "place_frame d d' \<Longrightarrow> place_frame d' d'' \<Longrightarrow> place_frame d d''" by (simp add: place_frame_def)

lemma place_frame_insert_http: "insert_http h d = Some (b, d') \<Longrightarrow> place_frame d d'"
  using web_insert_http [of h d b d'] insert_http_SomeD [of h d d'] insert_http_FalseD [of h d d'] by (cases b) (auto simp: place_frame_def)

lemma place_frame_update_http:
  "update_http P f d = Some d' \<Longrightarrow> (\<And>h. h_id (f h) = h_id h) \<Longrightarrow> (\<And>h. http_key (f h) = http_key h) \<Longrightarrow> place_frame d d'"
  using web_update_http [of P f d d'] update_http_SomeD [of P f d d'] by (simp add: place_frame_def)

lemma place_frame_insert_attempt: "insert_attempt q d = Some d' \<Longrightarrow> place_frame d d'"
  using web_insert_attempt [of q d d'] insert_attempt_SomeD [of q d d'] by (auto simp: place_frame_def)

lemma place_frame_update_attempts: "update_attempts P f d = Some d' \<Longrightarrow> attempt_update P f \<Longrightarrow> place_frame d d'"
  using web_update_attempts [of P f d d'] update_attempts_SomeD [of P f d d'] by (simp add: place_frame_def)

lemma completed_row_keys [simp]:
  "h_id (completed_row status ct body res now h) = h_id h" "h_user_id (completed_row status ct body res now h) = h_user_id h"
  "h_http_method (completed_row status ct body res now h) = h_http_method h"
  "h_normalized_path (completed_row status ct body res now h) = h_normalized_path h"
  "h_idempotency_key (completed_row status ct body res now h) = h_idempotency_key h"
  "h_request_digest (completed_row status ct body res now h) = h_request_digest h"
  "h_digest_key_id (completed_row status ct body res now h) = h_digest_key_id h"
  by (simp_all add: completed_row_def)

lemma place_frame_completed:
  "update_http P (\<lambda>h. completed_row status ct body (res h) now h) d = Some d' \<Longrightarrow> place_frame d d'"
  by (erule place_frame_update_http) simp_all

lemmas place_frames = place_frame_insert_http place_frame_insert_attempt place_frame_completed
  place_frame_update_attempts [OF _ attempt_updates(2)] place_frame_update_attempts [OF _ attempt_updates(3)]

lemma run_tx_frame: "run_tx body d = (r, d') \<Longrightarrow> (\<And>x d'. body d = Inr (x, d') \<Longrightarrow> place_frame d d') \<Longrightarrow> place_frame d d'"
  by (auto simp: run_tx_def split: sum.splits prod.splits)

lemma reserveResolution_frame: "reserveResolution px keys clk rq rid aid kid dg d = (r, d') \<Longrightarrow> place_frame d d'"
  unfolding reserveResolution_def
  by (erule run_tx_frame) (auto simp: bindr_eq_Inr split: if_splits intro: place_frame_trans place_frames)

lemma mark_attempt_frame: "mark_attempt clk aid uid d = (b, d') \<Longrightarrow> place_frame d d'"
  by (auto simp: mark_attempt_def Let_def split: option.splits intro: place_frame_update_attempts attempt_updates)

lemma finalizeResolutionSuccess_frame: "finalizeResolutionSuccess e px clk rid aid tok c d = (r, d') \<Longrightarrow> place_frame d d'"
  unfolding finalizeResolutionSuccess_def
  by (erule run_tx_frame) (auto simp: bindr_eq_Inr Let_def split: if_splits intro: place_frame_trans place_frames)

lemma finalizeResolutionFailure_frame: "finalizeResolutionFailure e px clk rid aid qid x d = (r, d') \<Longrightarrow> place_frame d d'"
  unfolding finalizeResolutionFailure_def
  by (cases "placeFailure x")
    (auto simp: bindr_eq_Inr Let_def elim!: run_tx_frame dest!: place_frames(5) place_frame_completed
      intro: place_frame_trans)

text \<open>The two outcomes of a creation that is not a replay.\<close>

lemma CreatePlace_tx_cases:
  assumes "CreatePlace_tx e px rnd clk rq d = Inr (r, d')"
  obtains (replayed) "d' = d" "\<not> fresh_in http_key (create_http_row [] (ci_UserID rq) (ci_IdempotencyKey rq) [] 0 0) (http_idempotency_records d)"
      "replay_creation px rq d = Inr r"
    | (refused) rid d1 where "insert_http (create_http_row rid (ci_UserID rq) (ci_IdempotencyKey rq) (ci_RequestDigest rq) (clk 0) (clk 1)) d = Some (True, d1)"
      "query_row (redeemable e rq (clk 2)) (place_resolution_attempts d) = None" "refuse_place e px clk rq rid d1 = Inr (r, d')"
    | (redeemed) rid d1 pid q where
      "insert_http (create_http_row rid (ci_UserID rq) (ci_IdempotencyKey rq) (ci_RequestDigest rq) (clk 0) (clk 1)) d = Some (True, d1)"
      "query_row (redeemable e rq (clk 2)) (place_resolution_attempts d) = Some q" "redeem_place e px clk rq rid pid q d1 = Inr (r, d')"
proof -
  from assms obtain rid b d1 where ins: "insert_http (create_http_row rid (ci_UserID rq) (ci_IdempotencyKey rq) (ci_RequestDigest rq) (clk 0) (clk 1)) d = Some (b, d1)"
    and rest: "(if \<not> b then bindr (replay_creation px rq d1) (\<lambda>result. Inr (result, d1))
     else bindr (newAuthUUID (rnd 1)) (\<lambda>placeID.
       case query_row (redeemable e rq (clk 2)) (place_resolution_attempts d1) of
         None \<Rightarrow> refuse_place e px clk rq rid d1
       | Some q \<Rightarrow> redeem_place e px clk rq rid placeID q d1)) = Inr (r, d')"
    unfolding CreatePlace_tx_def by (auto simp: bindr_eq_Inr)
  show ?thesis
  proof (cases b)
    case True
    with ins have "place_resolution_attempts d1 = place_resolution_attempts d" by (auto dest: insert_http_SomeD)
    with rest ins True refused redeemed show ?thesis
      by (cases "query_row (redeemable e rq (clk 2)) (place_resolution_attempts d)") (auto simp: bindr_eq_Inr simp del: One_nat_def)
  next
    case False
    with insert_http_FalseD [of _ d d1] ins have "d1 = d" "\<not> fresh_in http_key (create_http_row rid (ci_UserID rq) (ci_IdempotencyKey rq) (ci_RequestDigest rq) (clk 0) (clk 1)) (http_idempotency_records d)"
      by auto
    with rest False show ?thesis by (intro replayed) (auto simp: bindr_eq_Inr fresh_in_def create_http_row_def new_http_row_def)
  qed
qed

lemma refuse_place_parts:
  assumes "refuse_place e px clk rq rid d = Inr (r, d')"
  obtains stored where "ph_Status r = 410" "to_jsonb e (ph_Body r) = Some stored"
    "update_http (\<lambda>h. h_id h = rid) (\<lambda>h. completed_row 410 ''application/problem+json'' (Some stored) (h_resource_id h) (clk 3) h) d = Some d'"
  using assms unfolding refuse_place_def by (auto simp: bindr_eq_Inr)

lemma redeem_place_parts:
  assumes "redeem_place e px clk rq rid pid q d = Inr (r, d')"
  obtains p d1 d2 body stored where "place_of_attempt pid (ci_UserID rq) (clk 3) q = Some p" "insert_place p d = Some d1"
    "update_attempts (\<lambda>x. q_id x = q_id q) (consumed_row (clk 4)) d1 = Some d2" "json_body px (place_json p) = Inr body"
    "to_jsonb e body = Some stored"
    "update_http (\<lambda>h. h_id h = rid) (\<lambda>h. completed_row 201 ''application/json'' (Some stored) (Some pid) (clk 5) h) d2 = Some d'"
    "r = \<lparr>ph_Status = 201, ph_ContentType = ''application/json'', ph_Body = body, ph_ResourceID = pid\<rparr>"
  using assms unfolding redeem_place_def by (auto simp: bindr_eq_Inr split: option.splits)

lemma place_of_attempt_SomeD:
  "place_of_attempt pid u now q = Some p \<Longrightarrow> pl_id p = pid \<and> pl_owner_user_id p = u \<and> pl_source_resolution_id p = q_id q"
  by (auto simp: place_of_attempt_def split: option.splits)

lemma redeem_place_frame:
  assumes "redeem_place e px clk rq rid pid q d = Inr (r, d')" "q \<in> set (place_resolution_attempts d)" "q_user_id q = ci_UserID rq"
  shows "place_frame d d'"
  using assms(1)
proof (cases rule: redeem_place_parts)
  case (1 p d1 d2 body stored)
  have "place_frame d d2"
    using web_redeem [OF 1(2,3) assms(2)] place_of_attempt_SomeD [OF 1(1)] assms(3) insert_place_SomeD [OF 1(2)]
      update_attempts_SomeD [OF 1(3)] by (simp add: place_frame_def)
  then show ?thesis by (rule place_frame_trans) (rule place_frame_completed [OF 1(6)])
qed

lemma CreatePlace_tx_frame:
  assumes "CreatePlace_tx e px rnd clk rq d = Inr (x, d')"
  shows "place_frame d d'"
  using assms
proof (cases rule: CreatePlace_tx_cases)
  case (refused rid d1)
  from refused(3) show ?thesis
    by (cases rule: refuse_place_parts) (rule place_frame_trans [OF place_frame_insert_http [OF refused(1)] place_frame_completed])
next
  case (redeemed rid d1 pid q)
  from query_row_SomeD [OF redeemed(2)] have "q \<in> set (place_resolution_attempts d1)" "q_user_id q = ci_UserID rq"
    using insert_http_SomeD [OF redeemed(1)] by (auto simp: redeemable_def)
  from place_frame_trans [OF place_frame_insert_http [OF redeemed(1)] redeem_place_frame [OF redeemed(3) this]] show ?thesis .
qed simp

lemma CreatePlace_frame: "CreatePlace e px rnd clk rq d = (r, d') \<Longrightarrow> place_frame d d'"
  by (auto simp: CreatePlace_def split: if_splits elim!: run_tx_frame intro: CreatePlace_tx_frame)

lemma Resolve_place_frame: "Resolve_place e px keys prov rnd clk rq d = (r, d') \<Longrightarrow> place_frame d d'"
  unfolding Resolve_place_def ask_provider_def Let_def
  by (auto split: if_splits option.splits sum.splits prod.splits provider_run.splits
      dest!: reserveResolution_frame mark_attempt_frame finalizeResolutionSuccess_frame finalizeResolutionFailure_frame
      intro: place_frame_trans)

section \<open>A resolution and its token\<close>

lemma find_http_absent: "find_http u m p k d = None \<longleftrightarrow> (u, m, p, k) \<notin> set (map http_key (http_idempotency_records d))"
  by (force simp: find_http_def query_row_None)

lemma resolve_http_row_key [simp]: "http_key (resolve_http_row rid u key kid dg t now) = (u, ''POST'', resolve_path, key)"
  by (simp add: resolve_http_row_def)

lemma reserveResolution_fresh:
  assumes "reserveResolution px keys clk rq rid aid kid dg d = (Inr None, d1)"
  shows "d1 = d\<lparr>http_idempotency_records := http_idempotency_records d @
       [resolve_http_row rid (ri_UserID rq) (ri_IdempotencyKey rq) kid dg (clk 0) (clk 1)],
     place_resolution_attempts := place_resolution_attempts d @ [pending_attempt aid (ri_UserID rq) rid (clk 2) (clk 3)]\<rparr>"
    "find_http (ri_UserID rq) ''POST'' resolve_path (ri_IdempotencyKey rq) d = None"
    "http_check (resolve_http_row rid (ri_UserID rq) (ri_IdempotencyKey rq) kid dg (clk 0) (clk 1))"
proof -
  from assms obtain d0 where "insert_http (resolve_http_row rid (ri_UserID rq) (ri_IdempotencyKey rq) kid dg (clk 0) (clk 1)) d = Some (True, d0)"
    "insert_attempt (pending_attempt aid (ri_UserID rq) rid (clk 2) (clk 3)) d0 = Some d1"
    unfolding reserveResolution_def run_tx_Inr by (auto simp: bindr_eq_Inr split: if_splits simp del: One_nat_def)
  from insert_http_SomeD [OF this(1)] insert_attempt_SomeD [OF this(2)] show
    "d1 = d\<lparr>http_idempotency_records := http_idempotency_records d @
       [resolve_http_row rid (ri_UserID rq) (ri_IdempotencyKey rq) kid dg (clk 0) (clk 1)],
     place_resolution_attempts := place_resolution_attempts d @ [pending_attempt aid (ri_UserID rq) rid (clk 2) (clk 3)]\<rparr>"
    "find_http (ri_UserID rq) ''POST'' resolve_path (ri_IdempotencyKey rq) d = None"
    "http_check (resolve_http_row rid (ri_UserID rq) (ri_IdempotencyKey rq) kid dg (clk 0) (clk 1))"
    unfolding find_http_absent fresh_in_def resolve_http_row_key by simp_all
qed

lemma reserveResolution_replay:
  assumes "reserveResolution px keys clk rq rid aid kid dg d = (Inr (Some r), d1)"
  shows "d1 = d" "replay_resolution px keys rq d = Inr r" "find_http (ri_UserID rq) ''POST'' resolve_path (ri_IdempotencyKey rq) d \<noteq> None"
proof -
  from assms have "insert_http (resolve_http_row rid (ri_UserID rq) (ri_IdempotencyKey rq) kid dg (clk 0) (clk 1)) d = Some (False, d1)"
    and r: "replay_resolution px keys rq d1 = Inr r"
    unfolding reserveResolution_def run_tx_Inr by (auto simp: bindr_eq_Inr split: if_splits simp del: One_nat_def)
  from insert_http_FalseD [OF this(1)] r show "d1 = d" "replay_resolution px keys rq d = Inr r" by simp_all
  then show "find_http (ri_UserID rq) ''POST'' resolve_path (ri_IdempotencyKey rq) d \<noteq> None"
    by (cases "find_http (ri_UserID rq) ''POST'' resolve_path (ri_IdempotencyKey rq) d") (simp_all add: replay_resolution_def)
qed

lemma placeFailure_status: "placeFailure x = (code, status, b) \<Longrightarrow> status \<noteq> 200"
  by (cases x rule: placeFailure.cases) auto

lemma finalizeResolutionFailure_status: "finalizeResolutionFailure e px clk rid aid qid x d = (Inr r, d') \<Longrightarrow> ph_Status r \<noteq> 200"
  unfolding finalizeResolutionFailure_def
  by (cases "placeFailure x") (auto simp: Let_def run_tx_Inr bindr_eq_Inr dest: placeFailure_status)

lemma finalizeResolutionSuccess_parts:
  assumes "finalizeResolutionSuccess e px clk rid aid token c d = (Inr r, d')"
  shows "d' = d\<lparr>place_resolution_attempts := sql_update (\<lambda>q. q_id q = aid \<and> q_state q = AttemptPending)
       (resolved_row (sha256Bytes e token) c (clk 0)) (place_resolution_attempts d),
     http_idempotency_records := sql_update (open_record rid)
       (\<lambda>h. completed_row 200 ''application/json'' None (Some aid) (clk 1) h) (http_idempotency_records d)\<rparr>"
    "pe_body px (resolution_json token (clk 0 + placeResolutionLifetime) c) = Some (ph_Body r)"
    "r = \<lparr>ph_Status = 200, ph_ContentType = ''application/json'', ph_Body = ph_Body r, ph_ResourceID = aid\<rparr>"
    "\<forall>h\<in>set (http_idempotency_records d). open_record rid h \<longrightarrow>
       http_check (completed_row 200 ''application/json'' None (Some aid) (clk 1) h)"
proof -
  from assms obtain d1 body where
    "update_attempts (\<lambda>q. q_id q = aid \<and> q_state q = AttemptPending) (resolved_row (sha256Bytes e token) c (clk 0)) d = Some d1"
    "json_body px (resolution_json token (clk 0 + placeResolutionLifetime) c) = Inr body"
    "update_http (open_record rid) (\<lambda>h. completed_row 200 ''application/json'' None (Some aid) (clk 1) h) d1 = Some d'"
    "r = \<lparr>ph_Status = 200, ph_ContentType = ''application/json'', ph_Body = body, ph_ResourceID = aid\<rparr>"
    unfolding finalizeResolutionSuccess_def run_tx_Inr Let_def by (auto simp: bindr_eq_Inr split: if_splits simp del: One_nat_def)
  with update_attempts_SomeD [OF this(1)] update_http_SomeD [OF this(3)]
  show "d' = d\<lparr>place_resolution_attempts := sql_update (\<lambda>q. q_id q = aid \<and> q_state q = AttemptPending)
       (resolved_row (sha256Bytes e token) c (clk 0)) (place_resolution_attempts d),
     http_idempotency_records := sql_update (open_record rid)
       (\<lambda>h. completed_row 200 ''application/json'' None (Some aid) (clk 1) h) (http_idempotency_records d)\<rparr>"
    "pe_body px (resolution_json token (clk 0 + placeResolutionLifetime) c) = Some (ph_Body r)"
    "r = \<lparr>ph_Status = 200, ph_ContentType = ''application/json'', ph_Body = ph_Body r, ph_ResourceID = aid\<rparr>"
    "\<forall>h\<in>set (http_idempotency_records d). open_record rid h \<longrightarrow>
       http_check (completed_row 200 ''application/json'' None (Some aid) (clk 1) h)"
    by (simp_all add: json_body_def split: option.splits)
qed

text \<open>What a resolution that answered with a candidate has left in the tables.\<close>

definition resolved_as ::
  "ext \<Rightarrow> place_ext \<Rightarrow> HMACKeyRing \<Rightarrow> ResolvePlaceInput \<Rightarrow> PlaceHTTPResult \<Rightarrow> string \<Rightarrow> Candidate \<Rightarrow> time \<Rightarrow> attempt_row \<Rightarrow> web_db \<Rightarrow> bool" where
  "resolved_as e px keys rq r token c expires q d \<longleftrightarrow> q \<in> set (place_resolution_attempts d) \<and>
     q_id q = ph_ResourceID r \<and> q_user_id q = ri_UserID rq \<and> q_state q = AttemptResolved \<and>
     q_resolution_token_sha256 q = Some (sha256Bytes e token) \<and> attempt_candidate q = Some c \<and> q_expires_at q = expires \<and>
     (case find_http (ri_UserID rq) ''POST'' resolve_path (ri_IdempotencyKey rq) d of
        None \<Rightarrow> False
      | Some h \<Rightarrow> http_check h \<and> h_id h = q_idempotency_record_id q \<and> h_digest_key_id h = Some (kr_CurrentID keys) \<and>
          Some (h_request_digest h) = HMAC (pe_hmac px) keys (kr_CurrentID keys) (ri_RequestIdentity rq) \<and>
          h_state h = Completed \<and> h_response_status h = Some 200 \<and> h_content_type h = Some ''application/json'')"

lemma Resolve_place_parts:
  assumes "Resolve_place e px keys prov rnd clk rq d = (Inr r, d1)" "ph_Status r = 200"
    "find_http (ri_UserID rq) ''POST'' resolve_path (ri_IdempotencyKey rq) d = None"
  obtains rid aid dg k d2 c token where "HMAC (pe_hmac px) keys (kr_CurrentID keys) (ri_RequestIdentity rq) = Some dg"
    "valid_resolve_input rq"
    "reserveResolution px keys clk rq rid aid (kr_CurrentID keys) dg d = (Inr None, d2)"
    "prov (ri_UserID rq) (ri_Coordinate rq) = Request k" "k True = Inr c"
    "placeToken px keys (kr_CurrentID keys) aid = Inr token"
    "finalizeResolutionSuccess e px (\<lambda>n. clk (5 + n)) rid aid token c (snd (mark_attempt (\<lambda>n. clk (4 + n)) aid (ri_UserID rq) d2)) = (Inr r, d1)"
proof -
  have valid: "valid_resolve_input rq" using assms(1) by (simp add: Resolve_place_def split: if_splits)
  with assms(1) obtain dg rid aid where dg: "HMAC (pe_hmac px) keys (kr_CurrentID keys) (ri_RequestIdentity rq) = Some dg"
    and main: "(case reserveResolution px keys clk rq rid aid (kr_CurrentID keys) dg d of
              (Inl x, d1) \<Rightarrow> (Inl x, d1)
            | (Inr (Some replay), d1) \<Rightarrow> (Inr replay, d1)
            | (Inr None, d1) \<Rightarrow>
                (case ask_provider prov (\<lambda>n. clk (4 + n)) aid rq d1 of (marked, a, d2) \<Rightarrow>
                  (case resolve_answer marked a of
                    Inl x \<Rightarrow> finalizeResolutionFailure e px (\<lambda>n. clk (5 + n)) rid aid (ri_RequestID rq) x d2
                  | Inr c \<Rightarrow> (case placeToken px keys (kr_CurrentID keys) aid of
                      Inl _ \<Rightarrow> finalizeResolutionFailure e px (\<lambda>n. clk (5 + n)) rid aid (ri_RequestID rq)
                        (ResolveError FailureProviderUnavailable True) d2
                    | Inr token \<Rightarrow> finalizeResolutionSuccess e px (\<lambda>n. clk (5 + n)) rid aid token c d2)))) = (Inr r, d1)"
    unfolding Resolve_place_def Let_def by (auto split: option.splits sum.splits prod.splits)
  from main reserveResolution_replay [of px keys clk rq rid aid "kr_CurrentID keys" dg d] assms(3)
  obtain d2 where d2: "reserveResolution px keys clk rq rid aid (kr_CurrentID keys) dg d = (Inr None, d2)"
    by (auto split: sum.splits prod.splits option.splits)
  obtain marked a d3 where ask: "ask_provider prov (\<lambda>n. clk (4 + n)) aid rq d2 = (marked, a, d3)" by (cases "ask_provider prov (\<lambda>n. clk (4 + n)) aid rq d2")
  from main d2 ask finalizeResolutionFailure_status assms(2) obtain c token where c: "resolve_answer marked a = Inr c"
    and token: "placeToken px keys (kr_CurrentID keys) aid = Inr token"
    and fin: "finalizeResolutionSuccess e px (\<lambda>n. clk (5 + n)) rid aid token c d3 = (Inr r, d1)"
    by (auto split: sum.splits)
  from c have "marked" "a = Inr c" by (auto simp: resolve_answer_def split: sum.splits if_splits)
  with ask obtain k where "prov (ri_UserID rq) (ri_Coordinate rq) = Request k" "k True = Inr c"
    "d3 = snd (mark_attempt (\<lambda>n. clk (4 + n)) aid (ri_UserID rq) d2)"
    by (auto simp: ask_provider_def split: provider_run.splits prod.splits)
  with that dg valid d2 token fin show ?thesis by blast
qed

lemma mark_attempt_pending:
  assumes "q \<in> set (place_resolution_attempts d)" "q_state q = AttemptPending"
  shows "\<exists>x\<in>set (place_resolution_attempts (snd (mark_attempt clk aid u d))). q_id x = q_id q \<and> q_user_id x = q_user_id q \<and>
     q_idempotency_record_id x = q_idempotency_record_id q \<and> q_state x = AttemptPending"
proof -
  let ?P = "\<lambda>x. q_id x = aid \<and> q_user_id x = u \<and> q_state x = AttemptPending"
  let ?f = "\<lambda>x. x\<lparr>q_provider_request_started_at := Some (clk 0)\<rparr>"
  show ?thesis
  proof (cases "update_attempts ?P ?f d")
    case None
    then have "snd (mark_attempt clk aid u d) = d" by (simp add: mark_attempt_def Let_def)
    with assms show ?thesis by auto
  next
    case (Some d1)
    then have "place_resolution_attempts (snd (mark_attempt clk aid u d)) = sql_update ?P ?f (place_resolution_attempts d)"
      using update_attempts_SomeD [OF Some] by (simp add: mark_attempt_def Let_def)
    moreover have "(if ?P q then ?f q else q) \<in> set (sql_update ?P ?f (place_resolution_attempts d))"
      using assms(1) by (simp add: set_sql_update)
    ultimately show ?thesis by (intro bexI [of _ "if ?P q then ?f q else q"]) (simp_all add: assms(2))
  qed
qed

lemma mark_attempt_tables:
  "http_idempotency_records (snd (mark_attempt clk aid u d)) = http_idempotency_records d" "places (snd (mark_attempt clk aid u d)) = places d"
  by (auto simp: mark_attempt_def Let_def split: option.splits dest!: update_attempts_SomeD)

lemma resolved_row_candidate: "attempt_candidate (resolved_row b c now q) = Some c"
  by (simp add: attempt_candidate_def resolved_row_def)

lemma Resolve_place_resolved:
  assumes "Resolve_place e px keys prov rnd clk rq d = (Inr r, d1)" "ph_Status r = 200"
    "find_http (ri_UserID rq) ''POST'' resolve_path (ri_IdempotencyKey rq) d = None"
  obtains k c token q where "prov (ri_UserID rq) (ri_Coordinate rq) = Request k" "k True = Inr c"
    "placeToken px keys (kr_CurrentID keys) (ph_ResourceID r) = Inr token"
    "pe_body px (resolution_json token (clk 5 + placeResolutionLifetime) c) = Some (ph_Body r)"
    "resolved_as e px keys rq r token c (clk 5 + placeResolutionLifetime) q d1"
    "ph_ContentType r = ''application/json''" "places d1 = places d" "valid_resolve_input rq"
  using assms
proof (cases rule: Resolve_place_parts)
  case (1 rid aid dg k d2 c token)
  let ?h = "resolve_http_row rid (ri_UserID rq) (ri_IdempotencyKey rq) (kr_CurrentID keys) dg (clk 0) (clk 1)"
  let ?d3 = "snd (mark_attempt (\<lambda>n. clk (4 + n)) aid (ri_UserID rq) d2)"
  note d2 = reserveResolution_fresh [OF 1(3)]
  note fin = finalizeResolutionSuccess_parts [OF 1(7)]
  have "pending_attempt aid (ri_UserID rq) rid (clk 2) (clk 3) \<in> set (place_resolution_attempts d2)" by (simp add: d2(1))
  from mark_attempt_pending [OF this, of "\<lambda>n. clk (4 + n)" aid "ri_UserID rq"] obtain q where q: "q \<in> set (place_resolution_attempts ?d3)" "q_id q = aid"
    "q_user_id q = ri_UserID rq" "q_idempotency_record_id q = rid" "q_state q = AttemptPending" by (auto simp: pending_attempt_def)
  let ?q = "resolved_row (sha256Bytes e token) c (clk 5) q"
  have mem: "?q \<in> set (place_resolution_attempts d1)" unfolding fin(1) using q by (force simp: set_sql_update)
  have op: "open_record rid ?h" by (simp add: open_record_def resolve_http_row_def)
  have "query_row (\<lambda>h. http_key h = (ri_UserID rq, ''POST'', resolve_path, ri_IdempotencyKey rq)) (http_idempotency_records ?d3) = Some ?h"
    using d2(2) unfolding find_http_def by (simp add: d2(1) mark_attempt_tables query_row_snoc resolve_http_row_def)
  from query_row_update [OF this, of "open_record rid" "\<lambda>h. completed_row 200 ''application/json'' None (Some aid) (clk 6) h"] op
  have h: "find_http (ri_UserID rq) ''POST'' resolve_path (ri_IdempotencyKey rq) d1 = Some (completed_row 200 ''application/json'' None (Some aid) (clk 6) ?h)"
    unfolding find_http_def fin(1) by simp
  have "http_check (completed_row 200 ''application/json'' None (Some aid) (clk 6) ?h)"
    using fin(4) op by (simp add: mark_attempt_tables d2(1))
  then have "resolved_as e px keys rq r token c (clk 5 + placeResolutionLifetime) ?q d1"
    using mem q 1(1) fin(3) unfolding resolved_as_def h resolved_row_candidate
    by (simp add: resolved_row_def completed_row_def resolve_http_row_def) (metis PlaceHTTPResult.select_convs(4))
  moreover have "placeToken px keys (kr_CurrentID keys) (ph_ResourceID r) = Inr token" "ph_ContentType r = ''application/json''"
    using 1(6) fin(3) by (metis PlaceHTTPResult.select_convs(2,4))+
  moreover have "places d1 = places d" by (simp add: fin(1) mark_attempt_tables d2(1))
  ultimately show ?thesis using that 1(2,4,5) fin(2) by simp
qed

text \<open>Attempts are told apart by the hash of their token.\<close>

lemma attempt_token_unique:
  assumes "attempts_ok qs" "q \<in> set qs" "x \<in> set qs" "q_resolution_token_sha256 q = Some b" "q_resolution_token_sha256 x = Some b"
  shows "x = q"
proof -
  from assms(1) have "distinct (attempt_tokens qs)" by (simp add: attempts_ok_def)
  then show ?thesis using assms(2-5)
  proof (induction qs)
    case (Cons y qs)
    have mem: "z \<in> set qs \<Longrightarrow> q_resolution_token_sha256 z = Some b \<Longrightarrow> b \<in> set (attempt_tokens qs)" for z
      by (force simp: attempt_tokens_def map_filter_def)
    from Cons show ?case
      by (cases "q_resolution_token_sha256 y") (use mem in \<open>auto simp: attempt_tokens_def map_filter_simps\<close>)
  qed simp
qed

lemma redeemable_unique:
  assumes "attempts_ok qs" "q \<in> set qs" "redeemable e rq now q"
  shows "query_row (redeemable e rq now) qs = Some q"
proof -
  from assms(2,3) obtain x where x: "query_row (redeemable e rq now) qs = Some x"
    by (cases "query_row (redeemable e rq now) qs") (auto simp: query_row_None)
  from query_row_SomeD [OF x] assms have "x = q" by (intro attempt_token_unique [OF assms(1,2)]) (auto simp: redeemable_def)
  with x show ?thesis by simp
qed

lemma candidate_place:
  assumes "attempt_candidate q = Some c" "place_of_attempt pid u now q = Some p"
    "option_all (\<lambda>s. 1 \<le> char_length s \<and> char_length s \<le> 500) (q_formatted_address q)"
  shows "p = \<lparr>pl_id = pid, pl_owner_user_id = u, pl_source_resolution_id = q_id q, pl_latitude = cd_Latitude c, pl_longitude = cd_Longitude c,
     pl_formatted_address = (if cd_FormattedAddress c = [] then None else Some (cd_FormattedAddress c)),
     pl_display_name = cd_DisplayName c, pl_time_zone_name = cd_TimeZoneName c, pl_created_at = now\<rparr>"
  using assms by (cases "q_formatted_address q") (auto simp: attempt_candidate_def place_of_attempt_def split: option.splits)

lemma create_http_row_key [simp]: "http_key (create_http_row rid u key dg t now) = (u, ''POST'', places_path, key)"
  by (simp add: create_http_row_def new_http_row_def)

lemma CreatePlace_tx_of: "CreatePlace e px rnd clk rq d = (Inr r, d') \<Longrightarrow> CreatePlace_tx e px rnd clk rq d = Inr (r, d')"
  by (simp add: CreatePlace_def run_tx_Inr split: if_splits)

lemma CreatePlace_redeems:
  assumes "CreatePlace e px rnd clk rq d = (Inr r, d')" "web_ok d" "q \<in> set (place_resolution_attempts d)" "redeemable e rq (clk 2) q"
    "find_http (ci_UserID rq) ''POST'' places_path (ci_IdempotencyKey rq) d = None"
  obtains rid d1 pid where
    "insert_http (create_http_row rid (ci_UserID rq) (ci_IdempotencyKey rq) (ci_RequestDigest rq) (clk 0) (clk 1)) d = Some (True, d1)"
    "redeem_place e px clk rq rid pid q d1 = Inr (r, d')"
  using CreatePlace_tx_of [OF assms(1)]
proof (cases rule: CreatePlace_tx_cases)
  case replayed
  with assms(5) show ?thesis unfolding find_http_absent fresh_in_def create_http_row_key by simp
next
  case (refused rid d1)
  with redeemable_unique [OF _ assms(3,4)] assms(2) show ?thesis by (simp add: web_ok_def)
next
  case (redeemed rid d1 pid x)
  with redeemable_unique [OF _ assms(3,4)] assms(2) that show ?thesis by (simp add: web_ok_def)
qed

section \<open>Properties\<close>

text \<open>
  C35. A token buys the place it was answered with: when a resolution has answered with a candidate, a creation by the
  same user with the token of the answer, before it expires, stores exactly one place, the candidate of the provider, and answers 201.
\<close>

theorem resolution_redeemed:
  assumes "web_ok d" "Resolve_place e px keys prov rnd clk rq d = (Inr r, d1)" "ph_Status r = 200"
    "find_http (ri_UserID rq) ''POST'' resolve_path (ri_IdempotencyKey rq) d = None"
    "placeToken px keys (kr_CurrentID keys) (ph_ResourceID r) = Inr token"
    "CreatePlace e px rnd' clk' cq d1 = (Inr r', d2)" "ci_UserID cq = ri_UserID rq" "ci_ResolutionToken cq = token"
    "find_http (ci_UserID cq) ''POST'' places_path (ci_IdempotencyKey cq) d1 = None"
    "clk' 2 < clk 5 + placeResolutionLifetime"
  shows "\<exists>k c. prov (ri_UserID rq) (ri_Coordinate rq) = Request k \<and> k True = Inr c \<and>
     pe_body px (resolution_json token (clk 5 + placeResolutionLifetime) c) = Some (ph_Body r) \<and> ph_Status r' = 201 \<and>
     places d2 = places d @
       [\<lparr>pl_id = ph_ResourceID r', pl_owner_user_id = ri_UserID rq, pl_source_resolution_id = ph_ResourceID r,
         pl_latitude = cd_Latitude c, pl_longitude = cd_Longitude c,
         pl_formatted_address = (if cd_FormattedAddress c = [] then None else Some (cd_FormattedAddress c)),
         pl_display_name = cd_DisplayName c, pl_time_zone_name = cd_TimeZoneName c, pl_created_at = clk' 3\<rparr>]"
  using assms(2-4)
proof (cases rule: Resolve_place_resolved)
  case (1 k c tok q)
  have tok: "tok = token" using 1(3) assms(5) by simp
  have ok: "web_ok d1" using Resolve_place_frame [OF assms(2)] assms(1) by (simp add: place_frame_def)
  have q: "q \<in> set (place_resolution_attempts d1)" "redeemable e cq (clk' 2) q" "attempt_candidate q = Some c" "q_id q = ph_ResourceID r"
    using 1(5) assms(7,8,10) tok by (auto simp: resolved_as_def redeemable_def)
  from ok q(1) have "attempt_check q" by (simp add: web_ok_def attempts_ok_def list_all_iff)
  then have addr: "option_all (\<lambda>s. 1 \<le> char_length s \<and> char_length s \<le> 500) (q_formatted_address q)" by (simp add: attempt_check_def)
  from assms(6) ok q(1,2) assms(9) show ?thesis
  proof (cases rule: CreatePlace_redeems)
    case ins: (1 rid d1a pid)
    from ins(2) show ?thesis
    proof (cases rule: redeem_place_parts)
      case red: (1 p d3 d4 body stored)
      have "places d2 = places d @ [p]"
        using insert_http_SomeD [OF ins(1)] insert_place_SomeD [OF red(2)] update_attempts_SomeD [OF red(3)] update_http_SomeD [OF red(6)] 1(7)
        by simp
      with candidate_place [OF q(3) red(1) addr] red(7) q(4) assms(7) 1(1,2,4) tok show ?thesis by auto
    qed
  qed
qed

text \<open>What a creation that answered 201 has left in the tables.\<close>

lemma CreatePlace_stores:
  assumes "CreatePlace e px rnd clk rq d = (Inr r, d1)" "ph_Status r = 201"
    "find_http (ci_UserID rq) ''POST'' places_path (ci_IdempotencyKey rq) d = None"
  obtains p x h stored where "places d1 = places d @ [p]" "pl_id p = ph_ResourceID r" "pl_owner_user_id p = ci_UserID rq"
    "pe_body px (place_json p) = Some (ph_Body r)" "to_jsonb e (ph_Body r) = Some stored"
    "x \<in> set (place_resolution_attempts d1)" "q_state x = AttemptConsumed"
    "q_resolution_token_sha256 x = Some (sha256Bytes e (ci_ResolutionToken rq))"
    "find_http (ci_UserID rq) ''POST'' places_path (ci_IdempotencyKey rq) d1 = Some h" "h_response_status h = Some 201"
    "h_response_body h = Some stored"
  using CreatePlace_tx_of [OF assms(1)]
proof (cases rule: CreatePlace_tx_cases)
  case replayed
  with assms(3) show ?thesis unfolding find_http_absent fresh_in_def create_http_row_key by simp
next
  case (refused rid d1)
  from refused(3) assms(2) show ?thesis by (cases rule: refuse_place_parts) simp
next
  case (redeemed rid d1a pid q)
  let ?h = "create_http_row rid (ci_UserID rq) (ci_IdempotencyKey rq) (ci_RequestDigest rq) (clk 0) (clk 1)"
  from query_row_SomeD [OF redeemed(2)] have q: "q \<in> set (place_resolution_attempts d)"
    "q_resolution_token_sha256 q = Some (sha256Bytes e (ci_ResolutionToken rq))" by (simp_all add: redeemable_def)
  from redeemed(3) show ?thesis
  proof (cases rule: redeem_place_parts)
    case (1 p d3 d4 body stored)
    note tabs = insert_http_SomeD [OF redeemed(1)] insert_place_SomeD [OF 1(2)] update_attempts_SomeD [OF 1(3)] update_http_SomeD [OF 1(6)]
    have "place_resolution_attempts d1 = sql_update (\<lambda>x. q_id x = q_id q) (consumed_row (clk 4)) (place_resolution_attempts d)"
      using tabs by simp
    then have con: "consumed_row (clk 4) q \<in> set (place_resolution_attempts d1)" using q(1) by (force simp: set_sql_update)
    have "query_row (\<lambda>h. http_key h = (ci_UserID rq, ''POST'', places_path, ci_IdempotencyKey rq)) (http_idempotency_records d @ [?h]) = Some ?h"
      using assms(3) unfolding find_http_def by (simp add: query_row_snoc create_http_row_def new_http_row_def)
    from query_row_update [OF this, of "\<lambda>h. h_id h = rid" "\<lambda>h. completed_row 201 ''application/json'' (Some stored) (Some pid) (clk 5) h"]
    have h: "find_http (ci_UserID rq) ''POST'' places_path (ci_IdempotencyKey rq) d1 =
        Some (completed_row 201 ''application/json'' (Some stored) (Some pid) (clk 5) ?h)"
      using tabs unfolding find_http_def by (simp add: create_http_row_def new_http_row_def)
    show ?thesis
      by (rule that [OF _ _ _ _ _ con _ _ h])
        (use tabs 1(4,5,7) q(2) place_of_attempt_SomeD [OF 1(1)] in \<open>auto simp: consumed_row_def completed_row_def json_body_def split: option.splits\<close>)
  qed
qed

text \<open>A creation that finds no attempt to redeem.\<close>

lemma CreatePlace_no_attempt:
  assumes "CreatePlace e px rnd clk rq d = (Inr r, d')" "\<And>now. query_row (redeemable e rq now) (place_resolution_attempts d) = None"
  shows "places d' = places d \<and> (d' = d \<and> replay_creation px rq d = Inr r \<or> ph_Status r = 410 \<and>
     find_http (ci_UserID rq) ''POST'' places_path (ci_IdempotencyKey rq) d = None)"
  using CreatePlace_tx_of [OF assms(1)]
proof (cases rule: CreatePlace_tx_cases)
  case (refused rid d1)
  from insert_http_SomeD [OF refused(1)] have "find_http (ci_UserID rq) ''POST'' places_path (ci_IdempotencyKey rq) d = None"
    "places d1 = places d" unfolding find_http_absent fresh_in_def create_http_row_key by simp_all
  with refused(3) show ?thesis by (cases rule: refuse_place_parts) (auto dest: update_http_SomeD)
qed (simp_all add: assms(2))

text \<open>
  C36. A token buys one place: after a creation that stored a place, no later creation with the same token stores another one,
  whoever asks. The redelivery of the request changes nothing and answers 201 with the stored body; under another key the
  answer is 410.
\<close>

theorem place_created_once:
  assumes "web_ok d" "CreatePlace e px rnd clk rq d = (Inr r, d1)" "ph_Status r = 201"
    "find_http (ci_UserID rq) ''POST'' places_path (ci_IdempotencyKey rq) d = None"
    "CreatePlace e px rnd' clk' rq' d1 = (Inr r', d2)" "ci_ResolutionToken rq' = ci_ResolutionToken rq"
  shows "(\<exists>p. places d1 = places d @ [p] \<and> pl_id p = ph_ResourceID r \<and> pl_owner_user_id p = ci_UserID rq \<and>
       pe_body px (place_json p) = Some (ph_Body r)) \<and> places d2 = places d1 \<and>
     (ci_UserID rq' = ci_UserID rq \<and> ci_IdempotencyKey rq' = ci_IdempotencyKey rq \<longrightarrow>
       d2 = d1 \<and> ph_Status r' = 201 \<and> Option.bind (to_jsonb e (ph_Body r)) (pe_canonical px) = Some (ph_Body r')) \<and>
     (find_http (ci_UserID rq') ''POST'' places_path (ci_IdempotencyKey rq') d1 = None \<longrightarrow> ph_Status r' = 410)"
proof -
  have ok: "web_ok d1" using CreatePlace_frame [OF assms(2)] assms(1) by (simp add: place_frame_def)
  from assms(2-4) obtain p x h stored where st: "places d1 = places d @ [p]" "pl_id p = ph_ResourceID r" "pl_owner_user_id p = ci_UserID rq"
    "pe_body px (place_json p) = Some (ph_Body r)" "to_jsonb e (ph_Body r) = Some stored"
    and x: "x \<in> set (place_resolution_attempts d1)" "q_state x = AttemptConsumed"
      "q_resolution_token_sha256 x = Some (sha256Bytes e (ci_ResolutionToken rq))"
    and h: "find_http (ci_UserID rq) ''POST'' places_path (ci_IdempotencyKey rq) d1 = Some h" "h_response_status h = Some 201"
      "h_response_body h = Some stored"
    by (rule CreatePlace_stores)
  have "y = x" if "y \<in> set (place_resolution_attempts d1)" "redeemable e rq' now y" for y now
    by (rule attempt_token_unique [OF _ x(1) that(1) x(3)]) (use ok that(2) assms(6) in \<open>simp_all add: web_ok_def redeemable_def\<close>)
  with x(2) have none: "query_row (redeemable e rq' now) (place_resolution_attempts d1) = None" for now
    unfolding query_row_None redeemable_def by fastforce
  have "replay_creation px rq' d1 = Inr r' \<Longrightarrow> find_http (ci_UserID rq') ''POST'' places_path (ci_IdempotencyKey rq') d1 \<noteq> None"
    by (cases "find_http (ci_UserID rq') ''POST'' places_path (ci_IdempotencyKey rq') d1") (simp_all add: replay_creation_def)
  moreover have "replay_creation px rq' d1 = Inr r' \<Longrightarrow> ci_UserID rq' = ci_UserID rq \<Longrightarrow> ci_IdempotencyKey rq' = ci_IdempotencyKey rq \<Longrightarrow>
      ph_Status r' = 201 \<and> pe_canonical px stored = Some (ph_Body r')"
    using h by (auto simp: replay_creation_def bindr_eq_Inr canonicalHTTPBody_def split: if_splits option.splits)
  ultimately show ?thesis using CreatePlace_no_attempt [OF assms(5) none] st h(1) by auto
qed

text \<open>
  C37. The answer of a resolution is repeated: the same request under the same key, with any request identifier, answers the same
  body, with the same token, changes nothing and does not ask the provider, whatever it would answer. The token is
  not stored: it is computed again from the identifier of the attempt.
\<close>

theorem resolution_replayed:
  assumes "web_ok d" "Resolve_place e px keys prov rnd clk rq d = (Inr r, d1)" "ph_Status r = 200"
    "find_http (ri_UserID rq) ''POST'' resolve_path (ri_IdempotencyKey rq) d = None"
    "ri_UserID rq' = ri_UserID rq" "ri_IdempotencyKey rq' = ri_IdempotencyKey rq" "ri_RequestIdentity rq' = ri_RequestIdentity rq"
    "validCanonicalUUID (ri_RequestID rq')" "newAuthUUID (rnd' 0) = Inr aid" "newAuthUUID (rnd' 1) = Inr rid" "clk' 0 \<le> clk' 1"
    "\<And>j b. pe_body px j = Some b \<Longrightarrow> pe_canonical px b = Some b"
  shows "Resolve_place e px keys prov' rnd' clk' rq' d1 = (Inr (r\<lparr>ph_ResourceID := []\<rparr>), d1)"
  using assms(2-4)
proof (cases rule: Resolve_place_resolved)
  case (1 k c token q)
  have ok: "attempts_ok (place_resolution_attempts d1)"
    using Resolve_place_frame [OF assms(2)] assms(1) by (simp add: place_frame_def web_ok_def)
  from 1(5) obtain h where h: "find_http (ri_UserID rq) ''POST'' resolve_path (ri_IdempotencyKey rq) d1 = Some h"
    and hs: "http_check h" "h_id h = q_idempotency_record_id q" "h_digest_key_id h = Some (kr_CurrentID keys)"
      "HMAC (pe_hmac px) keys (kr_CurrentID keys) (ri_RequestIdentity rq) = Some (h_request_digest h)"
      "h_state h = Completed" "h_response_status h = Some 200" "h_content_type h = Some ''application/json''"
    by (auto simp: resolved_as_def split: option.splits)
  let ?h = "resolve_http_row rid (ri_UserID rq) (ri_IdempotencyKey rq) (kr_CurrentID keys) (h_request_digest h) (clk' 0) (clk' 1)"
  have "http_check ?h"
    using hs(1,3) assms(11) by (simp add: http_check_def resolve_http_row_def resolve_path_def starts_with_def http_operation_kinds_def httpRecordLifetime_def)
  moreover have "\<not> fresh_in http_key ?h (http_idempotency_records d1)"
    using h find_http_absent [of "ri_UserID rq" "''POST''" resolve_path "ri_IdempotencyKey rq" d1] unfolding fresh_in_def resolve_http_row_key by simp
  ultimately have ins: "insert_http ?h d1 = Some (False, d1)" by (simp add: insert_http_def)
  have "query_row (\<lambda>x. q_idempotency_record_id x = h_id h \<and> q_state x \<in> {AttemptResolved, AttemptConsumed}) (place_resolution_attempts d1) = Some q"
    by (rule query_row_key [where key = q_idempotency_record_id]) (use ok 1(5) hs(2) in \<open>auto simp: attempts_ok_def resolved_as_def\<close>)
  then have body: "resolutionReplayBody px keys (h_id h) (kr_CurrentID keys) d1 = Inr (ph_Body r)"
    using 1(3-5) by (simp add: resolutionReplayBody_def resolved_as_def json_body_def)
  have "replay_resolution px keys rq' d1 = Inr (r\<lparr>ph_ResourceID := []\<rparr>)"
    using h hs body assms(3,5-7,12) 1(4,6) by (simp add: replay_resolution_def canonicalHTTPBody_def)
  then have "reserveResolution px keys clk' rq' rid aid (kr_CurrentID keys) (h_request_digest h) d1 = (Inr (Some (r\<lparr>ph_ResourceID := []\<rparr>)), d1)"
    using ins assms(5,6) by (simp add: reserveResolution_def run_tx_def)
  then show ?thesis using assms(5-10) hs(4) 1(8) by (simp add: Resolve_place_def valid_resolve_input_def)
qed

section \<open>A sample\<close>

text \<open>A user resolves a coordinate and creates the place.\<close>

definition sample_id :: "char \<Rightarrow> uuid" where
  "sample_id c = ''00000000-0000-4000-8000-00000000000'' @ [c]"

definition sample_entropy :: "nat \<Rightarrow> entropy" where
  "sample_entropy k n = Some (replicate 15 0 @ [word_of_nat (k + n)])"

lemma sample_entropy_ids [simp]:
  "newAuthUUID (sample_entropy 0 0) = Inr (sample_id CHR ''0'')" "newAuthUUID (sample_entropy 0 1) = Inr (sample_id CHR ''1'')"
  "newAuthUUID (sample_entropy 0 2) = Inr (sample_id CHR ''2'')" "newAuthUUID (sample_entropy 0 3) = Inr (sample_id CHR ''3'')"
  "newAuthUUID (sample_entropy 4 0) = Inr (sample_id CHR ''4'')" "newAuthUUID (sample_entropy 4 1) = Inr (sample_id CHR ''5'')"
  "newAuthUUID (sample_entropy 4 2) = Inr (sample_id CHR ''6'')" "newAuthUUID (sample_entropy 0 (Suc 0)) = Inr (sample_id CHR ''1'')"
  "newAuthUUID (sample_entropy 4 (Suc 0)) = Inr (sample_id CHR ''5'')"
  "newAuthUUID (sample_entropy 10 0) = Inr (sample_id CHR ''a'')" "newAuthUUID (sample_entropy 10 (Suc 0)) = Inr (sample_id CHR ''b'')"
  "newAuthUUID (sample_entropy 12 0) = Inr (sample_id CHR ''c'')" "newAuthUUID (sample_entropy 12 (Suc 0)) = Inr (sample_id CHR ''d'')"
  by code_simp+

lemma sample_id_eq [simp]: "sample_id c = sample_id c' \<longleftrightarrow> c = c'" "sample_id c \<noteq> []" "sample_id c \<noteq> sample_uuid c'"
proof -
  have "(sample_id c ! 0, sample_id c ! 14) \<noteq> (sample_uuid c' ! 0, sample_uuid c' ! 14)"
    by (auto simp: sample_id_def sample_uuid_def nth_append)
  then show "sample_id c \<noteq> sample_uuid c'" by metis
qed (simp_all add: sample_id_def)

lemma sample_id_valid [simp]:
  "validCanonicalUUID (sample_id CHR ''1'')" "validCanonicalUUID (sample_id CHR ''2'')" "validCanonicalUUID (sample_id CHR ''d'')"
  by code_simp+

definition sample_px :: place_ext where
  "sample_px = \<lparr>pe_hmac = (\<lambda>_ _. replicate 32 0), pe_json = (\<lambda>_. Some [1]), pe_tokens = (\<lambda>_. ([TNull], True)),
     pe_rfc8785 = (\<lambda>_. Some [1])\<rparr>"

lemma sample_px_simps [simp]:
  "pe_hmac sample_px k v = replicate 32 0" "pe_canonical sample_px v = Some [1]" "pe_body sample_px j = Some [1]"
  by (simp_all add: sample_px_def pe_canonical_def pe_body_def Marshal_def bindr_def eval_nat_numeral)

definition sample_keys :: HMACKeyRing where
  "sample_keys = \<lparr>kr_CurrentID = ''k1'', kr_CurrentValue = replicate 32 1, kr_Previous = []\<rparr>"

definition sample_candidate :: Candidate where
  "sample_candidate = \<lparr>cd_Latitude = Finite 0, cd_Longitude = Finite 0, cd_FormattedAddress = ''Museum, 1 Street'', cd_DisplayName = ''Museum'',
     cd_TimeZoneName = ''Etc/UTC''\<rparr>"

definition sample_provider :: provider where
  "sample_provider user c = Request (\<lambda>ok. if ok then Inr sample_candidate else Inl (ResolveError FailureProviderUnavailable True))"

definition sample_resolution :: ResolvePlaceInput where
  "sample_resolution = \<lparr>ri_UserID = sample_uuid CHR ''a'', ri_IdempotencyKey = sample_uuid CHR ''8'', ri_RequestIdentity = [1],
     ri_RequestID = sample_uuid CHR ''1'', ri_Coordinate = \<lparr>co_Latitude = Finite 0, co_Longitude = Finite 0\<rparr>\<rparr>"

definition sample_token :: string where "sample_token = base64_encode (replicate 32 0)"

definition sample_place_request :: CreatePlaceInput where
  "sample_place_request = \<lparr>ci_UserID = sample_uuid CHR ''a'', ci_IdempotencyKey = sample_uuid CHR ''9'', ci_RequestDigest = replicate 32 0,
     ci_ResolutionToken = sample_token, ci_RequestID = sample_uuid CHR ''2''\<rparr>"

definition resolution_record :: http_row where
  "resolution_record = completed_row 200 ''application/json'' None (Some (sample_id CHR ''a'')) 0
     (resolve_http_row (sample_id CHR ''b'') (sample_uuid CHR ''a'') (sample_uuid CHR ''8'') ''k1'' (replicate 32 0) 0 0)"

definition place_record :: http_row where
  "place_record = completed_row 201 ''application/json'' (Some [1]) (Some (sample_id CHR ''d'')) 0
     (create_http_row (sample_id CHR ''c'') (sample_uuid CHR ''a'') (sample_uuid CHR ''9'') (replicate 32 0) 0 0)"

definition sample_attempt :: attempt_row where
  "sample_attempt = \<lparr>q_id = sample_id CHR ''a'', q_user_id = sample_uuid CHR ''a'', q_idempotency_record_id = sample_id CHR ''b'',
     q_state = AttemptResolved, q_provider_request_started_at = Some 0, q_resolution_token_sha256 = Some (replicate 32 0),
     q_latitude = Some (Finite 0), q_longitude = Some (Finite 0), q_formatted_address = Some ''Museum, 1 Street'',
     q_display_name = Some ''Museum'', q_time_zone_name = Some ''Etc/UTC'', q_failure_code = None, q_created_at = 0,
     q_expires_at = placeResolutionLifetime, q_consumed_at = None\<rparr>"

definition sample_place :: place_row where
  "sample_place = \<lparr>pl_id = sample_id CHR ''d'', pl_owner_user_id = sample_uuid CHR ''a'', pl_source_resolution_id = sample_id CHR ''a'',
     pl_latitude = Finite 0, pl_longitude = Finite 0, pl_formatted_address = Some ''Museum, 1 Street'', pl_display_name = ''Museum'',
     pl_time_zone_name = ''Etc/UTC'', pl_created_at = 0\<rparr>"

definition resolved_web :: web_db where
  "resolved_web = (empty_web [sample_uuid CHR ''a''])\<lparr>http_idempotency_records := [resolution_record],
     place_resolution_attempts := [sample_attempt]\<rparr>"

definition placed_web :: web_db where
  "placed_web = (empty_web [sample_uuid CHR ''a''])\<lparr>http_idempotency_records := [resolution_record, place_record],
     place_resolution_attempts := [consumed_row 0 sample_attempt], places := [sample_place]\<rparr>"

definition resolved_answer :: PlaceHTTPResult where
  "resolved_answer = \<lparr>ph_Status = 200, ph_ContentType = ''application/json'', ph_Body = [1], ph_ResourceID = sample_id CHR ''a''\<rparr>"

definition placed_answer :: PlaceHTTPResult where
  "placed_answer = \<lparr>ph_Status = 201, ph_ContentType = ''application/json'', ph_Body = [1], ph_ResourceID = sample_id CHR ''d''\<rparr>"

lemma place_records [simp]:
  "h_id resolution_record = sample_id CHR ''b''" "h_state resolution_record = Completed" "h_user_id resolution_record = sample_uuid CHR ''a''"
  "h_http_method resolution_record = ''POST''" "h_normalized_path resolution_record = ''/api/v1/places/resolve''"
  "h_idempotency_key resolution_record = sample_uuid CHR ''8''"
  "h_id place_record = sample_id CHR ''c''" "h_state place_record = Completed" "h_user_id place_record = sample_uuid CHR ''a''"
  "h_http_method place_record = ''POST''" "h_normalized_path place_record = ''/api/v1/places''"
  "h_idempotency_key place_record = sample_uuid CHR ''9''"
  by (simp_all add: resolution_record_def place_record_def completed_row_def resolve_http_row_def create_http_row_def new_http_row_def
      resolve_path_def places_path_def)

lemma sample_token_valid [simp]: "validOpaqueToken sample_token"
  using newOpaqueToken_valid [of "replicate 32 0"] by (simp add: sample_token_def newOpaqueToken_def)

lemma sample_placeToken [simp]: "placeToken sample_px sample_keys ''k1'' aid = Inr sample_token"
  by (simp add: placeToken_def HMAC_def key_of_def sample_keys_def sample_token_def)

lemma attempt_tokens_single [simp]: "distinct (attempt_tokens [q])"
  by (cases "q_resolution_token_sha256 q") (simp_all add: attempt_tokens_def map_filter_simps)

lemma sample_place_checks:
  "http_check (resolve_http_row (sample_id CHR ''b'') (sample_uuid CHR ''a'') (sample_uuid CHR ''8'') ''k1'' (replicate 32 0) 0 0)"
  "http_check (create_http_row (sample_id CHR ''c'') (sample_uuid CHR ''a'') (sample_uuid CHR ''9'') (replicate 32 0) 0 0)"
  "http_check resolution_record" "http_check place_record" "attempt_check sample_attempt" "attempt_check (consumed_row 0 sample_attempt)"
  "attempt_check (pending_attempt (sample_id CHR ''a'') (sample_uuid CHR ''a'') (sample_id CHR ''b'') 0 0)" "place_check sample_place"
  by (simp_all add: http_check_def resolution_record_def place_record_def completed_row_def resolve_http_row_def create_http_row_def new_http_row_def
      resolve_path_def places_path_def starts_with_def http_operation_kinds_def httpRecordLifetime_def attempt_check_def sample_attempt_def
      consumed_row_def pending_attempt_def placeResolutionLifetime_def coordinate_ok_def place_check_def sample_place_def)

lemma sample_resolves:
  "Resolve_place sample_ext sample_px sample_keys sample_provider (sample_entropy 10) (\<lambda>_. 0) sample_resolution (empty_web [sample_uuid CHR ''a'']) =
     (Inr resolved_answer, resolved_web)"
proof -
  let ?u = "sample_uuid CHR ''a''" and ?h = "resolve_http_row (sample_id CHR ''b'') (sample_uuid CHR ''a'') (sample_uuid CHR ''8'') ''k1'' (replicate 32 0) 0 0"
  let ?q = "pending_attempt (sample_id CHR ''a'') ?u (sample_id CHR ''b'') 0 0"
  let ?d1 = "(empty_web [?u])\<lparr>http_idempotency_records := [?h], place_resolution_attempts := [?q]\<rparr>"
  let ?d2 = "(empty_web [?u])\<lparr>http_idempotency_records := [?h], place_resolution_attempts := [?q\<lparr>q_provider_request_started_at := Some 0\<rparr>]\<rparr>"
  have rq: "ri_UserID sample_resolution = ?u" "ri_IdempotencyKey sample_resolution = sample_uuid CHR ''8''"
    "valid_resolve_input sample_resolution" "HMAC (pe_hmac sample_px) sample_keys ''k1'' (ri_RequestIdentity sample_resolution) = Some (replicate 32 0)"
    "kr_CurrentID sample_keys = ''k1''"
    by (simp_all add: sample_resolution_def valid_resolve_input_def HMAC_def key_of_def sample_keys_def)
  have res: "reserveResolution sample_px sample_keys (\<lambda>_. 0) sample_resolution (sample_id CHR ''b'') (sample_id CHR ''a'') ''k1'' (replicate 32 0) (empty_web [?u]) = (Inr None, ?d1)"
    using sample_place_checks(1,7)
    by (simp add: reserveResolution_def rq run_tx_def insert_http_def insert_attempt_def fresh_in_def empty_web_def empty_db_def sql_exists_def
        pending_attempt_def  resolve_http_row_def)
  have chk: "attempt_check (?q\<lparr>q_provider_request_started_at := Some 0\<rparr>)" by (simp add: attempt_check_def pending_attempt_def placeResolutionLifetime_def)
  have ask: "ask_provider sample_provider (\<lambda>_. 0) (sample_id CHR ''a'') sample_resolution ?d1 = (True, Inr sample_candidate, ?d2)"
    using chk by (simp add: ask_provider_def sample_provider_def rq mark_attempt_def Let_def update_attempts_def sql_update_def sql_count_def
        pending_attempt_def )
  have f: "q_id ?q = sample_id CHR ''a''" "q_state ?q = AttemptPending" "h_id ?h = sample_id CHR ''b''" "h_state ?h = InProgress"
    by (simp_all add: pending_attempt_def resolve_http_row_def)
  have row: "resolved_row (sha256Bytes sample_ext sample_token) sample_candidate 0 (?q\<lparr>q_provider_request_started_at := Some 0\<rparr>) = sample_attempt"
    by (simp add: resolved_row_def sha256Bytes_def sample_ext_def sample_candidate_def pending_attempt_def sample_attempt_def)
  have "finalizeResolutionSuccess sample_ext sample_px (\<lambda>_. 0) (sample_id CHR ''b'') (sample_id CHR ''a'') sample_token sample_candidate ?d2 = (Inr resolved_answer, resolved_web)"
    using sample_place_checks(3,5) row f unfolding resolution_record_def
    by (simp add: finalizeResolutionSuccess_def resolution_record_def run_tx_def Let_def sql_exists_def update_attempts_def sql_update_def 
        json_body_def update_http_def open_record_def resolved_answer_def resolved_web_def)
  then show ?thesis by (simp add: Resolve_place_def rq res ask resolve_answer_def)
qed

lemma sample_creates_place:
  "CreatePlace sample_ext sample_px (sample_entropy 12) (\<lambda>_. 0) sample_place_request resolved_web = (Inr placed_answer, placed_web)"
proof -
  let ?u = "sample_uuid CHR ''a''" and ?h = "create_http_row (sample_id CHR ''c'') (sample_uuid CHR ''a'') (sample_uuid CHR ''9'') (replicate 32 0) 0 0"
  let ?d1 = "(empty_web [?u])\<lparr>http_idempotency_records := [resolution_record, ?h], place_resolution_attempts := [sample_attempt]\<rparr>"
  have rq: "ci_UserID sample_place_request = ?u" "ci_IdempotencyKey sample_place_request = sample_uuid CHR ''9''"
    "ci_RequestDigest sample_place_request = replicate 32 0" "ci_ResolutionToken sample_place_request = sample_token"
    "ci_RequestID sample_place_request = sample_uuid CHR ''2''" by (simp_all add: sample_place_request_def)
  have ins: "insert_http ?h resolved_web = Some (True, ?d1)"
    using sample_place_checks(2)
    by (simp add: insert_http_def fresh_in_def resolved_web_def empty_web_def empty_db_def create_http_row_def new_http_row_def places_path_def)
  have q: "query_row (redeemable sample_ext sample_place_request 0) [sample_attempt] = Some sample_attempt"
    by (simp add: query_row_def redeemable_def rq sample_attempt_def sha256Bytes_def sample_ext_def placeResolutionLifetime_def)
  have p: "place_of_attempt (sample_id CHR ''d'') ?u 0 sample_attempt = Some sample_place"
    by (simp add: place_of_attempt_def sample_attempt_def sample_place_def)
  have place: "insert_place sample_place ?d1 = Some (?d1\<lparr>places := [sample_place]\<rparr>)"
    using sample_place_checks(8)
    by (simp add: insert_place_def fresh_in_def empty_web_def empty_db_def sql_exists_def sample_place_def sample_attempt_def)
  have use: "update_attempts (\<lambda>x. q_id x = q_id sample_attempt) (consumed_row 0) (?d1\<lparr>places := [sample_place]\<rparr>) =
      Some (?d1\<lparr>place_resolution_attempts := [consumed_row 0 sample_attempt], places := [sample_place]\<rparr>)"
    using sample_place_checks(6) by (simp add: update_attempts_def sql_update_def)
  have h: "h_id ?h = sample_id CHR ''c''" by (simp add: create_http_row_def new_http_row_def)
  have fin: "update_http (\<lambda>h. h_id h = sample_id CHR ''c'') (\<lambda>h. completed_row 201 ''application/json'' (Some [1]) (Some (sample_id CHR ''d'')) 0 h)
      (?d1\<lparr>place_resolution_attempts := [consumed_row 0 sample_attempt], places := [sample_place]\<rparr>) = Some placed_web"
    using sample_place_checks(4) h by (simp add: update_http_def sql_update_def placed_web_def place_record_def)
  have "redeem_place sample_ext sample_px (\<lambda>_. 0) sample_place_request (sample_id CHR ''c'') (sample_id CHR ''d'') sample_attempt ?d1 = Inr (placed_answer, placed_web)"
    using place use fin by (simp add: redeem_place_def rq p json_body_def sample_ext_def placed_answer_def)
  then show ?thesis by (simp add: CreatePlace_def rq run_tx_def CreatePlace_tx_def ins q)
qed

text \<open>The hypotheses of the properties hold on the sample.\<close>

lemma sample_fresh:
  "find_http (ri_UserID sample_resolution) ''POST'' resolve_path (ri_IdempotencyKey sample_resolution) (empty_web us) = None"
  "find_http (ci_UserID sample_place_request) ''POST'' places_path (ci_IdempotencyKey sample_place_request) resolved_web = None"
  by (simp_all add: find_http_def query_row_def empty_web_def resolved_web_def places_path_def)

lemma resolved_web_ok: "web_ok resolved_web"
  using Resolve_place_frame [OF sample_resolves] web_empty by (simp add: place_frame_def)

lemma sample_place_replayed:
  "CreatePlace sample_ext sample_px (sample_entropy 12) (\<lambda>_. 0) sample_place_request placed_web = (Inr (placed_answer\<lparr>ph_ResourceID := []\<rparr>), placed_web)"
proof -
  let ?h = "create_http_row (sample_id CHR ''c'') (sample_uuid CHR ''a'') (sample_uuid CHR ''9'') (replicate 32 0) 0 0"
  have "insert_http ?h placed_web = Some (False, placed_web)"
    using sample_place_checks(2) by (simp add: insert_http_def fresh_in_def placed_web_def create_http_row_def new_http_row_def places_path_def)
  moreover have "replay_creation sample_px sample_place_request placed_web = Inr (placed_answer\<lparr>ph_ResourceID := []\<rparr>)"
    by (simp add: replay_creation_def find_http_def query_row_def placed_web_def sample_place_request_def places_path_def canonicalHTTPBody_def
        placed_answer_def) (simp add: place_record_def completed_row_def create_http_row_def new_http_row_def canonicalHTTPBody_def)
  ultimately show ?thesis by (simp add: CreatePlace_def run_tx_def CreatePlace_tx_def sample_place_request_def)
qed

theorem resolution_redeemed_witness:
  "ph_Status placed_answer = 201 \<and> places placed_web =
     [\<lparr>pl_id = sample_id CHR ''d'', pl_owner_user_id = sample_uuid CHR ''a'', pl_source_resolution_id = sample_id CHR ''a'',
       pl_latitude = Finite 0, pl_longitude = Finite 0, pl_formatted_address = Some ''Museum, 1 Street'', pl_display_name = ''Museum'',
       pl_time_zone_name = ''Etc/UTC'', pl_created_at = 0\<rparr>]"
proof -
  have "placeToken sample_px sample_keys (kr_CurrentID sample_keys) (ph_ResourceID resolved_answer) = Inr sample_token"
    using sample_placeToken by (simp add: sample_keys_def)
  from resolution_redeemed [OF web_empty sample_resolves _ sample_fresh(1) this sample_creates_place _ _ sample_fresh(2)]
  show ?thesis
    by (auto simp: resolved_answer_def placed_answer_def sample_resolution_def sample_place_request_def placeResolutionLifetime_def empty_web_def
        sample_provider_def sample_candidate_def)
qed

theorem place_created_once_witness:
  "(\<exists>p. places placed_web = places resolved_web @ [p] \<and> pl_id p = sample_id CHR ''d'') \<and>
     Option.bind (to_jsonb sample_ext [1]) (pe_canonical sample_px) = Some [1]"
  using place_created_once [OF resolved_web_ok sample_creates_place _ sample_fresh(2) sample_place_replayed]
  by (simp add: placed_answer_def) blast

theorem resolution_replayed_witness:
  "Resolve_place sample_ext sample_px sample_keys (\<lambda>_ _. Answer (Inl ProviderError)) (sample_entropy 10) (\<lambda>_. 0) sample_resolution resolved_web =
     (Inr (resolved_answer\<lparr>ph_ResourceID := []\<rparr>), resolved_web)"
  by (rule resolution_replayed [OF web_empty sample_resolves _ sample_fresh(1)])
    (simp_all add: resolved_answer_def sample_resolution_def)

end
