(* ===== verification/LR_Execution.thy ===== *)
theory LR_Execution
  imports LR_Saved LR_Places
begin

text \<open>
  The execution of a saved trip, \<open>persistence/saved_trip_execution.go\<close>: activation turns the saved plan
  with its relative times into the canonical activities and a current plan at absolute times, and the
  lifecycle \<open>inactive \<rightarrow> activating \<rightarrow> active \<rightarrow> deactivating \<rightarrow> inactive\<close> is driven by recorded operations that
  are completed once the planner runtime has been started or released.
\<close>

section \<open>Requests\<close>

record ActivateSavedTripRequest =
  ar_UserID :: uuid
  ar_TripID :: uuid
  ar_IdempotencyKey :: uuid
  ar_ExpectedRevision :: u64
  ar_RequestDigest :: bytes
  ar_StartingLatitude :: float64
  ar_StartingLongitude :: float64

record ActivatedSavedTrip =
  at_Transition :: ExecutionTransitionView
  at_Duplicate :: bool

record CompleteTransitionRequest =
  co_TripID :: uuid
  co_OperationID :: uuid
  co_HolderID :: uuid
  co_RuntimeEpoch :: u64

record DeactivateSavedTripRequest =
  de_UserID :: uuid
  de_TripID :: uuid
  de_IdempotencyKey :: uuid
  de_ExpectedRevision :: u64
  de_RequestDigest :: bytes

text \<open>The response of a transition, written when it is recorded and again when it is completed.\<close>

definition transition_answer :: "ext \<Rightarrow> web \<Rightarrow> string \<Rightarrow> ExecutionTransitionView \<Rightarrow> bytes result" where
  "transition_answer e w label v = exec_sql label (to_jsonb e (marshal_transition w v))"

definition replay_transition :: "web \<Rightarrow> string \<Rightarrow> tripMutationReplay \<Rightarrow> ActivatedSavedTrip result" where
  "replay_transition w label rp =
     (if mr_Status rp \<noteq> 200 \<and> mr_Status rp \<noteq> 202 \<or> mr_Body rp = [] then Inl (ErrText label)
      else case unmarshal_transition w (mr_Body rp) of
        None \<Rightarrow> Inl (ErrText label) | Some v \<Rightarrow> Inr \<lparr>at_Transition = v, at_Duplicate = True\<rparr>)"

definition pending_operation ::
  "uuid \<Rightarrow> uuid \<Rightarrow> uuid \<Rightarrow> uuid \<Rightarrow> operation_kind \<Rightarrow> i64 \<Rightarrow> uuid option \<Rightarrow> time \<Rightarrow> time \<Rightarrow> operation_row" where
  "pending_operation oid tripID userID recordID kind revision target created updated =
     \<lparr>x_id = oid, x_trip_id = tripID, x_owner_user_id = userID, x_idempotency_record_id = recordID, x_kind = kind,
      x_state = OpPending, x_last_step = ''recorded'', x_source_trip_revision = revision,
      x_target_execution_plan_id = target, x_resulting_trip_revision = Some revision, x_safe_error_code = None,
      x_created_at = created, x_updated_at = updated, x_completed_at = None\<rparr>"

text \<open>
  The end of \<open>Activate\<close> and \<open>Deactivate\<close>: the view of the trip in its new state is the response, with
  status 202. A transition operation that the view lacks is a nil dereference.
\<close>

definition finish_transition ::
  "ext \<Rightarrow> web \<Rightarrow> string \<Rightarrow> uuid \<Rightarrow> uuid \<Rightarrow> uuid \<Rightarrow> time \<Rightarrow> web_db \<Rightarrow> err + (ActivatedSavedTrip \<times> web_db)" where
  "finish_transition e w label userID tripID recordID now d =
     bindr (get userID tripID d) (\<lambda>v.
     deref (vw_TransitionOperation v) (\<lambda>operation.
     let transition = \<lparr>xt_Trip = v, xt_Operation = operation\<rparr> in
     bindr (transition_answer e w label transition) (\<lambda>body.
     bindr (exec_sql label (update_http (in_progress recordID)
         (answer_row 202 (Some ''application/json'') (Some body) (Some (trip_etag v)) now) d)) (\<lambda>d1.
     Inr (\<lparr>at_Transition = transition, at_Duplicate = False\<rparr>, d1)))))"

section \<open>Deactivating\<close>

definition Deactivate_body ::
  "ext \<Rightarrow> web \<Rightarrow> entropy \<Rightarrow> clock \<Rightarrow> DeactivateSavedTripRequest \<Rightarrow> uuid \<Rightarrow> web_db \<Rightarrow> err + (ActivatedSavedTrip \<times> web_db)" where
  "Deactivate_body e w rnd clk rq recordID d =
     (case query_row (\<lambda>t. t_id t = de_TripID rq \<and> t_owner_user_id t = de_UserID rq) (trips (core d)) of
        None \<Rightarrow> Inl ErrTripNotFound
      | Some t \<Rightarrow> (case t_current_plan_id t of
          None \<Rightarrow> Inl (ErrSQL ''lock deactivation trip'')
        | Some _ \<Rightarrow>
          if de_ExpectedRevision rq \<noteq> uint64 (t_trip_revision t) then Inl ErrTripRevisionStale
          else if t_execution_state t \<noteq> ExecActive \<and> t_execution_state t \<noteq> ExecActivating then Inl ErrSavedTripNotExecuting
          else
          bindr (newAuthUUID (rnd 1)) (\<lambda>oid.
          bindr (exec_sql ''bind deactivation idempotency record''
              (update_http (in_progress recordID) (bind_row (de_TripID rq)) d)) (\<lambda>d1.
          bindr (exec_sql ''record deactivation operation'' (insert_operation (pending_operation oid (de_TripID rq)
              (de_UserID rq) recordID OpDeactivate (t_trip_revision t) None (clk 2) (clk 3)) d1)) (\<lambda>d2.
          bindr (exec_sql ''enter deactivating state'' (update_trips (\<lambda>t. t_id t = de_TripID rq)
              (\<lambda>t. t\<lparr>t_execution_state := ExecDeactivating, t_transition_operation_id := Some oid, t_updated_at := clk 5\<rparr>)
              (d2\<lparr>core := stale_pending_proposals (de_TripID rq) (clk 4) (core d2)\<rparr>))) (\<lambda>d3.
          finish_transition e w ''complete deactivation idempotency'' (de_UserID rq) (de_TripID rq) recordID (clk 6) d3))))))"

definition Deactivate ::
  "ext \<Rightarrow> web \<Rightarrow> entropy \<Rightarrow> clock \<Rightarrow> DeactivateSavedTripRequest \<Rightarrow> web_db \<Rightarrow> ActivatedSavedTrip result \<times> web_db" where
  "Deactivate e w rnd clk rq d =
     (if \<not> validCanonicalUUID (de_UserID rq) \<or> \<not> validCanonicalUUID (de_TripID rq) \<or>
         \<not> validCanonicalUUID (de_IdempotencyKey rq) \<or> de_ExpectedRevision rq > MaxInt64
      then (Inl ErrSavedTripInput, d)
      else run_tx (http_mutation rnd clk (de_UserID rq) (de_IdempotencyKey rq) ''POST''
        (trips_path (de_TripID rq) @ ''/deactivate'') ''deactivate_trip'' (de_RequestDigest rq)
        (replay_transition w ''deactivation replay is invalid'') (Deactivate_body e w rnd clk rq)) d)"

section \<open>Completing a transition\<close>

definition completed_operation :: "uuid \<Rightarrow> operation_kind \<Rightarrow> ExecutionOperationView" where
  "completed_operation oid kind = \<lparr>ov_OperationID = oid, ov_Kind = kind, ov_State = OpSucceeded, ov_LastStep = ''completed'',
     ov_TargetExecutionPlanID = [], ov_SafeErrorCode = [], ov_CreatedAtUnixMS = 0, ov_UpdatedAtUnixMS = 0,
     ov_CompletedAtUnixMS = None\<rparr>"

definition succeed_operation :: "time \<Rightarrow> time \<Rightarrow> operation_row \<Rightarrow> operation_row" where
  "succeed_operation updated completed x = x\<lparr>x_state := OpSucceeded, x_last_step := ''completed'', x_updated_at := updated,
     x_completed_at := Some completed\<rparr>"

text \<open>
  The response of the reserving request is replaced by that of the completed transition; the code counts
  the rows the \<open>UPDATE\<close> changes. \<open>P\<close> is the rest of its \<open>WHERE\<close> clause.
\<close>

definition publish_completion ::
  "ext \<Rightarrow> web \<Rightarrow> string \<Rightarrow> string \<Rightarrow> uuid \<Rightarrow> uuid \<Rightarrow> (http_row \<Rightarrow> bool) \<Rightarrow> (http_row \<Rightarrow> http_row) \<Rightarrow> ExecutionTransitionView \<Rightarrow>
     web_db \<Rightarrow> err + (TripView \<times> web_db)" where
  "publish_completion e w label conflict ownerID recordID P g v d =
     bindr (transition_answer e w label v) (\<lambda>body.
     let target = (\<lambda>h. h_id h = recordID \<and> h_user_id h = ownerID \<and> h_state h = Completed \<and>
           h_response_status h = Some 202 \<and> P h) in
     bindr (exec_sql label (update_http target (\<lambda>h. g (h\<lparr>h_response_status := Some 200, h_response_body := Some body,
         h_response_etag := Some (trip_etag (xt_Trip v))\<rparr>)) d)) (\<lambda>d1.
     if sql_count target (http_idempotency_records d) \<noteq> 1 then Inl (ErrText conflict)
     else Inr (xt_Trip v, d1)))"

definition delete_trip_activities :: "uuid \<Rightarrow> db \<Rightarrow> db" where
  "delete_trip_activities tripID c =
     c\<lparr>trip_travel_delays := sql_delete (\<lambda>y. y_trip_id y = tripID) (trip_travel_delays c),
       activity_open_windows := sql_delete (\<lambda>win. w_trip_id win = tripID) (activity_open_windows c),
       trip_activities := sql_delete (\<lambda>a. a_trip_id a = tripID) (trip_activities c)\<rparr>"

definition CompleteDeactivation_tx ::
  "ext \<Rightarrow> web \<Rightarrow> clock \<Rightarrow> CompleteTransitionRequest \<Rightarrow> web_db \<Rightarrow> err + (TripView \<times> web_db)" where
  "CompleteDeactivation_tx e w clk rq d =
     (case find_trip (co_TripID rq) (core d) of
        None \<Rightarrow> Inl ErrTripNotFound
      | Some t \<Rightarrow>
        if sql_exists (\<lambda>l. l_trip_id l = co_TripID rq) (trip_runtime_leases (core d)) then Inl ErrLeaseHeld
        else case query_row (\<lambda>x. x_id x = co_OperationID rq \<and> x_trip_id x = co_TripID rq) (trip_execution_operations d) of
          None \<Rightarrow> Inl (ErrSQL ''lock deactivation operation'')
        | Some x \<Rightarrow>
          if t_execution_state t \<noteq> ExecDeactivating \<or> x_kind x \<noteq> OpDeactivate \<or> x_state x \<noteq> OpPending
            then Inl (ErrText ''deactivation operation no longer matches trip'')
          else
          bindr (exec_sql ''publish inactive trip'' (update_trips
              (\<lambda>t. t_id t = co_TripID rq \<and> t_execution_state t = ExecDeactivating)
              (\<lambda>t. t\<lparr>t_current_plan_id := None, t_active_execution_plan_id := None, t_activated_at := None,
                t_transition_operation_id := None, t_execution_state := ExecInactive, t_updated_at := clk 0\<rparr>)
              (d\<lparr>core := delete_trip_activities (co_TripID rq) (core d)\<rparr>))) (\<lambda>d1.
          bindr (exec_sql ''complete deactivation operation'' (update_operation
              (\<lambda>x. x_id x = co_OperationID rq \<and> x_state x = OpPending) (succeed_operation (clk 1) (clk 2)) d1)) (\<lambda>d2.
          bindr (get (t_owner_user_id t) (co_TripID rq) d2) (\<lambda>v.
          publish_completion e w ''publish completed deactivation response''
            ''deactivation idempotency record is not pending completion'' (t_owner_user_id t) (x_idempotency_record_id x)
            (\<lambda>_. True) (\<lambda>h. h) \<lparr>xt_Trip = v, xt_Operation = completed_operation (co_OperationID rq) OpDeactivate\<rparr> d2))))"

definition CompleteDeactivation ::
  "ext \<Rightarrow> web \<Rightarrow> clock \<Rightarrow> CompleteTransitionRequest \<Rightarrow> web_db \<Rightarrow> TripView result \<times> web_db" where
  "CompleteDeactivation e w clk rq d =
     (if \<not> validCanonicalUUID (co_TripID rq) \<or> \<not> validCanonicalUUID (co_OperationID rq) \<or>
         \<not> validCanonicalUUID (co_HolderID rq)
      then (Inl ErrSavedTripInput, d)
      else run_tx (CompleteDeactivation_tx e w clk rq) d)"

definition CompleteActivation_tx ::
  "ext \<Rightarrow> web \<Rightarrow> clock \<Rightarrow> CompleteTransitionRequest \<Rightarrow> web_db \<Rightarrow> err + (TripView \<times> web_db)" where
  "CompleteActivation_tx e w clk rq d =
     (case find_trip (co_TripID rq) (core d) of
        None \<Rightarrow> Inl ErrTripNotFound
      | Some t \<Rightarrow> (case t_current_plan_id t of
        None \<Rightarrow> Inl (ErrSQL ''lock activation completion trip'')
      | Some current \<Rightarrow> (case query_row (\<lambda>l. l_trip_id l = co_TripID rq \<and> l_holder_id l = co_HolderID rq)
          (trip_runtime_leases (core d)) of
        None \<Rightarrow> Inl (ErrSQL ''verify activation lease'')
      | Some l \<Rightarrow>
        if l_runtime_epoch l \<noteq> int64 (co_RuntimeEpoch rq) \<or> \<not> clk 0 < l_lease_expires_at l then Inl ErrLeaseLost
        else case query_row (\<lambda>x. x_id x = co_OperationID rq \<and> x_trip_id x = co_TripID rq) (trip_execution_operations d) of
          None \<Rightarrow> Inl (ErrText ''activation operation not found'')
        | Some x \<Rightarrow>
          if x_kind x \<noteq> OpActivate \<or> x_state x \<noteq> OpPending \<or> x_source_trip_revision x \<noteq> t_trip_revision t \<or> current = []
            then Inl (ErrText ''activation operation no longer matches trip'')
          else if t_execution_state t \<noteq> ExecActivating then Inl (ErrText ''trip is not activating'')
          else
          bindr (exec_sql ''publish active trip'' (update_trips
              (\<lambda>t. t_id t = co_TripID rq \<and> t_execution_state t = ExecActivating)
              (\<lambda>t. t\<lparr>t_execution_state := ExecActive, t_transition_operation_id := None, t_updated_at := clk 1\<rparr>) d)) (\<lambda>d1.
          bindr (exec_sql ''complete activation operation'' (update_operation (\<lambda>x. x_id x = co_OperationID rq \<and>
              x_trip_id x = co_TripID rq \<and> x_state x = OpPending) (succeed_operation (clk 2) (clk 3)) d1)) (\<lambda>d2.
          bindr (get (t_owner_user_id t) (co_TripID rq) d2) (\<lambda>v.
          publish_completion e w ''publish completed activation response''
            ''activation idempotency record is not pending completion'' (t_owner_user_id t) (x_idempotency_record_id x)
            (\<lambda>h. h_operation_kind h = ''activate_trip'') (\<lambda>h. h\<lparr>h_completed_at := Some (clk 4)\<rparr>)
            \<lparr>xt_Trip = v, xt_Operation = completed_operation (co_OperationID rq) OpActivate\<rparr> d2))))))"

definition CompleteActivation ::
  "ext \<Rightarrow> web \<Rightarrow> clock \<Rightarrow> CompleteTransitionRequest \<Rightarrow> web_db \<Rightarrow> TripView result \<times> web_db" where
  "CompleteActivation e w clk rq d =
     (if \<not> validCanonicalUUID (co_TripID rq) \<or> \<not> validCanonicalUUID (co_OperationID rq) \<or>
         \<not> validCanonicalUUID (co_HolderID rq) \<or> co_RuntimeEpoch rq = 0 \<or> co_RuntimeEpoch rq > MaxInt64
      then (Inl ErrSavedTripInput, d)
      else run_tx (CompleteActivation_tx e w clk rq) d)"

text \<open>The transitions a restarted process resumes, at most 64 of them, the oldest first.\<close>

definition pending_transitions :: "execution_state \<Rightarrow> web_db \<Rightarrow> (uuid \<times> uuid) list" where
  "pending_transitions st d = take 64 (List.map_filter (\<lambda>t. map_option (\<lambda>oid. (t_id t, oid)) (t_transition_operation_id t))
     (sort_key t_updated_at (sort_key t_id (sql_select (\<lambda>t. t_execution_state t = st \<and> t_transition_operation_id t \<noteq> None)
       (trips (core d))))))"

definition PendingActivations :: "web_db \<Rightarrow> (uuid \<times> uuid) list" where
  "PendingActivations d = pending_transitions ExecActivating d"

definition PendingDeactivations :: "web_db \<Rightarrow> (uuid \<times> uuid) list" where
  "PendingDeactivations d = pending_transitions ExecDeactivating d"

section \<open>Activating\<close>

record activationActivity =
  ac_ID :: uuid
  ac_Ordinal :: int
  ac_PlaceID :: uuid
  ac_DisplayName :: string
  ac_Latitude :: float64
  ac_Longitude :: float64
  ac_TimeZoneName :: string
  ac_InboundTravelMode :: string
  ac_ActivityClass :: string
  ac_PriorityRank :: int
  ac_UtilityScore :: int
  ac_StartOffset :: i64
  ac_EndOffset :: i64
  ac_ReservationStartOffset :: "i64 option"
  ac_ReservationGraceSeconds :: i64
  ac_DeadlineOffset :: "i64 option"
  ac_MinDurationSeconds :: int
  ac_PreferredDurationSeconds :: int
  ac_MaxDurationSeconds :: int
  ac_Mandatory :: bool
  ac_CanShorten :: bool
  ac_CanMove :: bool
  ac_CanSkip :: bool
  ac_Windows :: "RelativeWindowInput list"

definition validateActivateSavedTrip :: "ActivateSavedTripRequest \<Rightarrow> unit result" where
  "validateActivateSavedTrip rq =
     (if \<not> validCanonicalUUID (ar_UserID rq) \<or> \<not> validCanonicalUUID (ar_TripID rq) \<or>
         \<not> validCanonicalUUID (ar_IdempotencyKey rq) \<or> ar_ExpectedRevision rq = 0 \<or> ar_ExpectedRevision rq > MaxInt64 \<or>
         \<not> coordinate_ok 90 (ar_StartingLatitude rq) \<or> \<not> coordinate_ok 180 (ar_StartingLongitude rq)
      then Inl ErrSavedTripInput else Inr ())"

definition lockActivationUser :: "uuid \<Rightarrow> web_db \<Rightarrow> unit result" where
  "lockActivationUser userID d = (if userID \<in> set (users (core d)) then Inr () else Inl ErrTripNotFound)"

record lockedActivationTrip =
  la_Revision :: i64
  la_PlanID :: uuid
  la_TimeZoneName :: string

definition lockActivationTrip :: "uuid \<Rightarrow> uuid \<Rightarrow> u64 \<Rightarrow> web_db \<Rightarrow> lockedActivationTrip result" where
  "lockActivationTrip userID tripID expected d =
     (case query_row (\<lambda>t. t_id t = tripID \<and> t_owner_user_id t = userID) (trips (core d)) of
        None \<Rightarrow> Inl ErrTripNotFound
      | Some t \<Rightarrow> (case t_saved_plan_id t of
          None \<Rightarrow> Inl (ErrSQL ''lock activation trip'')
        | Some pid \<Rightarrow>
          if t_execution_state t \<noteq> ExecInactive then Inl ErrSavedTripNotInactive
          else if expected > MaxInt64 \<or> t_trip_revision t \<noteq> int64 expected then Inl ErrTripRevisionStale
          else if pid = [] \<or> \<not> validCanonicalUUID pid then Inl ErrSavedTripInput
          else Inr \<lparr>la_Revision = t_trip_revision t, la_PlanID = pid, la_TimeZoneName = t_default_time_zone_name t\<rparr>))"

text \<open>
  \<open>COALESCE(NULLIF(p.formatted_address, ''), format('%.6f, %.6f', p.latitude, p.longitude))\<close>: the
  \<open>format\<close> of PostgreSQL knows the conversions \<open>%s\<close>, \<open>%I\<close>, \<open>%L\<close> and \<open>%%\<close> with a position, the flag \<open>-\<close> and a
  width, but no precision; it fails on \<open>%.6f\<close>.
\<close>

definition activation_name :: "place_row \<Rightarrow> string option" where
  "activation_name p = (case pl_formatted_address p of None \<Rightarrow> None | Some s \<Rightarrow> if s = [] then None else Some s)"

definition activation_step ::
  "web_db \<Rightarrow> uuid \<Rightarrow> saved_activity_row \<times> place_row \<Rightarrow> activationActivity list \<Rightarrow> activationActivity list result" where
  "activation_step d pid ap acc = (case ap of (a, p) \<Rightarrow>
     (case (sa_schedule_state a, sa_start_offset a, sa_end_offset a, activation_name p) of
        (Scheduled, Some s, Some t, Some name) \<Rightarrow>
          Inr (acc @ [\<lparr>ac_ID = sa_activity_id a, ac_Ordinal = sa_ordinal a, ac_PlaceID = sa_place_id a,
            ac_DisplayName = name, ac_Latitude = pl_latitude p, ac_Longitude = pl_longitude p,
            ac_TimeZoneName = pl_time_zone_name p, ac_InboundTravelMode = sa_inbound_travel_mode a,
            ac_ActivityClass = sa_activity_class a, ac_PriorityRank = sa_priority_rank a,
            ac_UtilityScore = sa_utility_score a, ac_StartOffset = s, ac_EndOffset = t,
            ac_ReservationStartOffset = sa_reservation_start_offset a,
            ac_ReservationGraceSeconds = sa_reservation_grace_seconds a, ac_DeadlineOffset = sa_deadline_offset a,
            ac_MinDurationSeconds = sa_min_duration_seconds a,
            ac_PreferredDurationSeconds = sa_preferred_duration_seconds a,
            ac_MaxDurationSeconds = sa_max_duration_seconds a, ac_Mandatory = sa_mandatory a,
            ac_CanShorten = sa_can_shorten a, ac_CanMove = sa_can_move a, ac_CanSkip = sa_can_skip a,
            ac_Windows = plan_windows pid (sa_activity_id a) d\<rparr>])
      | _ \<Rightarrow> Inl ErrActivationUnscheduled))"

text \<open>The names are evaluated before the rows are sorted, so that a name that fails precedes every row.\<close>

definition loadActivationActivities :: "uuid \<Rightarrow> uuid \<Rightarrow> uuid \<Rightarrow> web_db \<Rightarrow> activationActivity list result" where
  "loadActivationActivities pid tripID userID d =
     (let rows = join_places (\<lambda>p a. pl_id p = sa_place_id a \<and> pl_owner_user_id p = sa_owner_user_id a) d
          (filter (\<lambda>a. sa_trip_id a = tripID \<and> sa_owner_user_id a = userID) (plan_activities pid d)) in
      if list_ex (\<lambda>(a, p). activation_name p = None) rows then Inl (ErrSQL ''iterate activation activities'')
      else for_each (activation_step d pid) rows [])"

definition insideActivationDay :: "time \<Rightarrow> time \<Rightarrow> time \<Rightarrow> bool" where
  "insideActivationDay v start stop \<longleftrightarrow> \<not> v < start \<and> v < stop"

text \<open>
  \<open>activatedAt.Add(time.Duration(offset) * time.Millisecond)\<close>; the product is in the range of
  \<open>time.Duration\<close>, as the columns bound the offsets by a day.
\<close>

definition at_offset :: "time \<Rightarrow> i64 \<Rightarrow> time" where
  "at_offset activatedAt offset = activatedAt + millis offset"

definition activationOptionalTimeInsideDay :: "time \<Rightarrow> i64 option \<Rightarrow> time \<Rightarrow> time \<Rightarrow> bool" where
  "activationOptionalTimeInsideDay activatedAt offset start stop =
     option_all (\<lambda>k. insideActivationDay (at_offset activatedAt k) start stop) offset"

definition activation_window_ok :: "time \<Rightarrow> time \<Rightarrow> time \<Rightarrow> RelativeWindowInput \<Rightarrow> bool" where
  "activation_window_ok now start stop win \<longleftrightarrow> insideActivationDay (at_offset now (rw_OpensOffsetMS win)) start stop \<and>
     insideActivationDay (at_offset now (rw_ClosesOffsetMS win)) start stop"

definition activation_segment ::
  "time \<Rightarrow> time \<Rightarrow> time \<Rightarrow> activationActivity \<Rightarrow> CanonicalPlanSegmentDraft result" where
  "activation_segment now start stop a =
     (if ac_StartOffset a < 0 \<or> ac_EndOffset a \<le> ac_StartOffset a then Inl ErrActivationUnscheduled
      else if \<not> insideActivationDay (at_offset now (ac_StartOffset a)) start stop \<or>
          \<not> insideActivationDay (at_offset now (ac_EndOffset a)) start stop then Inl ErrActivationOutsideDay
      else if \<not> activationOptionalTimeInsideDay now (ac_ReservationStartOffset a) start stop \<or>
          \<not> activationOptionalTimeInsideDay now (ac_DeadlineOffset a) start stop then Inl ErrActivationOutsideDay
      else if \<not> list_all (activation_window_ok now start stop) (ac_Windows a) then Inl ErrActivationOutsideDay
      else Inr \<lparr>dr_ActivityID = ac_ID a, dr_Scheduled = True,
        dr_Start = Some (UnixMilli (at_offset now (ac_StartOffset a))),
        dr_End = Some (UnixMilli (at_offset now (ac_EndOffset a)))\<rparr>)"

definition execution_activity_row :: "uuid \<Rightarrow> time \<Rightarrow> activationActivity \<Rightarrow> activity_row" where
  "execution_activity_row tripID now a =
     \<lparr>a_id = ac_ID a, a_trip_id = tripID, a_ordinal = ac_Ordinal a, a_place_id = ac_PlaceID a,
      a_display_name = ac_DisplayName a, a_latitude = ac_Latitude a, a_longitude = ac_Longitude a,
      a_time_zone_name = ac_TimeZoneName a, a_inbound_travel_mode = ac_InboundTravelMode a,
      a_activity_class = ac_ActivityClass a, a_activity_state = ActivityStatePlanned, a_activity_delay_seconds = 0,
      a_found_closed_at = None, a_priority_rank = ac_PriorityRank a, a_utility_score = ac_UtilityScore a,
      a_reservation_start = map_option (at_offset now) (ac_ReservationStartOffset a),
      a_reservation_grace_seconds = ac_ReservationGraceSeconds a,
      a_mandatory_deadline = map_option (at_offset now) (ac_DeadlineOffset a),
      a_min_duration_seconds = ac_MinDurationSeconds a, a_preferred_duration_seconds = ac_PreferredDurationSeconds a,
      a_max_duration_seconds = ac_MaxDurationSeconds a, a_mandatory = ac_Mandatory a,
      a_can_shorten = ac_CanShorten a, a_can_move = ac_CanMove a, a_can_skip = ac_CanSkip a\<rparr>"

definition insert_execution_activity :: "uuid \<Rightarrow> time \<Rightarrow> activationActivity \<Rightarrow> web_db \<Rightarrow> web_db result" where
  "insert_execution_activity tripID now a d =
     bindr (exec_sql ''insert execution activity'' (on_core (insert_activity (execution_activity_row tripID now a)) d)) (\<lambda>d1.
     for_each (\<lambda>(index, win) d. exec_sql ''insert execution window'' (on_core (insert_window
         \<lparr>w_trip_id = tripID, w_activity_id = ac_ID a, w_window_index = int index,
          w_opens_at = at_offset now (rw_OpensOffsetMS win), w_closes_at = at_offset now (rw_ClosesOffsetMS win)\<rparr>) d))
       (enumerate 0 (ac_Windows a)) d1)"

text \<open>\<open>SELECT COALESCE(MAX(plan_revision), 0) + 1\<close>.\<close>

definition next_plan_revision :: "uuid \<Rightarrow> db \<Rightarrow> i64" where
  "next_plan_revision tripID c =
     foldr max (map p_plan_revision (sql_select (\<lambda>p. p_trip_id p = tripID) (itinerary_plans c))) 0 + 1"

text \<open>The execution plan and the execution activities, in place of those of an earlier execution.\<close>

definition write_execution ::
  "ext \<Rightarrow> uuid \<Rightarrow> uuid \<Rightarrow> uuid \<Rightarrow> time \<Rightarrow> activationActivity list \<Rightarrow> CanonicalPlanSegmentDraft list \<Rightarrow> web_db \<Rightarrow> web_db result" where
  "write_execution e tripID userID pid now activities drafts d =
     (let planRevision = next_plan_revision tripID (core d) in
      if planRevision > int MaxInt64 then Inl (ErrSQL ''allocate execution plan revision'')
      else if planRevision \<le> 0 then Inl (ErrText ''execution plan revision overflow'')
      else
      deref (userCurrentPlanPayload pid (uint64 planRevision) (UnixMilli now) drafts) (\<lambda>payload.
      bindr (exec_sql ''insert execution plan'' (on_core (insert_plan
          (user_plan_row e pid tripID (uint64 planRevision) userID payload now)) d)) (\<lambda>d1.
      for_each (insert_execution_activity tripID now) activities
        (d1\<lparr>core := delete_trip_activities tripID (core d1)\<rparr>))))"

definition activating_row :: "uuid \<Rightarrow> uuid \<Rightarrow> i64 \<Rightarrow> time \<Rightarrow> trip_row \<Rightarrow> trip_row" where
  "activating_row pid oid nextSequence now t =
     t\<lparr>t_current_plan_id := Some pid, t_active_execution_plan_id := Some pid, t_activated_at := Some now,
       t_execution_state := ExecActivating, t_transition_operation_id := Some oid,
       t_next_mutation_sequence := nextSequence + 1, t_finalized_mutation_sequence := nextSequence, t_updated_at := now\<rparr>"

definition Activate_body ::
  "ext \<Rightarrow> web \<Rightarrow> entropy \<Rightarrow> clock \<Rightarrow> ActivateSavedTripRequest \<Rightarrow> uuid \<Rightarrow> web_db \<Rightarrow> err + (ActivatedSavedTrip \<times> web_db)" where
  "Activate_body e w rnd clk rq recordID d =
     bindr (lockActivationUser (ar_UserID rq) d) (\<lambda>_.
     bindr (lockActivationTrip (ar_UserID rq) (ar_TripID rq) (ar_ExpectedRevision rq) d) (\<lambda>current.
     if sql_exists (\<lambda>t. t_owner_user_id t = ar_UserID rq \<and> executing t \<and> t_id t \<noteq> ar_TripID rq) (trips (core d))
       then Inl ErrExecutionTripConflict
     else
     bindr (loadActivationActivities (la_PlanID current) (ar_TripID rq) (ar_UserID rq) d) (\<lambda>activities.
     if activities = [] then Inl ErrSavedTripInput
     else case zones w (la_TimeZoneName current) of
       None \<Rightarrow> Inl (ErrText ''load trip timezone'')
     | Some loc \<Rightarrow>
     let now = trunc_millis (clk 2) in
     case activationDay now loc of (horizonStart, horizonEnd) \<Rightarrow>
     bindr (for_each (\<lambda>a acc. bindr (activation_segment now horizonStart horizonEnd a) (\<lambda>s. Inr (acc @ [s]))) activities [])
       (\<lambda>drafts.
     bindr (newAuthUUID (rnd 1)) (\<lambda>pid.
     bindr (newAuthUUID (rnd 2)) (\<lambda>oid.
     bindr (write_execution e (ar_TripID rq) (ar_UserID rq) pid now activities drafts d) (\<lambda>d1.
     case find_trip (ar_TripID rq) (core d1) of
       None \<Rightarrow> Inl (ErrSQL ''read activation sequence'')
     | Some t \<Rightarrow>
     if t_next_mutation_sequence t \<le> 0 \<or> t_next_mutation_sequence t = int MaxInt64
       then Inl (ErrText ''activation mutation sequence overflow'')
     else
     bindr (exec_sql ''bind activation idempotency record''
         (update_http (in_progress recordID) (bind_row (ar_TripID rq)) d1)) (\<lambda>d2.
     bindr (exec_sql ''record activation operation'' (insert_operation (pending_operation oid (ar_TripID rq) (ar_UserID rq)
         recordID OpActivate (la_Revision current) (Some pid) (clk 3) (clk 4)) d2)) (\<lambda>d3.
     bindr (exec_sql ''enter activating state'' (update_trips
         (\<lambda>t. t_id t = ar_TripID rq \<and> t_execution_state t = ExecInactive)
         (activating_row pid oid (t_next_mutation_sequence t) now) d3)) (\<lambda>d4.
     finish_transition e w ''complete activation idempotency'' (ar_UserID rq) (ar_TripID rq) recordID (clk 5) d4))))))))))"

definition Activate ::
  "ext \<Rightarrow> web \<Rightarrow> entropy \<Rightarrow> clock \<Rightarrow> ActivateSavedTripRequest \<Rightarrow> web_db \<Rightarrow> ActivatedSavedTrip result \<times> web_db" where
  "Activate e w rnd clk rq d =
     (case validateActivateSavedTrip rq of
        Inl x \<Rightarrow> (Inl x, d)
      | Inr _ \<Rightarrow> run_tx (http_mutation rnd clk (ar_UserID rq) (ar_IdempotencyKey rq) ''POST''
          (trips_path (ar_TripID rq) @ ''/activate'') ''activate_trip'' (ar_RequestDigest rq)
          (replay_transition w ''activation replay is invalid'') (Activate_body e w rnd clk rq)) d)"

section \<open>The lifecycle\<close>

lemma trip_linked_cong:
  assumes "filter (\<lambda>x. x_trip_id x = t_id t) xs = filter (\<lambda>x. x_trip_id x = t_id t) ys"
  shows "trip_linked xs t = trip_linked ys t"
proof -
  have *: "x \<in> set xs \<and> x_trip_id x = t_id t \<longleftrightarrow> x \<in> set ys \<and> x_trip_id x = t_id t" for x
    using arg_cong [OF assms, of "\<lambda>l. x \<in> set l"] by simp
  show ?thesis
  proof (cases "transition_kind (t_execution_state t)")
    case None
    then show ?thesis unfolding trip_linked_def option.case using * by auto
  next
    case (Some kind)
    then show ?thesis unfolding trip_linked_def option.case using * by auto
  qed
qed

text \<open>A change of one trip and its operations.\<close>

lemma lifecycle_change:
  assumes "lifecycle_ok d" "trips (core d') = sql_update P f (trips (core d))"
    "\<And>t. t \<in> set (trips (core d)) \<Longrightarrow> P t \<longleftrightarrow> t_id t = tid" "\<And>t. t_id (f t) = t_id t"
    "\<And>u. u \<noteq> tid \<Longrightarrow> filter (\<lambda>x. x_trip_id x = u) (trip_execution_operations d') =
       filter (\<lambda>x. x_trip_id x = u) (trip_execution_operations d)"
    "\<And>t. t \<in> set (trips (core d)) \<Longrightarrow> P t \<Longrightarrow> trip_linked (trip_execution_operations d') (f t)"
    "\<exists>t\<in>set (trips (core d)). t_id t = tid"
  shows "lifecycle_ok d'"
  unfolding lifecycle_ok_def
proof (intro conjI ballI)
  fix t assume "t \<in> set (trips (core d'))"
  then have "t \<in> set (sql_update P f (trips (core d)))" unfolding assms(2) .
  then show "trip_linked (trip_execution_operations d') t"
  proof (cases rule: sql_updateE)
    case (updated x)
    with assms(6) show ?thesis by simp
  next
    case kept
    with assms(3) have "t_id t \<noteq> tid" by blast
    with trip_linked_cong [OF assms(5)] kept(1) assms(1) show ?thesis unfolding lifecycle_ok_def by blast
  qed
next
  fix x assume x: "x \<in> set (trip_execution_operations d')"
  have "\<exists>t\<in>set (trips (core d)). t_id t = x_trip_id x"
  proof (cases "x_trip_id x = tid")
    case False
    from x have "x \<in> set (filter (\<lambda>y. x_trip_id y = x_trip_id x) (trip_execution_operations d'))" by simp
    then have "x \<in> set (trip_execution_operations d)" unfolding assms(5) [OF False] by simp
    with assms(1) show ?thesis unfolding lifecycle_ok_def by blast
  qed (use assms(7) in simp)
  then obtain t where t: "t \<in> set (trips (core d))" "t_id t = x_trip_id x" by blast
  then have "(if P t then f t else t) \<in> set (trips (core d'))" unfolding assms(2) set_sql_update by blast
  moreover have "t_id (if P t then f t else t) = x_trip_id x" using t(2) assms(4) by simp
  ultimately show "\<exists>t\<in>set (trips (core d')). t_id t = x_trip_id x" by blast
qed

lemma trips_unique: "web_ok d \<Longrightarrow> t \<in> set (trips (core d)) \<Longrightarrow> s \<in> set (trips (core d)) \<Longrightarrow> t_id t = t_id s \<Longrightarrow> t = s"
  by (rule distinct_key_unique [of t_id "trips (core d)"]) (simp_all add: web_ok_def schema_ok_def trips_ok_def)

lemma operations_unique:
  "web_ok d \<Longrightarrow> x \<in> set (trip_execution_operations d) \<Longrightarrow> y \<in> set (trip_execution_operations d) \<Longrightarrow> x_id x = x_id y \<Longrightarrow> x = y"
  by (rule distinct_key_unique [of x_id "trip_execution_operations d"]) (simp_all add: web_ok_def operations_ok_def)

lemma pending_unique:
  assumes "web_ok d" "x \<in> set (trip_execution_operations d)" "y \<in> set (trip_execution_operations d)"
    "x_trip_id x = x_trip_id y" "x_state x = OpPending" "x_state y = OpPending"
  shows "x = y"
  by (rule distinct_key_unique [of x_trip_id "filter (\<lambda>x. x_state x = OpPending) (trip_execution_operations d)"])
    (use assms in \<open>simp_all add: web_ok_def operations_ok_def\<close>)

text \<open>A trip enters a transition with the operation that is recorded for it.\<close>

lemma lifecycle_enter:
  assumes "lifecycle_ok d" "insert_operation x d = Some d1" "x_state x = OpPending" "transition_kind st = Some (x_kind x)"
    "trips (core d') = sql_update P f (trips (core d))" "trip_execution_operations d' = trip_execution_operations d1"
    "\<And>t. t \<in> set (trips (core d)) \<Longrightarrow> P t \<longleftrightarrow> t_id t = x_trip_id x"
    "\<And>t. t_id (f t) = t_id t \<and> t_execution_state (f t) = st \<and> t_transition_operation_id (f t) = Some (x_id x)"
  shows "lifecycle_ok d'"
proof -
  from insert_operation_SomeD [OF assms(2)]
  have d1: "trip_execution_operations d' = trip_execution_operations d @ [x]" unfolding assms(6) by simp
  have ex: "\<exists>t\<in>set (trips (core d)). t_id t = x_trip_id x"
    using assms(2) by (auto simp: insert_operation_def sql_exists_iff split: if_splits)
  show ?thesis
  proof (rule lifecycle_change [OF assms(1,5,7) _ _ _ ex])
    show "trip_linked (trip_execution_operations d') (f t)" if "t \<in> set (trips (core d))" "P t" for t
      using that assms(3,4,7,8) by (simp add: trip_linked_def d1)
  qed (simp_all add: assms(8) d1)
qed

text \<open>A trip leaves a transition when the operation succeeds.\<close>

lemma filter_map_same:
  assumes "\<And>y. y \<in> set xs \<Longrightarrow> g y = y \<or> \<not> P y \<and> \<not> P (g y)"
  shows "filter P (map g xs) = filter P xs"
  using assms
proof (induction xs)
  case (Cons y ys)
  then have "filter P (map g ys) = filter P ys" by simp
  with Cons.prems [of y] show ?case by auto
qed simp

lemma lifecycle_leave:
  assumes "life_ok d" "x \<in> set (trip_execution_operations d)" "x_state x = OpPending"
    "trips (core d') = sql_update P f (trips (core d))"
    "trip_execution_operations d' = sql_update Q (succeed_operation u v) (trip_execution_operations d)"
    "\<And>y. y \<in> set (trip_execution_operations d) \<Longrightarrow> Q y \<longleftrightarrow> y = x"
    "\<And>t. t \<in> set (trips (core d)) \<Longrightarrow> P t \<longleftrightarrow> t_id t = x_trip_id x"
    "\<And>t. t_id (f t) = t_id t \<and> transition_kind (t_execution_state (f t)) = None"
  shows "lifecycle_ok d'"
proof (rule lifecycle_change [OF _ assms(4,7)])
  have ok: "web_ok d" and life: "lifecycle_ok d" using assms(1) by (simp_all add: life_ok_def)
  show "lifecycle_ok d" by (rule life)
  show "\<exists>t\<in>set (trips (core d)). t_id t = x_trip_id x" using life assms(2) by (simp add: lifecycle_ok_def)
  show "filter (\<lambda>y. x_trip_id y = w) (trip_execution_operations d') = filter (\<lambda>y. x_trip_id y = w) (trip_execution_operations d)"
    if "w \<noteq> x_trip_id x" for w
    unfolding assms(5) sql_update_def
    by (rule filter_map_same) (use that assms(6) in \<open>auto simp: succeed_operation_def\<close>)
  show "trip_linked (trip_execution_operations d') (f t)" if t: "t \<in> set (trips (core d))" "P t" for t
  proof -
    have "x_state y \<noteq> OpPending" if y: "y \<in> set (trip_execution_operations d')" "x_trip_id y = t_id t" for y
      using y(1) unfolding assms(5)
    proof (cases rule: sql_updateE)
      case (updated z)
      then show ?thesis by (simp add: succeed_operation_def)
    next
      case kept
      moreover have "x_trip_id y = x_trip_id x" using t assms(7) y(2) by simp
      ultimately show ?thesis using pending_unique [OF ok _ assms(2) _ _ assms(3)] assms(6) by blast
    qed
    then show ?thesis using assms(8) [of t] by (simp add: trip_linked_def)
  qed
qed (simp_all add: assms(8))

section \<open>The transitions keep the lifecycle\<close>

lemma schema_delete_trip_activities: "schema_ok c \<Longrightarrow> schema_ok (delete_trip_activities tripID c)"
  by (simp add: delete_trip_activities_def schema_ok_def activities_ok_def windows_ok_def delays_ok_def delete_rules)

lemma trips_frames [simp]:
  "trips (stale_pending_proposals tripID now c) = trips c" "trips (delete_trip_activities tripID c) = trips c"
  "command_intents (stale_pending_proposals tripID now c) = command_intents c"
  "command_intents (delete_trip_activities tripID c) = command_intents c"
  "planner_outbox (stale_pending_proposals tripID now c) = planner_outbox c"
  "planner_outbox (delete_trip_activities tripID c) = planner_outbox c"
  by (simp_all add: stale_pending_proposals_def update_proposals_def delete_trip_activities_def)

lemma web_stale_pending: "web_ok d \<Longrightarrow> web_ok (d\<lparr>core := stale_pending_proposals tripID now (core d)\<rparr>)"
  by (simp add: web_ok_def schema_stale_pending)

lemma web_delete_trip_activities: "web_ok d \<Longrightarrow> web_ok (d\<lparr>core := delete_trip_activities tripID (core d)\<rparr>)"
  by (simp add: web_ok_def schema_delete_trip_activities)

lemma finish_transition_parts:
  assumes "finish_transition e w label userID tripID rid now d = Inr (x, d')"
  obtains v operation body where "get userID tripID d = Inr v" "vw_TransitionOperation v = Some operation"
    "x = \<lparr>at_Transition = \<lparr>xt_Trip = v, xt_Operation = operation\<rparr>, at_Duplicate = False\<rparr>"
    "to_jsonb e (marshal_transition w (at_Transition x)) = Some body"
    "update_http (in_progress rid) (answer_row 202 (Some ''application/json'') (Some body) (Some (trip_etag v)) now) d = Some d'"
    "keeps d d'"
proof -
  from assms obtain v operation body where *: "get userID tripID d = Inr v" "vw_TransitionOperation v = Some operation"
    "x = \<lparr>at_Transition = \<lparr>xt_Trip = v, xt_Operation = operation\<rparr>, at_Duplicate = False\<rparr>"
    "to_jsonb e (marshal_transition w \<lparr>xt_Trip = v, xt_Operation = operation\<rparr>) = Some body"
    "update_http (in_progress rid) (answer_row 202 (Some ''application/json'') (Some body) (Some (trip_etag v)) now) d = Some d'"
    unfolding finish_transition_def transition_answer_def Let_def
    by (auto simp: bindr_eq_Inr deref_def split: option.splits)
  have "keeps d d'" by (rule keeps_update_http [OF *(5)]) (simp_all only: answer_row_keys)
  with * show thesis by (intro that) simp_all
qed

lemma keeps_bind: "update_http P (bind_row tripID) d = Some d' \<Longrightarrow> keeps d d'"
  by (erule keeps_update_http) (simp_all only: answer_row_keys)

lemma Deactivate_parts:
  assumes "Deactivate_body e w rnd clk rq rid d = Inr (x, d')"
  obtains t oid d1 d2 d3 where
    "t \<in> set (trips (core d))" "t_id t = de_TripID rq" "t_owner_user_id t = de_UserID rq"
    "t_execution_state t = ExecActive \<or> t_execution_state t = ExecActivating"
    "update_http (in_progress rid) (bind_row (de_TripID rq)) d = Some d1" "keeps d d1"
    "insert_operation (pending_operation oid (de_TripID rq) (de_UserID rq) rid OpDeactivate (t_trip_revision t) None
       (clk 2) (clk 3)) d1 = Some d2"
    "update_trips (\<lambda>t. t_id t = de_TripID rq)
       (\<lambda>t. t\<lparr>t_execution_state := ExecDeactivating, t_transition_operation_id := Some oid, t_updated_at := clk 5\<rparr>)
       (d2\<lparr>core := stale_pending_proposals (de_TripID rq) (clk 4) (core d2)\<rparr>) = Some d3"
    "finish_transition e w ''complete deactivation idempotency'' (de_UserID rq) (de_TripID rq) rid (clk 6) d3 = Inr (x, d')"
proof -
  from assms obtain t where t: "query_row (\<lambda>t. t_id t = de_TripID rq \<and> t_owner_user_id t = de_UserID rq) (trips (core d)) = Some t"
    unfolding Deactivate_body_def by (auto split: option.splits)
  from query_row_SomeD [OF t] have tt: "t \<in> set (trips (core d))" "t_id t = de_TripID rq" "t_owner_user_id t = de_UserID rq" by simp_all
  from assms show thesis
    unfolding Deactivate_body_def t option.case
    by (auto simp: bindr_eq_Inr split: option.splits if_splits
        intro!: that [OF tt] intro: keeps_bind)
qed

lemma Deactivate_body_life:
  assumes "Deactivate_body e w rnd clk rq rid d = Inr (x, d')" "life_ok d"
  shows "life_ok d'"
  using assms(1)
proof (cases rule: Deactivate_parts)
  case (1 t oid d1 d2 d3)
  have l1: "life_ok d1" by (rule life_same [OF keeps_same_life [OF 1(6)] assms(2)])
  then have ok1: "web_ok d1" and lc1: "lifecycle_ok d1" by (simp_all add: life_ok_def)
  from insert_operation_SomeD [OF 1(7)] have d2: "core d2 = core d1" by simp
  from update_trips_SomeD [OF 1(8)] have d3: "trips (core d3) = sql_update (\<lambda>t. t_id t = de_TripID rq)
      (\<lambda>t. t\<lparr>t_execution_state := ExecDeactivating, t_transition_operation_id := Some oid, t_updated_at := clk 5\<rparr>)
      (trips (core d1))" "trip_execution_operations d3 = trip_execution_operations d2" by (simp_all add: d2)
  have "lifecycle_ok d3"
    by (rule lifecycle_enter [OF lc1 1(7) _ _ d3, where st = ExecDeactivating])
      (simp_all add: pending_operation_def transition_kind_def)
  moreover have "web_ok d3"
    by (rule web_update_trips [OF 1(8) _ web_stale_pending [OF web_insert_operation [OF 1(7) ok1]]]) simp
  ultimately have "life_ok d3" by (simp add: life_ok_def)
  with 1(9) show ?thesis by (cases rule: finish_transition_parts) (rule life_same [OF keeps_same_life])
qed

lemma publish_completion_parts:
  assumes "publish_completion e w label conflict ownerID rid P g v d = Inr (x, d')"
    "\<And>h. h_id (g h) = h_id h" "\<And>h. http_key (g h) = http_key h"
  shows "keeps d d' \<and> x = xt_Trip v"
proof -
  let ?target = "\<lambda>h. h_id h = rid \<and> h_user_id h = ownerID \<and> h_state h = Completed \<and> h_response_status h = Some 202 \<and> P h"
  from assms(1) obtain body d1 where upd: "update_http ?target (\<lambda>h. g (h\<lparr>h_response_status := Some 200, h_response_body := Some body,
      h_response_etag := Some (trip_etag (xt_Trip v))\<rparr>)) d = Some d1"
    and fin: "(if sql_count ?target (http_idempotency_records d) \<noteq> 1 then Inl (ErrText conflict) else Inr (xt_Trip v, d1)) = Inr (x, d')"
    unfolding publish_completion_def Let_def bindr_eq_Inr exec_sql_eq_Inr by (elim exE conjE)
  from fin have x: "x = xt_Trip v" and d': "d1 = d'" by (simp_all split: if_splits)
  have "keeps d d'" by (rule keeps_update_http [OF upd [unfolded d']]) (use assms(2,3) in simp_all)
  with x show ?thesis by simp
qed

text \<open>A completion: the trip leaves the transition, its operation succeeds.\<close>

definition completes ::
  "uuid \<Rightarrow> uuid \<Rightarrow> execution_state \<Rightarrow> operation_kind \<Rightarrow> (trip_row \<Rightarrow> trip_row) \<Rightarrow> web_db \<Rightarrow> web_db \<Rightarrow> bool" where
  "completes tripID oid st kind f d d' \<longleftrightarrow> (\<exists>t x d1 d2 d3 Q u v. find_trip tripID (core d) = Some t \<and> t_execution_state t = st \<and>
     x \<in> set (trip_execution_operations d) \<and> x_id x = oid \<and> x_trip_id x = tripID \<and> x_kind x = kind \<and> x_state x = OpPending \<and>
     trips (core d1) = trips (core d) \<and> command_intents (core d1) = command_intents (core d) \<and>
     planner_outbox (core d1) = planner_outbox (core d) \<and> trip_execution_operations d1 = trip_execution_operations d \<and> (web_ok d \<longrightarrow> web_ok d1) \<and>
     update_trips (\<lambda>t. t_id t = tripID \<and> t_execution_state t = st) f d1 = Some d2 \<and>
     update_operation Q (succeed_operation u v) d2 = Some d3 \<and>
     (\<forall>y. Q y \<longrightarrow> x_id y = oid) \<and> Q x \<and> keeps d3 d')"

lemma completes_life:
  assumes "completes tripID oid st kind f d d'" "life_ok d"
    "\<And>t. t_id (f t) = t_id t" "\<And>t. transition_kind (t_execution_state (f t)) = None"
  shows "life_ok d'"
proof -
  from assms(1) obtain t x d1 d2 d3 Q u v where t: "find_trip tripID (core d) = Some t" "t_execution_state t = st"
    and x: "x \<in> set (trip_execution_operations d)" "x_id x = oid" "x_trip_id x = tripID" "x_state x = OpPending"
    and d1: "trips (core d1) = trips (core d)" "trip_execution_operations d1 = trip_execution_operations d" "web_ok d \<longrightarrow> web_ok d1"
    and d2: "update_trips (\<lambda>t. t_id t = tripID \<and> t_execution_state t = st) f d1 = Some d2"
    and d3: "update_operation Q (succeed_operation u v) d2 = Some d3"
    and Q: "\<forall>y. Q y \<longrightarrow> x_id y = oid" "Q x" and k: "keeps d3 d'"
    unfolding completes_def by (elim exE conjE) blast
  from assms(2) have ok: "web_ok d" by (simp add: life_ok_def)
  from find_trip_SomeD [OF t(1)] have tt: "t \<in> set (trips (core d))" "t_id t = tripID" by simp_all
  have P: "(t_id s = tripID \<and> t_execution_state s = st) = (t_id s = x_trip_id x)" if "s \<in> set (trips (core d))" for s
    using trips_unique [OF ok that tt(1)] t(2) tt(2) x(3) by auto
  have Qx: "Q y = (y = x)" if "y \<in> set (trip_execution_operations d)" for y
    using operations_unique [OF ok that x(1)] Q x(2) by auto
  have web: "web_ok d3"
    by (rule web_update_operation [OF d3]) (use d1(3) ok web_update_trips [OF d2 assms(3)] in \<open>simp_all add: succeed_operation_def\<close>)
  have "lifecycle_ok d3"
    by (rule lifecycle_leave [OF assms(2) x(1) x(4), where u = u and v = v, OF _ _ Qx P conjI [OF assms(3,4)]])
      (use update_trips_SomeD [OF d2] update_operation_SomeD [OF d3] d1 in simp_all)
  with web k show ?thesis using life_same [OF keeps_same_life [OF k]] by (simp add: life_ok_def)
qed

lemma CompleteDeactivation_completes:
  assumes "CompleteDeactivation_tx e w clk rq d = Inr (v, d')"
  shows "completes (co_TripID rq) (co_OperationID rq) ExecDeactivating OpDeactivate
    (\<lambda>t. t\<lparr>t_current_plan_id := None, t_active_execution_plan_id := None, t_activated_at := None,
       t_transition_operation_id := None, t_execution_state := ExecInactive, t_updated_at := clk 0\<rparr>) d d'"
proof -
  from assms obtain t x where t: "find_trip (co_TripID rq) (core d) = Some t"
    and x: "query_row (\<lambda>x. x_id x = co_OperationID rq \<and> x_trip_id x = co_TripID rq) (trip_execution_operations d) = Some x"
    unfolding CompleteDeactivation_tx_def by (auto split: option.splits if_splits)
  from assms obtain d2 d3 v0 where st: "t_execution_state t = ExecDeactivating" "x_kind x = OpDeactivate" "x_state x = OpPending"
    and d2: "update_trips (\<lambda>t. t_id t = co_TripID rq \<and> t_execution_state t = ExecDeactivating)
      (\<lambda>t. t\<lparr>t_current_plan_id := None, t_active_execution_plan_id := None, t_activated_at := None,
       t_transition_operation_id := None, t_execution_state := ExecInactive, t_updated_at := clk 0\<rparr>)
      (d\<lparr>core := delete_trip_activities (co_TripID rq) (core d)\<rparr>) = Some d2"
    and d3: "update_operation (\<lambda>x. x_id x = co_OperationID rq \<and> x_state x = OpPending) (succeed_operation (clk 1) (clk 2)) d2 = Some d3"
    and p: "publish_completion e w ''publish completed deactivation response''
      ''deactivation idempotency record is not pending completion'' (t_owner_user_id t) (x_idempotency_record_id x)
      (\<lambda>_. True) (\<lambda>h. h) \<lparr>xt_Trip = v0, xt_Operation = completed_operation (co_OperationID rq) OpDeactivate\<rparr> d3 = Inr (v, d')"
    unfolding CompleteDeactivation_tx_def t option.case by (auto simp: x bindr_eq_Inr split: if_splits)
  have k: "keeps d3 d'" using publish_completion_parts [OF p] by simp
  show ?thesis
    unfolding completes_def
    by (rule exI [of _ t], rule exI [of _ x], rule exI [of _ "d\<lparr>core := delete_trip_activities (co_TripID rq) (core d)\<rparr>"],
        rule exI [of _ d2], rule exI [of _ d3], rule exI [of _ "\<lambda>x. x_id x = co_OperationID rq \<and> x_state x = OpPending"],
        rule exI [of _ "clk 1"], rule exI [of _ "clk 2"])
      (use query_row_SomeD [OF x] in \<open>simp add: t st d2 d3 k web_delete_trip_activities del: One_nat_def\<close>)
qed

lemma CompleteActivation_completes:
  assumes "CompleteActivation_tx e w clk rq d = Inr (v, d')"
  shows "completes (co_TripID rq) (co_OperationID rq) ExecActivating OpActivate
    (\<lambda>t. t\<lparr>t_execution_state := ExecActive, t_transition_operation_id := None, t_updated_at := clk 1\<rparr>) d d'"
proof -
  from assms obtain t c l x where t: "find_trip (co_TripID rq) (core d) = Some t" "t_current_plan_id t = Some c"
    and l: "query_row (\<lambda>l. l_trip_id l = co_TripID rq \<and> l_holder_id l = co_HolderID rq) (trip_runtime_leases (core d)) = Some l"
    and x: "query_row (\<lambda>x. x_id x = co_OperationID rq \<and> x_trip_id x = co_TripID rq) (trip_execution_operations d) = Some x"
    unfolding CompleteActivation_tx_def by (auto split: option.splits if_splits)
  from assms obtain d2 d3 v0 where st: "t_execution_state t = ExecActivating" "x_kind x = OpActivate" "x_state x = OpPending"
    and d2: "update_trips (\<lambda>t. t_id t = co_TripID rq \<and> t_execution_state t = ExecActivating)
      (\<lambda>t. t\<lparr>t_execution_state := ExecActive, t_transition_operation_id := None, t_updated_at := clk 1\<rparr>) d = Some d2"
    and d3: "update_operation (\<lambda>x. x_id x = co_OperationID rq \<and> x_trip_id x = co_TripID rq \<and> x_state x = OpPending)
      (succeed_operation (clk 2) (clk 3)) d2 = Some d3"
    and p: "publish_completion e w ''publish completed activation response''
      ''activation idempotency record is not pending completion'' (t_owner_user_id t) (x_idempotency_record_id x)
      (\<lambda>h. h_operation_kind h = ''activate_trip'') (\<lambda>h. h\<lparr>h_completed_at := Some (clk 4)\<rparr>)
      \<lparr>xt_Trip = v0, xt_Operation = completed_operation (co_OperationID rq) OpActivate\<rparr> d3 = Inr (v, d')"
    unfolding CompleteActivation_tx_def t option.case by (auto simp: l x bindr_eq_Inr split: if_splits)
  have k: "keeps d3 d'" using publish_completion_parts [OF p] by simp
  show ?thesis
    unfolding completes_def
    by (rule exI [of _ t], rule exI [of _ x], rule exI [of _ d], rule exI [of _ d2], rule exI [of _ d3],
        rule exI [of _ "\<lambda>x. x_id x = co_OperationID rq \<and> x_trip_id x = co_TripID rq \<and> x_state x = OpPending"],
        rule exI [of _ "clk 2"], rule exI [of _ "clk 3"])
      (use query_row_SomeD [OF x] in \<open>simp add: t st d2 d3 k del: One_nat_def\<close>)
qed

text \<open>The execution tables are written; the trips, the operations and the records are left alone.\<close>

definition keeps_trips :: "web_db \<Rightarrow> web_db \<Rightarrow> bool" where
  "keeps_trips d d' \<longleftrightarrow> trips (core d') = trips (core d) \<and> command_intents (core d') = command_intents (core d) \<and>
     planner_outbox (core d') = planner_outbox (core d) \<and> trip_execution_operations d' = trip_execution_operations d \<and>
     (web_ok d \<longrightarrow> web_ok d')"

lemma keeps_trips_refl [simp]: "keeps_trips d d" by (simp add: keeps_trips_def)

lemma keeps_trips_trans: "keeps_trips d d' \<Longrightarrow> keeps_trips d' d'' \<Longrightarrow> keeps_trips d d''" by (simp add: keeps_trips_def)

lemma keeps_trips_core:
  assumes "on_core f d = Some d'" "\<And>c c'. f c = Some c' \<Longrightarrow> trips c' = trips c \<and> command_intents c' = command_intents c \<and> planner_outbox c' = planner_outbox c"
    "\<And>c c'. f c = Some c' \<Longrightarrow> schema_ok c \<Longrightarrow> schema_ok c'"
  shows "keeps_trips d d'"
  using on_core_SomeD [OF assms(1)] assms(2,3) by (auto simp: keeps_trips_def web_ok_def)

lemma trips_inserts:
  "insert_activity a c = Some c' \<Longrightarrow> trips c' = trips c \<and> command_intents c' = command_intents c \<and> planner_outbox c' = planner_outbox c"
  "insert_window u c = Some c' \<Longrightarrow> trips c' = trips c \<and> command_intents c' = command_intents c \<and> planner_outbox c' = planner_outbox c"
  "insert_plan p c = Some c' \<Longrightarrow> trips c' = trips c \<and> command_intents c' = command_intents c \<and> planner_outbox c' = planner_outbox c"
  by (auto simp: insert_activity_def insert_window_def insert_plan_def split: if_splits)

lemma keeps_trips_for_each:
  assumes "for_each step xs d = Inr d'" "\<And>x d d'. step x d = Inr d' \<Longrightarrow> keeps_trips d d'"
  shows "keeps_trips d d'"
  using for_each_invariant [of step xs d d' "keeps_trips d"] assms keeps_trips_trans by (metis keeps_trips_refl)

lemma keeps_trips_insert_execution_activity:
  assumes "insert_execution_activity tripID now a d = Inr d'"
  shows "keeps_trips d d'"
proof -
  from assms obtain d1 where d1: "on_core (insert_activity (execution_activity_row tripID now a)) d = Some d1"
    and loop: "for_each (\<lambda>(index, win) d. exec_sql ''insert execution window'' (on_core (insert_window
         \<lparr>w_trip_id = tripID, w_activity_id = ac_ID a, w_window_index = int index,
          w_opens_at = at_offset now (rw_OpensOffsetMS win), w_closes_at = at_offset now (rw_ClosesOffsetMS win)\<rparr>) d))
       (enumerate 0 (ac_Windows a)) d1 = Inr d'"
    unfolding insert_execution_activity_def bindr_eq_Inr exec_sql_eq_Inr by (elim exE conjE)
  have "keeps_trips d d1" by (rule keeps_trips_core [OF d1]) (rule trips_inserts, assumption, rule schema_inserts, assumption+)
  moreover have "keeps_trips d1 d'"
    by (rule keeps_trips_for_each [OF loop]) (auto intro!: keeps_trips_core dest: trips_inserts intro: schema_inserts)
  ultimately show ?thesis by (rule keeps_trips_trans)
qed

lemma keeps_trips_write_execution:
  assumes "write_execution e tripID userID pid now activities drafts d = Inr d'"
  shows "keeps_trips d d'"
proof -
  from assms obtain p d1 where d1: "on_core (insert_plan p) d = Some d1"
    and loop: "for_each (insert_execution_activity tripID now) activities
        (d1\<lparr>core := delete_trip_activities tripID (core d1)\<rparr>) = Inr d'"
    unfolding write_execution_def Let_def
    by (auto simp: bindr_eq_Inr deref_def split: if_splits option.splits)
  have "keeps_trips d d1" by (rule keeps_trips_core [OF d1]) (rule trips_inserts, assumption, rule schema_inserts, assumption+)
  moreover have "keeps_trips d1 (d1\<lparr>core := delete_trip_activities tripID (core d1)\<rparr>)"
    by (simp add: keeps_trips_def web_delete_trip_activities)
  moreover have "keeps_trips (d1\<lparr>core := delete_trip_activities tripID (core d1)\<rparr>) d'"
    by (rule keeps_trips_for_each [OF loop keeps_trips_insert_execution_activity])
  ultimately show ?thesis using keeps_trips_trans by blast
qed

lemma Activate_parts:
  assumes "Activate_body e w rnd clk rq rid d = Inr (x, d')"
  obtains current activities loc drafts pid oid d1 t d2 d3 d4 where
    "lockActivationTrip (ar_UserID rq) (ar_TripID rq) (ar_ExpectedRevision rq) d = Inr current"
    "\<not> sql_exists (\<lambda>t. t_owner_user_id t = ar_UserID rq \<and> executing t \<and> t_id t \<noteq> ar_TripID rq) (trips (core d))"
    "loadActivationActivities (la_PlanID current) (ar_TripID rq) (ar_UserID rq) d = Inr activities" "activities \<noteq> []"
    "zones w (la_TimeZoneName current) = Some loc"
    "for_each (\<lambda>a acc. bindr (activation_segment (trunc_millis (clk 2)) (fst (activationDay (trunc_millis (clk 2)) loc))
       (snd (activationDay (trunc_millis (clk 2)) loc)) a) (\<lambda>s. Inr (acc @ [s]))) activities [] = Inr drafts"
    "newAuthUUID (rnd 1) = Inr pid" "newAuthUUID (rnd 2) = Inr oid"
    "write_execution e (ar_TripID rq) (ar_UserID rq) pid (trunc_millis (clk 2)) activities drafts d = Inr d1"
    "find_trip (ar_TripID rq) (core d1) = Some t" "0 < t_next_mutation_sequence t" "t_next_mutation_sequence t \<noteq> int MaxInt64"
    "update_http (in_progress rid) (bind_row (ar_TripID rq)) d1 = Some d2"
    "insert_operation (pending_operation oid (ar_TripID rq) (ar_UserID rq)
         rid OpActivate (la_Revision current) (Some pid) (clk 3) (clk 4)) d2 = Some d3"
    "update_trips (\<lambda>t. t_id t = ar_TripID rq \<and> t_execution_state t = ExecInactive)
         (activating_row pid oid (t_next_mutation_sequence t) (trunc_millis (clk 2))) d3 = Some d4"
    "finish_transition e w ''complete activation idempotency'' (ar_UserID rq) (ar_TripID rq) rid (clk 5) d4 = Inr (x, d')"
proof -
  from assms obtain current activities loc where 1: "lockActivationTrip (ar_UserID rq) (ar_TripID rq) (ar_ExpectedRevision rq) d = Inr current"
    "\<not> sql_exists (\<lambda>t. t_owner_user_id t = ar_UserID rq \<and> executing t \<and> t_id t \<noteq> ar_TripID rq) (trips (core d))"
    "loadActivationActivities (la_PlanID current) (ar_TripID rq) (ar_UserID rq) d = Inr activities" "activities \<noteq> []"
    "zones w (la_TimeZoneName current) = Some loc" "lockActivationUser (ar_UserID rq) d = Inr ()"
    unfolding Activate_body_def by (auto simp: bindr_eq_Inr split: if_splits option.splits)
  from assms obtain drafts pid oid d1 t where 2:
    "for_each (\<lambda>a acc. bindr (activation_segment (trunc_millis (clk 2)) (fst (activationDay (trunc_millis (clk 2)) loc))
       (snd (activationDay (trunc_millis (clk 2)) loc)) a) (\<lambda>s. Inr (acc @ [s]))) activities [] = Inr drafts"
    "newAuthUUID (rnd 1) = Inr pid" "newAuthUUID (rnd 2) = Inr oid"
    "write_execution e (ar_TripID rq) (ar_UserID rq) pid (trunc_millis (clk 2)) activities drafts d = Inr d1"
    "find_trip (ar_TripID rq) (core d1) = Some t" "0 < t_next_mutation_sequence t" "t_next_mutation_sequence t \<noteq> int MaxInt64"
    and 3: "bindr (exec_sql ''bind activation idempotency record'' (update_http (in_progress rid) (bind_row (ar_TripID rq)) d1)) (\<lambda>d2.
     bindr (exec_sql ''record activation operation'' (insert_operation (pending_operation oid (ar_TripID rq) (ar_UserID rq)
         rid OpActivate (la_Revision current) (Some pid) (clk 3) (clk 4)) d2)) (\<lambda>d3.
     bindr (exec_sql ''enter activating state'' (update_trips
         (\<lambda>t. t_id t = ar_TripID rq \<and> t_execution_state t = ExecInactive)
         (activating_row pid oid (t_next_mutation_sequence t) (trunc_millis (clk 2))) d3)) (\<lambda>d4.
     finish_transition e w ''complete activation idempotency'' (ar_UserID rq) (ar_TripID rq) rid (clk 5) d4))) = Inr (x, d')"
    unfolding Activate_body_def 1 bindr_simps Let_def option.case if_not_P [OF 1(2)] if_not_P [OF 1(4)] case_prod_beta
    unfolding bindr_eq_Inr [of "for_each _ _ _"] bindr_eq_Inr [of "newAuthUUID _"] bindr_eq_Inr [of "write_execution _ _ _ _ _ _ _ _"]
    by (elim exE conjE) (simp split: option.splits if_splits)
  from 3 show thesis
    unfolding bindr_eq_Inr exec_sql_eq_Inr by (elim exE conjE) (rule that [OF 1(1-5) 2])
qed

lemma Activate_body_life:
  assumes "Activate_body e w rnd clk rq rid d = Inr (x, d')" "life_ok d"
  shows "life_ok d'"
  using assms(1)
proof (cases rule: Activate_parts)
  case (1 current activities loc drafts pid oid d1 t d2 d3 d4)
  note k1 = keeps_trips_write_execution [OF 1(9)]
  have l1: "life_ok d1" using k1 assms(2) life_same [of d d1] by (simp add: keeps_trips_def same_life_def)
  have l2: "life_ok d2" by (rule life_same [OF keeps_same_life [OF keeps_bind [OF 1(13)]] l1])
  then have ok2: "web_ok d2" and lc2: "lifecycle_ok d2" by (simp_all add: life_ok_def)
  have trips2: "trips (core d2) = trips (core d)" using k1 keeps_bind [OF 1(13)] by (simp add: keeps_trips_def keeps_def)
  from insert_operation_SomeD [OF 1(14)] have d3: "core d3 = core d2" by simp
  from 1(1) obtain s where s: "s \<in> set (trips (core d))" "t_id s = ar_TripID rq" "t_execution_state s = ExecInactive"
    unfolding lockActivationTrip_def by (auto split: option.splits if_splits dest!: query_row_SomeD)
  have inact: "(t_id u = ar_TripID rq \<and> t_execution_state u = ExecInactive) = (t_id u = ar_TripID rq)"
    if "u \<in> set (trips (core d2))" for u
    using trips_unique [OF ok2 that, of s] s by (auto simp: trips2)
  from update_trips_SomeD [OF 1(15)]
  have d4: "trips (core d4) = sql_update (\<lambda>t. t_id t = ar_TripID rq \<and> t_execution_state t = ExecInactive)
      (activating_row pid oid (t_next_mutation_sequence t) (trunc_millis (clk 2))) (trips (core d2))"
    "trip_execution_operations d4 = trip_execution_operations d3" by (simp_all add: d3)
  have "lifecycle_ok d4"
    by (rule lifecycle_enter [OF lc2 1(14) _ _ d4, where st = ExecActivating])
      (simp_all add: inact pending_operation_def transition_kind_def activating_row_def)
  moreover have "web_ok d4"
    by (rule web_update_trips [OF 1(15) _ web_insert_operation [OF 1(14) ok2]]) (simp add: activating_row_def)
  ultimately have "life_ok d4" by (simp add: life_ok_def)
  with 1(16) show ?thesis by (cases rule: finish_transition_parts) (rule life_same [OF keeps_same_life])
qed

lemma Activate_life: "Activate e w rnd clk rq d = (r, d') \<Longrightarrow> life_ok d \<Longrightarrow> life_ok d'"
  unfolding Activate_def
  by (auto split: sum.splits elim!: run_tx_life http_mutation_life intro: Activate_body_life)

lemma Deactivate_life: "Deactivate e w rnd clk rq d = (r, d') \<Longrightarrow> life_ok d \<Longrightarrow> life_ok d'"
  unfolding Deactivate_def
  by (auto split: if_splits elim!: run_tx_life http_mutation_life intro: Deactivate_body_life)

lemma CompleteActivation_life: "CompleteActivation e w clk rq d = (r, d') \<Longrightarrow> life_ok d \<Longrightarrow> life_ok d'"
  unfolding CompleteActivation_def
  by (auto split: if_splits elim!: run_tx_life dest!: CompleteActivation_completes elim!: completes_life
      simp: transition_kind_def)

lemma CompleteDeactivation_life: "CompleteDeactivation e w clk rq d = (r, d') \<Longrightarrow> life_ok d \<Longrightarrow> life_ok d'"
  unfolding CompleteDeactivation_def
  by (auto split: if_splits elim!: run_tx_life dest!: CompleteDeactivation_completes elim!: completes_life
      simp: transition_kind_def)

text \<open>A trip in transition has a pending operation, so that no second one can be recorded for it.\<close>

lemma transition_blocks_operation:
  assumes "life_ok d" "t \<in> set (trips (core d))" "transition_kind (t_execution_state t) = Some kind"
    "x_trip_id x = t_id t" "x_state x = OpPending"
  shows "insert_operation x d = None"
proof -
  from assms(1-3) obtain y where "y \<in> set (trip_execution_operations d)" "x_trip_id y = t_id t" "x_state y = OpPending"
    unfolding life_ok_def lifecycle_ok_def trip_linked_def by fastforce
  then show ?thesis using assms(4,5) insert_operation_SomeD [of x d] by (cases "insert_operation x d") auto
qed

lemma run_tx_fails: "(\<And>x d'. body d \<noteq> Inr (x, d')) \<Longrightarrow> \<exists>x. run_tx body d = (Inl x, d)"
  by (auto simp: run_tx_def split: sum.splits)

text \<open>
  C33. The HTTP contract (plans/LiveRouteV15HTTPContract.md, \<open>active|activating -> deactivating -> inactive\<close>) and
  the state check of \<open>Deactivate\<close> let an owner deactivate a trip that is still activating. The code never does: every
  deactivation of such a trip, whatever the request, the clock and the random bytes, fails with the tables
  unchanged, as the operation it would record is a second pending one of the trip. (A key with a stored
  response is answered from that response.)
\<close>

theorem deactivate_activating_fails:
  assumes "life_ok d" "find_trip (de_TripID rq) (core d) = Some t" "t_execution_state t = ExecActivating"
    "find_http (de_UserID rq) ''POST'' (trips_path (de_TripID rq) @ ''/deactivate'') (de_IdempotencyKey rq) d = None"
  shows "\<exists>x. Deactivate e w rnd clk rq d = (Inl x, d)"
proof -
  from find_trip_SomeD [OF assms(2)] have t: "t \<in> set (trips (core d))" "t_id t = de_TripID rq" by simp_all
  have "Deactivate_body e w rnd clk rq rid d1 \<noteq> Inr (x, d')" if d1: "keeps d d1" for rid d1 x d'
  proof
    assume "Deactivate_body e w rnd clk rq rid d1 = Inr (x, d')"
    then show False
    proof (cases rule: Deactivate_parts)
      case (1 s oid d2 d3 d4)
      have k: "keeps d d2" by (rule keeps_trans [OF d1 1(6)])
      have "insert_operation (pending_operation oid (de_TripID rq) (de_UserID rq) rid OpDeactivate (t_trip_revision s) None
          (clk 2) (clk 3)) d2 = None"
        by (rule transition_blocks_operation [OF life_same [OF keeps_same_life [OF k] assms(1)], of t OpActivate])
          (use k t assms(3) in \<open>simp_all add: keeps_def transition_kind_def pending_operation_def\<close>)
      with 1(7) show False by simp
    qed
  qed
  then have "http_mutation rnd clk (de_UserID rq) (de_IdempotencyKey rq) ''POST'' (trips_path (de_TripID rq) @ ''/deactivate'')
      ''deactivate_trip'' (de_RequestDigest rq) (replay_transition w ''deactivation replay is invalid'')
      (Deactivate_body e w rnd clk rq) d \<noteq> Inr (x, d')" for x d'
    using assms(4) keeps_insert_http by (fastforce elim!: http_mutation_cases)
  from run_tx_fails [of "http_mutation rnd clk (de_UserID rq) (de_IdempotencyKey rq) ''POST''
      (trips_path (de_TripID rq) @ ''/deactivate'') ''deactivate_trip'' (de_RequestDigest rq)
      (replay_transition w ''deactivation replay is invalid'') (Deactivate_body e w rnd clk rq)" d, OF this]
  show ?thesis unfolding Deactivate_def by auto
qed

section \<open>A sample\<close>

text \<open>The user with one place creates a trip of one activity and activates it.\<close>

definition sample_web :: web where
  "sample_web = \<lparr>zones = (\<lambda>_. Some (\<lambda>_. (0, 0, 0))), pg_date = Some, pg_time = Some, marshal_trip = (\<lambda>_. [1]),
     unmarshal_trip = (\<lambda>_. None), marshal_transition = (\<lambda>_. [1]), unmarshal_transition = (\<lambda>_. None)\<rparr>"

definition sample_creation :: CreateSavedTripRequest where
  "sample_creation = \<lparr>cr_UserID = sample_uuid CHR ''a'', cr_IdempotencyKey = sample_uuid CHR ''b'', cr_RequestDigest = replicate 32 0,
     cr_TripName = ''Weekend'', cr_DefaultTimeZoneName = ''Etc/UTC'', cr_DisplaySchedule = None,
     cr_Activities = [\<lparr>si_PlaceID = sample_id CHR ''d'', si_Ordinal = 0,
       si_Schedule = \<lparr>ss_State = ''scheduled'', ss_StartOffsetMS = Some 3600000, ss_EndOffsetMS = Some 7200000\<rparr>,
       si_InboundTravelMode = ''walking'', si_ActivityClass = ''flexible'', si_PriorityRank = 1, si_UtilityScore = 1,
       si_Timing = \<lparr>ti_OpenWindows = Some [\<lparr>rw_OpensOffsetMS = 0, rw_ClosesOffsetMS = 7200000\<rparr>], ti_ReservationStartOffsetMS = None,
         ti_ReservationGraceSeconds = 0, ti_MandatoryDeadlineOffset = None, ti_MinDurationSeconds = 60,
         ti_PreferredDurationSeconds = 120, ti_MaxDurationSeconds = 180, ti_Mandatory = False, ti_CanShorten = False,
         ti_CanMove = True, ti_CanSkip = True\<rparr>\<rparr>]\<rparr>"

definition sample_activation :: ActivateSavedTripRequest where
  "sample_activation = \<lparr>ar_UserID = sample_uuid CHR ''a'', ar_TripID = sample_id CHR ''1'', ar_IdempotencyKey = sample_uuid CHR ''c'',
     ar_ExpectedRevision = 1, ar_RequestDigest = replicate 32 0, ar_StartingLatitude = Finite 0, ar_StartingLongitude = Finite 0\<rparr>"

definition created_trip :: trip_row where
  "created_trip = saved_trip_row sample_creation (sample_id CHR ''1'') (sample_id CHR ''2'') 0 0"

definition created_plan :: saved_plan_row where
  "created_plan = \<lparr>v_id = sample_id CHR ''2'', v_trip_id = sample_id CHR ''1'', v_owner_user_id = sample_uuid CHR ''a'',
     v_revision = 1, v_authored_by_user_id = sample_uuid CHR ''a'', v_display_date = None, v_display_time = None,
     v_display_zone = None, v_created_at = 0\<rparr>"

definition created_activity :: saved_activity_row where
  "created_activity = saved_row (sample_id CHR ''2'') (sample_id CHR ''1'') (sample_uuid CHR ''a'') (sample_id CHR ''3'')
     (sample_id CHR ''d'') (hd (cr_Activities sample_creation)) Scheduled"

definition created_window :: saved_window_row where
  "created_window = \<lparr>sw_plan_id = sample_id CHR ''2'', sw_activity_id = sample_id CHR ''3'', sw_window_index = 0,
     sw_opens_offset = 0, sw_closes_offset = 7200000\<rparr>"

definition creation_reservation :: http_row where
  "creation_reservation = new_http_row (sample_id CHR ''0'') (sample_uuid CHR ''a'') (sample_uuid CHR ''b'') ''POST'' ''/api/v1/trips''
     ''create_trip'' (replicate 32 0) 0 0"

definition sample_etag :: string where "sample_etag = CHR 0x22 # ''trip-revision-1'' @ [CHR 0x22]"

definition creation_record :: http_row where
  "creation_record = answer_row 201 (Some ''application/json'') (Some [1]) (Some sample_etag) 0 (bind_row (sample_id CHR ''1'') creation_reservation)"

definition saved_web :: web_db where
  "saved_web = placed_web\<lparr>core := (empty_db [sample_uuid CHR ''a''])\<lparr>trips := [created_trip]\<rparr>, http_idempotency_records := [resolution_record, place_record, creation_record],
     saved_trip_plans := [created_plan], saved_trip_activities := [created_activity], saved_activity_open_windows := [created_window]\<rparr>"

lemma created_rows [simp]:
  "t_id created_trip = sample_id CHR ''1''" "t_owner_user_id created_trip = sample_uuid CHR ''a''" "t_execution_state created_trip = ExecInactive"
  "t_saved_plan_id created_trip = Some (sample_id CHR ''2'')" "t_trip_revision created_trip = 1" "t_next_mutation_sequence created_trip = 1"
  "t_default_time_zone_name created_trip = ''Etc/UTC''" "t_current_plan_id created_trip = None"
  "h_id creation_record = sample_id CHR ''0''" "h_state creation_record = Completed"
  "http_key creation_record = (sample_uuid CHR ''a'', ''POST'', ''/api/v1/trips'', sample_uuid CHR ''b'')"
  by (simp_all add: created_trip_def saved_trip_row_def sample_creation_def creation_record_def creation_reservation_def new_http_row_def
      answer_row_def bind_row_def)

lemma created_checks:
  "trip_check created_trip" "saved_plan_check created_plan" "saved_activity_check created_activity" "saved_window_check created_window"
  "http_check creation_reservation" "http_check creation_record"
proof -
  show "trip_check created_trip"
    by (simp add: trip_check_def created_trip_def saved_trip_row_def sample_creation_def i64_ok_def MaxInt64_def trips_name_check_def
        trips_execution_lifecycle_check_def btrim_def)
  show "saved_plan_check created_plan" by (simp add: saved_plan_check_def created_plan_def i64_ok_def MaxInt64_def)
  show "saved_activity_check created_activity"
    by (simp add: saved_activity_check_def created_activity_def saved_row_def sample_creation_def i32_ok_def MaxInt32_def)
  show "saved_window_check created_window" by (simp add: saved_window_check_def created_window_def)
  show "http_check creation_reservation" "http_check creation_record"
    by (simp_all add: http_check_def creation_record_def creation_reservation_def new_http_row_def starts_with_def http_operation_kinds_def
        httpIdempotencyRetention_def bind_row_def answer_row_def)
qed

lemmas saved_samples = saved_web_def placed_web_def sample_place_def created_plan_def created_activity_def saved_row_def
  sample_creation_def created_window_def empty_web_def empty_db_def

lemma life_placed_web: "life_ok placed_web"
proof -
  have "web_ok placed_web" using CreatePlace_frame [OF sample_creates_place] resolved_web_ok by (simp add: place_frame_def)
  then show ?thesis by (simp add: life_ok_def lifecycle_ok_def) (simp add: placed_web_def empty_web_def empty_db_def)
qed

lemma created_saves [simp]:
  "sa_plan_id created_activity = sample_id CHR ''2''" "sa_activity_id created_activity = sample_id CHR ''3''" "sa_ordinal created_activity = 0"
  "sa_place_id created_activity = sample_id CHR ''d''" "sa_owner_user_id created_activity = sample_uuid CHR ''a''"
  "sa_trip_id created_activity = sample_id CHR ''1''" "sa_schedule_state created_activity = Scheduled"
  "sa_start_offset created_activity = Some 3600000" "sa_end_offset created_activity = Some 7200000"
  "v_id created_plan = sample_id CHR ''2''" "v_trip_id created_plan = sample_id CHR ''1''" "v_owner_user_id created_plan = sample_uuid CHR ''a''"
  "v_revision created_plan = 1"
  "sw_plan_id created_window = sample_id CHR ''2''" "sw_activity_id created_window = sample_id CHR ''3''"
  "pl_id sample_place = sample_id CHR ''d''" "pl_owner_user_id sample_place = sample_uuid CHR ''a''"
  by (simp_all add: created_activity_def saved_row_def created_plan_def created_window_def sample_creation_def sample_place_def)

text \<open>A text whose first and last bytes begin and end no white space.\<close>

lemma bytes_string_starts: "starts_with (bytes_string (n # ns)) (c # s) \<Longrightarrow> n mod 256 = of_char c"
  by (auto simp: starts_with_def bytes_string_def)

lemma rev_bytes_string: "rev (bytes_string ns) = bytes_string (rev ns)"
  by (simp add: bytes_string_def rev_map)

lemma TrimSpace_plain:
  assumes "s = c # u" "rev s = c' # u'" "unicode_spaces = map bytes_string ls"
    "list_all (\<lambda>ns. ns \<noteq> [] \<and> hd ns mod 256 \<noteq> of_char c \<and> last ns mod 256 \<noteq> of_char c') ls"
  shows "TrimSpace s = s"
proof -
  have 1: "\<not> starts_with (bytes_string ns) s" if "ns \<in> set ls" for ns
    using that assms(4) bytes_string_starts [of "hd ns" "tl ns" c u] assms(1) by (auto simp: list_all_iff)
  have 2: "\<not> starts_with (rev (bytes_string ns)) (rev s)" if "ns \<in> set ls" for ns
    using that assms(4) bytes_string_starts [of "hd (rev ns)" "tl (rev ns)" c' u'] assms(2) unfolding rev_bytes_string
    by (cases "rev ns") (auto simp: hd_rev [symmetric] list_all_iff)
  have "List.find (\<lambda>p. p \<noteq> [] \<and> starts_with p s) unicode_spaces = None"
    "List.find (\<lambda>p. p \<noteq> [] \<and> starts_with p (rev s)) (map rev unicode_spaces) = None"
    using 1 2 by (auto simp: find_None_iff assms(3))
  then have "drop_any unicode_spaces s = s" "drop_any (map rev unicode_spaces) (rev s) = rev s"
    by (simp_all only: drop_any.simps [of unicode_spaces s] drop_any.simps [of "map rev unicode_spaces" "rev s"] option.case)
  then show ?thesis by (simp only: TrimSpace_def rev_rev_ident)
qed

lemma sample_valid_request: "validateCreateSavedTrip sample_web sample_creation = Inr ()"
proof -
  have "TrimSpace ''Weekend'' = ''Weekend''" by (rule TrimSpace_plain [OF _ _ unicode_spaces_def]) (simp, simp, simp)
  moreover have "ianaZonePattern ''Etc/UTC''" by code_simp
  ultimately show ?thesis
    by (simp add: validateCreateSavedTrip_def sample_creation_def valid_trip_name_def validTimeZoneName_def sample_web_def valid_activity_fields_def
        validRelativeWindow_def validDurationRange_def validOptionalDayOffset_def validSavedSchedule_def)
qed

text \<open>What the view of the sample trip shows, with the tables that \<open>get\<close> reads.\<close>

definition sample_tables :: "trip_row \<Rightarrow> web_db \<Rightarrow> bool" where
  "sample_tables t d \<longleftrightarrow> trips (core d) = [t] \<and> t_id t = sample_id CHR ''1'' \<and> t_owner_user_id t = sample_uuid CHR ''a'' \<and>
     t_saved_plan_id t = Some (sample_id CHR ''2'') \<and> t_trip_revision t = 1 \<and> places d = [sample_place] \<and> saved_trip_plans d = [created_plan] \<and>
     saved_trip_activities d = [created_activity] \<and> saved_activity_open_windows d = [created_window]"

lemma sample_get:
  assumes "sample_tables t d" "t_execution_state t = ExecInactive \<or>
    t_execution_state t = ExecActivating \<and> loadExecutionOperation (sample_uuid CHR ''a'') (sample_id CHR ''1'') d = Inr y"
  obtains v where "get (sample_uuid CHR ''a'') (sample_id CHR ''1'') d = Inr v" "vw_TripRevision v = ''1''"
    "t_execution_state t = ExecActivating \<longrightarrow> vw_TransitionOperation v = Some y"
  using assms that
  by (auto simp: get_def sample_tables_def query_row_def load_saved_plan_def join_places_def
      plan_activities_def sql_select_def activity_view_def schedule_of_def deref_def FormatInt_def decimal.simps)

lemma sample_creates: "snd (Create sample_ext sample_web (sample_entropy 0) (\<lambda>_. 0) sample_creation placed_web) = saved_web"
proof -
  let ?a = "sample_uuid CHR ''a''" and ?h = "creation_reservation"
  let ?d1 = "placed_web\<lparr>http_idempotency_records := [resolution_record, place_record, ?h]\<rparr>"
  let ?d2 = "?d1\<lparr>core := (empty_db [?a])\<lparr>trips := [created_trip]\<rparr>\<rparr>"
  let ?d3 = "?d2\<lparr>saved_trip_plans := [created_plan]\<rparr>"
  let ?d4 = "?d3\<lparr>saved_trip_activities := [created_activity], saved_activity_open_windows := [created_window]\<rparr>"
  have d1: "insert_http ?h placed_web = Some (True, ?d1)"
    using created_checks(5) by (simp add: insert_http_def fresh_in_def placed_web_def empty_web_def empty_db_def creation_reservation_def new_http_row_def)
  have d2: "on_core (insert_trip created_trip) ?d1 = Some ?d2"
    by (simp add: on_core_def insert_trip_def created_checks fresh_in_def placed_web_def empty_web_def empty_db_def)
  have d3: "add_saved_plan sample_web ''insert initial saved plan'' (sample_id CHR ''2'') (sample_id CHR ''1'') ?a 1 None None None 0 ?d2 = Inr ?d3"
    using created_checks(2) unfolding created_plan_def
    by (simp add: add_saved_plan_def cast_optional_def insert_saved_plan_def fresh_in_def placed_web_def empty_web_def empty_db_def sql_exists_def)
  have act: "insert_saved_activity created_activity ?d3 = Some (?d3\<lparr>saved_trip_activities := [created_activity]\<rparr>)"
    using created_checks(3) by (simp add: insert_saved_activity_def fresh_in_def placed_web_def empty_web_def sql_exists_def)
  have win: "insert_saved_window created_window (?d3\<lparr>saved_trip_activities := [created_activity]\<rparr>) = Some ?d4"
    using created_checks(4) by (simp add: insert_saved_window_def fresh_in_def placed_web_def empty_web_def sql_exists_def)
  have d4: "for_each (create_saved_activity_step (sample_entropy 0) (sample_id CHR ''2'') (sample_id CHR ''1'') ?a)
      (enumerate 0 (cr_Activities sample_creation)) ?d3 = Inr ?d4"
    using act win unfolding created_window_def created_activity_def
    by (simp add: sample_creation_def create_saved_activity_step_def insertSavedActivity_def query_row_def placed_web_def
        schedule_state_of_def input_windows_def)
  have "sample_tables created_trip ?d4" by (simp add: sample_tables_def placed_web_def)
  then obtain v where v: "get ?a (sample_id CHR ''1'') ?d4 = Inr v" "vw_TripRevision v = ''1''"
    by (rule sample_get) simp_all
  have d5: "complete_mutation sample_ext sample_web ''complete trip idempotency'' (sample_id CHR ''0'') (sample_id CHR ''1'') 201 v 0 ?d4 = Inr saved_web"
    using created_checks(6)
    by (simp add: complete_mutation_def update_http_def in_progress_def sql_update_def sample_web_def trip_etag_def v saved_web_def placed_web_def
        creation_record_def sample_etag_def creation_reservation_def new_http_row_def)
  have fin: "saved_plan_contiguous (sample_id CHR ''2'') saved_web"
    by (simp add: saved_plan_contiguous_def plan_activities_def sql_select_def saved_web_def)
  have rq: "cr_UserID sample_creation = ?a" "cr_IdempotencyKey sample_creation = sample_uuid CHR ''b''"
    "cr_RequestDigest sample_creation = replicate 32 0" "cr_DisplaySchedule sample_creation = None"
    by (simp_all add: sample_creation_def)
  have "Create_tx sample_ext sample_web (sample_entropy 0) (\<lambda>_. 0) sample_creation placed_web = Inr (\<lparr>mt_Trip = v, mt_Duplicate = False\<rparr>, saved_web)"
    by (simp add: Create_tx_def rq d1 [unfolded creation_reservation_def] d2 [unfolded creation_reservation_def created_trip_def]
        d3 [unfolded creation_reservation_def created_trip_def] d4 [unfolded creation_reservation_def created_trip_def]
        v(1) [unfolded creation_reservation_def created_trip_def] d5 [unfolded creation_reservation_def created_trip_def] commit_plan_def fin)
  then show ?thesis by (simp add: Create_def sample_valid_request run_tx_def)
qed

lemma life_saved_web: "life_ok saved_web"
  using Create_life [OF _ life_placed_web] sample_creates by (metis prod.collapse)

definition sample_execution :: activationActivity where
  "sample_execution = \<lparr>ac_ID = sample_id CHR ''3'', ac_Ordinal = 0, ac_PlaceID = sample_id CHR ''d'',
     ac_DisplayName = ''Museum, 1 Street'', ac_Latitude = Finite 0, ac_Longitude = Finite 0, ac_TimeZoneName = ''Etc/UTC'',
     ac_InboundTravelMode = ''walking'', ac_ActivityClass = ''flexible'', ac_PriorityRank = 1, ac_UtilityScore = 1,
     ac_StartOffset = 3600000, ac_EndOffset = 7200000, ac_ReservationStartOffset = None, ac_ReservationGraceSeconds = 0,
     ac_DeadlineOffset = None, ac_MinDurationSeconds = 60, ac_PreferredDurationSeconds = 120, ac_MaxDurationSeconds = 180,
     ac_Mandatory = False, ac_CanShorten = False, ac_CanMove = True, ac_CanSkip = True,
     ac_Windows = [\<lparr>rw_OpensOffsetMS = 0, rw_ClosesOffsetMS = 7200000\<rparr>]\<rparr>"

lemma sample_loads:
  "loadActivationActivities (sample_id CHR ''2'') (sample_id CHR ''1'') (sample_uuid CHR ''a'') (saved_web\<lparr>http_idempotency_records := hs\<rparr>) =
     Inr [sample_execution]"
  by (simp add: loadActivationActivities_def join_places_def plan_activities_def sql_select_def saved_samples activation_name_def
      activation_step_def plan_windows_def sample_execution_def Let_def)

definition sample_execution_payload :: bytes where
  "sample_execution_payload =
     [10, 36, 48, 48, 48, 48, 48, 48, 48, 48, 45, 48, 48, 48, 48,
      45, 52, 48, 48, 48, 45, 56, 48, 48, 48, 45, 48, 48, 48, 48,
      48, 48, 48, 48, 48, 48, 48, 53, 16, 1, 24, 1, 34, 50, 10,
      36, 48, 48, 48, 48, 48, 48, 48, 48, 45, 48, 48, 48, 48, 45,
      52, 48, 48, 48, 45, 56, 48, 48, 48, 45, 48, 48, 48, 48, 48,
      48, 48, 48, 48, 48, 48, 51, 16, 1, 24, 128, 221, 219, 1, 32,
      128, 186, 183, 3, 40, 0]"

definition execution_drafts :: "CanonicalPlanSegmentDraft list" where
  "execution_drafts = [\<lparr>dr_ActivityID = sample_id CHR ''3'', dr_Scheduled = True, dr_Start = Some 3600000, dr_End = Some 7200000\<rparr>]"

lemma sample_payload: "userCurrentPlanPayload (sample_id CHR ''5'') (Suc 0) 0 execution_drafts = Some sample_execution_payload"
  by code_simp

definition execution_plan :: plan_row where
  "execution_plan = user_plan_row sample_ext (sample_id CHR ''5'') (sample_id CHR ''1'') 1 (sample_uuid CHR ''a'') sample_execution_payload 0"

definition execution_core :: db where
  "execution_core = (core saved_web)\<lparr>itinerary_plans := [execution_plan],
     trip_activities := [execution_activity_row (sample_id CHR ''1'') 0 sample_execution],
     activity_open_windows := [\<lparr>w_trip_id = sample_id CHR ''1'', w_activity_id = sample_id CHR ''3'', w_window_index = 0,
        w_opens_at = 0, w_closes_at = 7200000000\<rparr>]\<rparr>"

lemma sample_write_execution:
  "write_execution sample_ext (sample_id CHR ''1'') (sample_uuid CHR ''a'') (sample_id CHR ''5'') 0 [sample_execution] execution_drafts
     (saved_web\<lparr>http_idempotency_records := hs\<rparr>) = Inr (saved_web\<lparr>core := execution_core, http_idempotency_records := hs\<rparr>)"
proof -
  let ?c = "core saved_web" and ?a = "execution_activity_row (sample_id CHR ''1'') 0 sample_execution"
  have rev: "next_plan_revision (sample_id CHR ''1'') ?c = 1"
    by (simp add: next_plan_revision_def saved_samples sql_select_def)
  have ins: "insert_plan execution_plan ?c = Some (?c\<lparr>itinerary_plans := [execution_plan]\<rparr>)"
    by (simp add: insert_plan_def saved_samples fresh_in_def trip_exists_def sql_exists_def plan_check_def execution_plan_def
        user_plan_row_def i64_ok_def int64_def MaxInt64_def i32_ok_def MaxInt32_def sample_execution_payload_def)
  have act: "insert_activity ?a (?c\<lparr>itinerary_plans := [execution_plan]\<rparr>) =
      Some (?c\<lparr>itinerary_plans := [execution_plan], trip_activities := [?a]\<rparr>)"
    by (simp add: insert_activity_def activity_check_def i32_ok_def MaxInt32_def saved_samples fresh_in_def trip_exists_def
        sql_exists_def execution_activity_row_def sample_execution_def)
  have clear: "delete_trip_activities (sample_id CHR ''1'') (?c\<lparr>itinerary_plans := [execution_plan]\<rparr>) =
      ?c\<lparr>itinerary_plans := [execution_plan]\<rparr>"
    by (simp add: delete_trip_activities_def saved_samples sql_delete_def)
  have win: "insert_window \<lparr>w_trip_id = sample_id CHR ''1'', w_activity_id = sample_id CHR ''3'', w_window_index = 0,
        w_opens_at = 0, w_closes_at = 7200000000\<rparr> (?c\<lparr>itinerary_plans := [execution_plan], trip_activities := [?a]\<rparr>) = Some execution_core"
    by (simp add: insert_window_def window_check_def i32_ok_def MaxInt32_def execution_core_def fresh_in_def activity_exists_def
        sql_exists_def execution_activity_row_def sample_execution_def saved_samples)
  have id: "ac_ID sample_execution = sample_id CHR ''3''" "ac_Windows sample_execution = [\<lparr>rw_OpensOffsetMS = 0, rw_ClosesOffsetMS = 7200000\<rparr>]"
    by (simp_all add: sample_execution_def)
  show ?thesis
    by (simp add: write_execution_def rev sample_payload on_core_def ins [unfolded execution_plan_def One_nat_def] clear [unfolded execution_plan_def One_nat_def]
        insert_execution_activity_def id act [unfolded execution_plan_def One_nat_def] at_offset_def millis_def
        win [unfolded execution_plan_def One_nat_def] Let_def MaxInt64_def UnixMilli_def uint64_def deref_def)
qed

lemma sample_segments:
  "for_each (\<lambda>a acc. bindr (activation_segment 0 0 86400000000 a) (\<lambda>s. Inr (acc @ [s]))) [sample_execution] [] = Inr execution_drafts"
  by (simp add: activation_segment_def sample_execution_def insideActivationDay_def at_offset_def millis_def UnixMilli_def
      activationOptionalTimeInsideDay_def activation_window_ok_def execution_drafts_def)

definition sample_path :: string where "sample_path = trips_path (sample_id CHR ''1'') @ ''/activate''"

definition sample_reservation :: http_row where
  "sample_reservation = new_http_row (sample_id CHR ''4'') (sample_uuid CHR ''a'') (sample_uuid CHR ''c'') ''POST'' sample_path ''activate_trip''
     (replicate 32 0) 0 0"

definition sample_operation :: operation_row where
  "sample_operation = pending_operation (sample_id CHR ''6'') (sample_id CHR ''1'') (sample_uuid CHR ''a'') (sample_id CHR ''4'') OpActivate 1
     (Some (sample_id CHR ''5'')) 0 0"

definition sample_activating_trip :: trip_row where
  "sample_activating_trip = activating_row (sample_id CHR ''5'') (sample_id CHR ''6'') 1 0 created_trip"

definition activating_web :: web_db where
  "activating_web = saved_web\<lparr>core := execution_core\<lparr>trips := [sample_activating_trip]\<rparr>,
     http_idempotency_records := [resolution_record, place_record, creation_record, answer_row 202 (Some ''application/json'') (Some [1])
       (Some sample_etag) 0 (bind_row (sample_id CHR ''1'') sample_reservation)],
     trip_execution_operations := [sample_operation]\<rparr>"

lemma sample_reservation_check: "http_check sample_reservation" "http_check (bind_row u sample_reservation)"
  "http_check (answer_row 202 (Some ''application/json'') b etag 0 (bind_row u sample_reservation))"
  by (simp_all add: http_check_def sample_reservation_def new_http_row_def sample_path_def trips_path_def sample_id_def starts_with_def
      http_operation_kinds_def httpIdempotencyRetention_def bind_row_def answer_row_def)

lemma sample_reservation_fields [simp]:
  "h_id sample_reservation = sample_id CHR ''4''" "h_user_id sample_reservation = sample_uuid CHR ''a''" "h_state sample_reservation = InProgress"
  "h_idempotency_key sample_reservation = sample_uuid CHR ''c''" "h_trip_id (bind_row u h) = Some u" "h_user_id (bind_row u h) = h_user_id h"
  by (simp_all add: sample_reservation_def new_http_row_def bind_row_def)

lemma sample_update_http:
  "http_check (f sample_reservation) \<Longrightarrow> update_http (in_progress (sample_id CHR ''4'')) f (d\<lparr>http_idempotency_records := [resolution_record, place_record, creation_record, sample_reservation]\<rparr>) =
     Some (d\<lparr>http_idempotency_records := [resolution_record, place_record, creation_record, f sample_reservation]\<rparr>)"
  by (simp add: update_http_def in_progress_def sql_update_def)

lemma sample_insert_operation:
  "insert_operation sample_operation (saved_web\<lparr>core := execution_core, http_idempotency_records := [resolution_record, place_record, creation_record, bind_row (sample_id CHR ''1'') sample_reservation]\<rparr>) =
     Some (saved_web\<lparr>core := execution_core, http_idempotency_records := [resolution_record, place_record, creation_record, bind_row (sample_id CHR ''1'') sample_reservation],
       trip_execution_operations := [sample_operation]\<rparr>)"
  by (simp add: insert_operation_def operation_check_def sample_operation_def pending_operation_def i64_ok_def MaxInt64_def sql_exists_def
      plan_exists_def fresh_in_def execution_core_def execution_plan_def user_plan_row_def saved_samples)

lemma sample_update_trips:
  assumes "trips (core d) = [created_trip]"
  shows "update_trips (\<lambda>t. t_id t = sample_id CHR ''1'' \<and> t_execution_state t = ExecInactive)
       (activating_row (sample_id CHR ''5'') (sample_id CHR ''6'') 1 0) d =
     Some (d\<lparr>core := (core d)\<lparr>trips := [sample_activating_trip]\<rparr>\<rparr>)"
proof -
  have "trip_check sample_activating_trip"
    by (simp add: trip_check_def sample_activating_trip_def activating_row_def created_trip_def saved_trip_row_def sample_creation_def btrim_def i64_ok_def MaxInt64_def
        trips_name_check_def trips_execution_lifecycle_check_def)
  then show ?thesis
    by (simp add: update_trips_def assms sql_update_def one_executing_def sample_activating_trip_def created_trip_def saved_trip_row_def sample_creation_def btrim_def)
qed

lemma sample_activates: "snd (Activate sample_ext sample_web (sample_entropy 4) (\<lambda>_. 0) sample_activation saved_web) = activating_web"
proof -
  let ?a = "sample_uuid CHR ''a''" and ?t = "sample_id CHR ''1''" and ?d = "saved_web\<lparr>http_idempotency_records := [resolution_record, place_record, creation_record, sample_reservation]\<rparr>"
  let ?d4 = "saved_web\<lparr>core := execution_core\<lparr>trips := [sample_activating_trip]\<rparr>,
      http_idempotency_records := [resolution_record, place_record, creation_record, bind_row ?t sample_reservation], trip_execution_operations := [sample_operation]\<rparr>"
  have op: "\<exists>y. loadExecutionOperation ?a ?t ?d4 = Inr y"
    by (simp add: loadExecutionOperation_def sql_select_def sample_operation_def pending_operation_def)
  have st: "t_execution_state sample_activating_trip = ExecActivating" by (simp add: sample_activating_trip_def activating_row_def)
  have tabs: "sample_tables sample_activating_trip ?d4"
    by (simp add: sample_tables_def sample_activating_trip_def activating_row_def saved_web_def placed_web_def)
  have res: "insert_http sample_reservation saved_web = Some (True, ?d)"
    by (simp add: insert_http_def sample_reservation_check fresh_in_def saved_samples)
  have lock: "lockActivationTrip ?a ?t 1 ?d = Inr \<lparr>la_Revision = 1, la_PlanID = sample_id CHR ''2'', la_TimeZoneName = ''Etc/UTC''\<rparr>"
    by (simp add: lockActivationTrip_def saved_samples query_row_def int64_def MaxInt64_def)
  obtain v y where v: "get ?a ?t ?d4 = Inr v" "vw_TransitionOperation v = Some y" "vw_TripRevision v = ''1''"
    using sample_get [OF tabs] op st by metis
  have fin: "finish_transition sample_ext sample_web ''complete activation idempotency'' ?a ?t (sample_id CHR ''4'') 0 ?d4 =
      Inr (\<lparr>at_Transition = \<lparr>xt_Trip = v, xt_Operation = y\<rparr>, at_Duplicate = False\<rparr>, activating_web)"
    using sample_reservation_check(3)
    by (simp add: finish_transition_def v deref_def transition_answer_def sample_web_def update_http_def in_progress_def sql_update_def
        trip_etag_def activating_web_def sample_etag_def Let_def)
  have body: "Activate_body sample_ext sample_web (sample_entropy 4) (\<lambda>_. 0) sample_activation (sample_id CHR ''4'') ?d =
      Inr (\<lparr>at_Transition = \<lparr>xt_Trip = v, xt_Operation = y\<rparr>, at_Duplicate = False\<rparr>, activating_web)"
  proof -
    have day: "activationDay 0 (\<lambda>_. (0, 0, 0)) = (0, 86400000000)"
      by (simp add: activationDay_def civil_of_def date_in_def Let_def)
    have trip: "find_trip ?t execution_core = Some created_trip"
      by (simp add: find_trip_def query_row_def execution_core_def saved_samples)
    have op: "pending_operation (sample_id CHR ''6'') ?t ?a (sample_id CHR ''4'') OpActivate 1 (Some (sample_id CHR ''5'')) 0 0 = sample_operation"
      by (simp add: sample_operation_def)
    have upd: "update_trips (\<lambda>t. t_id t = ?t \<and> t_execution_state t = ExecInactive) (activating_row (sample_id CHR ''5'') (sample_id CHR ''6'') 1 0)
        (saved_web\<lparr>core := execution_core, http_idempotency_records := [resolution_record, place_record, creation_record, bind_row ?t sample_reservation], trip_execution_operations := [sample_operation]\<rparr>) =
        Some ?d4"
      by (subst sample_update_trips) (simp_all add: execution_core_def saved_samples)
    have none: "\<not> sql_exists (\<lambda>t. t_owner_user_id t = ?a \<and> executing t \<and> t_id t \<noteq> ?t) (trips (core ?d))"
      by (simp add: sql_exists_def saved_samples)
    have user: "lockActivationUser ?a ?d = Inr ()" by (simp add: lockActivationUser_def saved_samples)
    have zone: "zones sample_web z = Some (\<lambda>_. (0, 0, 0))" for z by (simp add: sample_web_def)
    have seq: "t_next_mutation_sequence created_trip = 1" by simp
    have rq: "ar_UserID sample_activation = ?a" "ar_TripID sample_activation = ?t" "ar_ExpectedRevision sample_activation = 1"
      by (simp_all add: sample_activation_def)
    have now: "trunc_millis 0 = 0" by (simp add: trunc_millis_def)
    show ?thesis
      unfolding Activate_body_def rq user lock bindr_simps if_not_P [OF none] lockedActivationTrip.simps sample_loads zone option.case Let_def now day
        prod.case
      by (simp add: sample_segments [simplified] sample_write_execution trip seq MaxInt64_def sample_update_http sample_reservation_check op sample_insert_operation upd fin)
  qed
  have "reserveTripMutation (sample_entropy 4) (\<lambda>_. 0) ?a (sample_uuid CHR ''c'') ''POST'' sample_path ''activate_trip'' (replicate 32 0) saved_web =
      Inr (sample_id CHR ''4'', None, ?d)"
    using res by (simp add: reserveTripMutation_def sample_reservation_def)
  then show ?thesis
    using body by (simp add: Activate_def sample_activation_def validateActivateSavedTrip_def MaxInt64_def coordinate_ok_def http_mutation_def run_tx_def
        sample_path_def hex_digit_def)
qed

lemma life_activating_web: "life_ok activating_web"
  using Activate_life [OF _ life_saved_web] sample_activates by (metis prod.collapse)

definition sample_deactivation :: DeactivateSavedTripRequest where
  "sample_deactivation = \<lparr>de_UserID = sample_uuid CHR ''a'', de_TripID = sample_id CHR ''1'', de_IdempotencyKey = sample_uuid CHR ''d'',
     de_ExpectedRevision = 1, de_RequestDigest = replicate 32 0\<rparr>"

theorem deactivate_activating_fails_witness:
  "\<exists>x. Deactivate sample_ext sample_web (sample_entropy 4) (\<lambda>_. 0) sample_deactivation activating_web = (Inl x, activating_web)"
proof (rule deactivate_activating_fails [OF life_activating_web])
  show "find_trip (de_TripID sample_deactivation) (core activating_web) = Some sample_activating_trip"
    by (simp add: sample_deactivation_def activating_web_def find_trip_def query_row_def sample_activating_trip_def activating_row_def created_trip_def saved_trip_row_def sample_creation_def btrim_def)
  show "t_execution_state sample_activating_trip = ExecActivating" by (simp add: sample_activating_trip_def activating_row_def)
  show "find_http (de_UserID sample_deactivation) ''POST'' (trips_path (de_TripID sample_deactivation) @ ''/deactivate'')
      (de_IdempotencyKey sample_deactivation) activating_web = None"
    by (simp add: find_http_def query_row_def sample_deactivation_def activating_web_def sample_reservation_def new_http_row_def bind_row_def answer_row_def
        creation_record_def creation_reservation_def)
qed

end
