(* ===== verification/LR_Lifecycle.thy ===== *)
theory LR_Lifecycle
  imports LR_Execution LR_Places LR_Mirror LR_Proposals LR_Edit_Theorems
begin

text \<open>
  The state all stores share, over time. Every store operation on the canonical tables changes the trips in
  one of four ways (\<open>trip_change\<close>): not at all, by finalizing a recorded mutation, by allocating the next
  mutation sequence number to a new command, or by a new inactive trip. With the operations on saved trips
  and their execution they are the steps of the system, and the reachable states satisfy the invariants of
  the tables, of the lifecycle and of the mutation sequence.
\<close>

section \<open>Mutation sequence numbers\<close>

definition intent_numbers :: "db \<Rightarrow> (uuid \<times> i64) list" where
  "intent_numbers c = map (\<lambda>i. (i_trip_id i, i_mutation_sequence i)) (command_intents c)"

text \<open>
  A command has a number that its trip has allocated, and a trip has not finalized more than it has
  allocated.
\<close>

definition allocated :: "trip_row list \<Rightarrow> uuid \<times> i64 \<Rightarrow> bool" where
  "allocated ts k \<longleftrightarrow> (\<exists>t\<in>set ts. t_id t = fst k \<and> snd k < t_next_mutation_sequence t)"

definition sequences_ok :: "db \<Rightarrow> bool" where
  "sequences_ok c \<longleftrightarrow> (\<forall>t\<in>set (trips c). t_finalized_mutation_sequence t < t_next_mutation_sequence t) \<and>
     (\<forall>k\<in>set (intent_numbers c). allocated (trips c) k)"

text \<open>What the operations on the canonical tables do to the trips and the numbers of the commands.\<close>

inductive trip_change :: "db \<Rightarrow> db \<Rightarrow> bool" where
  kept: "trips c' = trips c \<Longrightarrow> intent_numbers c' = intent_numbers c \<Longrightarrow> trip_change c c'"
| finalized: "trips c' = sql_update (\<lambda>t. t_id t = tid) f (trips c) \<Longrightarrow> intent_numbers c' = intent_numbers c \<Longrightarrow>
    (tid, k) \<in> set (intent_numbers c) \<Longrightarrow>
    (\<And>t. trip_life (f t) = trip_life t \<and> t_next_mutation_sequence (f t) = t_next_mutation_sequence t \<and>
       t_finalized_mutation_sequence (f t) = k) \<Longrightarrow> trip_change c c'"
| numbered: "t \<in> set (trips c) \<Longrightarrow> trips c' = sql_update (\<lambda>s. t_id s = t_id t) f (trips c) \<Longrightarrow>
    intent_numbers c' = intent_numbers c @ [(t_id t, t_next_mutation_sequence t)] \<Longrightarrow>
    (\<And>s. trip_life (f s) = trip_life s) \<Longrightarrow> t_next_mutation_sequence (f t) = t_next_mutation_sequence t + 1 \<Longrightarrow>
    t_finalized_mutation_sequence (f t) \<in> {t_finalized_mutation_sequence t, t_next_mutation_sequence t} \<Longrightarrow> trip_change c c'"
| created: "t_id t \<notin> set (map t_id (trips c)) \<Longrightarrow> trips c' = trips c @ [t] \<Longrightarrow> t_execution_state t = ExecInactive \<Longrightarrow>
    intent_numbers c' = intent_numbers c @ [(t_id t, k)] \<Longrightarrow> k < t_next_mutation_sequence t \<Longrightarrow>
    t_finalized_mutation_sequence t < t_next_mutation_sequence t \<Longrightarrow> trip_change c c'"

lemma trip_change_refl [simp]: "trip_change c c" by (rule kept) simp_all

text \<open>An update of one trip by its identifier.\<close>

lemma update_one:
  assumes "distinct (map t_id ts)" "t \<in> set ts" "x \<in> set (sql_update (\<lambda>s. t_id s = t_id t) f ts)"
  shows "x = f t \<or> x \<in> set ts \<and> t_id x \<noteq> t_id t"
  using assms(3) by (cases rule: sql_updateE) (use assms(1,2) distinct_key_unique [of t_id ts] in auto)

lemma allocated_update:
  assumes "allocated ts k" "\<And>t. t \<in> set ts \<Longrightarrow> P t \<Longrightarrow>
     t_id (f t) = t_id t \<and> t_next_mutation_sequence t \<le> t_next_mutation_sequence (f t)"
  shows "allocated (sql_update P f ts) k"
proof -
  from assms(1) obtain t where t: "t \<in> set ts" "t_id t = fst k" "snd k < t_next_mutation_sequence t"
    unfolding allocated_def by blast
  then have "(if P t then f t else t) \<in> set (sql_update P f ts)" unfolding set_sql_update by blast
  then show ?thesis
    unfolding allocated_def by (rule rev_bexI) (use t assms(2) [OF t(1)] in auto)
qed

lemma trip_life_id: "trip_life t = trip_life s \<Longrightarrow> t_id t = t_id s"
  by (simp add: trip_life_def)

lemma sequences_change:
  assumes "trip_change c c'" "schema_ok c" "sequences_ok c"
  shows "sequences_ok c'"
  using assms(1)
proof cases
  case kept
  with assms(3) show ?thesis by (simp add: sequences_ok_def)
next
  case (finalized tid f k)
  have life: "t_id (f t) = t_id t" for t using finalized(4) [of t] trip_life_id by blast
  have k: "allocated (trips c) (tid, k)" using finalized(3) assms(3) by (simp add: sequences_ok_def)
  have uniq: "distinct (map t_id (trips c))" using assms(2) by (simp add: schema_ok_def trips_ok_def)
  have "t_finalized_mutation_sequence x < t_next_mutation_sequence x" if "x \<in> set (trips c')" for x
    using that unfolding finalized(1)
  proof (cases rule: sql_updateE)
    case (updated t)
    from k obtain s where "s \<in> set (trips c)" "t_id s = tid" "k < t_next_mutation_sequence s" unfolding allocated_def by auto
    with updated distinct_key_unique [OF uniq] have "k < t_next_mutation_sequence t" by metis
    with updated finalized(4) show ?thesis by simp
  qed (use assms(3) in \<open>simp add: sequences_ok_def\<close>)
  moreover have "allocated (trips c') n" if "n \<in> set (intent_numbers c')" for n
    unfolding finalized(1) by (rule allocated_update) (use that finalized life assms(3) in \<open>auto simp: sequences_ok_def\<close>)
  ultimately show ?thesis by (simp add: sequences_ok_def)
next
  case (numbered t f)
  have life: "t_id (f s) = t_id s" for s using numbered(4) trip_life_id by blast
  have uniq: "distinct (map t_id (trips c))" using assms(2) by (simp add: schema_ok_def trips_ok_def)
  have same: "s = t" if "s \<in> set (trips c)" "t_id s = t_id t" for s
    using that numbered(1) distinct_key_unique [OF uniq] by blast
  have "t_finalized_mutation_sequence t < t_next_mutation_sequence t" using assms(3) numbered(1) by (simp add: sequences_ok_def)
  then have "t_finalized_mutation_sequence x < t_next_mutation_sequence x" if "x \<in> set (trips c')" for x
    using update_one [OF uniq numbered(1), of x f] that numbered(2,5,6) assms(3) by (auto simp: sequences_ok_def)
  moreover have "allocated (trips c') n" if "n \<in> set (intent_numbers c)" for n
    unfolding numbered(2)
  proof (rule allocated_update)
    show "allocated (trips c) n" using that assms(3) by (simp add: sequences_ok_def)
    show "t_id (f s) = t_id s \<and> t_next_mutation_sequence s \<le> t_next_mutation_sequence (f s)"
      if "s \<in> set (trips c)" "t_id s = t_id t" for s
      using same [OF that] numbered(5) life by simp
  qed
  moreover have "allocated (trips c') (t_id t, t_next_mutation_sequence t)"
  proof -
    have "f t \<in> set (trips c')" unfolding numbered(2) set_sql_update using numbered(1) by force
    then show ?thesis unfolding allocated_def by (rule rev_bexI) (simp add: numbered(5) life)
  qed
  ultimately show ?thesis by (simp add: sequences_ok_def numbered(3))
next
  case (created t k)
  with assms(3) show ?thesis by (auto simp: sequences_ok_def allocated_def)
qed

section \<open>The lifecycle under a change of the canonical tables\<close>

lemma one_executing_life: "map trip_life ts' = map trip_life ts \<Longrightarrow> one_executing ts' = one_executing ts"
proof -
  have "map t_owner_user_id (filter executing us) =
      map (\<lambda>(i, ow, st, x). ow) (filter (\<lambda>(i, ow, st, x). st \<noteq> ExecInactive) (map trip_life us))" for us
  proof (induction us)
    case (Cons u us)
    then show ?case by (cases "t_execution_state u") (simp_all add: trip_life_def executing_def)
  qed simp
  then show "map trip_life ts' = map trip_life ts \<Longrightarrow> one_executing ts' = one_executing ts" by (simp add: one_executing_def)
qed

lemma same_life_core:
  assumes "map trip_life (trips c) = map trip_life (trips (core d))" "schema_ok c"
  shows "same_life d (d\<lparr>core := c\<rparr>)"
  using assms one_executing_life [OF assms(1)] by (simp add: same_life_def web_ok_def)

lemma life_change:
  assumes "trip_change (core d) c" "schema_ok c" "life_ok d"
  shows "life_ok (d\<lparr>core := c\<rparr>)"
  using assms(1)
proof cases
  case kept
  then show ?thesis using life_same [OF same_life_core [OF _ assms(2)] assms(3)] by simp
next
  case (finalized tid f k)
  then have "map trip_life (trips c) = map trip_life (trips (core d))" by (simp add: sql_update_key_map)
  then show ?thesis by (rule life_same [OF same_life_core [OF _ assms(2)] assms(3)])
next
  case (numbered t f)
  then have "map trip_life (trips c) = map trip_life (trips (core d))" by (simp add: sql_update_key_map)
  then show ?thesis by (rule life_same [OF same_life_core [OF _ assms(2)] assms(3)])
next
  case (created t k)
  have "adds_inactive d (d\<lparr>core := c\<rparr>)"
    unfolding adds_inactive_def using created assms(2) one_executing_snoc [of "trips (core d)" t]
    by (auto simp: web_ok_def)
  from lifecycle_adds_inactive [OF this] this assms(3) show ?thesis by (simp add: life_ok_def adds_inactive_def)
qed

text \<open>
  The contract of a store operation on the canonical tables, as far as the trips are concerned, and what
  follows for the whole state.
\<close>

locale trip_store_op = store_op +
  assumes trips_change: "schema_ok c \<Longrightarrow> sequences_ok c \<Longrightarrow> trip_change c (snd (run clk rq c))"
begin

lemma invariant_kept:
  assumes "life_ok d" "sequences_ok (core d)"
  shows "life_ok (d\<lparr>core := snd (run clk rq (core d))\<rparr>)" "sequences_ok (snd (run clk rq (core d)))"
proof -
  have ok: "schema_ok (core d)" using assms(1) by (simp add: life_ok_def web_ok_def)
  note change = trips_change [OF ok assms(2), of clk rq]
  show "life_ok (d\<lparr>core := snd (run clk rq (core d))\<rparr>)" by (rule life_change [OF change schema_kept [OF ok] assms(1)])
  show "sequences_ok (snd (run clk rq (core d)))" by (rule sequences_change [OF change ok assms(2)])
qed

end

section \<open>The stores\<close>

lemma intent_numbers_update [simp]:
  assumes "\<And>i. i_trip_id (f i) = i_trip_id i \<and> i_mutation_sequence (f i) = i_mutation_sequence i"
  shows "map (\<lambda>i. (i_trip_id i, i_mutation_sequence i)) (sql_update P f t) = map (\<lambda>i. (i_trip_id i, i_mutation_sequence i)) t"
  using assms by (induction t) (simp_all add: sql_update_def)

text \<open>An operation that writes neither trips nor commands.\<close>

lemma trip_change_frame: "trips c' = trips c \<Longrightarrow> command_intents c' = command_intents c \<Longrightarrow> trip_change c c'"
  by (rule kept) (simp_all add: intent_numbers_def)

lemma frame_updates [simp]:
  "trips (update_outbox P f c) = trips c" "command_intents (update_outbox P f c) = command_intents c"
  "trips (update_proposals Q g c) = trips c" "command_intents (update_proposals Q g c) = command_intents c"
  "trips (update_intent iid h c) = trips c"
  by (simp_all add: update_outbox_def update_proposals_def update_intent_def)

lemma leases_frame:
  "trips (snd (Acquire clk ra c)) = trips c \<and> command_intents (snd (Acquire clk ra c)) = command_intents c"
  "trips (snd (Renew clk rn c)) = trips c \<and> command_intents (snd (Renew clk rn c)) = command_intents c"
  "trips (snd (Release clk rl c)) = trips c \<and> command_intents (snd (Release clk rl c)) = command_intents c"
  by (auto simp: Acquire_def Acquire_tx_def Acquire_insert_def Acquire_takeover_def stale_old_epoch_def insert_lease_def
      Renew_def Renew_tx_def Release_def Release_tx_def run_tx_def bindr_eq_Inr Let_def
      split: prod.splits sum.splits option.splits if_splits)

interpretation acquire_trips: trip_store_op Acquire
  by unfold_locales (rule trip_change_frame; simp add: leases_frame)

interpretation renew_trips: trip_store_op Renew
  by unfold_locales (rule trip_change_frame; simp add: leases_frame)

interpretation release_trips: trip_store_op Release
  by unfold_locales (rule trip_change_frame; simp add: leases_frame)

lemma outbox_frame:
  "trips (snd (ClaimDue e clk rc c)) = trips c \<and> command_intents (snd (ClaimDue e clk rc c)) = command_intents c"
  "trips (snd (ReleaseForRetry clk rr c)) = trips c \<and> command_intents (snd (ReleaseForRetry clk rr c)) = command_intents c"
  "trips (snd (PauseInternal clk rp c)) = trips c \<and> command_intents (snd (PauseInternal clk rp c)) = command_intents c"
  by (auto simp: ClaimDue_def ReleaseForRetry_def PauseInternal_def Let_def split: prod.splits if_splits)

interpretation claim_trips: trip_store_op "ClaimDue e" for e
  by unfold_locales (rule trip_change_frame; simp add: outbox_frame)

interpretation retry_trips: trip_store_op ReleaseForRetry
  by unfold_locales (rule trip_change_frame; simp add: outbox_frame)

interpretation pause_trips: trip_store_op PauseInternal
  by unfold_locales (rule trip_change_frame; simp add: outbox_frame)

text \<open>An operation whose failures change nothing is judged by its successes.\<close>

lemma trip_change_run:
  assumes "\<And>r c'. run c = (Inr r, c') \<Longrightarrow> trip_change c c'" "\<And>x c'. run c = (Inl x, c') \<Longrightarrow> c' = c"
  shows "trip_change c (snd (run c :: 'a result \<times> db))"
proof (cases "run c")
  case (Pair r c')
  show ?thesis
  proof (cases r)
    case (Inl x)
    with Pair assms(2) [of x c'] show ?thesis by simp
  next
    case (Inr y)
    with Pair assms(1) [of y c'] show ?thesis by simp
  qed
qed

lemma record_change:
  assumes "RecordRuntimeFirst e clk rq c = (Inr r, c')"
  shows "trip_change c c'"
  using RecordRuntimeFirst_success(2) [OF assms]
proof (cases rule: RecordRuntimeFirst_tx_cases)
  case (fresh t)
  from fresh(8) obtain payload i b where
    c': "c' = c\<lparr>trips := sql_update (\<lambda>t. t_id t = rr_TripID rq) (allocate_sequence (clk 0)) (trips c),
        command_intents := command_intents c @ [i], planner_outbox := planner_outbox c @ [b]\<rparr>"
    and i: "i = runtime_intent_row rq (t_next_mutation_sequence t) payload (clk 1)"
    by (rule RecordRuntimeFirst_insert_success)
  from query_row_SomeD [OF fresh(1)] have t: "t \<in> set (trips c)" "t_id t = rr_TripID rq" by simp_all
  show ?thesis
    by (rule numbered [OF t(1), where f = "allocate_sequence (clk 0)"])
      (simp_all add: c' t(2) intent_numbers_def i runtime_intent_row_def allocate_sequence_def trip_life_def)
qed simp

interpretation record_trips: trip_store_op "RecordRuntimeFirst e" for e
  by unfold_locales (rule trip_change_run; blast intro: record_change dest: record_runtime.error_keeps)

text \<open>The finalizations set the sequence number of a recorded command as finalized.\<close>

lemma finalized_rows:
  assumes "finalization_rows tid iid oid c = Inr (t, i, b)"
    "trips c' = sql_update (\<lambda>t. t_id t = tid) f (trips c)" "intent_numbers c' = intent_numbers c"
    "\<And>t. trip_life (f t) = trip_life t \<and> t_next_mutation_sequence (f t) = t_next_mutation_sequence t \<and>
       t_finalized_mutation_sequence (f t) = i_mutation_sequence i"
  shows "trip_change c c'"
  using finalization_rows_SomeD(4,6) [OF assms(1)]
  by (intro finalized [OF assms(2,3) _ assms(4)]) (force simp: intent_numbers_def)

lemma intent_numbers_resolved [simp]:
  "intent_numbers (update_outbox P f c) = intent_numbers c" "intent_numbers (update_proposals Q g c) = intent_numbers c"
  "intent_numbers (update_intent iid (resolve_intent st s p rv v now) c) = intent_numbers c"
  by (simp_all add: intent_numbers_def update_intent_def)

lemma trip_life_advance [simp]:
  "trip_life (advance_trip rv k now t) = trip_life t" "t_next_mutation_sequence (advance_trip rv k now t) = t_next_mutation_sequence t"
  "t_finalized_mutation_sequence (advance_trip rv k now t) = k"
  by (simp_all add: advance_trip_def trip_life_def)

lemma terminal_change:
  assumes "FinalizeTerminal e clk rq c = (Inr r, c')"
  shows "trip_change c c'"
  using FinalizeTerminal_success(2) [OF assms]
proof (cases rule: FinalizeTerminal_tx_cases)
  case (pending t i b payload)
  show ?thesis
    by (rule finalized_rows [OF pending(1), where f = "\<lambda>t. t\<lparr>t_finalized_mutation_sequence := i_mutation_sequence i, t_updated_at := clk 0\<rparr>"])
      (simp_all add: pending(9) intent_numbers_def trip_life_def)
qed simp

interpretation terminal_trips: trip_store_op "FinalizeTerminal e" for e
  by unfold_locales (rule trip_change_run; blast intro: terminal_change dest: terminal.error_keeps)

lemma activity_frame_trips: "activity_frame c c1 \<Longrightarrow> trips c1 = trips c \<and> command_intents c1 = command_intents c"
  by (cases c; cases c1) simp

lemma accepted_change:
  assumes "FinalizeAcceptedMutation e clk rq c = (Inr r, c')"
  shows "trip_change c c'"
proof -
  from assms obtain kind where "FinalizeAcceptedMutation_tx e clk rq kind c = Inr (r, c')"
    by (rule FinalizeAcceptedMutation_success)
  then show ?thesis
  proof (cases rule: FinalizeAcceptedMutation_tx_cases)
    case (pending t i b payload c1)
    from activity_frame_trips [OF applyAcceptedMutation_frame [OF pending(6)]] show ?thesis
      by (intro finalized_rows [OF pending(1), where f = "advance_trip (int64 (add_u64 (fa_ExpectedTripRevision rq) 1)) (i_mutation_sequence i) (clk 0)"])
        (simp_all add: pending(10) accepted_db_def intent_numbers_def)
  qed simp
qed

interpretation accepted_trips: trip_store_op "FinalizeAcceptedMutation e" for e
  by unfold_locales (rule trip_change_run; blast intro: accepted_change dest: accepted.error_keeps)

interpretation confirm_trips: trip_store_op ConfirmFinalizedMutations
proof unfold_locales
  fix c clk rq
  show "trip_change c (snd (ConfirmFinalizedMutations clk rq c))"
    by (rule trip_change_run)
      (auto simp: confirm_db_def intro!: trip_change_frame elim!: ConfirmFinalizedMutations_success dest: confirm.error_keeps)
qed
lemma proposal_change:
  assumes "Persist e clk rq c = (Inr r, c')"
  shows "trip_change c c'"
  using Persist_success(2) [OF assms]
proof (cases rule: Persist_tx_cases)
  case (fresh t pid l)
  then show ?thesis
    by (intro trip_change_frame) (auto simp: insert_proposal_def supersede_pending_def split: if_splits)
qed simp

interpretation persist_trips: trip_store_op "Persist e" for e
  by unfold_locales (rule trip_change_run; blast intro: proposal_change dest: persist.error_keeps)

lemma decided_proposals_frame [simp]:
  "trips (decided_proposals stale rq i p now c) = trips c" "intent_numbers (decided_proposals stale rq i p now c) = intent_numbers c"
  by (simp_all add: decided_proposals_def)

lemma intent_numbers_trip: "update_trip tid f c = Some c' \<Longrightarrow> intent_numbers c' = intent_numbers c"
  by (auto simp: update_trip_def intent_numbers_def split: if_splits)

lemma decision_change:
  assumes "finalizeProposalDecision e stale clk rq c = (Inr r, c')"
  shows "trip_change c c'"
  using finalizeProposalDecision_success(2) [OF assms]
proof (cases rule: finalizeProposalDecision_tx_cases)
  case (pending t pid i b p)
  from pending(7) obtain c2 payload where
    u: "update_trip (fd_TripID rq) (advance_trip (int64 (decision_revision stale rq)) (i_mutation_sequence i) (clk 0))
       (decided_proposals stale rq i p (clk 0) c) = Some c2"
    and c': "c' = update_outbox (\<lambda>b. o_id b = fd_OutboxID rq)
       (resolve_outbox (decision_outbox_state stale) (decision_status stale) (clk 0))
       (update_intent (fd_IntentID rq) (resolve_intent (decision_intent_state stale) (decision_status stale)
          payload (int64 (decision_revision stale rq)) (fd_ResultingPlannerStateVersion rq) (clk 0)) c2)"
    by (rule decision_apply_statements)
  show ?thesis
    by (rule finalized_rows [OF decision_rows_InrD(1) [OF pending(1)],
          where f = "advance_trip (int64 (decision_revision stale rq)) (i_mutation_sequence i) (clk 0)"])
      (use update_trip_SomeD [OF u] intent_numbers_trip [OF u] in \<open>simp_all add: c'\<close>)
qed simp

lemma decisions_change:
  "FinalizeProposalRejection e clk rq c = (Inr r, c') \<Longrightarrow> trip_change c c'"
  "FinalizeStaleProposalDecision e clk rq c = (Inr r, c') \<Longrightarrow> trip_change c c'"
  by (auto simp: FinalizeProposalRejection_def FinalizeStaleProposalDecision_def split: if_splits intro: decision_change)

interpretation rejection_trips: trip_store_op "FinalizeProposalRejection e" for e
  by unfold_locales (rule trip_change_run; blast intro: decisions_change dest: rejection.error_keeps)

interpretation stale_decision_trips: trip_store_op "FinalizeStaleProposalDecision e" for e
  by unfold_locales (rule trip_change_run; blast intro: decisions_change dest: stale_decision.error_keeps)

lemma acceptance_change:
  assumes "FinalizeProposalAcceptance e clk rq c = (Inr r, c')"
  shows "trip_change c c'"
  using FinalizeProposalAcceptance_success(3) [OF assms]
proof (cases rule: FinalizeProposalAcceptance_tx_cases)
  case (pending t pid i b p plan)
  let ?f = "publish_plan (planned_id i) (int64 (add_u64 (fd_ExpectedTripRevision rq) 1)) (i_mutation_sequence i) (clk 0)"
  from pending(13) obtain q c1 c3 payload where p: "insert_plan q c = Some c1"
    and u: "update_trip (fd_TripID rq) ?f
       (update_proposals (\<lambda>r. r_id r = pi_ProposalID (fd_Identity rq)) (accept_proposal_row (i_message_id i) (planned_id i) (clk 0)) c1) = Some c3"
    and c': "c' = update_outbox (\<lambda>b. o_id b = fd_OutboxID rq) (resolve_outbox DeliveryAccepted ''OK'' (clk 0))
       (update_intent (fd_IntentID rq) (resolve_intent IntentApplied ''OK'' payload
         (int64 (add_u64 (fd_ExpectedTripRevision rq) 1)) (fd_ResultingPlannerStateVersion rq) (clk 0)) c3)"
    by (rule acceptance_apply_statements)
  have "trips c1 = trips c" "intent_numbers c1 = intent_numbers c"
    using p by (auto simp: insert_plan_def intent_numbers_def split: if_splits)
  then show ?thesis
    by (intro finalized_rows [OF decision_rows_InrD(1) [OF pending(1)], where f = ?f])
      (use update_trip_SomeD [OF u] intent_numbers_trip [OF u] in \<open>simp_all add: c' publish_plan_def trip_life_def\<close>)
qed simp

interpretation acceptance_trips: trip_store_op "FinalizeProposalAcceptance e" for e
  by unfold_locales (rule trip_change_run; blast intro: acceptance_change dest: acceptance.error_keeps)

interpretation mirror_trips: trip_store_op FinalizeCanonicalMirror
proof unfold_locales
  fix c clk rq
  show "trip_change c (snd (FinalizeCanonicalMirror clk rq c))"
    by (cases rule: FinalizeCanonicalMirror_cases [of clk rq c])
      (auto intro!: kept simp: pauseCanonicalMirror_def accept_mirror_def intent_numbers_def)
qed

interpretation bootstrap_trips: trip_store_op ResolveCanonicalBootstrap
proof unfold_locales
  fix c clk rq
  have "trip_change c c'" if "ResolveCanonicalBootstrap clk rq c = (Inr r, c')" for r c'
    using that
  proof (rule ResolveCanonicalBootstrap_success)
    fix now
    assume c': "c' = fold (converge_step (rb_TripID rq) now) (covered_mirrors rq c) c"
    have "trips (fold (converge_step (rb_TripID rq) now) xs d) = trips d \<and>
        intent_numbers (fold (converge_step (rb_TripID rq) now) xs d) = intent_numbers d" for xs d
    proof (induction xs arbitrary: d)
      case (Cons m xs)
      then show ?case by (cases m) (simp add: converge_step_def intent_numbers_def converge_intent_def)
    qed simp
    then show "trip_change c c'" unfolding c' by (intro kept) simp_all
  qed
  then show "trip_change c (snd (ResolveCanonicalBootstrap clk rq c))"
    by (rule trip_change_run) (auto dest: bootstrap.error_keeps)
qed

context canonical_edit begin

lemma run_change:
  assumes "run e clk rq c = (Inr r, c')" "schema_ok c"
  shows "trip_change c c'"
  using assms(1)
proof (cases rule: run_cases)
  case (fresh t pid c1 payloads)
  have nd: "\<not> rc_Duplicate r" by (rule publish_edit_db [OF fresh(15)])
  let ?f = "publish_edit_row (ce_PlanID rq) (uint64 (t_trip_revision t + 1)) (uint64 (t_next_mutation_sequence t)) (clk 2)"
  obtain c2 payload event i b where frame: "edit_frame (supersede_pending (ce_TripID rq) (clk 1) c) c2"
    and c': "c' = published_db e clk rq t payload i b c2"
    and n: "int64 (uint64 (t_next_mutation_sequence t)) = t_next_mutation_sequence t"
      "int64 (add_u64 (uint64 (t_next_mutation_sequence t)) 1) = t_next_mutation_sequence t + 1"
    and i: "i_mutation_sequence i = t_next_mutation_sequence t" "i_trip_id i = ce_TripID rq"
    by (rule run_advances [OF assms nd fresh(2)])
  from find_trip_SomeD [OF fresh(2)] have t: "t \<in> set (trips c)" "t_id t = ce_TripID rq" by simp_all
  have tables: "trips c2 = trips c" "command_intents c2 = command_intents c"
    using frame by (simp_all add: edit_frame_def supersede_pending_def)
  show ?thesis
    by (rule numbered [OF t(1), where f = ?f])
      (simp_all add: c' published_db_def t(2) tables intent_numbers_def i publish_edit_row_def trip_life_def n n(2) [simplified])
qed simp

end

lemmas edits_change = replace_plan.run_change reorder.run_change remove.run_change replace_activity.run_change add.run_change

interpretation edit_trips: trip_store_op "run_edit e" for e
proof unfold_locales
  fix c clk rq
  assume ok: "schema_ok c"
  have "trip_change c c'" if "run_edit e clk rq c = (Inr r, c')" for r c'
    using that edits_change [OF _ ok] by (cases rq) simp_all
  then show "trip_change c (snd (run_edit e clk rq c))" by (rule trip_change_run) (auto dest: edit.error_keeps)
qed

text \<open>Creating a canonical trip.\<close>

lemma delay_frame: "insert_delay y c = Some c' \<Longrightarrow> edit_frame c c'"
  by (auto simp: insert_delay_def edit_frame_def split: if_splits)

lemma CreateTrip_insert_parts:
  assumes "CreateTrip_insert e clk rq c = Inr (r, c')"
  obtains c1 c3 p c4 i where "insert_trip (new_trip_row rq (clk 1) (clk 2)) c = Some c1" "edit_frame c1 c3" "schema_ok c1 \<Longrightarrow> schema_ok c3"
    "insert_plan p c3 = Some c4" "insert_intent i c4 = Some c'" "i_trip_id i = ct_TripID rq" "i_mutation_sequence i = 1"
proof -
  from assms obtain c1 c2 c3 p c4 i where c1: "insert_trip (new_trip_row rq (clk 1) (clk 2)) c = Some c1"
    and c2: "for_each (\<lambda>a. insert_activity_draft ''create-trip'' (ct_TripID rq) (int (ca_Ordinal a)) a) (ct_Activities rq) c1 = Inr c2"
    and c3: "for_each (\<lambda>y d. exec_sql ''insert create-trip delay'' (insert_delay (delay_row_of (ct_TripID rq) y) d)) (ct_TravelDelays rq) c2 = Inr c3"
    and c4: "insert_plan p c3 = Some c4" "insert_intent i c4 = Some c'" "i_trip_id i = ct_TripID rq" "i_mutation_sequence i = 1"
    unfolding CreateTrip_insert_def Let_def by (auto simp: deref_eq_Inr bindr_eq_Inr)
  have "edit_frame c1 c2 \<and> (schema_ok c1 \<longrightarrow> schema_ok c2)"
    by (rule for_each_invariant [OF c2, where P = "\<lambda>d. edit_frame c1 d \<and> (schema_ok c1 \<longrightarrow> schema_ok d)"])
      (simp, auto dest: insert_activity_draft_frame(1,3) intro: edit_frame_trans)
  moreover have "edit_frame c2 c3 \<and> (schema_ok c2 \<longrightarrow> schema_ok c3)"
    by (rule for_each_invariant [OF c3, where P = "\<lambda>d. edit_frame c2 d \<and> (schema_ok c2 \<longrightarrow> schema_ok d)"])
      (simp, auto dest: delay_frame schema_insert_delay intro: edit_frame_trans)
  ultimately show thesis using that [OF c1 _ _ c4] edit_frame_trans by blast
qed

lemma CreateTrip_cases:
  assumes "CreateTrip e clk rq c = (Inr r, c')"
  obtains (existing) "c' = c" | (fresh) "CreateTrip_insert e clk rq c = Inr (r, c')"
  using assms by (auto simp: CreateTrip_def CreateTrip_tx_def CreateTrip_existing_def run_tx_Inr split: sum.splits option.splits if_splits)

lemma CreateTrip_change:
  assumes "CreateTrip e clk rq c = (Inr r, c')"
  shows "trip_change c c'"
  using assms
proof (cases rule: CreateTrip_cases)
  case fresh
  then show ?thesis
  proof (cases rule: CreateTrip_insert_parts)
    case (1 c1 c3 p c4 i)
    let ?t = "new_trip_row rq (clk 1) (clk 2)"
    from 1(1) have c1: "c1 = c\<lparr>trips := trips c @ [?t]\<rparr>" "fresh_in t_id ?t (trips c)"
      by (auto simp: insert_trip_def split: if_splits)
    have "trips c' = trips c @ [?t]" "command_intents c' = command_intents c @ [i]"
      using c1 1(2,4,5) by (auto simp: edit_frame_def insert_plan_def insert_intent_def split: if_splits)
    then show ?thesis
      using c1(2) 1(6,7) by (intro created [of ?t]) (auto simp: fresh_in_iff new_trip_row_def intent_numbers_def)
  qed
qed simp

interpretation create: atomic_store_op "CreateTrip e" for e
proof unfold_locales
  fix c clk rq
  assume ok: "schema_ok c"
  have "schema_ok c'" if "CreateTrip e clk rq c = (Inr r, c')" for r c'
    using that
  proof (cases rule: CreateTrip_cases)
    case fresh
    then show ?thesis
      by (cases rule: CreateTrip_insert_parts) (use ok schema_inserts in blast)
  qed (use ok in simp)
  then show "schema_ok (snd (CreateTrip e clk rq c))"
    using ok by (cases "CreateTrip e clk rq c"; cases "fst (CreateTrip e clk rq c)")
      (auto simp: CreateTrip_def run_tx_def split: sum.splits)
qed (auto simp: CreateTrip_def run_tx_def split: sum.splits)

interpretation create_trips: trip_store_op "CreateTrip e" for e
  by unfold_locales (rule trip_change_run; blast intro: CreateTrip_change dest: create.error_keeps)

section \<open>The numbering under the operations on saved trips\<close>

lemma sequences_numbers:
  assumes "map trip_numbers (trips c') = map trip_numbers (trips c)" "intent_numbers c' = intent_numbers c"
  shows "sequences_ok c' = sequences_ok c"
proof -
  have img: "trip_numbers ` set (trips c') = trip_numbers ` set (trips c)" using assms(1) by (metis list.set_map)
  have eq: "(\<forall>t\<in>set ts. t_finalized_mutation_sequence t < t_next_mutation_sequence t) \<longleftrightarrow> (\<forall>(i, n, f)\<in>trip_numbers ` set ts. f < n)"
    "allocated ts k \<longleftrightarrow> (\<exists>(i, n, f)\<in>trip_numbers ` set ts. i = fst k \<and> snd k < n)" for ts k
    by (auto simp: trip_numbers_def allocated_def)
  show ?thesis unfolding sequences_ok_def assms(2) eq img ..
qed

lemma sequences_update_trips:
  assumes "update_trips P f d = Some d'" "\<And>t. trip_numbers (f t) = trip_numbers t"
  shows "sequences_ok (core d') = sequences_ok (core d)"
  by (rule sequences_numbers) (use update_trips_SomeD [OF assms(1)] assms(2) in \<open>simp_all add: sql_update_key_map intent_numbers_def\<close>)

lemma sequences_keeps: "keeps d d' \<Longrightarrow> sequences_ok (core d') = sequences_ok (core d)"
  by (simp add: keeps_def)

lemma sequences_reselects:
  assumes "reselects e w userID tripID expected status rid d x d'"
  shows "sequences_ok (core d') = sequences_ok (core d)"
proof -
  from assms obtain d3 f d4 v label now where k: "keeps_http d d3" and num: "\<And>t. trip_numbers (f t) = trip_numbers t"
    and upd: "update_trips (\<lambda>t. t_id t = tripID) f d3 = Some d4"
    and comp: "complete_mutation e w label rid tripID status v now d4 = Inr d'"
    unfolding reselects_def by blast
  show ?thesis
    using sequences_keeps [OF keeps_httpD [OF k]] sequences_update_trips [OF upd num] sequences_keeps [OF keeps_complete_mutation [OF comp]] by simp
qed

lemma http_mutation_sequences:
  assumes "http_mutation rnd clk userID key method path operation digest answer body d = Inr (x, d')"
    "\<And>rid d1 x d'. body rid d1 = Inr (x, d') \<Longrightarrow> life_ok d1 \<Longrightarrow> sequences_ok (core d1) \<Longrightarrow> sequences_ok (core d')"
    "life_ok d" "sequences_ok (core d)"
  shows "sequences_ok (core d')"
  using assms(1)
proof (cases rule: http_mutation_cases)
  case (fresh rid d1)
  note k = keeps_insert_http [OF fresh(2)]
  show ?thesis
    by (rule assms(2) [OF fresh(3) life_same [OF keeps_same_life [OF k] assms(3)]]) (use sequences_keeps [OF k] assms(4) in simp)
qed (use assms(4) in simp)

lemma run_tx_sequences:
  "run_tx body d = (r, d') \<Longrightarrow> (\<And>x. body d = Inr (x, d') \<Longrightarrow> sequences_ok (core d')) \<Longrightarrow> sequences_ok (core d) \<Longrightarrow> sequences_ok (core d')"
  by (auto simp: run_tx_def split: sum.splits)

lemma Update_sequences: "Update e w rnd clk rq d = (r, d') \<Longrightarrow> life_ok d \<Longrightarrow> sequences_ok (core d) \<Longrightarrow> sequences_ok (core d')"
  unfolding Update_def
  by (auto split: sum.splits elim!: run_tx_sequences http_mutation_sequences dest!: Update_reselects sequences_reselects)

lemma mutateActivity_sequences:
  "mutateActivity e w rnd clk rq kind d = (r, d') \<Longrightarrow> life_ok d \<Longrightarrow> sequences_ok (core d) \<Longrightarrow> sequences_ok (core d')"
  unfolding mutateActivity_def
  by (auto split: if_splits prod.splits elim!: run_tx_sequences http_mutation_sequences dest!: mutateActivity_reselects sequences_reselects)

lemma sequences_new_trip:
  assumes "sequences_ok c" "trips c' = trips c @ [t]" "command_intents c' = command_intents c"
    "t_finalized_mutation_sequence t < t_next_mutation_sequence t"
  shows "sequences_ok c'"
  using assms by (auto simp: sequences_ok_def allocated_def intent_numbers_def)

lemma Create_tx_sequences:
  assumes "Create_tx e w rnd clk rq d = Inr (x, d')" "sequences_ok (core d)"
  shows "sequences_ok (core d')"
  using assms(1)
proof (cases rule: Create_parts)
  case (fresh rid d1 tripID pid d2 d3 d4 v)
  have d1: "core d1 = core d" using keeps_insert_http [OF fresh(2)] by (simp add: keeps_def)
  have "keeps_http d2 d4"
    by (rule keeps_http_trans [OF keeps_add_saved_plan [OF fresh(6)] keeps_for_each [OF fresh(7) keeps_create_saved_activity_step]])
  then have "core d' = core d2" using keeps_complete_mutation [OF fresh(9)] by (simp add: keeps_def keeps_http_def)
  moreover have "sequences_ok (core d2)"
    using on_core_SomeD [OF fresh(5)] d1 assms(2)
    by (auto simp: insert_trip_def saved_trip_row_def split: if_splits intro: sequences_new_trip)
  ultimately show ?thesis by simp
qed (use assms(2) in simp)

lemma Create_sequences: "Create e w rnd clk rq d = (r, d') \<Longrightarrow> sequences_ok (core d) \<Longrightarrow> sequences_ok (core d')"
  unfolding Create_def by (auto split: sum.splits elim!: run_tx_sequences intro: Create_tx_sequences)

lemma sequences_delete_trip: "sequences_ok c \<Longrightarrow> sequences_ok (delete_trip_core tid c)"
  by (fastforce simp: sequences_ok_def allocated_def intent_numbers_def delete_trip_core_def set_sql_delete)

lemma Delete_sequences: "Delete rnd clk rq d = (r, d') \<Longrightarrow> life_ok d \<Longrightarrow> sequences_ok (core d) \<Longrightarrow> sequences_ok (core d')"
  unfolding Delete_def
  by (auto split: if_splits elim!: run_tx_sequences http_mutation_sequences Delete_body_parts simp: sequences_keeps sequences_delete_trip keeps_def)

lemma completes_sequences:
  assumes "completes tripID oid st kind f d d'" "\<And>t. trip_numbers (f t) = trip_numbers t"
  shows "sequences_ok (core d') = sequences_ok (core d)"
proof -
  from assms(1) obtain d1 d2 d3 Q u v where d1: "trips (core d1) = trips (core d)" "command_intents (core d1) = command_intents (core d)"
    and d2: "update_trips (\<lambda>t. t_id t = tripID \<and> t_execution_state t = st) f d1 = Some d2"
    and d3: "update_operation Q (succeed_operation u v) d2 = Some d3" and k: "keeps d3 d'"
    unfolding completes_def by (elim exE conjE)
  have "sequences_ok (core d1) = sequences_ok (core d)" by (rule sequences_numbers) (simp_all add: d1 intent_numbers_def)
  then show ?thesis
    using sequences_update_trips [OF d2 assms(2)] update_operation_SomeD [OF d3] sequences_keeps [OF k] by simp
qed

lemma CompleteActivation_sequences: "CompleteActivation e w clk rq d = (r, d') \<Longrightarrow> sequences_ok (core d) \<Longrightarrow> sequences_ok (core d')"
  unfolding CompleteActivation_def
  by (auto split: if_splits elim!: run_tx_sequences dest!: CompleteActivation_completes completes_sequences simp: trip_numbers_def)

lemma CompleteDeactivation_sequences: "CompleteDeactivation e w clk rq d = (r, d') \<Longrightarrow> sequences_ok (core d) \<Longrightarrow> sequences_ok (core d')"
  unfolding CompleteDeactivation_def
  by (auto split: if_splits elim!: run_tx_sequences dest!: CompleteDeactivation_completes completes_sequences simp: trip_numbers_def)

lemma finish_transition_sequences:
  "finish_transition e w label userID tripID rid now d = Inr (x, d') \<Longrightarrow> sequences_ok (core d') = sequences_ok (core d)"
  by (auto elim!: finish_transition_parts dest: sequences_keeps)

lemma Deactivate_body_sequences:
  assumes "Deactivate_body e w rnd clk rq rid d = Inr (x, d')"
  shows "sequences_ok (core d') = sequences_ok (core d)"
  using assms
proof (cases rule: Deactivate_parts)
  case (1 t oid d1 d2 d3)
  let ?s = "d2\<lparr>core := stale_pending_proposals (de_TripID rq) (clk 4) (core d2)\<rparr>"
  have "core d2 = core d" using insert_operation_SomeD [OF 1(7)] 1(6) by (simp add: keeps_def)
  then have "sequences_ok (core ?s) = sequences_ok (core d)" by (intro sequences_numbers) (simp_all add: intent_numbers_def)
  moreover have "sequences_ok (core d3) = sequences_ok (core ?s)"
    by (rule sequences_update_trips [OF 1(8)]) (simp add: trip_numbers_def)
  ultimately show ?thesis using finish_transition_sequences [OF 1(9)] by simp
qed

lemma Deactivate_sequences: "Deactivate e w rnd clk rq d = (r, d') \<Longrightarrow> life_ok d \<Longrightarrow> sequences_ok (core d) \<Longrightarrow> sequences_ok (core d')"
  unfolding Deactivate_def
  by (auto split: if_splits elim!: run_tx_sequences http_mutation_sequences dest!: Deactivate_body_sequences)

text \<open>An activation allocates a number and finalizes it at once.\<close>

lemma Activate_body_sequences:
  assumes "Activate_body e w rnd clk rq rid d = Inr (x, d')" "life_ok d" "sequences_ok (core d)"
  shows "sequences_ok (core d')"
  using assms(1)
proof (cases rule: Activate_parts)
  case (1 current activities loc drafts pid oid d1 t d2 d3 d4)
  let ?f = "activating_row pid oid (t_next_mutation_sequence t) (trunc_millis (clk 2))"
  let ?P = "\<lambda>t. t_id t = ar_TripID rq \<and> t_execution_state t = ExecInactive"
  have d3: "trips (core d3) = trips (core d)" "command_intents (core d3) = command_intents (core d)"
    using keeps_trips_write_execution [OF 1(9)] keeps_bind [OF 1(13)] insert_operation_SomeD [OF 1(14)]
    by (simp_all add: keeps_trips_def keeps_def)
  have t: "t \<in> set (trips (core d))" "t_id t = ar_TripID rq"
    using find_trip_SomeD [OF 1(10)] keeps_trips_write_execution [OF 1(9)] by (simp_all add: keeps_trips_def)
  have d4: "trips (core d4) = sql_update ?P ?f (trips (core d))" "intent_numbers (core d4) = intent_numbers (core d)"
    using update_trips_SomeD [OF 1(15)] d3 by (simp_all add: intent_numbers_def)
  have same: "s = t" if "s \<in> set (trips (core d))" "?P s" for s
    using that t trips_unique [of d s t] assms(2) by (simp add: life_ok_def)
  have "sequences_ok (core d4)"
    unfolding sequences_ok_def d4(2)
  proof (intro conjI ballI)
    fix s assume "s \<in> set (trips (core d4))"
    then show "t_finalized_mutation_sequence s < t_next_mutation_sequence s"
      unfolding d4(1) by (cases rule: sql_updateE) (use assms(3) in \<open>auto simp: activating_row_def sequences_ok_def\<close>)
  next
    fix k assume "k \<in> set (intent_numbers (core d))"
    with assms(3) have "allocated (trips (core d)) k" by (simp add: sequences_ok_def)
    then show "allocated (trips (core d4)) k"
      unfolding d4(1) by (rule allocated_update) (use same in \<open>fastforce simp: activating_row_def\<close>)
  qed
  then show ?thesis using finish_transition_sequences [OF 1(16)] by simp
qed

lemma Activate_sequences: "Activate e w rnd clk rq d = (r, d') \<Longrightarrow> life_ok d \<Longrightarrow> sequences_ok (core d) \<Longrightarrow> sequences_ok (core d')"
  unfolding Activate_def
  by (auto split: sum.splits elim!: run_tx_sequences http_mutation_sequences intro: Activate_body_sequences)

section \<open>The reachable states\<close>

text \<open>The calls of the stores on the canonical tables.\<close>

datatype store_call =
    CallAcquire "uuid \<times> uuid \<times> duration"
  | CallRenew "uuid \<times> uuid \<times> u64 \<times> duration"
  | CallRelease "uuid \<times> uuid \<times> u64"
  | CallRecord RecordRuntimeCommandRequest
  | CallClaim "uuid \<times> int \<times> duration \<times> uuid list"
  | CallRetry "ClaimedOutboxRow \<times> uuid \<times> string \<times> duration"
  | CallPause "ClaimedOutboxRow \<times> uuid \<times> string"
  | CallTerminal FinalizeTerminalCommandRequest
  | CallAccepted FinalizeAcceptedMutationRequest
  | CallConfirm ConfirmFinalizedMutationsRequest
  | CallPersist PersistProposalRequest
  | CallReject FinalizeProposalDecisionRequest
  | CallStale FinalizeProposalDecisionRequest
  | CallAccept FinalizeProposalDecisionRequest
  | CallMirror FinalizeCanonicalMirrorRequest
  | CallBootstrap ResolveCanonicalBootstrapRequest
  | CallEdit trip_edit
  | CallCreate CreateTripRequest

fun run_store :: "ext \<Rightarrow> clock \<Rightarrow> store_call \<Rightarrow> db \<Rightarrow> db" where
  "run_store e clk (CallAcquire rq) c = snd (Acquire clk rq c)"
| "run_store e clk (CallRenew rq) c = snd (Renew clk rq c)"
| "run_store e clk (CallRelease rq) c = snd (Release clk rq c)"
| "run_store e clk (CallRecord rq) c = snd (RecordRuntimeFirst e clk rq c)"
| "run_store e clk (CallClaim rq) c = snd (ClaimDue e clk rq c)"
| "run_store e clk (CallRetry rq) c = snd (ReleaseForRetry clk rq c)"
| "run_store e clk (CallPause rq) c = snd (PauseInternal clk rq c)"
| "run_store e clk (CallTerminal rq) c = snd (FinalizeTerminal e clk rq c)"
| "run_store e clk (CallAccepted rq) c = snd (FinalizeAcceptedMutation e clk rq c)"
| "run_store e clk (CallConfirm rq) c = snd (ConfirmFinalizedMutations clk rq c)"
| "run_store e clk (CallPersist rq) c = snd (Persist e clk rq c)"
| "run_store e clk (CallReject rq) c = snd (FinalizeProposalRejection e clk rq c)"
| "run_store e clk (CallStale rq) c = snd (FinalizeStaleProposalDecision e clk rq c)"
| "run_store e clk (CallAccept rq) c = snd (FinalizeProposalAcceptance e clk rq c)"
| "run_store e clk (CallMirror rq) c = snd (FinalizeCanonicalMirror clk rq c)"
| "run_store e clk (CallBootstrap rq) c = snd (ResolveCanonicalBootstrap clk rq c)"
| "run_store e clk (CallEdit rq) c = snd (run_edit e clk rq c)"
| "run_store e clk (CallCreate rq) c = snd (CreateTrip e clk rq c)"

lemmas store_invariants = acquire_trips.invariant_kept renew_trips.invariant_kept release_trips.invariant_kept
  record_trips.invariant_kept claim_trips.invariant_kept retry_trips.invariant_kept pause_trips.invariant_kept
  terminal_trips.invariant_kept accepted_trips.invariant_kept confirm_trips.invariant_kept persist_trips.invariant_kept
  rejection_trips.invariant_kept stale_decision_trips.invariant_kept acceptance_trips.invariant_kept
  mirror_trips.invariant_kept bootstrap_trips.invariant_kept edit_trips.invariant_kept create_trips.invariant_kept

lemma run_store_invariant:
  assumes "life_ok d" "sequences_ok (core d)"
  shows "life_ok (d\<lparr>core := run_store e clk q (core d)\<rparr>) \<and> sequences_ok (run_store e clk q (core d))"
  using store_invariants [OF assms] by (cases q) simp_all

lemma place_frame_invariant:
  assumes "place_frame d d'" "life_ok d" "sequences_ok (core d)"
  shows "life_ok d' \<and> sequences_ok (core d')"
  using assms life_same [of d d'] by (simp add: place_frame_def same_life_def life_ok_def)

lemmas place_steps_invariant = place_frame_invariant [OF reserveResolution_frame] place_frame_invariant [OF mark_attempt_frame]
  place_frame_invariant [OF finalizeResolutionSuccess_frame] place_frame_invariant [OF finalizeResolutionFailure_frame]
  place_frame_invariant [OF CreatePlace_frame]

text \<open>
  A step of the system is a call of one of the stores, by any process and with any request, clock and random
  bytes; the resolution of a place is several steps. The transactions lock the rows of the trip, so that the
  steps are atomic.
\<close>

inductive system_step :: "ext \<Rightarrow> web \<Rightarrow> place_ext \<Rightarrow> web_db \<Rightarrow> web_db \<Rightarrow> bool" for e w px where
  store: "system_step e w px d (d\<lparr>core := run_store e clk q (core d)\<rparr>)"
| reserve: "reserveResolution px keys clk rp rid aid kid dg d = (y, d') \<Longrightarrow> system_step e w px d d'"
| mark: "mark_attempt clk aid uid d = (m, d') \<Longrightarrow> system_step e w px d d'"
| resolved: "finalizeResolutionSuccess e px clk rid aid tok c d = (z, d') \<Longrightarrow> system_step e w px d d'"
| failed: "finalizeResolutionFailure e px clk rid aid qid x d = (z, d') \<Longrightarrow> system_step e w px d d'"
| place: "CreatePlace e px rnd clk cp d = (z, d') \<Longrightarrow> system_step e w px d d'"
| create: "Create e w rnd clk rc d = (r, d') \<Longrightarrow> system_step e w px d d'"
| update: "Update e w rnd clk ru d = (r, d') \<Longrightarrow> system_step e w px d d'"
| delete: "Delete rnd clk rd d = (b, d') \<Longrightarrow> system_step e w px d d'"
| mutate: "mutateActivity e w rnd clk rm kind d = (r, d') \<Longrightarrow> system_step e w px d d'"
| activate: "Activate e w rnd clk ra d = (t, d') \<Longrightarrow> system_step e w px d d'"
| deactivate: "Deactivate e w rnd clk rx d = (t, d') \<Longrightarrow> system_step e w px d d'"
| activated: "CompleteActivation e w clk ro d = (v, d') \<Longrightarrow> system_step e w px d d'"
| deactivated: "CompleteDeactivation e w clk ro d = (v, d') \<Longrightarrow> system_step e w px d d'"

inductive reachable :: "ext \<Rightarrow> web \<Rightarrow> place_ext \<Rightarrow> web_db \<Rightarrow> bool" for e w px where
  initial: "reachable e w px (empty_web us)"
| step: "reachable e w px d \<Longrightarrow> system_step e w px d d' \<Longrightarrow> reachable e w px d'"

lemma step_invariant:
  assumes "system_step e w px d d'" "life_ok d" "sequences_ok (core d)"
  shows "life_ok d' \<and> sequences_ok (core d')"
  using assms(1)
proof (cases rule: system_step.cases)
  case store
  with run_store_invariant [OF assms(2,3)] show ?thesis by simp
next
  case reserve
  then show ?thesis by (rule place_steps_invariant(1) [OF _ assms(2,3)])
next
  case mark
  then show ?thesis by (rule place_steps_invariant(2) [OF _ assms(2,3)])
next
  case resolved
  then show ?thesis by (rule place_steps_invariant(3) [OF _ assms(2,3)])
next
  case failed
  then show ?thesis by (rule place_steps_invariant(4) [OF _ assms(2,3)])
next
  case place
  then show ?thesis by (rule place_steps_invariant(5) [OF _ assms(2,3)])
next
  case create
  then show ?thesis by (intro conjI Create_life [OF _ assms(2)] Create_sequences [OF _ assms(3)])
next
  case update
  then show ?thesis by (intro conjI Update_life [OF _ assms(2)] Update_sequences [OF _ assms(2,3)])
next
  case delete
  then show ?thesis by (intro conjI Delete_life [OF _ assms(2)] Delete_sequences [OF _ assms(2,3)])
next
  case mutate
  then show ?thesis by (intro conjI mutateActivity_life [OF _ assms(2)] mutateActivity_sequences [OF _ assms(2,3)])
next
  case activate
  then show ?thesis by (intro conjI Activate_life [OF _ assms(2)] Activate_sequences [OF _ assms(2,3)])
next
  case deactivate
  then show ?thesis by (intro conjI Deactivate_life [OF _ assms(2)] Deactivate_sequences [OF _ assms(2,3)])
next
  case activated
  then show ?thesis by (intro conjI CompleteActivation_life [OF _ assms(2)] CompleteActivation_sequences [OF _ assms(3)])
next
  case deactivated
  then show ?thesis by (intro conjI CompleteDeactivation_life [OF _ assms(2)] CompleteDeactivation_sequences [OF _ assms(3)])
qed

lemma empty_invariant: "life_ok (empty_web us)" "sequences_ok (core (empty_web us))"
  using web_empty [of us]
  by (simp_all add: life_ok_def lifecycle_ok_def empty_web_def empty_db_def sequences_ok_def intent_numbers_def)

lemma reachable_invariant: "reachable e w px d \<Longrightarrow> life_ok d \<and> sequences_ok (core d)"
  by (induction rule: reachable.induct) (use empty_invariant step_invariant in auto)

text \<open>The resolution of a place, with its provider, is a sequence of steps.\<close>

lemma Resolve_place_steps:
  assumes "Resolve_place e px keys prov rnd clk rq d = (r, d')" "reachable e w px d"
  shows "reachable e w px d'"
proof -
  have res: "reserveResolution px keys clk rq rid aid kid dg d1 = (y, d2) \<Longrightarrow> reachable e w px d1 \<Longrightarrow> reachable e w px d2" for rid aid kid dg d1 y d2
    by (rule step, assumption) (erule reserve)
  have mrk: "mark_attempt clk aid uid d1 = (m, d2) \<Longrightarrow> reachable e w px d1 \<Longrightarrow> reachable e w px d2" for clk aid uid m d1 d2
    by (rule step, assumption) (erule mark)
  have ask: "ask_provider prov clk aid rq d1 = (m, a, d2) \<Longrightarrow> reachable e w px d1 \<Longrightarrow> reachable e w px d2" for clk aid m a d1 d2
    by (auto simp: ask_provider_def split: provider_run.splits prod.splits dest: mrk)
  have fin: "finalizeResolutionSuccess e px clk rid aid tok c d1 = (z, d2) \<Longrightarrow> reachable e w px d1 \<Longrightarrow> reachable e w px d2"
    "finalizeResolutionFailure e px clk rid aid qid x d1 = (z, d2) \<Longrightarrow> reachable e w px d1 \<Longrightarrow> reachable e w px d2"
    for clk rid aid tok c qid x d1 z d2
    by (rule step, assumption, erule resolved) (rule step, assumption, erule failed)
  show ?thesis
    using assms unfolding Resolve_place_def Let_def
    by (auto split: if_splits option.splits sum.splits prod.splits dest: res ask fin)
qed

section \<open>What the reachable states satisfy\<close>

lemma one_executing_unique:
  "one_executing ts \<Longrightarrow> t \<in> set ts \<Longrightarrow> s \<in> set ts \<Longrightarrow> executing t \<Longrightarrow> executing s \<Longrightarrow> t_owner_user_id t = t_owner_user_id s \<Longrightarrow> t = s"
  unfolding one_executing_def by (rule distinct_key_unique [of t_owner_user_id "filter executing ts"]) auto

lemma pending_operation_iff:
  assumes "life_ok d" "t \<in> set (trips (core d))" "x \<in> set (trip_execution_operations d)" "x_trip_id x = t_id t"
  shows "x_state x = OpPending \<longleftrightarrow> transition_kind (t_execution_state t) = Some (x_kind x) \<and> t_transition_operation_id t = Some (x_id x)"
proof -
  let ?xs = "trip_execution_operations d"
  have ids: "distinct (map x_id ?xs)" and pend: "distinct (map x_trip_id (filter (\<lambda>x. x_state x = OpPending) ?xs))"
    and linked: "trip_linked ?xs t"
    using assms(1,2) by (simp_all add: life_ok_def web_ok_def operations_ok_def lifecycle_ok_def)
  show ?thesis
  proof (cases "transition_kind (t_execution_state t)")
    case None
    with linked assms(3,4) show ?thesis by (simp add: trip_linked_def)
  next
    case (Some kind)
    with linked obtain y where y: "y \<in> set ?xs" "t_transition_operation_id t = Some (x_id y)" "x_trip_id y = t_id t" "x_kind y = kind"
      "x_state y = OpPending" by (auto simp: trip_linked_def)
    have "x_state x = OpPending \<Longrightarrow> x = y"
      by (rule distinct_key_unique [OF pend]) (use assms(3,4) y in auto)
    moreover have "x_id x = x_id y \<Longrightarrow> x = y" by (rule distinct_key_unique [OF ids assms(3) y(1)])
    ultimately show ?thesis using y(2,4,5) Some by (metis option.inject)
  qed
qed

text \<open>
  C34. Whatever the stores are asked to do, in whatever order and with whatever interleaving of the transactions of a
  place resolution, starting from empty tables: an owner has at most one executing trip; an operation on a trip is pending
  exactly when the trip is in the transition of that kind and names the operation, and a trip in transition has one;
  a trip has finalized fewer mutations than it has allocated, and every command has a number its trip has allocated and
  no other command of the trip has; a place comes from a consumed resolution of its owner, and no resolution gives two places.
\<close>

theorem reachable_consistent:
  assumes "reachable e w px d"
  shows "(\<forall>t\<in>set (trips (core d)). \<forall>s\<in>set (trips (core d)).
       executing t \<and> executing s \<and> t_owner_user_id t = t_owner_user_id s \<longrightarrow> t = s) \<and>
     (\<forall>t\<in>set (trips (core d)). \<forall>x\<in>set (trip_execution_operations d). x_trip_id x = t_id t \<longrightarrow>
       (x_state x = OpPending \<longleftrightarrow> transition_kind (t_execution_state t) = Some (x_kind x) \<and> t_transition_operation_id t = Some (x_id x))) \<and>
     (\<forall>t\<in>set (trips (core d)). transition_kind (t_execution_state t) \<noteq> None \<longrightarrow>
       (\<exists>x\<in>set (trip_execution_operations d). x_trip_id x = t_id t \<and> x_state x = OpPending)) \<and>
     (\<forall>t\<in>set (trips (core d)). t_finalized_mutation_sequence t < t_next_mutation_sequence t) \<and>
     (\<forall>i\<in>set (command_intents (core d)). \<exists>t\<in>set (trips (core d)). t_id t = i_trip_id i \<and> i_mutation_sequence i < t_next_mutation_sequence t) \<and>
     distinct (map (\<lambda>i. (i_trip_id i, i_mutation_sequence i)) (command_intents (core d))) \<and>
     (\<forall>p\<in>set (places d). \<exists>q\<in>set (place_resolution_attempts d). q_id q = pl_source_resolution_id p \<and> q_user_id q = pl_owner_user_id p \<and>
       q_state q = AttemptConsumed) \<and> distinct (map pl_source_resolution_id (places d))"
proof -
  from reachable_invariant [OF assms] have life: "life_ok d" and seq: "sequences_ok (core d)" by simp_all
  from life have ok: "web_ok d" and linked: "\<forall>t\<in>set (trips (core d)). trip_linked (trip_execution_operations d) t"
    by (simp_all add: life_ok_def lifecycle_ok_def)
  have "\<exists>x\<in>set (trip_execution_operations d). x_trip_id x = t_id t \<and> x_state x = OpPending"
    if "t \<in> set (trips (core d))" "transition_kind (t_execution_state t) \<noteq> None" for t
    using linked that by (fastforce simp: trip_linked_def)
  moreover have "one_executing (trips (core d))" using ok by (simp add: web_ok_def)
  moreover have "\<forall>i\<in>set (command_intents (core d)). \<exists>t\<in>set (trips (core d)). t_id t = i_trip_id i \<and> i_mutation_sequence i < t_next_mutation_sequence t"
    "\<forall>t\<in>set (trips (core d)). t_finalized_mutation_sequence t < t_next_mutation_sequence t"
    using seq by (simp_all add: sequences_ok_def intent_numbers_def allocated_def)
  moreover have "distinct (map (\<lambda>i. (i_trip_id i, i_mutation_sequence i)) (command_intents (core d)))"
    using ok by (simp add: web_ok_def schema_ok_def intents_ok_def)
  moreover have "\<forall>p\<in>set (places d). \<exists>q\<in>set (place_resolution_attempts d). q_id q = pl_source_resolution_id p \<and>
      q_user_id q = pl_owner_user_id p \<and> q_state q = AttemptConsumed" "distinct (map pl_source_resolution_id (places d))"
    using ok by (simp_all add: web_ok_def place_sources_ok_def places_ok_def)
  ultimately show ?thesis
    by (intro conjI ballI impI; (elim conjE)?) (simp_all add: one_executing_unique pending_operation_iff [OF life])
qed

text \<open>A state with a place, a saved trip and its activation under way is reachable.\<close>

lemma activating_reachable: "reachable sample_ext sample_web sample_px activating_web"
proof -
  have "reachable sample_ext sample_web sample_px resolved_web" by (rule Resolve_place_steps [OF sample_resolves initial])
  then have "reachable sample_ext sample_web sample_px placed_web" by (rule step) (rule place [OF sample_creates_place])
  then have "reachable sample_ext sample_web sample_px saved_web"
    by (rule step) (metis create sample_creates prod.collapse)
  then show ?thesis by (rule step) (metis activate sample_activates prod.collapse)
qed

theorem reachable_consistent_witness:
  "trips (core activating_web) = [sample_activating_trip] \<and> transition_kind (t_execution_state sample_activating_trip) = Some OpActivate \<and>
     (\<exists>x\<in>set (trip_execution_operations activating_web). x_trip_id x = sample_id CHR ''1'' \<and> x_state x = OpPending) \<and>
     (\<exists>q\<in>set (place_resolution_attempts activating_web). q_id q = pl_source_resolution_id sample_place \<and> q_state q = AttemptConsumed)"
proof -
  have t: "trips (core activating_web) = [sample_activating_trip]" "places activating_web = [sample_place]"
    by (simp_all add: activating_web_def saved_web_def placed_web_def)
  have k: "transition_kind (t_execution_state sample_activating_trip) = Some OpActivate" "t_id sample_activating_trip = sample_id CHR ''1''"
    by (simp_all add: sample_activating_trip_def activating_row_def transition_kind_def created_trip_def saved_trip_row_def)
  show ?thesis using reachable_consistent [OF activating_reachable] unfolding t by (auto simp: k)
qed

end
