(* ===== verification/LR_Queue.thy ===== *)
theory LR_Queue
  imports LR_Lifecycle
begin

text \<open>
  The outbox and the commands it delivers. The database only demands that the command of an outbox row exists; that the
  row also carries the trip and the mutation sequence of its command is up to the stores. Every store operation leaves
  the keys of both tables alone or adds a command, with its outbox row if it has one, so that in every reachable state
  the rows agree. What a bootstrap assumes of the outbox then holds wherever it runs.
\<close>

section \<open>The keys of the two tables\<close>

definition intent_keys :: "db \<Rightarrow> (uuid \<times> uuid \<times> i64) list" where
  "intent_keys c = map (\<lambda>i. (i_id i, i_trip_id i, i_mutation_sequence i)) (command_intents c)"

definition outbox_keys :: "db \<Rightarrow> (uuid \<times> uuid \<times> i64) list" where
  "outbox_keys c = map (\<lambda>b. (o_command_intent_id b, o_trip_id b, o_mutation_sequence b)) (planner_outbox c)"

definition queue_ok :: "db \<Rightarrow> bool" where
  "queue_ok c \<longleftrightarrow> set (outbox_keys c) \<subseteq> set (intent_keys c)"

definition queue_grows :: "db \<Rightarrow> db \<Rightarrow> bool" where
  "queue_grows c c' \<longleftrightarrow> (\<exists>ks ks'. intent_keys c' = intent_keys c @ ks \<and> outbox_keys c' = outbox_keys c @ ks' \<and> set ks' \<subseteq> set ks)"

lemma queue_kept: "intent_keys c' = intent_keys c \<Longrightarrow> outbox_keys c' = outbox_keys c \<Longrightarrow> queue_grows c c'"
  by (simp add: queue_grows_def)

lemma queue_frame: "command_intents c' = command_intents c \<Longrightarrow> planner_outbox c' = planner_outbox c \<Longrightarrow> queue_grows c c'"
  by (rule queue_kept) (simp_all add: intent_keys_def outbox_keys_def)

lemma queue_grows_refl [simp]: "queue_grows c c" by (rule queue_kept) simp_all

lemma queue_added:
  assumes "command_intents c' = command_intents c @ [i]" "planner_outbox c' = planner_outbox c @ [b]"
    "o_command_intent_id b = i_id i" "o_trip_id b = i_trip_id i" "o_mutation_sequence b = i_mutation_sequence i"
  shows "queue_grows c c'"
  using assms by (simp add: queue_grows_def intent_keys_def outbox_keys_def)

lemma queue_grows_ok: "queue_grows c c' \<Longrightarrow> queue_ok c \<Longrightarrow> queue_ok c'"
  by (auto simp: queue_grows_def queue_ok_def)

text \<open>With unique command identifiers the agreement of the keys links every outbox row to one command.\<close>

lemma queue_linked:
  assumes "queue_ok c" "schema_ok c"
  shows "outbox_linked c"
  unfolding outbox_linked_def
proof (intro ballI impI)
  fix b i assume b: "b \<in> set (planner_outbox c)" and i: "i \<in> set (command_intents c)" "o_command_intent_id b = i_id i"
  from b assms(1) obtain j where j: "j \<in> set (command_intents c)" "i_id j = o_command_intent_id b" "i_trip_id j = o_trip_id b"
    by (force simp: queue_ok_def outbox_keys_def intent_keys_def)
  have "distinct (map i_id (command_intents c))" using assms(2) by (simp add: schema_ok_def intents_ok_def)
  from distinct_key_unique [OF this j(1) i(1)] j i(2) show "o_trip_id b = i_trip_id i" by simp
qed

lemma keys_update [simp]:
  "(\<And>b. o_command_intent_id (f b) = o_command_intent_id b \<and> o_trip_id (f b) = o_trip_id b \<and> o_mutation_sequence (f b) = o_mutation_sequence b) \<Longrightarrow>
     map (\<lambda>b. (o_command_intent_id b, o_trip_id b, o_mutation_sequence b)) (sql_update P f t) =
     map (\<lambda>b. (o_command_intent_id b, o_trip_id b, o_mutation_sequence b)) t"
  "(\<And>i. i_id (g i) = i_id i \<and> i_trip_id (g i) = i_trip_id i \<and> i_mutation_sequence (g i) = i_mutation_sequence i) \<Longrightarrow>
     map (\<lambda>i. (i_id i, i_trip_id i, i_mutation_sequence i)) (sql_update Q g u) =
     map (\<lambda>i. (i_id i, i_trip_id i, i_mutation_sequence i)) u"
  by (simp_all add: sql_update_key_map)

lemma keys_updates [simp]:
  "intent_keys (update_outbox P f c) = intent_keys c" "intent_keys (update_proposals Q g c) = intent_keys c"
  "outbox_keys (update_proposals Q g c) = outbox_keys c" "outbox_keys (update_intent iid h c) = outbox_keys c"
  "intent_keys (update_intent iid (resolve_intent st s p rv v now) c) = intent_keys c"
  "outbox_keys (update_outbox P (resolve_outbox bst s now) c) = outbox_keys c"
  by (simp_all add: intent_keys_def outbox_keys_def update_outbox_def update_proposals_def update_intent_def)

lemma keys_trip: "update_trip tid f c = Some c' \<Longrightarrow> intent_keys c' = intent_keys c \<and> outbox_keys c' = outbox_keys c"
  by (auto simp: update_trip_def intent_keys_def outbox_keys_def split: if_splits)

text \<open>An operation whose failures change nothing is judged by its successes.\<close>

lemma queue_run:
  assumes "\<And>r c'. run c = (Inr r, c') \<Longrightarrow> queue_grows c c'" "\<And>x c'. run c = (Inl x, c') \<Longrightarrow> c' = c"
  shows "queue_grows c (snd (run c :: 'a result \<times> db))"
proof (cases "run c")
  case (Pair r c')
  with assms show ?thesis by (cases r) auto
qed

locale queue_store_op = store_op +
  assumes keys_grow: "schema_ok c \<Longrightarrow> queue_grows c (snd (run clk rq c))"
begin

lemma queue_invariant: "schema_ok c \<Longrightarrow> queue_ok c \<Longrightarrow> queue_ok (snd (run clk rq c))"
  by (rule queue_grows_ok [OF keys_grow])

end

section \<open>The stores\<close>

lemma leases_queue:
  "queue_grows c (snd (Acquire clk ra c))" "queue_grows c (snd (Renew clk rn c))" "queue_grows c (snd (Release clk rl c))"
proof -
  have "planner_outbox (snd (Acquire clk ra c)) = planner_outbox c" "planner_outbox (snd (Renew clk rn c)) = planner_outbox c"
    "planner_outbox (snd (Release clk rl c)) = planner_outbox c"
    by (auto simp: Acquire_def Acquire_tx_def Acquire_insert_def Acquire_takeover_def stale_old_epoch_def insert_lease_def
        update_proposals_def Renew_def Renew_tx_def Release_def Release_tx_def run_tx_def bindr_eq_Inr Let_def
        split: prod.splits sum.splits option.splits if_splits)
  then show "queue_grows c (snd (Acquire clk ra c))" "queue_grows c (snd (Renew clk rn c))" "queue_grows c (snd (Release clk rl c))"
    by (simp_all add: queue_frame leases_frame)
qed

interpretation acquire_queue: queue_store_op Acquire by unfold_locales (rule leases_queue)

interpretation renew_queue: queue_store_op Renew by unfold_locales (rule leases_queue)

interpretation release_queue: queue_store_op Release by unfold_locales (rule leases_queue)

interpretation record_queue: queue_store_op "RecordRuntimeFirst e" for e
proof unfold_locales
  fix c clk rq
  have "queue_grows c c'" if "RecordRuntimeFirst e clk rq c = (Inr r, c')" for r c'
    using RecordRuntimeFirst_success(2) [OF that]
  proof (cases rule: RecordRuntimeFirst_tx_cases)
    case (fresh t)
    from fresh(8) obtain payload event i b where
      c': "c' = c\<lparr>trips := sql_update (\<lambda>t. t_id t = rr_TripID rq) (allocate_sequence (clk 0)) (trips c),
        command_intents := command_intents c @ [i], planner_outbox := planner_outbox c @ [b]\<rparr>"
      and rows: "i = runtime_intent_row rq (t_next_mutation_sequence t) payload (clk 1)"
        "b = new_outbox_row (rr_OutboxID rq) (rr_IntentID rq) (rr_TripID rq) (t_next_mutation_sequence t) event (clk 2) (clk 3)"
      by (rule RecordRuntimeFirst_insert_success)
    show ?thesis
      by (rule queue_added [of _ _ i b]) (simp_all add: c' rows runtime_intent_row_def new_outbox_row_def)
  qed simp
  then show "queue_grows c (snd (RecordRuntimeFirst e clk rq c))"
    by (rule queue_run) (auto dest: record_runtime.error_keeps)
qed

lemma outbox_queue:
  "queue_grows c (snd (ClaimDue e clk rc c))" "queue_grows c (snd (ReleaseForRetry clk rr c))"
  "queue_grows c (snd (PauseInternal clk rp c))"
  by (rule queue_kept; auto simp: ClaimDue_def ReleaseForRetry_def PauseInternal_def Let_def update_outbox_def intent_keys_def
      outbox_keys_def split: prod.splits if_splits)+

interpretation claim_queue: queue_store_op "ClaimDue e" for e by unfold_locales (rule outbox_queue)

interpretation retry_queue: queue_store_op ReleaseForRetry by unfold_locales (rule outbox_queue)

interpretation pause_queue: queue_store_op PauseInternal by unfold_locales (rule outbox_queue)

interpretation terminal_queue: queue_store_op "FinalizeTerminal e" for e
proof unfold_locales
  fix c clk rq
  have "queue_grows c c'" if "FinalizeTerminal e clk rq c = (Inr r, c')" for r c'
    using FinalizeTerminal_success(2) [OF that]
  proof (cases rule: FinalizeTerminal_tx_cases)
    case (pending t i b payload)
    show ?thesis by (rule queue_kept) (simp_all add: pending(9) intent_keys_def outbox_keys_def)
  qed simp
  then show "queue_grows c (snd (FinalizeTerminal e clk rq c))"
    by (rule queue_run) (auto dest: terminal.error_keeps)
qed

interpretation accepted_queue: queue_store_op "FinalizeAcceptedMutation e" for e
proof unfold_locales
  fix c clk rq
  have "queue_grows c c'" if s: "FinalizeAcceptedMutation e clk rq c = (Inr r, c')" for r c'
  proof -
    from s obtain kind where "FinalizeAcceptedMutation_tx e clk rq kind c = Inr (r, c')"
      by (rule FinalizeAcceptedMutation_success)
    then show ?thesis
    proof (cases rule: FinalizeAcceptedMutation_tx_cases)
      case (pending t i b payload c1)
      have "command_intents c1 = command_intents c" "planner_outbox c1 = planner_outbox c"
        using applyAcceptedMutation_frame [OF pending(6)] by (cases c; cases c1; simp)+
      then show ?thesis
        by (intro queue_kept) (simp_all add: pending(10) accepted_db_def intent_keys_def outbox_keys_def)
    qed simp
  qed
  then show "queue_grows c (snd (FinalizeAcceptedMutation e clk rq c))"
    by (rule queue_run) (auto dest: accepted.error_keeps)
qed

interpretation confirm_queue: queue_store_op ConfirmFinalizedMutations
proof unfold_locales
  fix c clk rq
  have "queue_grows c c'" if "ConfirmFinalizedMutations clk rq c = (Inr r, c')" for r c'
    using that
    by (rule ConfirmFinalizedMutations_success)
      (simp add: confirm_db_def update_outbox_def queue_kept intent_keys_def outbox_keys_def)
  then show "queue_grows c (snd (ConfirmFinalizedMutations clk rq c))"
    by (rule queue_run) (auto dest: confirm.error_keeps)
qed

interpretation persist_queue: queue_store_op "Persist e" for e
proof unfold_locales
  fix c clk rq
  have "queue_grows c c'" if "Persist e clk rq c = (Inr r, c')" for r c'
    using Persist_success(2) [OF that]
  proof (cases rule: Persist_tx_cases)
    case (fresh t pid l)
    then show ?thesis
      by (intro queue_frame) (auto simp: insert_proposal_def supersede_pending_def update_proposals_def split: if_splits)
  qed simp
  then show "queue_grows c (snd (Persist e clk rq c))" by (rule queue_run) (auto dest: persist.error_keeps)
qed

lemma decision_queue:
  assumes "finalizeProposalDecision e stale clk rq c = (Inr r, c')"
  shows "queue_grows c c'"
  using finalizeProposalDecision_success(2) [OF assms]
proof (cases rule: finalizeProposalDecision_tx_cases)
  case (pending t pid i b p)
  from pending(7) obtain c2 payload where
    u: "update_trip (fd_TripID rq) (advance_trip (int64 (decision_revision stale rq)) (i_mutation_sequence i) (clk 0))
       (decided_proposals stale rq i p (clk 0) c) = Some c2"
    and c': "c' = update_outbox (\<lambda>b. o_id b = fd_OutboxID rq)
       (resolve_outbox (decision_outbox_state stale) (decision_status stale) (clk 0))
       (update_intent (fd_IntentID rq) (resolve_intent (decision_intent_state stale) (decision_status stale)
          payload (int64 (decision_revision stale rq)) (fd_ResultingPlannerStateVersion rq) (clk 0)) c2)"
    by (rule decision_apply_statements)
  show ?thesis
    by (rule queue_kept) (use keys_trip [OF u] in \<open>simp_all add: c' decided_proposals_def\<close>)
qed simp

lemma decisions_queue:
  "FinalizeProposalRejection e clk rq c = (Inr r, c') \<Longrightarrow> queue_grows c c'"
  "FinalizeStaleProposalDecision e clk rq c = (Inr r, c') \<Longrightarrow> queue_grows c c'"
  by (auto simp: FinalizeProposalRejection_def FinalizeStaleProposalDecision_def split: if_splits intro: decision_queue)

interpretation rejection_queue: queue_store_op "FinalizeProposalRejection e" for e
  by unfold_locales (rule queue_run; blast intro: decisions_queue dest: rejection.error_keeps)

interpretation stale_decision_queue: queue_store_op "FinalizeStaleProposalDecision e" for e
  by unfold_locales (rule queue_run; blast intro: decisions_queue dest: stale_decision.error_keeps)

lemma accepted_proposal_queue:
  assumes "FinalizeProposalAcceptance e clk rq c = (Inr r, c')"
  shows "queue_grows c c'"
  using FinalizeProposalAcceptance_success(3) [OF assms]
proof (cases rule: FinalizeProposalAcceptance_tx_cases)
  case (pending t pid i b p plan)
  from pending(13) obtain q c1 c3 payload where p: "insert_plan q c = Some c1"
    and u: "update_trip (fd_TripID rq)
       (publish_plan (planned_id i) (int64 (add_u64 (fd_ExpectedTripRevision rq) 1)) (i_mutation_sequence i) (clk 0))
       (update_proposals (\<lambda>r. r_id r = pi_ProposalID (fd_Identity rq)) (accept_proposal_row (i_message_id i) (planned_id i) (clk 0)) c1) = Some c3"
    and c': "c' = update_outbox (\<lambda>b. o_id b = fd_OutboxID rq) (resolve_outbox DeliveryAccepted ''OK'' (clk 0))
       (update_intent (fd_IntentID rq) (resolve_intent IntentApplied ''OK'' payload
         (int64 (add_u64 (fd_ExpectedTripRevision rq) 1)) (fd_ResultingPlannerStateVersion rq) (clk 0)) c3)"
    by (rule acceptance_apply_statements)
  have "intent_keys c1 = intent_keys c" "outbox_keys c1 = outbox_keys c"
    using p by (auto simp: insert_plan_def intent_keys_def outbox_keys_def split: if_splits)
  then show ?thesis by (intro queue_kept) (use keys_trip [OF u] in \<open>simp_all add: c'\<close>)
qed simp

interpretation acceptance_queue: queue_store_op "FinalizeProposalAcceptance e" for e
  by unfold_locales (rule queue_run; blast intro: accepted_proposal_queue dest: acceptance.error_keeps)

interpretation mirror_queue: queue_store_op FinalizeCanonicalMirror
proof unfold_locales
  fix c clk rq
  show "queue_grows c (snd (FinalizeCanonicalMirror clk rq c))"
    by (cases rule: FinalizeCanonicalMirror_cases [of clk rq c])
      (auto intro!: queue_kept simp: pauseCanonicalMirror_def accept_mirror_def intent_keys_def outbox_keys_def)
qed

interpretation bootstrap_queue: queue_store_op ResolveCanonicalBootstrap
proof unfold_locales
  fix c clk rq
  have "queue_grows c c'" if "ResolveCanonicalBootstrap clk rq c = (Inr r, c')" for r c'
    using that
  proof (rule ResolveCanonicalBootstrap_success)
    fix now
    assume c': "c' = fold (converge_step (rb_TripID rq) now) (covered_mirrors rq c) c"
    have "intent_keys (fold (converge_step (rb_TripID rq) now) xs d) = intent_keys d \<and>
        outbox_keys (fold (converge_step (rb_TripID rq) now) xs d) = outbox_keys d" for xs d
    proof (induction xs arbitrary: d)
      case (Cons m xs)
      have "i_mutation_sequence (converge_intent i r) = i_mutation_sequence r" for i r by (simp add: converge_intent_def)
      with Cons show ?case by (cases m) (simp add: converge_step_def intent_keys_def outbox_keys_def)
    qed simp
    then show "queue_grows c c'" unfolding c' by (intro queue_kept) simp_all
  qed
  then show "queue_grows c (snd (ResolveCanonicalBootstrap clk rq c))"
    by (rule queue_run) (auto dest: bootstrap.error_keeps)
qed

context canonical_edit begin

lemma run_queue:
  assumes "run e clk rq c = (Inr r, c')" "schema_ok c"
  shows "queue_grows c c'"
  using assms(1)
proof (cases rule: run_cases)
  case (fresh t pid c1 payloads)
  have nd: "\<not> rc_Duplicate r" by (rule publish_edit_db [OF fresh(15)])
  obtain c2 payload i b where frame: "edit_frame (supersede_pending (ce_TripID rq) (clk 1) c) c2"
    and c': "c' = published_db e clk rq t payload i b c2"
    and b: "o_command_intent_id b = i_id i" "o_trip_id b = i_trip_id i" "o_mutation_sequence b = i_mutation_sequence i"
    by (rule run_advances [OF assms nd fresh(2)])
  have tables: "command_intents c2 = command_intents c" "planner_outbox c2 = planner_outbox c"
    using frame by (simp_all add: edit_frame_def supersede_pending_def update_proposals_def)
  show ?thesis by (rule queue_added [OF _ _ b]) (simp_all add: c' published_db_def tables)
qed simp

end

lemmas edits_queue = replace_plan.run_queue reorder.run_queue remove.run_queue replace_activity.run_queue add.run_queue

interpretation edit_queue: queue_store_op "run_edit e" for e
proof unfold_locales
  fix c clk rq
  assume ok: "schema_ok c"
  have "queue_grows c c'" if "run_edit e clk rq c = (Inr r, c')" for r c'
    using that edits_queue [OF _ ok] by (cases rq) simp_all
  then show "queue_grows c (snd (run_edit e clk rq c))" by (rule queue_run) (auto dest: edit.error_keeps)
qed

lemma CreateTrip_queue:
  assumes "CreateTrip e clk rq c = (Inr r, c')"
  shows "queue_grows c c'"
  using assms
proof (cases rule: CreateTrip_cases)
  case fresh
  then show ?thesis
  proof (cases rule: CreateTrip_insert_parts)
    case (1 c1 c3 p c4 i)
    have "command_intents c' = command_intents c @ [i]" "planner_outbox c' = planner_outbox c"
      using 1(1,2,4,5) by (auto simp: insert_trip_def edit_frame_def insert_plan_def insert_intent_def split: if_splits)
    then show ?thesis by (simp add: queue_grows_def intent_keys_def outbox_keys_def)
  qed
qed simp

interpretation create_queue: queue_store_op "CreateTrip e" for e
  by unfold_locales (rule queue_run; blast intro: CreateTrip_queue dest: create.error_keeps)

lemmas queue_invariants = acquire_queue.queue_invariant renew_queue.queue_invariant release_queue.queue_invariant
  record_queue.queue_invariant claim_queue.queue_invariant retry_queue.queue_invariant pause_queue.queue_invariant
  terminal_queue.queue_invariant accepted_queue.queue_invariant confirm_queue.queue_invariant persist_queue.queue_invariant
  rejection_queue.queue_invariant stale_decision_queue.queue_invariant acceptance_queue.queue_invariant
  mirror_queue.queue_invariant bootstrap_queue.queue_invariant edit_queue.queue_invariant create_queue.queue_invariant

lemma run_store_queue: "schema_ok c \<Longrightarrow> queue_ok c \<Longrightarrow> queue_ok (run_store e clk q c)"
  using queue_invariants [of c] by (cases q) simp_all


section \<open>The operations on saved trips and their execution\<close>

text \<open>They write neither commands nor outbox rows, except that deleting a trip deletes those of the trip.\<close>

lemma queue_tables:
  "command_intents c' = command_intents c \<Longrightarrow> planner_outbox c' = planner_outbox c \<Longrightarrow> queue_ok c' = queue_ok c"
  by (simp add: queue_ok_def intent_keys_def outbox_keys_def)

lemma queue_keeps: "keeps d d' \<Longrightarrow> queue_ok (core d') = queue_ok (core d)"
  by (simp add: keeps_def)

lemma queue_update_trips: "update_trips P f d = Some d' \<Longrightarrow> queue_ok (core d') = queue_ok (core d)"
  by (rule queue_tables) (auto dest!: update_trips_SomeD)

lemma queue_delete_trip: "queue_ok c \<Longrightarrow> queue_ok (delete_trip_core tid c)"
proof -
  have "outbox_keys (delete_trip_core tid c) = filter (\<lambda>k. fst (snd k) \<noteq> tid) (outbox_keys c)"
    "intent_keys (delete_trip_core tid c) = filter (\<lambda>k. fst (snd k) \<noteq> tid) (intent_keys c)"
    by (simp_all add: outbox_keys_def intent_keys_def delete_trip_core_def sql_delete_def filter_map comp_def)
  then show "queue_ok c \<Longrightarrow> queue_ok (delete_trip_core tid c)" by (auto simp: queue_ok_def)
qed

lemma http_mutation_queue:
  assumes "http_mutation rnd clk userID key method path operation digest answer body d = Inr (x, d')"
    "\<And>rid d1 x d'. body rid d1 = Inr (x, d') \<Longrightarrow> queue_ok (core d1) \<Longrightarrow> queue_ok (core d')" "queue_ok (core d)"
  shows "queue_ok (core d')"
  using assms(1)
proof (cases rule: http_mutation_cases)
  case (fresh rid d1)
  from assms(2) [OF fresh(3)] queue_keeps [OF keeps_insert_http [OF fresh(2)]] assms(3) show ?thesis by simp
qed (use assms(3) in simp)

lemma run_tx_queue:
  "run_tx body d = (r, d') \<Longrightarrow> (\<And>x. body d = Inr (x, d') \<Longrightarrow> queue_ok (core d')) \<Longrightarrow> queue_ok (core d) \<Longrightarrow> queue_ok (core d')"
  by (auto simp: run_tx_def split: sum.splits)

lemma queue_reselects:
  assumes "reselects e w userID tripID expected status rid d x d'"
  shows "queue_ok (core d') = queue_ok (core d)"
proof -
  from assms obtain d3 f d4 v label now where k: "keeps_http d d3"
    and upd: "update_trips (\<lambda>t. t_id t = tripID) f d3 = Some d4"
    and comp: "complete_mutation e w label rid tripID status v now d4 = Inr d'"
    unfolding reselects_def by blast
  show ?thesis
    using queue_keeps [OF keeps_httpD [OF k]] queue_update_trips [OF upd] queue_keeps [OF keeps_complete_mutation [OF comp]] by simp
qed

lemma queue_completes:
  assumes "completes tripID oid st kind f d d'"
  shows "queue_ok (core d') = queue_ok (core d)"
proof -
  from assms obtain d1 d2 d3 Q u v where
    d1: "command_intents (core d1) = command_intents (core d)" "planner_outbox (core d1) = planner_outbox (core d)"
    and d2: "update_trips (\<lambda>t. t_id t = tripID \<and> t_execution_state t = st) f d1 = Some d2"
    and d3: "update_operation Q (succeed_operation u v) d2 = Some d3" and k: "keeps d3 d'"
    unfolding completes_def by (elim exE conjE)
  show ?thesis
    using queue_tables [OF d1] queue_update_trips [OF d2] update_operation_SomeD [OF d3] queue_keeps [OF k] by simp
qed

lemma queue_finish: "finish_transition e w label userID tripID rid now d = Inr (x, d') \<Longrightarrow> queue_ok (core d') = queue_ok (core d)"
  by (auto elim!: finish_transition_parts dest: queue_keeps)

lemma Create_tx_queue:
  assumes "Create_tx e w rnd clk rq d = Inr (x, d')" "queue_ok (core d)"
  shows "queue_ok (core d')"
  using assms(1)
proof (cases rule: Create_parts)
  case (fresh rid d1 tripID pid d2 d3 d4 v)
  have d1: "core d1 = core d" using keeps_insert_http [OF fresh(2)] by (simp add: keeps_def)
  have "keeps_http d2 d4"
    by (rule keeps_http_trans [OF keeps_add_saved_plan [OF fresh(6)] keeps_for_each [OF fresh(7) keeps_create_saved_activity_step]])
  then have "core d' = core d2" using keeps_complete_mutation [OF fresh(9)] by (simp add: keeps_def keeps_http_def)
  moreover have "queue_ok (core d2) = queue_ok (core d1)"
    using on_core_SomeD [OF fresh(5)] by (auto simp: insert_trip_def split: if_splits intro!: queue_tables)
  ultimately show ?thesis using d1 assms(2) by simp
qed (use assms(2) in simp)

lemma Activate_body_queue:
  assumes "Activate_body e w rnd clk rq rid d = Inr (x, d')"
  shows "queue_ok (core d') = queue_ok (core d)"
  using assms
proof (cases rule: Activate_parts)
  case (1 current activities loc drafts pid oid d1 t d2 d3 d4)
  have "queue_ok (core d3) = queue_ok (core d)"
    by (rule queue_tables; use keeps_trips_write_execution [OF 1(9)] keeps_bind [OF 1(13)] insert_operation_SomeD [OF 1(14)]
      in \<open>simp add: keeps_trips_def keeps_def\<close>)
  then show ?thesis using queue_update_trips [OF 1(15)] queue_finish [OF 1(16)] by simp
qed

lemma Deactivate_body_queue:
  assumes "Deactivate_body e w rnd clk rq rid d = Inr (x, d')"
  shows "queue_ok (core d') = queue_ok (core d)"
  using assms
proof (cases rule: Deactivate_parts)
  case (1 t oid d1 d2 d3)
  have "core d2 = core d" using insert_operation_SomeD [OF 1(7)] 1(6) by (simp add: keeps_def)
  then have "queue_ok (core (d2\<lparr>core := stale_pending_proposals (de_TripID rq) (clk 4) (core d2)\<rparr>)) = queue_ok (core d)"
    by (intro queue_tables) simp_all
  then show ?thesis using queue_update_trips [OF 1(8)] queue_finish [OF 1(9)] by simp
qed

lemma saved_queue:
  "Create e w rnd clk rc d = (rm, d') \<Longrightarrow> queue_ok (core d) \<Longrightarrow> queue_ok (core d')"
  "Update e w rnd clk ru d = (rm, d') \<Longrightarrow> queue_ok (core d) \<Longrightarrow> queue_ok (core d')"
  "Delete rnd clk rd d = (rb, d') \<Longrightarrow> queue_ok (core d) \<Longrightarrow> queue_ok (core d')"
  "mutateActivity e w rnd clk ra kind d = (rm, d') \<Longrightarrow> queue_ok (core d) \<Longrightarrow> queue_ok (core d')"
  unfolding Create_def Update_def Delete_def mutateActivity_def
  by (auto split: sum.splits elim!: run_tx_queue intro: Create_tx_queue)
    (auto split: if_splits sum.splits prod.splits elim!: run_tx_queue http_mutation_queue Delete_body_parts
      dest!: Update_reselects mutateActivity_reselects queue_reselects simp: queue_keeps queue_delete_trip keeps_def)

lemma execution_queue:
  "Activate e w rnd clk ra d = (rt, d') \<Longrightarrow> queue_ok (core d) \<Longrightarrow> queue_ok (core d')"
  "Deactivate e w rnd clk rx d = (rt, d') \<Longrightarrow> queue_ok (core d) \<Longrightarrow> queue_ok (core d')"
  "CompleteActivation e w clk ro d = (rv, d') \<Longrightarrow> queue_ok (core d) \<Longrightarrow> queue_ok (core d')"
  "CompleteDeactivation e w clk ro d = (rv, d') \<Longrightarrow> queue_ok (core d) \<Longrightarrow> queue_ok (core d')"
  unfolding Activate_def Deactivate_def CompleteActivation_def CompleteDeactivation_def
  by (auto split: sum.splits if_splits elim!: run_tx_queue http_mutation_queue
      dest!: Activate_body_queue Deactivate_body_queue CompleteActivation_completes CompleteDeactivation_completes queue_completes)

section \<open>The reachable states\<close>

lemma queue_place: "place_frame d d' \<Longrightarrow> queue_ok (core d) \<Longrightarrow> queue_ok (core d')"
  by (simp add: place_frame_def)

lemmas place_queue = queue_place [OF reserveResolution_frame] queue_place [OF mark_attempt_frame]
  queue_place [OF finalizeResolutionSuccess_frame] queue_place [OF finalizeResolutionFailure_frame]
  queue_place [OF CreatePlace_frame]

lemma step_queue:
  assumes "system_step e w px d d'" "schema_ok (core d)" "queue_ok (core d)"
  shows "queue_ok (core d')"
  using assms(1)
proof (cases rule: system_step.cases)
  case store
  with run_store_queue [OF assms(2,3)] show ?thesis by simp
next
  case reserve
  then show ?thesis by (rule place_queue(1) [OF _ assms(3)])
next
  case mark
  then show ?thesis by (rule place_queue(2) [OF _ assms(3)])
next
  case resolved
  then show ?thesis by (rule place_queue(3) [OF _ assms(3)])
next
  case failed
  then show ?thesis by (rule place_queue(4) [OF _ assms(3)])
next
  case place
  then show ?thesis by (rule place_queue(5) [OF _ assms(3)])
next
  case create
  then show ?thesis by (rule saved_queue(1) [OF _ assms(3)])
next
  case update
  then show ?thesis by (rule saved_queue(2) [OF _ assms(3)])
next
  case delete
  then show ?thesis by (rule saved_queue(3) [OF _ assms(3)])
next
  case mutate
  then show ?thesis by (rule saved_queue(4) [OF _ assms(3)])
next
  case activate
  then show ?thesis by (rule execution_queue(1) [OF _ assms(3)])
next
  case deactivate
  then show ?thesis by (rule execution_queue(2) [OF _ assms(3)])
next
  case activated
  then show ?thesis by (rule execution_queue(3) [OF _ assms(3)])
next
  case deactivated
  then show ?thesis by (rule execution_queue(4) [OF _ assms(3)])
qed

lemma reachable_queue: "reachable e w px d \<Longrightarrow> queue_ok (core d)"
proof (induction rule: reachable.induct)
  case initial
  show ?case by (simp add: queue_ok_def outbox_keys_def empty_web_def empty_db_def)
next
  case (step d d')
  have "schema_ok (core d)" using reachable_invariant [OF step(1)] by (simp add: life_ok_def web_ok_def)
  with step show ?case using step_queue by blast
qed

section \<open>Properties\<close>

text \<open>A command recorded for the trip whose activation is under way.\<close>

definition activating_record :: RecordRuntimeCommandRequest where
  "activating_record = sample_record\<lparr>rr_TripID := sample_id CHR ''1''\<rparr>"

definition recorded_web :: web_db where
  "recorded_web = activating_web\<lparr>core := run_store sample_ext (\<lambda>_. 0) (CallRecord activating_record) (core activating_web)\<rparr>"

lemma recorded_reachable: "reachable sample_ext sample_web sample_px recorded_web"
  unfolding recorded_web_def by (rule reachable.step [OF activating_reachable]) (rule store)

lemma recorded_outbox:
  "planner_outbox (core recorded_web) = [new_outbox_row (sample_uuid CHR ''4'') (sample_uuid CHR ''3'') (sample_id CHR ''1'') 2 [123, 125] 0 0]"
proof -
  have v: "validateRecordRuntimeCommand sample_ext activating_record = Inr ()"
    by (simp add: validateRecordRuntimeCommand_def activating_record_def sample_record_def MaxInt64_def isRuntimeFirst_def
      validatePlannedCurrentPlan_def)
  then have eq: "RecordRuntimeFirst sample_ext (\<lambda>_. 0) activating_record c = run_tx (RecordRuntimeFirst_tx sample_ext (\<lambda>_. 0) activating_record) c" for c
    by (simp add: RecordRuntimeFirst_def)
  have n: "btrim ''Weekend'' \<noteq> []" "length (btrim ''Weekend'') \<le> 120" by (simp_all add: btrim_def)
  show ?thesis
    unfolding recorded_web_def run_store.simps eq
    by (simp add: n run_tx_def saved_web_def placed_web_def resolved_web_def empty_web_def RecordRuntimeFirst_tx_def activating_web_def execution_core_def
      sample_activating_trip_def activating_row_def created_trip_def saved_trip_row_def sample_creation_def activating_record_def sample_record_def
        query_row_def recordedCommandSelect_def
        RecordRuntimeFirst_insert_def update_trip_def sample_db_def empty_db_def sample_trip_def
        allocate_sequence_def trip_check_def trips_execution_lifecycle_check_def trips_name_check_def i64_ok_def
        MaxInt64_def sql_update_def insert_intent_def intent_check_def runtime_intent_row_def known_kind_def
        int64_def uint64_def trip_exists_def sql_exists_def fresh_in_def insert_outbox_def outbox_check_def canonical_kind_def
        new_outbox_row_def scanRecordedCommand_def)
qed

text \<open>
  C38. Whatever the stores are asked to do, in whatever order, starting from empty tables: every outbox row belongs to
  exactly one command, which has the trip and the mutation sequence number of the row, and no two rows deliver the
  same command. So the condition on the outbox under which a bootstrap resolves what it covers holds in every
  reachable state.
\<close>

theorem outbox_matches_commands:
  assumes "reachable e w px d"
  shows "(\<forall>b\<in>set (planner_outbox (core d)). \<exists>i\<in>set (command_intents (core d)).
       i_id i = o_command_intent_id b \<and> i_trip_id i = o_trip_id b \<and> i_mutation_sequence i = o_mutation_sequence b \<and>
       (\<forall>j\<in>set (command_intents (core d)). i_id j = o_command_intent_id b \<longrightarrow> j = i)) \<and>
     distinct (map o_command_intent_id (planner_outbox (core d))) \<and> schema_ok (core d) \<and> outbox_linked (core d)"
proof -
  have ok: "schema_ok (core d)" using reachable_invariant [OF assms] by (simp add: life_ok_def web_ok_def)
  then have ids: "distinct (map i_id (command_intents (core d)))" "distinct (map o_command_intent_id (planner_outbox (core d)))"
    by (simp_all add: schema_ok_def intents_ok_def outbox_ok_def)
  note q = reachable_queue [OF assms]
  have "\<exists>i\<in>set (command_intents (core d)). i_id i = o_command_intent_id b \<and> i_trip_id i = o_trip_id b \<and>
      i_mutation_sequence i = o_mutation_sequence b \<and> (\<forall>j\<in>set (command_intents (core d)). i_id j = o_command_intent_id b \<longrightarrow> j = i)"
    if b: "b \<in> set (planner_outbox (core d))" for b
  proof -
    from b q obtain i where i: "i \<in> set (command_intents (core d))" "i_id i = o_command_intent_id b" "i_trip_id i = o_trip_id b"
      "i_mutation_sequence i = o_mutation_sequence b"
      by (force simp: queue_ok_def outbox_keys_def intent_keys_def)
    have "j = i" if "j \<in> set (command_intents (core d))" "i_id j = o_command_intent_id b" for j
      by (rule distinct_key_unique [OF ids(1) that(1) i(1)]) (simp add: that(2) i(2))
    then show ?thesis using i by blast
  qed
  then show ?thesis using ids(2) ok queue_linked [OF q ok] by blast
qed

theorem outbox_matches_commands_witness:
  "\<exists>b\<in>set (planner_outbox (core recorded_web)). \<exists>i\<in>set (command_intents (core recorded_web)).
     i_id i = o_command_intent_id b \<and> i_trip_id i = sample_id CHR ''1'' \<and> i_mutation_sequence i = 2"
proof -
  let ?b = "new_outbox_row (sample_uuid CHR ''4'') (sample_uuid CHR ''3'') (sample_id CHR ''1'') 2 [123, 125] 0 0"
  have b: "?b \<in> set (planner_outbox (core recorded_web))" by (simp add: recorded_outbox)
  have "o_trip_id ?b = sample_id CHR ''1''" "o_mutation_sequence ?b = 2" by (simp_all add: new_outbox_row_def)
  with bspec [OF conjunct1 [OF outbox_matches_commands [OF recorded_reachable]] b] b show ?thesis by metis
qed

end
