(* ===== verification/Spec2Isabelle.thy ===== *)
theory Spec2Isabelle
  imports LR_Wire LR_Proposals LR_Mirror LR_Load LR_Execution LR_Lifecycle LR_Queue LR_Places LR_Tokens LR_Json
begin

text \<open>
  \<^bold>\<open>LiveRoute: the durable state of the backend.\<close>

  LiveRoute keeps the trips of its users in PostgreSQL. A Go backend (\<open>src/backend\<close>) owns that state: users edit saved
  trips over HTTP and activate one of them; the trip in execution is mirrored to a C++ planner process, which proposes
  new plans; commands travel between the two through an outbox, under a lease that names the backend process in charge
  of the trip. This development models the stores of \<open>src/backend/internal/persistence\<close>, the tables of
  \<open>src/migrations\<close> they work on and the canonical JSON of \<open>src/backend/internal/canonicaljson\<close>, and proves what makes
  them correct together.

  \<^bold>\<open>How the code is modelled.\<close>

  \<^item> A table is a list of row records, \<open>db\<close> the canonical tables and \<open>web_db\<close> these with the tables behind the HTTP
    interface. A statement is a function on the lists (\<open>query_row\<close>, \<open>sql_update\<close>, \<open>sql_delete\<close>, \<open>insert_...\<close>); an
    insert or update that violates a check, a unique key or a foreign key it could violate gives \<open>None\<close>.
  \<^item> A method of a store is a function from its request and the state to a result and the new state. The result is
    \<open>err + 'a\<close>, with one value for every error the callers distinguish. \<open>run_tx\<close> is a transaction: an error rolls back.
  \<^item> \<open>clock_timestamp()\<close> is a clock, a function that gives the time of each reading of it, in microseconds; nothing is
    assumed of it, except where a theorem says so. Random bytes are an \<open>entropy\<close>, where every draw may fail.
  \<^item> \<open>uint64\<close> and \<open>int64\<close> are \<open>nat\<close> and \<open>int\<close> with the conversions of the code and their wrap-around written out
    (\<open>int64\<close>, \<open>uint64\<close>, \<open>add_u64\<close>), the bits of the wire format are words. A Go string is a list of bytes.
  \<^item> Code outside the repository is an argument: the record \<open>ext\<close> (SHA-256, JSON validity, the cast to \<open>jsonb\<close>), the
    record \<open>web\<close> (time zones, JSON of the views), the record \<open>place_ext\<close> (HMAC, \<open>json.Marshal\<close>, the tokens of
    \<open>json.Decoder\<close>, the RFC 8785 encoder), the place provider and the callbacks of requests.
  \<^item> A \<open>for\<close> loop is \<open>for_each\<close> or a function on lists. The recursive JSON reader has fuel, one more than twice the
    number of tokens, which \<open>decode_complete\<close> shows to be enough; no other definition needs fuel.

  \<^bold>\<open>The theories.\<close>

  \<^item> \<open>LR_Prelude\<close>: types, errors, loops, the operations on tables, machine integers, and the lemmas on them.
  \<^item> \<open>LR_Wire\<close> (\<open>accepted_plan_wire.go\<close>, \<open>snapshot_wire.go\<close>, the encoder of \<open>canonical_commands.go\<close>): the protobuf
    readers and writers. The readers agree, the writer is read back, accepted bytes give well-formed plans.
  \<^item> \<open>LR_Database\<close> (\<open>migrations\<close>): rows, checks and keys of the canonical tables, the invariant \<open>schema_ok\<close> and the
    locales \<open>store_op\<close>, \<open>atomic_store_op\<close> and \<open>idempotent_store_op\<close>, the contracts every store operation is
    interpreted in: it keeps the invariant, changes nothing on an error, and answers a repetition as a duplicate.
  \<^item> \<open>LR_Leases\<close> (\<open>leases.go\<close>): authority over a trip never overlaps, a takeover fences its predecessor, a release
    restarts the epochs.
  \<^item> \<open>LR_Commands\<close> (\<open>commands.go\<close>): recording a command for the planner; messages are idempotency keys, and a trip has
    one unresolved command at a time.
  \<^item> \<open>LR_Outbox\<close> (\<open>outbox.go\<close>): claims are head of line, exclusive and fenced, retries bounded.
  \<^item> \<open>LR_Finalization\<close> (\<open>command_finalization.go\<close>, \<open>accepted_mutations.go\<close>, \<open>finalization_confirmation.go\<close>): outcomes
    take effect once, in order; confirmations cover resolved work only.
  \<^item> \<open>LR_Proposals\<close> (\<open>proposals.go\<close>, \<open>proposal_acceptance.go\<close>, \<open>proposal_decisions.go\<close>, \<open>accepted_proposal.go\<close>): only
    fresh proposals are stored, decisions take effect once, an acceptance publishes the recorded plan.
  \<^item> \<open>LR_Mirror\<close> (\<open>canonical_mirror.go\<close>, \<open>bootstrap_convergence.go\<close>): acknowledgements of mirrored edits, and the exact
    tables after a bootstrap.
  \<^item> \<open>LR_Canonical\<close>, \<open>LR_Edits\<close>, \<open>LR_Edit_Theorems\<close> (\<open>canonical_commands.go\<close>, the types of \<open>canonical_state.go\<close>): creating
    a trip and the five edits. In the locale of an edit they publish a new plan once; they refine operations on the
    list of activities.
  \<^item> \<open>LR_Load\<close> (\<open>canonical_state.go\<close>): what \<open>Load\<close> returns is well formed, and which replaced plans load.
  \<^item> \<open>LR_Web\<close> (\<open>migrations/00004\<close>): the tables behind the HTTP interface, \<open>web_ok\<close>, time and text functions.
  \<^item> \<open>LR_Tokens\<close> (\<open>http_authentication.go\<close>): opaque tokens, base64url, the key ring, identifiers.
  \<^item> \<open>LR_Json\<close> (\<open>canonicaljson/canonical.go\<close>): exactly the values with unique members are canonicalised.
  \<^item> \<open>LR_Saved\<close> (\<open>saved_trips.go\<close>, \<open>saved_trip_creation.go\<close>, \<open>saved_trip_mutations.go\<close>,
    \<open>saved_trip_activity_mutations.go\<close>): saved trips and their idempotent requests.
  \<^item> \<open>LR_Places\<close> (\<open>places.go\<close>, the types of \<open>place/mapbox.go\<close>): a resolution is answered again without the provider,
    and its token buys one place.
  \<^item> \<open>LR_Execution\<close> (\<open>saved_trip_execution.go\<close>): activation and deactivation.
  \<^item> \<open>LR_Lifecycle\<close>: the steps of the whole system and its reachable states; \<open>trip_store_op\<close> is the contract of the
    stores on trips and sequence numbers.
  \<^item> \<open>LR_Queue\<close>: in the reachable states the outbox agrees with the commands (\<open>queue_store_op\<close>).

  \<^bold>\<open>Where the model and the database differ.\<close>

  \<^item> Times are unbounded integers; \<open>timestamptz\<close> ends in the year 294276.
  \<^item> A step of the system is a whole transaction (or a single statement). The transactions lock the trip, so the steps of
    a trip are serial; a place resolution is several steps, with anything between them.
  \<^item> Foreign keys are checked where a statement inserts the referring row. The deferred ones from a trip to its plans and
    its operation are not part of \<open>schema_ok\<close>; \<open>reachable_consistent\<close> shows the one to the operation.
  \<^item> \<open>trips_execution_lifecycle_check\<close> refuses an executing trip without \<open>active_execution_plan_id\<close>, which PostgreSQL
    would admit because its comparison is unknown. \<open>update_trip\<close> leaves out the unique index on executing trips: its
    callers do not write the execution state; \<open>update_trips\<close> has it.
  \<^item> Where a query scans several rows and more than one of them is in error, the model reports the first in the order of
    the query, as the loop over the rows does.

  \<^bold>\<open>Not modelled.\<close> Sessions and sign-in beyond the tokens, the snapshot store, the gateway, the dispatcher, the transport
  to the planner, configuration and process start, the generated protobuf code, the C++ planner and the frontend: input
  and output around the stores, or separate programs. Failures of the connection are not modelled; a transaction commits
  or has no effect.
\<close>

end
